(* ===== verification/Prelude.thy ===== *)
theory Prelude
  imports Main
    "HOL-Library.Multiset"
    "HOL-Library.List_Lexorder"
    "HOL-Library.Char_ord"
    "HOL-Library.Product_Lexorder"
begin

text \<open>
  Shared vocabulary of the development.

  \<^item> Go strings are byte sequences, modelled as \<^typ>\<open>string\<close> (one \<^typ>\<open>char\<close> per byte);
    the functions of package \<^verbatim>\<open>strings\<close> the operator calls are defined here under
    their Go names. Case conversion and white space are the ASCII part of the Go functions.
  \<^item> \<open>sort_by less\<close> is the sort that \<^verbatim>\<open>sort.Slice\<close>, \<^verbatim>\<open>slices.SortFunc\<close> and
    \<^verbatim>\<open>sort.SliceStable\<close> perform with the comparison \<open>less\<close>. The locale \<open>keyed_less\<close> is the
    contract every comparison of the operator meets: it compares a key in a linear order.
    Its lemmas show that the sorted list does not depend on the order of the input, which is
    what makes the output independent of Go's unordered map iteration.
  \<^item> \<open>itoa\<close> is \<^verbatim>\<open>fmt.Sprintf("%d", n)\<close>.
\<close>

named_theorems gostr \<open>definitions of the Go string functions\<close>

section \<open>Functions of package strings\<close>

definition HasPrefix :: "string \<Rightarrow> string \<Rightarrow> bool" where
  "HasPrefix s p \<longleftrightarrow> take (length p) s = p"

definition HasSuffix :: "string \<Rightarrow> string \<Rightarrow> bool" where
  "HasSuffix s p \<longleftrightarrow> length p \<le> length s \<and> drop (length s - length p) s = p"

definition TrimPrefix :: "string \<Rightarrow> string \<Rightarrow> string" where
  "TrimPrefix s p = (if HasPrefix s p then drop (length p) s else s)"

definition TrimSuffix :: "string \<Rightarrow> string \<Rightarrow> string" where
  "TrimSuffix s p = (if HasSuffix s p then take (length s - length p) s else s)"

text \<open>\<^verbatim>\<open>strings.Cut\<close> for a separator of one byte: before, after, found.\<close>

definition CutChar :: "string \<Rightarrow> char \<Rightarrow> string \<times> string \<times> bool" where
  "CutChar s c =
     (let before = takeWhile (\<lambda>x. x \<noteq> c) s; rest = dropWhile (\<lambda>x. x \<noteq> c) s
      in (before, drop 1 rest, rest \<noteq> []))"

fun Contains :: "string \<Rightarrow> string \<Rightarrow> bool" where
  "Contains [] sub = (sub = [])"
| "Contains (c # cs) sub = (HasPrefix (c # cs) sub \<or> Contains cs sub)"

text \<open>
  \<^verbatim>\<open>strings.ReplaceAll\<close> for a non-empty \<open>old\<close>, the only use the operator makes of it.
\<close>

fun ReplaceAll :: "string \<Rightarrow> string \<Rightarrow> string \<Rightarrow> string" where
  "ReplaceAll [] old new = []"
| "ReplaceAll (c # cs) old new =
     (if old \<noteq> [] \<and> HasPrefix (c # cs) old
      then new @ ReplaceAll (drop (length old - 1) cs) old new
      else c # ReplaceAll cs old new)"

text \<open>\<^verbatim>\<open>strings.Split\<close> for a separator of one byte.\<close>

fun SplitChar :: "char \<Rightarrow> string \<Rightarrow> string list" where
  "SplitChar sep [] = [[]]"
| "SplitChar sep (c # cs) =
     (if c = sep then [] # SplitChar sep cs
      else case SplitChar sep cs of [] \<Rightarrow> [[c]] | x # xs \<Rightarrow> (c # x) # xs)"

fun Join :: "string list \<Rightarrow> string \<Rightarrow> string" where
  "Join [] sep = []"
| "Join [x] sep = x"
| "Join (x # y # xs) sep = x @ sep @ Join (y # xs) sep"

definition upper_char :: "char \<Rightarrow> char" where
  "upper_char c = (if CHR ''a'' \<le> c \<and> c \<le> CHR ''z'' then char_of (of_char c - 32 :: nat) else c)"

definition lower_char :: "char \<Rightarrow> char" where
  "lower_char c = (if CHR ''A'' \<le> c \<and> c \<le> CHR ''Z'' then char_of (of_char c + 32 :: nat) else c)"

definition ToUpper :: "string \<Rightarrow> string" where
  "ToUpper = map upper_char"

definition ToLower :: "string \<Rightarrow> string" where
  "ToLower = map lower_char"

definition EqualFold :: "string \<Rightarrow> string \<Rightarrow> bool" where
  "EqualFold a b \<longleftrightarrow> ToLower a = ToLower b"

definition is_space :: "char \<Rightarrow> bool" where
  "is_space c \<longleftrightarrow> c \<in> {CHR '' '', CHR 0x09, CHR 0x0A, CHR 0x0B, CHR 0x0C, CHR 0x0D}"

definition trim_both :: "(char \<Rightarrow> bool) \<Rightarrow> string \<Rightarrow> string" where
  "trim_both P s = rev (dropWhile P (rev (dropWhile P s)))"

definition TrimSpace :: "string \<Rightarrow> string" where
  "TrimSpace s = trim_both is_space s"

lemmas [gostr] = HasPrefix_def HasSuffix_def TrimPrefix_def TrimSuffix_def CutChar_def

lemma HasPrefix_iff: "HasPrefix s p \<longleftrightarrow> (\<exists>t. s = p @ t)"
  unfolding HasPrefix_def by (metis append_eq_conv_conj append_take_drop_id)

lemma HasPrefix_refl [simp]: "HasPrefix s s"
  by (simp add: HasPrefix_def)

lemma HasPrefix_append [simp]: "HasPrefix (p @ t) p"
  by (simp add: HasPrefix_def)

lemma HasPrefix_Nil [simp]: "HasPrefix s []"
  by (simp add: HasPrefix_def)

lemma HasPrefix_Cons [simp]:
  "HasPrefix (c # s) (d # p) \<longleftrightarrow> c = d \<and> HasPrefix s p"
  "\<not> HasPrefix [] (d # p)"
  by (auto simp: HasPrefix_def)

lemma HasPrefix_trans: "HasPrefix s p \<Longrightarrow> HasPrefix p q \<Longrightarrow> HasPrefix s q"
  by (auto simp: HasPrefix_iff)

lemma HasSuffix_iff: "HasSuffix s p \<longleftrightarrow> (\<exists>t. s = t @ p)"
proof
  assume "HasSuffix s p"
  then have "s = take (length s - length p) s @ p"
    unfolding HasSuffix_def by (metis append_take_drop_id)
  then show "\<exists>t. s = t @ p" by blast
next
  assume "\<exists>t. s = t @ p"
  then show "HasSuffix s p" by (auto simp: HasSuffix_def)
qed

lemma TrimSuffix_append [simp]: "TrimSuffix (t @ p) p = t"
  by (simp add: TrimSuffix_def HasSuffix_def)

lemma TrimPrefix_append [simp]: "TrimPrefix (p @ t) p = t"
  by (simp add: TrimPrefix_def)

lemma SplitChar_not_Nil [simp]: "SplitChar sep s \<noteq> []"
  by (induction s) (auto split: list.splits)

lemma SplitChar_no_sep: "seg \<in> set (SplitChar sep s) \<Longrightarrow> sep \<notin> set seg"
  by (induction s arbitrary: seg) (auto split: if_splits list.splits)

text \<open>Splitting is inverse to joining with the separator.\<close>

lemma Join_SplitChar: "Join (SplitChar sep s) [sep] = s"
proof (induction s)
  case Nil
  then show ?case by simp
next
  case (Cons c cs)
  obtain x xs where s: "SplitChar sep cs = x # xs"
    by (cases "SplitChar sep cs") auto
  then show ?case using Cons by (cases xs) auto
qed

lemma SplitChar_append_sep:
  "sep \<notin> set s \<Longrightarrow> SplitChar sep (s @ sep # t) = s # SplitChar sep t"
  by (induction s) auto

lemma SplitChar_no_occurrence: "sep \<notin> set s \<Longrightarrow> SplitChar sep s = [s]"
  by (induction s) auto

lemma SplitChar_Join:
  "xs \<noteq> [] \<Longrightarrow> (\<And>x. x \<in> set xs \<Longrightarrow> sep \<notin> set x) \<Longrightarrow> SplitChar sep (Join xs [sep]) = xs"
  by (induction xs "[sep]" rule: Join.induct)
    (auto simp: SplitChar_append_sep SplitChar_no_occurrence)

lemma CutChar_sep: "sep \<notin> set s \<Longrightarrow> CutChar (s @ sep # t) sep = (s, t, True)"
  by (auto simp: CutChar_def Let_def takeWhile_append dropWhile_append)

lemma CutChar_none: "sep \<notin> set s \<Longrightarrow> CutChar s sep = (s, [], False)"
  by (induction s) (auto simp: CutChar_def Let_def)

section \<open>Decimal numbers\<close>

definition digit_char :: "nat \<Rightarrow> char" where
  "digit_char d = char_of (48 + d)"

definition is_digit :: "char \<Rightarrow> bool" where
  "is_digit c \<longleftrightarrow> 48 \<le> (of_char c :: nat) \<and> (of_char c :: nat) \<le> 57"

definition digit_val :: "char \<Rightarrow> nat" where
  "digit_val c = of_char c - 48"

fun nat_str :: "nat \<Rightarrow> string" where
  "nat_str n = (if n < 10 then [digit_char n] else nat_str (n div 10) @ [digit_char (n mod 10)])"

declare nat_str.simps [simp del]

definition itoa :: "int \<Rightarrow> string" where
  "itoa i = (if i < 0 then CHR ''-'' # nat_str (nat (- i)) else nat_str (nat i))"

text \<open>Reading a decimal number back.\<close>

definition str_nat :: "string \<Rightarrow> nat" where
  "str_nat s = foldl (\<lambda>n c. 10 * n + digit_val c) 0 s"

lemma digit_char_digit [simp]: "d < 10 \<Longrightarrow> is_digit (digit_char d)"
  by (simp add: is_digit_def digit_char_def)

lemma digit_val_char [simp]: "d < 10 \<Longrightarrow> digit_val (digit_char d) = d"
  by (simp add: digit_val_def digit_char_def)

lemma nat_str_digits: "\<forall>c \<in> set (nat_str n). is_digit c"
proof (induction n rule: nat_str.induct)
  case (1 n)
  then show ?case by (subst nat_str.simps) (auto simp: Let_def)
qed

lemma nat_str_not_Nil [simp]: "nat_str n \<noteq> []"
  by (subst nat_str.simps) simp

lemma str_nat_str [simp]: "str_nat (nat_str n) = n"
proof (induction n rule: nat_str.induct)
  case (1 n)
  show ?case
  proof (cases "n < 10")
    case True
    then show ?thesis by (subst nat_str.simps) (simp add: str_nat_def)
  next
    case False
    with "1.IH" have IH: "str_nat (nat_str (n div 10)) = n div 10" by simp
    have "str_nat (nat_str (n div 10) @ [digit_char (n mod 10)]) = 10 * (n div 10) + n mod 10"
      using IH by (simp add: str_nat_def)
    with False show ?thesis by (subst nat_str.simps) simp
  qed
qed

lemma nat_str_inj: "nat_str m = nat_str n \<Longrightarrow> m = n"
  by (metis str_nat_str)

section \<open>Sorting with a comparison\<close>

fun insert_by :: "('a \<Rightarrow> 'a \<Rightarrow> bool) \<Rightarrow> 'a \<Rightarrow> 'a list \<Rightarrow> 'a list" where
  "insert_by lt x [] = [x]"
| "insert_by lt x (y # ys) = (if lt y x then y # insert_by lt x ys else x # y # ys)"

fun sort_by :: "('a \<Rightarrow> 'a \<Rightarrow> bool) \<Rightarrow> 'a list \<Rightarrow> 'a list" where
  "sort_by lt [] = []"
| "sort_by lt (x # xs) = insert_by lt x (sort_by lt xs)"

lemma mset_insert_by [simp]: "mset (insert_by lt x xs) = add_mset x (mset xs)"
  by (induction xs) auto

lemma mset_sort_by [simp]: "mset (sort_by lt xs) = mset xs"
  by (induction xs) auto

lemma set_sort_by [simp]: "set (sort_by lt xs) = set xs"
  by (metis mset_sort_by set_mset_mset)

lemma length_sort_by [simp]: "length (sort_by lt xs) = length xs"
  by (metis mset_sort_by size_mset)

lemma distinct_sort_by [simp]: "distinct (sort_by lt xs) = distinct xs"
  by (metis distinct_count_atmost_1 mset_sort_by set_sort_by)

lemma sort_by_Nil_iff [simp]: "sort_by lt xs = [] \<longleftrightarrow> xs = []"
  by (metis mset_sort_by mset_zero_iff)

lemma insert_by_insort_key:
  assumes "\<And>y. y \<in> set ys \<Longrightarrow> lt y x \<longleftrightarrow> key y < key x"
  shows "insert_by lt x ys = insort_key key x ys"
  using assms by (induction ys) (auto simp: not_le)

locale keyed_less =
  fixes lt :: "'a \<Rightarrow> 'a \<Rightarrow> bool"
    and key :: "'a \<Rightarrow> 'k::linorder"
    and dom_ok :: "'a \<Rightarrow> bool"
  assumes less_key: "dom_ok a \<Longrightarrow> dom_ok b \<Longrightarrow> lt a b \<longleftrightarrow> key a < key b"
begin

lemma sort_by_sort_key: "(\<And>x. x \<in> set xs \<Longrightarrow> dom_ok x) \<Longrightarrow> sort_by lt xs = sort_key key xs"
proof (induction xs)
  case Nil
  then show ?case by simp
next
  case (Cons x xs)
  have "insert_by lt x (sort_by lt xs) = insort_key key x (sort_by lt xs)"
    by (rule insert_by_insort_key) (use Cons.prems in \<open>auto simp: less_key\<close>)
  with Cons show ?case by simp
qed

lemma sorted_keys: "(\<And>x. x \<in> set xs \<Longrightarrow> dom_ok x) \<Longrightarrow> sorted (map key (sort_by lt xs))"
  by (simp add: sort_by_sort_key)

text \<open>
  Any ordering of the input gives the same sorted list when the keys of its elements
  differ, and any list in key order of the same elements is that sorted list.
\<close>

lemma sort_by_unique:
  assumes "\<And>x. x \<in> set xs \<Longrightarrow> dom_ok x" and "inj_on key (set xs)"
    and "mset ys = mset xs" and "sorted (map key ys)"
  shows "ys = sort_by lt xs"
proof -
  have "sort_key key xs = ys"
    by (rule sort_key_inj_key_eq) (use assms in auto)
  then show ?thesis using assms(1) by (simp add: sort_by_sort_key)
qed

lemma sort_by_mset_cong:
  assumes "\<And>x. x \<in> set xs \<Longrightarrow> dom_ok x" and "inj_on key (set xs)" and "mset ys = mset xs"
  shows "sort_by lt ys = sort_by lt xs"
proof (rule sort_by_unique)
  have s: "set ys = set xs" using assms(3) by (metis set_mset_mset)
  with assms(1) show "sorted (map key (sort_by lt ys))" by (intro sorted_keys) auto
qed (use assms in auto)

end

end
