(* ===== verification/Dict.thy ===== *)
theory Dict
  imports Prelude
begin

text \<open>
  Go maps and JSON values.

  A Go map is modelled as an association list kept in ascending key order
  (\<open>mput\<close>, \<open>mdel\<close>, with \<^const>\<open>map_of\<close> as lookup). Keeping it sorted makes equality of
  models coincide with equality of maps, and the list order is the order in which
  \<^verbatim>\<open>slices.Sorted(maps.Keys(m))\<close> visits the keys and in which \<^verbatim>\<open>encoding/json\<close>
  writes them. The locale \<open>finite_map\<close> states the laws the components rely on; it is
  interpreted on these operations.

  \<^verbatim>\<open>any\<close> values decoded from or encoded to JSON are the datatype \<open>json\<close>. A number is
  the text \<^verbatim>\<open>encoding/json\<close> prints for it.
\<close>

section \<open>The laws of a finite map\<close>

locale finite_map =
  fixes empty :: 'm
    and lookup :: "'m \<Rightarrow> 'k::linorder \<Rightarrow> 'v option"
    and put :: "'k \<Rightarrow> 'v \<Rightarrow> 'm \<Rightarrow> 'm"
    and del :: "'k \<Rightarrow> 'm \<Rightarrow> 'm"
    and keys :: "'m \<Rightarrow> 'k list"
    and wf :: "'m \<Rightarrow> bool"
  assumes wf_empty: "wf empty"
    and wf_put: "wf m \<Longrightarrow> wf (put k v m)"
    and wf_del: "wf m \<Longrightarrow> wf (del k m)"
    and lookup_empty: "lookup empty k = None"
    and lookup_put: "wf m \<Longrightarrow> lookup (put k v m) = (lookup m)(k \<mapsto> v)"
    and lookup_del: "wf m \<Longrightarrow> lookup (del k m) = (lookup m)(k := None)"
    and keys_sorted: "wf m \<Longrightarrow> sorted_wrt (<) (keys m)"
    and keys_dom: "wf m \<Longrightarrow> set (keys m) = dom (lookup m)"
    and map_ext: "wf m \<Longrightarrow> wf m' \<Longrightarrow> lookup m = lookup m' \<Longrightarrow> m = m'"
begin

lemma put_put_same: "wf m \<Longrightarrow> put k v (put k w m) = put k v m"
  by (rule map_ext) (simp_all add: wf_put lookup_put)

lemma put_commute: "wf m \<Longrightarrow> k \<noteq> k' \<Longrightarrow> put k v (put k' w m) = put k' w (put k v m)"
  by (rule map_ext) (simp_all add: wf_put lookup_put fun_upd_twist)

lemma del_put_same: "wf m \<Longrightarrow> del k (put k v m) = del k m"
  by (rule map_ext) (simp_all add: wf_put wf_del lookup_put lookup_del)

lemma wf_fold_put: "wf m \<Longrightarrow> wf (fold (\<lambda>(k, v). put k v) kvs m)"
  by (induction kvs arbitrary: m) (auto simp: wf_put)

text \<open>Copying the pairs of a map over another: the pairs win, whatever their order.\<close>

lemma lookup_fold_put:
  "wf m \<Longrightarrow> distinct (map fst kvs) \<Longrightarrow>
   lookup (fold (\<lambda>(k, v). put k v) kvs m) = lookup m ++ map_of kvs"
proof (induction kvs arbitrary: m)
  case Nil
  then show ?case by simp
next
  case (Cons p kvs)
  obtain k v where p: "p = (k, v)" by (cases p)
  from Cons.prems p have nin: "map_of kvs k = None" by (simp add: map_of_eq_None_iff)
  have "lookup (fold (\<lambda>(k, v). put k v) (p # kvs) m) = (lookup m)(k \<mapsto> v) ++ map_of kvs"
    using Cons p by (simp add: wf_put lookup_put)
  also have "\<dots> = lookup m ++ map_of (p # kvs)"
    using nin p by (auto simp: map_add_def fun_eq_iff split: option.splits)
  finally show ?case .
qed

lemma fold_put_order:
  assumes "wf m" and "distinct (map fst kvs)" and "distinct (map fst kvs')"
    and "set kvs = set kvs'"
  shows "fold (\<lambda>(k, v). put k v) kvs m = fold (\<lambda>(k, v). put k v) kvs' m"
proof (rule map_ext)
  have "map_of kvs = map_of kvs'" using assms(2-4) by (metis map_of_eqI set_map map_of_inject_set)
  then show "lookup (fold (\<lambda>(k, v). put k v) kvs m) = lookup (fold (\<lambda>(k, v). put k v) kvs' m)"
    using assms by (simp add: lookup_fold_put)
qed (use assms(1) in \<open>auto intro: wf_fold_put\<close>)

lemma lookup_fold_del:
  "wf m \<Longrightarrow> lookup (fold del ks m) k = (if k \<in> set ks then None else lookup m k)"
  by (induction ks arbitrary: m) (auto simp: wf_del lookup_del)

lemma wf_fold_del: "wf m \<Longrightarrow> wf (fold del ks m)"
  by (induction ks arbitrary: m) (auto simp: wf_del)

end

section \<open>Go maps as sorted association lists\<close>

type_synonym ('k, 'v) gomap = "('k \<times> 'v) list"

fun mput :: "'k::linorder \<Rightarrow> 'v \<Rightarrow> ('k, 'v) gomap \<Rightarrow> ('k, 'v) gomap" where
  "mput k v [] = [(k, v)]"
| "mput k v ((k', v') # m) =
     (if k < k' then (k, v) # (k', v') # m
      else if k = k' then (k, v) # m
      else (k', v') # mput k v m)"

definition mdel :: "'k \<Rightarrow> ('k, 'v) gomap \<Rightarrow> ('k, 'v) gomap" where
  "mdel k m = filter (\<lambda>p. fst p \<noteq> k) m"

definition mkeys :: "('k, 'v) gomap \<Rightarrow> 'k list" where
  "mkeys m = map fst m"

definition mwf :: "('k::linorder, 'v) gomap \<Rightarrow> bool" where
  "mwf m \<longleftrightarrow> sorted_wrt (<) (map fst m)"

text \<open>\<^verbatim>\<open>for k, v := range src { dst[k] = v }\<close>\<close>

definition mmerge :: "('k::linorder, 'v) gomap \<Rightarrow> ('k, 'v) gomap \<Rightarrow> ('k, 'v) gomap" where
  "mmerge dst src = fold (\<lambda>(k, v). mput k v) src dst"

text \<open>\<^verbatim>\<open>if c { m[k] = v }\<close>\<close>

definition put_if :: "bool \<Rightarrow> 'k::linorder \<Rightarrow> 'v \<Rightarrow> ('k, 'v) gomap \<Rightarrow> ('k, 'v) gomap" where
  "put_if c k v m = (if c then mput k v m else m)"

text \<open>A run of such conditional assignments.\<close>

definition puts :: "(bool \<times> 'k \<times> 'v) list \<Rightarrow> ('k::linorder, 'v) gomap \<Rightarrow> ('k, 'v) gomap" where
  "puts xs m = fold (\<lambda>(c, k, v). put_if c k v) xs m"

lemma map_of_mput_raw: "map_of (mput k v m) x = (if x = k then Some v else map_of m x)"
  if "mwf m"
  using that
proof (induction m)
  case (Cons p m)
  then show ?case by (cases p) (auto simp: mwf_def map_of_eq_None_iff)
qed simp

lemma set_keys_mput: "fst ` set (mput k v m) = insert k (fst ` set m)"
  by (induction k v m rule: mput.induct) auto

lemma mwf_mput_raw: "mwf m \<Longrightarrow> mwf (mput k v m)"
  unfolding mwf_def by (induction k v m rule: mput.induct) (auto simp: set_keys_mput)

lemma map_of_mdel_raw: "map_of (mdel k m) = (map_of m)(k := None)"
  by (induction m) (auto simp: mdel_def fun_eq_iff)

lemma mwf_mdel_raw: "mwf m \<Longrightarrow> mwf (mdel k m)"
  unfolding mwf_def mdel_def by (induction m) auto

lemma mwf_distinct: "mwf m \<Longrightarrow> distinct (map fst m)"
  by (simp add: mwf_def strict_sorted_iff)

lemma mwf_ext: "mwf m \<Longrightarrow> mwf m' \<Longrightarrow> map_of m = map_of m' \<Longrightarrow> m = m'"
proof -
  assume wf: "mwf m" "mwf m'" and eq: "map_of m = map_of m'"
  from wf have d: "distinct (map fst m)" "distinct (map fst m')" by (auto intro: mwf_distinct)
  have "set m = set m'" using d eq by (metis map_of_inject_set set_map)
  moreover have "inj_on fst (set m \<union> set m')"
    using d(1) \<open>set m = set m'\<close> by (simp add: distinct_map)
  ultimately show "m = m'"
    using wf by (metis mwf_def strict_sorted_iff map_sorted_distinct_set_unique)
qed

interpretation gm: finite_map "[]" map_of mput mdel mkeys mwf
proof
  fix k :: "'k::linorder" and v :: 'v and m m' :: "('k, 'v) gomap"
  show "mwf m \<Longrightarrow> map_of (mput k v m) = (map_of m)(k \<mapsto> v)"
    by (auto simp: map_of_mput_raw)
  show "mwf m \<Longrightarrow> set (mkeys m) = dom (map_of m)"
    by (simp add: mkeys_def dom_map_of_conv_image_fst)
  show "mwf m \<Longrightarrow> mwf m' \<Longrightarrow> map_of m = map_of m' \<Longrightarrow> m = m'"
    by (rule mwf_ext)
  show "mwf m \<Longrightarrow> sorted_wrt (<) (mkeys m)"
    by (simp add: mwf_def mkeys_def)
  show "mwf ([] :: ('k, 'v) gomap)"
    by (simp add: mwf_def)
qed (simp_all add: mwf_mput_raw mwf_mdel_raw map_of_mdel_raw)

lemmas gm_simps = gm.lookup_put gm.lookup_del gm.wf_put gm.wf_del

declare gm.lookup_put [simp] gm.lookup_del [simp] gm.wf_put [simp] gm.wf_del [simp] gm.wf_empty [simp]

lemma mwf_put_if [simp]: "mwf m \<Longrightarrow> mwf (put_if c k v m)"
  by (simp add: put_if_def)

lemma map_of_put_if [simp]:
  "mwf m \<Longrightarrow> map_of (put_if c k v m) = (if c then (map_of m)(k \<mapsto> v) else map_of m)"
  by (simp add: put_if_def)

lemma mwf_mmerge [simp]: "mwf m \<Longrightarrow> mwf (mmerge m src)"
  unfolding mmerge_def by (rule gm.wf_fold_put)

lemma map_of_mmerge [simp]: "mwf m \<Longrightarrow> mwf src \<Longrightarrow> map_of (mmerge m src) = map_of m ++ map_of src"
  unfolding mmerge_def by (rule gm.lookup_fold_put) (auto intro: mwf_distinct)

lemma mwf_puts [simp]: "mwf m \<Longrightarrow> mwf (puts xs m)"
  unfolding puts_def by (induction xs arbitrary: m) auto

lemma map_of_puts:
  "mwf m \<Longrightarrow> distinct (map (fst \<circ> snd) xs) \<Longrightarrow> map_of (puts xs m) = map_of m ++ map_of (map snd (filter fst xs))"
proof (induction xs arbitrary: m)
  case (Cons x xs)
  obtain c k v where x: "x = (c, k, v)" by (cases x)
  have "map_of (map snd (filter fst xs)) k = None"
    using Cons.prems(2) x by (force simp: map_of_eq_None_iff)
  then show ?case
    using Cons x by (auto simp: puts_def map_add_def fun_eq_iff split: option.splits)
qed (simp add: puts_def)

lemma set_puts:
  fixes m :: "('k::linorder, 'v) gomap"
  shows "set (puts xs m) \<subseteq> set m \<union> snd ` set (filter fst xs)"
proof -
  have mput: "set (mput k v m) \<subseteq> insert (k, v) (set m)" for k :: 'k and v :: 'v and m
    by (induction k v m rule: mput.induct) auto
  show ?thesis
  proof (induction xs arbitrary: m)
    case (Cons x xs)
    obtain c k v where x: "x = (c, k, v)" by (cases x)
    have "puts (x # xs) m = puts xs (put_if c k v m)" by (simp add: puts_def x)
    moreover have "set (put_if c k v m) \<subseteq> (if c then insert (k, v) (set m) else set m)"
      using mput by (auto simp: put_if_def)
    ultimately show ?case using Cons.IH [of "put_if c k v m"] x by (auto split: if_splits)
  qed (simp add: puts_def)
qed

lemma map_of_Some_set: "map_of m k = Some v \<Longrightarrow> (k, v) \<in> set m"
  by (rule map_of_SomeD)

lemma mwf_Nil_iff: "mwf m \<Longrightarrow> m = [] \<longleftrightarrow> (\<forall>k. map_of m k = None)"
  by (cases m) auto

section \<open>Maps to lists\<close>

text \<open>
  \<^verbatim>\<open>m[k] = append(m[k], v)\<close>, with which the renderer groups entries and collects conflicts.
\<close>

definition mlist :: "('k, 'v list) gomap \<Rightarrow> 'k \<Rightarrow> 'v list" where
  "mlist m k = (case map_of m k of None \<Rightarrow> [] | Some l \<Rightarrow> l)"

definition madd :: "'k::linorder \<Rightarrow> 'v \<Rightarrow> ('k, 'v list) gomap \<Rightarrow> ('k, 'v list) gomap" where
  "madd k v m = mput k (mlist m k @ [v]) m"

definition madds :: "('k::linorder \<times> 'v) list \<Rightarrow> ('k, 'v list) gomap \<Rightarrow> ('k, 'v list) gomap" where
  "madds ps m = fold (\<lambda>(k, v). madd k v) ps m"

lemma madds_Nil [simp]: "madds [] m = m"
  and madds_Cons [simp]: "madds ((k, v) # ps) m = madds ps (madd k v m)"
  and madds_append: "madds (ps @ qs) m = madds qs (madds ps m)"
  by (simp_all add: madds_def)

lemma mwf_madd [simp]: "mwf m \<Longrightarrow> mwf (madd k v m)"
  by (simp add: madd_def)

lemma mwf_madds [simp]: "mwf m \<Longrightarrow> mwf (madds ps m)"
  by (induction ps arbitrary: m) auto

lemma mlist_mput [simp]: "mwf m \<Longrightarrow> mlist (mput k l m) k' = (if k' = k then l else mlist m k')"
  by (simp add: mlist_def)

lemma mlist_madd: "mwf m \<Longrightarrow> mlist (madd k v m) k' = (if k' = k then mlist m k @ [v] else mlist m k')"
  by (simp add: madd_def mlist_def)

lemma mlist_madds:
  "mwf m \<Longrightarrow> mlist (madds ps m) k = mlist m k @ map snd (filter (\<lambda>p. fst p = k) ps)"
  by (induction ps arbitrary: m) (auto simp: mlist_madd)

lemma dom_madds: "mwf m \<Longrightarrow> dom (map_of (madds ps m)) = dom (map_of m) \<union> fst ` set ps"
proof (induction ps arbitrary: m)
  case (Cons p ps)
  obtain k v where p: "p = (k, v)" by (cases p)
  from Cons.prems have "dom (map_of (madd k v m)) = insert k (dom (map_of m))" by (simp add: madd_def)
  with Cons p show ?case by simp
qed simp

lemma madds_Some_iff:
  "map_of (madds ps []) k = Some l \<longleftrightarrow>
     l = map snd (filter (\<lambda>p. fst p = k) ps) \<and> l \<noteq> []"
proof -
  let ?m = "madds ps []"
  have m: "mlist ?m k = map snd (filter (\<lambda>p. fst p = k) ps)"
    by (simp add: mlist_madds) (simp add: mlist_def)
  have d: "k \<in> dom (map_of ?m) \<longleftrightarrow> k \<in> fst ` set ps" by (simp add: dom_madds)
  have f: "k \<in> fst ` set ps \<longleftrightarrow> filter (\<lambda>p. fst p = k) ps \<noteq> []"
    by (auto simp: filter_empty_conv)
  show ?thesis
  proof (cases "map_of ?m k")
    case None
    then show ?thesis using d f by auto
  next
    case (Some l')
    then show ?thesis using m d f by (auto simp: mlist_def)
  qed
qed

lemma mset_concat_madd:
  "mwf m \<Longrightarrow> mset (concat (map snd (madd k v m))) = add_mset v (mset (concat (map snd m)))"
proof -
  assume "mwf m"
  then have "mset (concat (map snd (mput k (mlist m k @ [v]) m))) = add_mset v (mset (concat (map snd m)))"
  proof (induction m)
    case Nil
    then show ?case by (simp add: mlist_def)
  next
    case (Cons p m)
    obtain k' l where p: "p = (k', l)" by (cases p)
    from Cons.prems have "mwf m" by (simp add: mwf_def)
    have "mlist (p # m) k = []" if "k < k'"
      using Cons.prems that p by (auto simp: mlist_def mwf_def map_of_eq_None_iff split: option.splits)
        (metis image_eqI map_of_SomeD fst_conv not_less_iff_gr_or_eq order.strict_trans)
    then show ?case
      using Cons p \<open>mwf m\<close> by (auto simp: mlist_def)
  qed
  then show ?thesis by (simp add: madd_def)
qed

lemma mset_concat_madds:
  "mwf m \<Longrightarrow> mset (concat (map snd (madds ps m))) = mset (concat (map snd m)) + mset (map snd ps)"
  by (induction ps arbitrary: m) (auto simp: mset_concat_madd)

lemma mwf_length: "mwf m \<Longrightarrow> length m = card (dom (map_of m))"
  by (metis distinct_card dom_map_of_conv_image_fst length_map list.set_map mwf_distinct)

lemma length_madds_one: "mwf m \<Longrightarrow> length (madds (map (\<lambda>c. (k, f c)) cs) m) \<le> Suc (length m)"
proof -
  assume m: "mwf m"
  let ?m = "madds (map (\<lambda>c. (k, f c)) cs) m"
  have "dom (map_of ?m) \<subseteq> insert k (dom (map_of m))" using m by (auto simp: dom_madds)
  then have "card (dom (map_of ?m)) \<le> card (insert k (dom (map_of m)))"
    by (intro card_mono) (auto simp: finite_dom_map_of)
  then show ?thesis
    using m mwf_length [OF m] mwf_length [of ?m] by (simp add: card_insert_if finite_dom_map_of split: if_splits)
qed

lemma map_of_map_values: "map_of (map (\<lambda>(k, l). (k, S l)) m) k = map_option S (map_of m k)"
  by (induction m) auto

lemma mwf_map_values: "mwf m \<Longrightarrow> mwf (map (\<lambda>(k, l). (k, S l)) m)"
  by (simp add: mwf_def comp_def split_def)

text \<open>
  The lists of a map filled from permuted input agree up to a normalization \<open>S\<close> that does not
  see the order, such as a sort.
\<close>

lemma madds_perm:
  fixes ps ps' :: "('k::linorder \<times> 'v) list"
  assumes m: "mset ps' = mset ps"
    and S: "\<And>l l'. mset l' = mset l \<Longrightarrow> \<exists>k. l = map snd (filter (\<lambda>p. fst p = k) ps) \<Longrightarrow> S l' = S l"
  shows "map (\<lambda>(k, l). (k, S l)) (madds ps' []) = map (\<lambda>(k, l). (k, S l)) (madds ps [])"
proof (rule mwf_ext)
  show "map_of (map (\<lambda>(k, l). (k, S l)) (madds ps' [])) = map_of (map (\<lambda>(k, l). (k, S l)) (madds ps []))"
  proof
    fix k :: 'k
    let ?f = "\<lambda>qs. map snd (filter (\<lambda>p. fst p = k) qs)"
    have eq: "map_of (madds qs []) k = (if ?f qs = [] then None else Some (?f qs))" for qs :: "('k \<times> 'v) list"
      using madds_Some_iff [of qs k] by (cases "map_of (madds qs []) k") auto
    have "mset (filter (\<lambda>p. fst p = k) ps') = mset (filter (\<lambda>p. fst p = k) ps)"
      by (simp only: mset_filter m)
    then have "mset (?f ps') = mset (?f ps)" by (simp only: mset_map)
    moreover from this have "?f ps' = [] \<longleftrightarrow> ?f ps = []" by (metis mset_zero_iff)
    moreover from calculation(1) have "S (?f ps') = S (?f ps)" by (rule S) blast
    ultimately show "map_of (map (\<lambda>(k, l). (k, S l)) (madds ps' [])) k = map_of (map (\<lambda>(k, l). (k, S l)) (madds ps [])) k"
      unfolding map_of_map_values eq by simp
  qed
qed (simp_all add: mwf_map_values)

section \<open>JSON values\<close>

datatype json =
    JNull
  | JBool bool
  | JNum string
  | JStr string
  | JArr "json list"
  | JObj "(string \<times> json) list"

type_synonym jmap = "(string, json) gomap"

fun jwf :: "json \<Rightarrow> bool" where
  "jwf (JArr xs) = (\<forall>x \<in> set xs. jwf x)"
| "jwf (JObj m) = (mwf m \<and> (\<forall>p \<in> set m. jwf (snd p)))"
| "jwf _ = True"

definition jint :: "int \<Rightarrow> json" where
  "jint i = JNum (itoa i)"

definition jstrs :: "string list \<Rightarrow> json" where
  "jstrs xs = JArr (map JStr xs)"

text \<open>The type assertion \<^verbatim>\<open>m[k].(map[string]any)\<close>.\<close>

definition get_obj :: "jmap \<Rightarrow> string \<Rightarrow> jmap option" where
  "get_obj m k = (case map_of m k of Some (JObj o') \<Rightarrow> Some o' | _ \<Rightarrow> None)"

text \<open>The type assertion \<^verbatim>\<open>m[k].([]any)\<close>; a nil slice is \<^const>\<open>JNull\<close> and has no element.\<close>

definition get_arr :: "jmap \<Rightarrow> string \<Rightarrow> json list" where
  "get_arr m k = (case map_of m k of Some (JArr xs) \<Rightarrow> xs | _ \<Rightarrow> [])"

text \<open>
  \<^verbatim>\<open>json.Unmarshal\<close> into a \<^verbatim>\<open>map[string]any\<close>: an object gives its members, \<^verbatim>\<open>null\<close>
  leaves the map nil, any other value is an error.
\<close>

fun unmarshal_map :: "json \<Rightarrow> jmap option" where
  "unmarshal_map (JObj m) = Some m"
| "unmarshal_map JNull = Some []"
| "unmarshal_map _ = None"

text \<open>
  A \<^verbatim>\<open>runtime.RawExtension\<close>: its bytes are nil, or they decode to a value, or they do not
  decode. The operator reads the bytes through \<^verbatim>\<open>encoding/json\<close> only.
\<close>

datatype RawExtension = RawNil | RawBad | RawJSON json

fun raw_map :: "RawExtension \<Rightarrow> jmap option" where
  "raw_map (RawJSON j) = unmarshal_map j"
| "raw_map _ = None"

definition raw_members :: "RawExtension option \<Rightarrow> jmap" where
  "raw_members r = (case r of None \<Rightarrow> [] | Some e \<Rightarrow> (case raw_map e of None \<Rightarrow> [] | Some m \<Rightarrow> m))"

fun raw_wf :: "RawExtension \<Rightarrow> bool" where
  "raw_wf (RawJSON j) = jwf j"
| "raw_wf _ = True"

definition raw_opt_wf :: "RawExtension option \<Rightarrow> bool" where
  "raw_opt_wf r = (case r of None \<Rightarrow> True | Some e \<Rightarrow> raw_wf e)"

lemma unmarshal_map_wf: "jwf j \<Longrightarrow> unmarshal_map j = Some m \<Longrightarrow> mwf m"
  by (cases j) auto

lemma raw_map_wf: "raw_wf e \<Longrightarrow> raw_map e = Some m \<Longrightarrow> mwf m"
  by (cases e) (auto intro: unmarshal_map_wf)

lemma mwf_raw_members [simp]: "raw_opt_wf r \<Longrightarrow> mwf (raw_members r)"
  by (auto simp: raw_opt_wf_def raw_members_def intro: raw_map_wf split: option.splits)

subsection \<open>Serialization\<close>

text \<open>
  \<^verbatim>\<open>json.Marshal\<close> followed by \<^verbatim>\<open>json.Indent\<close> with two spaces. Strings are escaped as
  \<^verbatim>\<open>encoding/json\<close> does (HTML characters included); bytes of multi-byte UTF-8 characters
  are copied.
\<close>

definition hex_digit :: "nat \<Rightarrow> char" where
  "hex_digit n = (if n < 10 then char_of (48 + n) else char_of (87 + n))"

definition json_escape_char :: "char \<Rightarrow> string" where
  "json_escape_char c =
     (if c = CHR 0x22 then [CHR 0x5C, CHR 0x22]
      else if c = CHR 0x5C then [CHR 0x5C, CHR 0x5C]
      else if c = CHR 0x08 then [CHR 0x5C, CHR ''b'']
      else if c = CHR 0x0C then [CHR 0x5C, CHR ''f'']
      else if c = CHR 0x0A then [CHR 0x5C, CHR ''n'']
      else if c = CHR 0x0D then [CHR 0x5C, CHR ''r'']
      else if c = CHR 0x09 then [CHR 0x5C, CHR ''t'']
      else if (of_char c :: nat) < 32 \<or> c \<in> {CHR ''<'', CHR ''>'', CHR ''&''}
      then [CHR 0x5C] @ ''u00'' @ [hex_digit (of_char c div 16), hex_digit (of_char c mod 16)]
      else [c])"

definition json_string :: "string \<Rightarrow> string" where
  "json_string s = [CHR 0x22] @ concat (map json_escape_char s) @ [CHR 0x22]"

definition newline :: "nat \<Rightarrow> string" where
  "newline depth = CHR 0x0A # replicate (2 * depth) (CHR '' '')"

fun jprint :: "nat \<Rightarrow> json \<Rightarrow> string" where
  "jprint d JNull = ''null''"
| "jprint d (JBool b) = (if b then ''true'' else ''false'')"
| "jprint d (JNum t) = t"
| "jprint d (JStr s) = json_string s"
| "jprint d (JArr xs) =
     (if xs = [] then ''[]''
      else ''['' @ Join (map (\<lambda>x. newline (Suc d) @ jprint (Suc d) x) xs) '','' @ newline d @ '']'')"
| "jprint d (JObj m) =
     (if m = [] then ''{}''
      else ''{'' @ Join (map (\<lambda>p. newline (Suc d) @ json_string (fst p) @ '': '' @ jprint (Suc d) (snd p)) m) '',''
        @ newline d @ ''}'')"

end
