(* ===== verification/Api.thy ===== *)
theory Api
  imports Dict
begin

text \<open>
  The custom resources of \<^verbatim>\<open>operator/api/v1alpha1\<close> as records, with the Go field names
  behind a short prefix per struct (Isabelle record fields share one name space). A pointer
  is an \<open>option\<close>, a slice a list, a Go map a \<^typ>\<open>('k, 'v) gomap\<close>; int32 and int64 fields
  hold \<^typ>\<open>int\<close> because the code only compares and prints them. A slice whose nil-ness the
  code tests is an \<open>option\<close> of a list. Each object carries the
  metadata the operator reads (name, namespace, generation, creation time as Unix seconds).

  The theory also holds the pure methods of these types: reference resolution
  (\<open>PolicyKey\<close>), the field indexes, and the derivation of an endpoint's Ready condition.
\<close>

section \<open>Names\<close>

datatype NamespacedName = NamespacedName (nn_Namespace: string) (nn_Name: string)

instantiation NamespacedName :: linorder
begin

definition less_eq_NamespacedName :: "NamespacedName \<Rightarrow> NamespacedName \<Rightarrow> bool" where
  "less_eq_NamespacedName a b \<longleftrightarrow> (nn_Namespace a, nn_Name a) \<le> (nn_Namespace b, nn_Name b)"

definition less_NamespacedName :: "NamespacedName \<Rightarrow> NamespacedName \<Rightarrow> bool" where
  "less_NamespacedName a b \<longleftrightarrow> (nn_Namespace a, nn_Name a) < (nn_Namespace b, nn_Name b)"

instance
proof
  fix x y z :: NamespacedName
  show "(x < y) = (x \<le> y \<and> \<not> y \<le> x)"
    unfolding less_eq_NamespacedName_def less_NamespacedName_def by auto
  show "x \<le> x" unfolding less_eq_NamespacedName_def by simp
  show "x \<le> y \<Longrightarrow> y \<le> z \<Longrightarrow> x \<le> z"
    unfolding less_eq_NamespacedName_def by (rule order_trans)
  show "x \<le> y \<Longrightarrow> y \<le> x \<Longrightarrow> x = y"
    unfolding less_eq_NamespacedName_def by (cases x, cases y) auto
  show "x \<le> y \<or> y \<le> x" unfolding less_eq_NamespacedName_def by (rule linear)
qed

end

text \<open>\<^verbatim>\<open>types.NamespacedName.String\<close>.\<close>

definition nn_String :: "NamespacedName \<Rightarrow> string" where
  "nn_String n = nn_Namespace n @ ''/'' @ nn_Name n"

text \<open>Kubernetes namespaces are DNS labels: they hold no slash.\<close>

definition valid_nn :: "NamespacedName \<Rightarrow> bool" where
  "valid_nn n \<longleftrightarrow> CHR ''/'' \<notin> set (nn_Namespace n)"

lemma nn_String_inj: "valid_nn a \<Longrightarrow> valid_nn b \<Longrightarrow> nn_String a = nn_String b \<Longrightarrow> a = b"
proof -
  assume v: "valid_nn a" "valid_nn b" and eq: "nn_String a = nn_String b"
  from v have "CutChar (nn_String a) CHR ''/'' = (nn_Namespace a, nn_Name a, True)"
    and "CutChar (nn_String b) CHR ''/'' = (nn_Namespace b, nn_Name b, True)"
    by (auto simp: valid_nn_def nn_String_def CutChar_sep)
  with eq show "a = b" by (cases a, cases b) auto
qed

section \<open>Shared types\<close>

record GatewayRef =
  gr_Name :: string
  gr_Namespace :: string

record PolicyRef =
  pr_Name :: string
  pr_Namespace :: string

definition GatewayRef_ResolvedNamespace :: "GatewayRef \<Rightarrow> string \<Rightarrow> string" where
  "GatewayRef_ResolvedNamespace r fallback = (if gr_Namespace r \<noteq> [] then gr_Namespace r else fallback)"

definition PolicyRef_ResolvedNamespace :: "PolicyRef \<Rightarrow> string \<Rightarrow> string" where
  "PolicyRef_ResolvedNamespace r fallback = (if pr_Namespace r \<noteq> [] then pr_Namespace r else fallback)"

definition PolicyKey :: "PolicyRef \<Rightarrow> string \<Rightarrow> string" where
  "PolicyKey r fallback = PolicyRef_ResolvedNamespace r fallback @ ''/'' @ pr_Name r"

datatype Edition = EditionCE | EditionEE

datatype ConditionStatus = ConditionTrue | ConditionFalse | ConditionUnknown

record Condition =
  cond_Type :: string
  cond_Status :: ConditionStatus
  cond_ObservedGeneration :: int
  cond_Reason :: string
  cond_Message :: string

section \<open>KrakenDBackendPolicy\<close>

record CircuitBreakerSpec =
  cb_Interval :: int
  cb_Timeout :: int
  cb_MaxErrors :: int
  cb_LogStatusChange :: bool

record RateLimitSpec =
  rl_MaxRate :: int
  rl_Capacity :: int

record CacheSpec =
  ca_Shared :: bool

record KrakenDBackendPolicySpec =
  bp_CircuitBreaker :: "CircuitBreakerSpec option"
  bp_RateLimit :: "RateLimitSpec option"
  bp_Cache :: "CacheSpec option"
  bp_Raw :: "RawExtension option"

record KrakenDBackendPolicy =
  pol_Name :: string
  pol_Namespace :: string
  pol_Spec :: KrakenDBackendPolicySpec

type_synonym policies = "(string, KrakenDBackendPolicy) gomap"

section \<open>KrakenDEndpoint\<close>

record BackendSpec =
  be_Host :: "string list"
  be_URLPattern :: string
  be_Method :: string
  be_Encoding :: string
  be_SD :: string
  be_SDScheme :: string
  be_DisableHostSanitize :: "bool option"
  be_InputHeaders :: "string list"
  be_InputQueryStrings :: "string list"
  be_Allow :: "string list"
  be_Deny :: "string list"
  be_Group :: string
  be_Target :: string
  be_IsCollection :: "bool option"
  be_Mapping :: "(string, string) gomap"
  be_PolicyRef :: "PolicyRef option"
  be_ExtraConfig :: "RawExtension option"

record EndpointEntry =
  en_Endpoint :: string
  en_Method :: string
  en_Backends :: "BackendSpec list"
  en_Timeout :: "int option"
  en_CacheTTL :: "int option"
  en_InputHeaders :: "string list option"
  en_InputQueryStrings :: "string list option"
  en_OutputEncoding :: string
  en_ConcurrentCalls :: "int option"
  en_ExtraConfig :: "RawExtension option"

record KrakenDEndpointSpec =
  es_GatewayRef :: GatewayRef
  es_Endpoints :: "EndpointEntry list"
  es_ComponentSchemas :: "(string, RawExtension) gomap"

record EndpointConflict =
  cf_Endpoint :: string
  cf_Method :: string
  cf_Winner :: string

text \<open>The phase, which is empty until the first status write.\<close>

datatype EndpointPhase =
    EndpointPhasePending | EndpointPhaseActive | EndpointPhaseInvalid
  | EndpointPhaseConflicted | EndpointPhaseDetached

record KrakenDEndpointStatus =
  est_Phase :: "EndpointPhase option"
  est_ObservedGeneration :: int
  est_EndpointCount :: int
  est_Methods :: string
  est_Conditions :: "Condition list"
  est_Conflicts :: "EndpointConflict list"

text \<open>The controlling owner reference of an object: kind with group, name, UID.\<close>

record OwnerRef =
  or_Kind :: string
  or_Name :: string
  or_UID :: string

record KrakenDEndpoint =
  ep_Name :: string
  ep_Namespace :: string
  ep_UID :: string
  ep_ResourceVersion :: string
  ep_Labels :: "(string, string) gomap"
  ep_Controller :: "OwnerRef option"
  ep_Deleting :: bool
  ep_Generation :: int
  ep_CreationTimestamp :: int
  ep_Spec :: KrakenDEndpointSpec
  ep_Status :: KrakenDEndpointStatus

definition zero_endpoint_status :: KrakenDEndpointStatus where
  "zero_endpoint_status = 
     \<lparr>est_Phase = None, est_ObservedGeneration = 0, est_EndpointCount = 0, est_Methods = [], est_Conditions = [], est_Conflicts = []\<rparr>"

definition ep_key :: "KrakenDEndpoint \<Rightarrow> NamespacedName" where
  "ep_key ep = NamespacedName (ep_Namespace ep) (ep_Name ep)"

text \<open>A slice read for its elements: nil has none.\<close>

definition els :: "'a list option \<Rightarrow> 'a list" where
  "els xs = (case xs of None \<Rightarrow> [] | Some l \<Rightarrow> l)"

section \<open>KrakenDGateway\<close>

record CORSConfig =
  co_AllowOrigins :: "string list"
  co_AllowMethods :: "string list"
  co_AllowHeaders :: "string list"
  co_ExposeHeaders :: "string list"
  co_AllowCredentials :: bool
  co_MaxAge :: string
  co_Debug :: bool

record SecurityConfig =
  sc_SSLRedirect :: bool
  sc_SSLProxyHeaders :: "(string, string) gomap"
  sc_FrameOptions :: string
  sc_ContentTypeNosniff :: bool
  sc_BrowserXSSFilter :: bool
  sc_HSTSSeconds :: int
  sc_ContentSecurityPolicy :: string

record LoggingConfig =
  lg_Level :: string
  lg_Prefix :: string
  lg_Stdout :: bool
  lg_Syslog :: bool
  lg_Format :: string

record RouterConfig =
  rt_ReturnErrorMsg :: bool
  rt_HealthPath :: string
  rt_AutoOptions :: bool
  rt_DisableAccessLog :: bool
  rt_LoggerSkipPaths :: "string list"
  rt_DisableRedirectFixedPath :: bool
  rt_DisableRedirectTrailingSlash :: bool

record OTLPExporter =
  ot_Name :: string
  ot_Host :: string
  ot_Port :: int
  ot_UseHTTP :: bool

record OTelPrometheusExporter =
  op_Name :: string
  op_Port :: int
  op_ListenIP :: string
  op_ProcessMetrics :: bool
  op_GoMetrics :: bool

record OTelExporters =
  ox_OTLP :: "OTLPExporter list"
  ox_Prometheus :: "OTelPrometheusExporter list"

record OTelGlobalLayer =
  og_DisableMetrics :: bool
  og_DisableTraces :: bool
  og_DisablePropagation :: bool
  og_ReportHeaders :: bool

record OTelProxyLayer =
  oy_DisableMetrics :: bool
  oy_DisableTraces :: bool

record OTelStaticAttribute =
  oa_Key :: string
  oa_Value :: string

record OTelBackendDetail =
  od_DisableStage :: bool
  od_RoundTrip :: bool
  od_ReadPayload :: bool
  od_DetailedConnection :: bool
  od_StaticAttributes :: "OTelStaticAttribute list"

record OTelBackendLayer =
  ob_Metrics :: "OTelBackendDetail option"
  ob_Traces :: "OTelBackendDetail option"

record OTelLayers =
  ol_Global :: "OTelGlobalLayer option"
  ol_Proxy :: "OTelProxyLayer option"
  ol_Backend :: "OTelBackendLayer option"

record TelemetryConfig =
  te_ServiceName :: string
  te_Exporters :: "OTelExporters option"
  te_Layers :: "OTelLayers option"

record DocumentationConfig =
  dc_BasePath :: string
  dc_Version :: string

record GatewayConfig =
  gc_Name :: string
  gc_Port :: int
  gc_ListenIP :: string
  gc_Host :: "string list"
  gc_Timeout :: string
  gc_CacheTTL :: string
  gc_OutputEncoding :: string
  gc_DNSCacheTTL :: string
  gc_EchoEndpoint :: bool
  gc_DebugEndpoint :: bool
  gc_CORS :: "CORSConfig option"
  gc_Security :: "SecurityConfig option"
  gc_Logging :: "LoggingConfig option"
  gc_Router :: "RouterConfig option"
  gc_Telemetry :: "TelemetryConfig option"
  gc_Documentation :: "DocumentationConfig option"
  gc_ExtraConfig :: "RawExtension option"

record RedisConnectionPool =
  rp_Addresses :: "string list"
  rp_PoolSize :: int
  rp_MinIdleConns :: int
  rp_DialTimeout :: string

record RedisSpec =
  rs_ConnectionPool :: RedisConnectionPool

record PluginSource =
  ps_ImageRef :: "string option"
  ps_ConfigMapRef :: "string option"
  ps_PersistentVolumeClaimRef :: "string option"

record LicenseConfig =
  lc_ExternalSecretEnabled :: bool
  lc_SecretRef :: "(string \<times> string) option"
  lc_FallbackToCE :: bool
  lc_ExpiryWarningDays :: int

record OpenAPIExportSpec =
  oe_Enabled :: bool

record KrakenDGatewaySpec =
  gs_Version :: string
  gs_Edition :: Edition
  gs_Image :: string
  gs_CEImage :: string
  gs_Config :: GatewayConfig
  gs_License :: "LicenseConfig option"
  gs_Redis :: "RedisSpec option"
  gs_Plugins :: "PluginSource list option"
  gs_OpenAPI :: "OpenAPIExportSpec option"

datatype GatewayPhase =
    PhasePending | PhaseRendering | PhaseValidating | PhaseDeploying | PhaseRunning | PhaseDegraded | PhaseError

record KrakenDGatewayStatus =
  gst_Phase :: "GatewayPhase option"
  gst_ConfigChecksum :: string
  gst_ConfigEdition :: "Edition option"
  gst_PluginChecksum :: string
  gst_ObservedGeneration :: int
  gst_Conditions :: "Condition list"
  gst_Replicas :: int
  gst_ReadyReplicas :: int
  gst_LicenseExpiry :: "int option"
  gst_ActiveImage :: string
  gst_EndpointCount :: int
  gst_DragonflyAddress :: string
  gst_LastPostRestartJobChecksum :: string

definition zero_gateway_status :: KrakenDGatewayStatus where
  "zero_gateway_status =
     \<lparr>gst_Phase = None, gst_ConfigChecksum = [], gst_ConfigEdition = None, gst_PluginChecksum = [],
      gst_ObservedGeneration = 0, gst_Conditions = [], gst_Replicas = 0, gst_ReadyReplicas = 0,
      gst_LicenseExpiry = None, gst_ActiveImage = [], gst_EndpointCount = 0, gst_DragonflyAddress = [],
      gst_LastPostRestartJobChecksum = []\<rparr>"

record KrakenDGateway =
  gw_Name :: string
  gw_Namespace :: string
  gw_UID :: string
  gw_Generation :: int
  gw_Spec :: KrakenDGatewaySpec
  gw_Status :: KrakenDGatewayStatus

section \<open>Status conditions\<close>

text \<open>
  \<^verbatim>\<open>meta.FindStatusCondition\<close>, \<^verbatim>\<open>meta.IsStatusConditionTrue\<close>, \<^verbatim>\<open>meta.SetStatusCondition\<close>
  and \<^verbatim>\<open>meta.RemoveStatusCondition\<close>, without the transition time no rule reads.
\<close>

definition FindStatusCondition :: "Condition list \<Rightarrow> string \<Rightarrow> Condition option" where
  "FindStatusCondition cs t = find (\<lambda>c. cond_Type c = t) cs"

definition IsStatusConditionTrue :: "Condition list \<Rightarrow> string \<Rightarrow> bool" where
  "IsStatusConditionTrue cs t =
     (case FindStatusCondition cs t of None \<Rightarrow> False | Some c \<Rightarrow> cond_Status c = ConditionTrue)"

fun SetStatusCondition :: "Condition \<Rightarrow> Condition list \<Rightarrow> Condition list" where
  "SetStatusCondition c [] = [c]"
| "SetStatusCondition c (d # ds) =
     (if cond_Type d = cond_Type c then c # ds else d # SetStatusCondition c ds)"

definition RemoveStatusCondition :: "string \<Rightarrow> Condition list \<Rightarrow> Condition list" where
  "RemoveStatusCondition t cs = filter (\<lambda>c. cond_Type c \<noteq> t) cs"

lemma Find_SetStatusCondition [simp]:
  "FindStatusCondition (SetStatusCondition c cs) t =
     (if t = cond_Type c then Some c else FindStatusCondition cs t)"
  unfolding FindStatusCondition_def by (induction c cs rule: SetStatusCondition.induct) auto

lemma IsTrue_SetStatusCondition [simp]:
  "IsStatusConditionTrue (SetStatusCondition c cs) t =
     (if t = cond_Type c then cond_Status c = ConditionTrue else IsStatusConditionTrue cs t)"
  by (simp add: IsStatusConditionTrue_def)

lemma Find_RemoveStatusCondition [simp]:
  "FindStatusCondition (RemoveStatusCondition t cs) u = (if u = t then None else FindStatusCondition cs u)"
  unfolding FindStatusCondition_def RemoveStatusCondition_def by (induction cs) auto

section \<open>Field indexes (internal/fieldindex)\<close>

definition EndpointGatewayKeys :: "KrakenDEndpoint \<Rightarrow> string list" where
  "EndpointGatewayKeys ep =
     [GatewayRef_ResolvedNamespace (es_GatewayRef (ep_Spec ep)) (ep_Namespace ep) @ ''/''
      @ gr_Name (es_GatewayRef (ep_Spec ep))]"

fun policy_keys_loop :: "string \<Rightarrow> string list \<Rightarrow> BackendSpec list \<Rightarrow> string list" where
  "policy_keys_loop ns refs [] = refs"
| "policy_keys_loop ns refs (be # bes) =
     (case be_PolicyRef be of
        None \<Rightarrow> policy_keys_loop ns refs bes
      | Some r \<Rightarrow>
          (let key = PolicyKey r ns
           in if key \<in> set refs then policy_keys_loop ns refs bes
              else policy_keys_loop ns (refs @ [key]) bes))"

definition EndpointPolicyKeys :: "KrakenDEndpoint \<Rightarrow> string list" where
  "EndpointPolicyKeys ep =
     policy_keys_loop (ep_Namespace ep) [] (concat (map en_Backends (es_Endpoints (ep_Spec ep))))"

lemma policy_keys_loop_set:
  "set (policy_keys_loop ns refs bes) =
     set refs \<union> {PolicyKey r ns |be r. be \<in> set bes \<and> be_PolicyRef be = Some r}"
  by (induction ns refs bes rule: policy_keys_loop.induct) (auto simp: Let_def split: option.splits)

lemma policy_keys_loop_distinct: "distinct refs \<Longrightarrow> distinct (policy_keys_loop ns refs bes)"
  by (induction ns refs bes rule: policy_keys_loop.induct) (auto simp: Let_def split: option.splits)

lemma EndpointPolicyKeys_set:
  "set (EndpointPolicyKeys ep) =
     {PolicyKey r (ep_Namespace ep) |e be r.
        e \<in> set (es_Endpoints (ep_Spec ep)) \<and> be \<in> set (en_Backends e) \<and> be_PolicyRef be = Some r}"
  by (auto simp: EndpointPolicyKeys_def policy_keys_loop_set)

section \<open>The Ready condition of an endpoint (endpoint\_status.go)\<close>

definition EndpointReady :: "Condition list \<Rightarrow> ConditionStatus \<times> string \<times> string" where
  "EndpointReady conds =
     (case FindStatusCondition conds ''ResolvedRefs'' of
        None \<Rightarrow> (ConditionUnknown, ''Pending'', ''References have not been resolved yet'')
      | Some refs \<Rightarrow>
          if cond_Status refs \<noteq> ConditionTrue
          then (ConditionFalse, cond_Reason refs, cond_Message refs)
          else
            (let pending = (ConditionUnknown, ''Pending'',
                   ''Waiting for the gateway to accept generation '' @ itoa (cond_ObservedGeneration refs))
             in case FindStatusCondition conds ''Accepted'' of
                  None \<Rightarrow> pending
                | Some accepted \<Rightarrow>
                    if cond_ObservedGeneration accepted \<noteq> cond_ObservedGeneration refs then pending
                    else if cond_Status accepted \<noteq> ConditionTrue
                    then (ConditionFalse, cond_Reason accepted, cond_Message accepted)
                    else if cond_Reason accepted = ''Accepted''
                    then (ConditionTrue, ''Ready'', ''References resolved and accepted by the gateway'')
                    else if cond_Reason accepted = ''SchemaNameConflict''
                    then (ConditionTrue, ''SchemaNameConflict'', cond_Message accepted)
                    else (ConditionFalse, cond_Reason accepted, cond_Message accepted)))"

definition EndpointPhaseFromReady :: "ConditionStatus \<Rightarrow> string \<Rightarrow> EndpointPhase" where
  "EndpointPhaseFromReady status reason =
     (if status = ConditionTrue then EndpointPhaseActive
      else if status = ConditionUnknown then EndpointPhasePending
      else if reason = ''GatewayNotFound'' then EndpointPhaseDetached
      else if reason = ''EndpointConflict'' \<or> reason = ''PartiallyAccepted'' then EndpointPhaseConflicted
      else EndpointPhaseInvalid)"

text \<open>
  An endpoint is Ready exactly when its references resolved and the gateway accepted the same
  generation with one of the two serving reasons.
\<close>

lemma EndpointReady_True_iff:
  "fst (EndpointReady conds) = ConditionTrue \<longleftrightarrow>
     (\<exists>refs acc. FindStatusCondition conds ''ResolvedRefs'' = Some refs \<and>
        FindStatusCondition conds ''Accepted'' = Some acc \<and>
        cond_Status refs = ConditionTrue \<and> cond_Status acc = ConditionTrue \<and>
        cond_ObservedGeneration acc = cond_ObservedGeneration refs \<and>
        cond_Reason acc \<in> {''Accepted'', ''SchemaNameConflict''})"
  by (auto simp: EndpointReady_def Let_def split: option.splits if_splits)

end
