(* ===== verification/Routes.thy ===== *)
theory Routes
  imports Api
begin

text \<open>
  Endpoint paths as KrakenD's router reads them: \<^verbatim>\<open>renderer/routes.go\<close>, and the path
  conversions of \<^verbatim>\<open>renderer/routecheck.go\<close> and \<^verbatim>\<open>renderer/eewildcard.go\<close>.

  The regular expression \<^verbatim>\<open>/\{([a-zA-Z\-_0-9]+)\}\<close> is matched by \<open>param_prefix\<close>
  after a slash; \<^verbatim>\<open>path.Clean\<close> is modelled on the rooted paths the code passes to it.
  The lemmas show that \<open>ConflictKey\<close> forgets parameter names and repeated slashes, is a
  normal form, and that \<open>RouteKey\<close> separates method and route.
\<close>

section \<open>Path parameters\<close>

text \<open>The class \<^verbatim>\<open>[a-zA-Z\-_0-9]\<close> as ranges of byte values.\<close>

definition in_range :: "nat \<Rightarrow> nat \<Rightarrow> char \<Rightarrow> bool" where
  "in_range lo hi c \<longleftrightarrow> (let n = of_char c in lo \<le> n \<and> n \<le> hi)"

definition is_param_char :: "char \<Rightarrow> bool" where
  "is_param_char c \<longleftrightarrow>
     in_range 97 122 c \<or> in_range 65 90 c \<or> c = CHR ''-'' \<or> c = CHR ''_'' \<or> in_range 48 57 c"

definition param_prefix :: "string \<Rightarrow> (string \<times> string) option" where
  "param_prefix s =
     (case s of
        [] \<Rightarrow> None
      | c # rest \<Rightarrow>
          (let name = takeWhile is_param_char rest; after = dropWhile is_param_char rest
           in if c = CHR ''{'' \<and> name \<noteq> [] \<and> after \<noteq> [] \<and> hd after = CHR ''}''
              then Some (name, tl after) else None))"

lemma param_prefix_length: "param_prefix s = Some (n, r) \<Longrightarrow> length r < length s"
proof -
  assume a: "param_prefix s = Some (n, r)"
  then obtain c rest where s: "s = c # rest" and r: "r = tl (dropWhile is_param_char rest)"
    by (auto simp: param_prefix_def Let_def split: list.splits if_splits)
  have "length r \<le> length (dropWhile is_param_char rest)" using r by simp
  also have "\<dots> \<le> length rest" by (rule length_dropWhile_le)
  finally show ?thesis using s by simp
qed

function PathParams :: "string \<Rightarrow> string list" where
  "PathParams [] = []"
| "PathParams (c # cs) =
     (if c = CHR ''/''
      then (case param_prefix cs of
              Some (name, rest) \<Rightarrow> name # PathParams rest
            | None \<Rightarrow> PathParams cs)
      else PathParams cs)"
  by pat_completeness auto
termination
  by (relation "measure length") (auto dest: param_prefix_length)

text \<open>\<^verbatim>\<open>pathParamPattern.ReplaceAllString(endpoint, "/{}")\<close>\<close>

function erase_params :: "string \<Rightarrow> string" where
  "erase_params [] = []"
| "erase_params (c # cs) =
     (if c = CHR ''/''
      then (case param_prefix cs of
              Some (name, rest) \<Rightarrow> ''/{}'' @ erase_params rest
            | None \<Rightarrow> c # erase_params cs)
      else c # erase_params cs)"
  by pat_completeness auto
termination
  by (relation "measure length") (auto dest: param_prefix_length)

section \<open>Route identity\<close>

text \<open>\<^verbatim>\<open>path.Clean\<close> of a path that starts with a slash.\<close>

fun clean_segs :: "string list \<Rightarrow> string list \<Rightarrow> string list" where
  "clean_segs stack [] = rev stack"
| "clean_segs stack (x # xs) =
     (if x = [] \<or> x = ''.'' then clean_segs stack xs
      else if x = ''..'' then clean_segs (tl stack) xs
      else clean_segs (x # stack) xs)"

definition path_Clean :: "string \<Rightarrow> string" where
  "path_Clean p = ''/'' @ Join (clean_segs [] (SplitChar CHR ''/'' p)) ''/''"

definition ConflictKey :: "string \<Rightarrow> string" where
  "ConflictKey endpoint =
     (let shape = erase_params endpoint;
          cleaned = path_Clean (''/'' @ shape)
      in if HasSuffix shape ''/'' \<and> \<not> HasSuffix cleaned ''/'' then cleaned @ ''/'' else cleaned)"

definition RouteKey :: "string \<Rightarrow> string \<Rightarrow> string" where
  "RouteKey meth endpoint = meth @ '' '' @ ConflictKey endpoint"

definition RouteClashDetail :: "string \<Rightarrow> string \<Rightarrow> string \<Rightarrow> string \<Rightarrow> string" where
  "RouteClashDetail meth endpoint otherPath owner =
     (if otherPath = endpoint then ''already defined by '' @ owner
      else ''has the same route as '' @ meth @ '' '' @ otherPath @ '' in '' @ owner
        @ '': paths that differ only in parameter names or repeated slashes cannot both be routed. Use the same parameter name, and keep routes that share a parameterized prefix in one KrakenDEndpoint so they can be renamed together'')"

section \<open>The patterns the router registers\<close>

definition ginPath :: "string \<Rightarrow> string" where
  "ginPath endpoint =
     (let p = ''/'' @ TrimPrefix endpoint ''/'';
          (route, query, hasQuery) = CutChar p CHR ''?'';
          route' = fold (\<lambda>param r. ReplaceAll r (''{'' @ param @ ''}'') ('':'' @ param)) (PathParams p) route
      in if hasQuery then route' @ ''?'' @ query else route')"

definition eeWildcardParam :: string where
  "eeWildcardParam = ''{Wildcard}''"

definition IsEEWildcard :: "string \<Rightarrow> bool" where
  "IsEEWildcard path \<longleftrightarrow> length path > 2 \<and> HasSuffix path ''/*''"

definition routeShape :: "string \<Rightarrow> string" where
  "routeShape path =
     ginPath (if IsEEWildcard path then TrimSuffix path ''*'' @ eeWildcardParam else path)"

section \<open>Parameters and slashes\<close>

lemma is_param_char_special [simp]:
  "\<not> is_param_char CHR ''/''" "\<not> is_param_char CHR ''{''" "\<not> is_param_char CHR ''}''"
  by (simp_all add: is_param_char_def in_range_def)

lemma param_prefix_Nil [simp]: "param_prefix [] = None"
  by (simp add: param_prefix_def)

lemma param_prefix_slash [simp]: "param_prefix (CHR ''/'' # s) = None"
  by (simp add: param_prefix_def Let_def)

lemma param_prefix_empty [simp]: "param_prefix (CHR ''{'' # CHR ''}'' # s) = None"
  by (simp add: param_prefix_def Let_def)

lemma param_prefix_append_slash:
  "param_prefix (s @ CHR ''/'' # t) = map_option (\<lambda>(n, r). (n, r @ CHR ''/'' # t)) (param_prefix s)"
proof (cases s)
  case Nil
  then show ?thesis by simp
next
  case (Cons c rest)
  show ?thesis
  proof (cases "\<forall>x \<in> set rest. is_param_char x")
    case True
    then have "takeWhile is_param_char (rest @ CHR ''/'' # t) = rest"
      and "dropWhile is_param_char (rest @ CHR ''/'' # t) = CHR ''/'' # t"
      and "dropWhile is_param_char rest = []"
      by auto
    then show ?thesis using Cons by (simp add: param_prefix_def Let_def)
  next
    case False
    then have "takeWhile is_param_char (rest @ CHR ''/'' # t) = takeWhile is_param_char rest"
      and "dropWhile is_param_char (rest @ CHR ''/'' # t) = dropWhile is_param_char rest @ CHR ''/'' # t"
      and "dropWhile is_param_char rest \<noteq> []"
      by auto
    then show ?thesis using Cons by (simp add: param_prefix_def Let_def)
  qed
qed

lemma param_prefix_name:
  assumes "n \<noteq> []" and "\<forall>c \<in> set n. is_param_char c"
  shows "param_prefix (CHR ''{'' # n @ CHR ''}'' # post) = Some (n, post)"
  using assms by (simp add: param_prefix_def Let_def takeWhile_append dropWhile_append)

text \<open>A match never crosses a slash, so both scans distribute over slashes.\<close>

lemma erase_params_append_slash:
  "erase_params (s @ CHR ''/'' # t) = erase_params s @ erase_params (CHR ''/'' # t)"
proof (induction s rule: erase_params.induct)
  case 1
  then show ?case by simp
next
  case (2 c cs)
  show ?case
  proof (cases "c = CHR ''/''")
    case True
    then show ?thesis
      using 2 by (cases "param_prefix cs") (auto simp: param_prefix_append_slash)
  next
    case False
    then show ?thesis using 2 by simp
  qed
qed

lemma PathParams_append_slash:
  "PathParams (s @ CHR ''/'' # t) = PathParams s @ PathParams (CHR ''/'' # t)"
proof (induction s rule: PathParams.induct)
  case 1
  then show ?case by simp
next
  case (2 c cs)
  show ?case
  proof (cases "c = CHR ''/''")
    case True
    then show ?thesis
      using 2 by (cases "param_prefix cs") (auto simp: param_prefix_append_slash)
  next
    case False
    then show ?thesis using 2 by simp
  qed
qed

lemma erase_params_no_slash: "CHR ''/'' \<notin> set s \<Longrightarrow> erase_params s = s"
  by (induction s rule: erase_params.induct) auto

lemma PathParams_no_slash: "CHR ''/'' \<notin> set s \<Longrightarrow> PathParams s = []"
  by (induction s rule: PathParams.induct) auto

lemma erase_params_id: "PathParams s = [] \<Longrightarrow> erase_params s = s"
  by (induction s rule: PathParams.induct) (auto split: if_splits option.splits)

declare PathParams.simps(2) [simp del] erase_params.simps(2) [simp del]

lemma erase_params_slash_Cons: "\<exists>u. erase_params (CHR ''/'' # t) = CHR ''/'' # u"
  by (cases "param_prefix t") (auto simp: erase_params.simps(2))

lemma param_prefix_erase: "param_prefix s = None \<Longrightarrow> param_prefix (erase_params s) = None"
proof (cases "CHR ''/'' \<in> set s")
  case True
  assume none: "param_prefix s = None"
  from True obtain a b where s: "s = a @ CHR ''/'' # b" and a: "CHR ''/'' \<notin> set a"
    by (meson split_list_first)
  obtain u where u: "erase_params (CHR ''/'' # b) = CHR ''/'' # u"
    using erase_params_slash_Cons by blast
  from none s have "param_prefix a = None" by (simp add: param_prefix_append_slash)
  then show ?thesis
    using s a u by (simp add: erase_params_append_slash erase_params_no_slash param_prefix_append_slash)
next
  case False
  assume "param_prefix s = None"
  then show ?thesis using False by (simp add: erase_params_no_slash)
qed

lemma PathParams_erase: "PathParams (erase_params s) = []"
  by (induction s rule: erase_params.induct)
    (auto simp: param_prefix_erase erase_params.simps(2) PathParams.simps(2) split: option.splits)

lemma PathParams_root [simp]: "PathParams ''/'' = []"
  by (simp add: PathParams.simps(2))

subsection \<open>Paths by segments\<close>

abbreviation slash_split :: "string \<Rightarrow> string list" where
  "slash_split \<equiv> SplitChar CHR ''/''"

lemma PathParams_Join:
  "(\<And>x. x \<in> set xs \<Longrightarrow> CHR ''/'' \<notin> set x) \<Longrightarrow>
   PathParams (CHR ''/'' # Join xs ''/'') = concat (map (\<lambda>x. PathParams (CHR ''/'' # x)) xs)"
proof (induction xs "''/''" rule: Join.induct)
  case (3 x y xs)
  have "PathParams (CHR ''/'' # Join (x # y # xs) ''/'')
      = PathParams ((CHR ''/'' # x) @ CHR ''/'' # Join (y # xs) ''/'')"
    by simp
  also have "\<dots> = PathParams (CHR ''/'' # x) @ PathParams (CHR ''/'' # Join (y # xs) ''/'')"
    by (rule PathParams_append_slash)
  finally show ?case using 3 by simp
qed (simp_all add: PathParams.simps(2))

lemma PathParams_split:
  "PathParams (CHR ''/'' # s) = concat (map (\<lambda>x. PathParams (CHR ''/'' # x)) (slash_split s))"
  using PathParams_Join [of "slash_split s"] by (simp add: Join_SplitChar SplitChar_no_sep)

lemma clean_segs_subset: "set (clean_segs st xs) \<subseteq> set st \<union> set xs"
proof (induction st xs rule: clean_segs.induct)
  case (2 st x xs)
  have "set (tl st) \<subseteq> set st" by (cases st) auto
  with 2 show ?case by (auto split: if_splits)
qed simp

definition plain_seg :: "string \<Rightarrow> bool" where
  "plain_seg x \<longleftrightarrow> x \<noteq> [] \<and> x \<noteq> ''.'' \<and> x \<noteq> ''..'' "

lemma clean_segs_plain:
  "(\<And>x. x \<in> set st \<Longrightarrow> plain_seg x) \<Longrightarrow> x \<in> set (clean_segs st xs) \<Longrightarrow> plain_seg x"
proof (induction st xs rule: clean_segs.induct)
  case (2 st y ys)
  have "set (tl st) \<subseteq> set st" by (cases st) auto
  with 2 show ?case by (auto simp: plain_seg_def split: if_splits)
qed simp

lemma clean_segs_id: "(\<And>x. x \<in> set xs \<Longrightarrow> plain_seg x) \<Longrightarrow> clean_segs st xs = rev st @ xs"
  by (induction st xs rule: clean_segs.induct) (auto simp: plain_seg_def)

lemma clean_segs_drop_empty: "clean_segs st (xs @ [] # ys) = clean_segs st (xs @ ys)"
  by (induction st xs rule: clean_segs.induct) auto

definition path_segs :: "string \<Rightarrow> string list" where
  "path_segs p = clean_segs [] (slash_split p)"

lemma path_Clean_segs: "path_Clean p = ''/'' @ Join (path_segs p) ''/''"
  by (simp add: path_Clean_def path_segs_def)

lemma path_segs_plain: "x \<in> set (path_segs p) \<Longrightarrow> plain_seg x"
  unfolding path_segs_def by (rule clean_segs_plain [of "[]"]) auto

lemma path_segs_no_slash: "x \<in> set (path_segs p) \<Longrightarrow> CHR ''/'' \<notin> set x"
  unfolding path_segs_def using clean_segs_subset [of "[]" "slash_split p"] by (auto dest: SplitChar_no_sep)

lemma path_segs_slash [simp]: "path_segs (CHR ''/'' # p) = path_segs p"
  by (simp add: path_segs_def)

lemma slash_split_snoc: "slash_split (s @ ''/'') = slash_split s @ [[]]"
  by (induction s) (auto split: list.splits)

lemma path_segs_trailing: "path_segs (p @ ''/'') = path_segs p"
  using clean_segs_drop_empty [of "[]" "slash_split p" "[]"]
  by (simp add: path_segs_def slash_split_snoc)

lemma path_segs_Clean: "path_segs (path_Clean p) = path_segs p"
proof (cases "path_segs p = []")
  case True
  then show ?thesis by (simp add: path_Clean_segs path_segs_def)
next
  case False
  have "slash_split (Join (path_segs p) ''/'') = path_segs p"
    by (rule SplitChar_Join) (use False path_segs_no_slash in auto)
  then have "path_segs (Join (path_segs p) ''/'') = clean_segs [] (path_segs p)"
    by (simp add: path_segs_def)
  also have "\<dots> = path_segs p" using clean_segs_id [of "path_segs p" "[]"] path_segs_plain by simp
  finally show ?thesis by (simp add: path_Clean_segs)
qed

lemma Join_last: "xs \<noteq> [] \<Longrightarrow> last xs \<noteq> [] \<Longrightarrow> Join xs sep \<noteq> [] \<and> last (Join xs sep) = last (last xs)"
  by (induction xs sep rule: Join.induct) auto

text \<open>A cleaned path ends in a slash only when it is the root.\<close>

lemma path_Clean_suffix: "HasSuffix (path_Clean p) ''/'' \<longleftrightarrow> path_segs p = []"
proof (cases "path_segs p = []")
  case True
  then show ?thesis by (simp add: path_Clean_segs HasSuffix_def)
next
  case False
  let ?j = "Join (path_segs p) ''/''"
  have l: "last (path_segs p) \<in> set (path_segs p)" using False by simp
  then have ne: "last (path_segs p) \<noteq> []" and ns: "CHR ''/'' \<notin> set (last (path_segs p))"
    using path_segs_plain path_segs_no_slash by (auto simp: plain_seg_def)
  from Join_last [OF False ne, of "''/''"] have j: "?j \<noteq> []" "last ?j \<noteq> CHR ''/''"
    using ne ns by (auto dest: last_in_set)
  then have "\<not> HasSuffix (path_Clean p) ''/''"
    unfolding HasSuffix_iff path_Clean_segs by (auto simp: append_eq_append_conv2 Cons_eq_append_conv)
  with False show ?thesis by simp
qed

section \<open>The route key is a normal form\<close>

lemma ConflictKey_segs:
  "ConflictKey e =
     (let shape = erase_params e; segs = path_segs shape
      in ''/'' @ Join segs ''/'' @ (if HasSuffix shape ''/'' \<and> segs \<noteq> [] then ''/'' else []))"
proof -
  have "path_segs (''/'' @ s) = path_segs s" for s by simp
  then show ?thesis
    unfolding ConflictKey_def Let_def path_Clean_suffix by (simp add: path_Clean_segs)
qed

lemma ConflictKey_absolute: "\<exists>t. ConflictKey e = CHR ''/'' # t"
  by (simp add: ConflictKey_segs Let_def)

lemma PathParams_ConflictKey:
  assumes "HasPrefix e ''/''"
  shows "PathParams (ConflictKey e) = []"
proof -
  from assms obtain e' where e: "e = CHR ''/'' # e'" by (auto simp: HasPrefix_iff)
  obtain u where u: "erase_params e = CHR ''/'' # u" using erase_params_slash_Cons e by blast
  let ?segs = "path_segs (erase_params e)"
  have sub: "set ?segs \<subseteq> set (slash_split u)"
    using clean_segs_subset [of "[]" "slash_split u"] u by (simp add: path_segs_def)
  have "PathParams (CHR ''/'' # u) = []" using PathParams_erase u by metis
  then have "concat (map (\<lambda>x. PathParams (CHR ''/'' # x)) (slash_split u)) = []"
    using PathParams_split [of u] by simp
  then have "\<forall>x \<in> set (slash_split u). PathParams (CHR ''/'' # x) = []" by simp
  with sub have none: "concat (map (\<lambda>x. PathParams (CHR ''/'' # x)) ?segs) = []" by auto
  have j: "PathParams (CHR ''/'' # Join ?segs ''/'') = []"
    using PathParams_Join [of ?segs] path_segs_no_slash none by simp
  have "PathParams ((CHR ''/'' # Join ?segs ''/'') @ ''/'') = []"
    using PathParams_append_slash [of "CHR ''/'' # Join ?segs ''/''" "[]"] j by simp
  with j show ?thesis by (simp add: ConflictKey_segs Let_def)
qed

lemma path_segs_ConflictKey: "path_segs (ConflictKey e) = path_segs (erase_params e)"
proof -
  let ?c = "path_Clean (erase_params e)"
  have "ConflictKey e = ?c \<or> ConflictKey e = ?c @ ''/''"
    by (auto simp: ConflictKey_segs Let_def path_Clean_segs)
  then show ?thesis by (auto simp: path_segs_Clean path_segs_trailing)
qed

lemma ConflictKey_trailing:
  "HasSuffix (ConflictKey e) ''/'' \<longleftrightarrow>
     path_segs (erase_params e) = [] \<or> HasSuffix (erase_params e) ''/''"
proof -
  have c: "HasSuffix (path_Clean (erase_params e)) ''/'' \<longleftrightarrow> path_segs (erase_params e) = []"
    by (rule path_Clean_suffix)
  have "HasSuffix (CHR ''/'' # x @ ''/'') ''/''" for x by (auto simp: HasSuffix_iff)
  with c show ?thesis by (auto simp: ConflictKey_segs Let_def path_Clean_segs)
qed

text \<open>
  The route key of a path is a normal form: taking the key of a key changes nothing, so
  the groups built from keys are the classes of one equivalence of paths.
\<close>

lemma ConflictKey_idempotent:
  assumes "HasPrefix e ''/''"
  shows "ConflictKey (ConflictKey e) = ConflictKey e"
proof -
  have er: "erase_params (ConflictKey e) = ConflictKey e"
    by (rule erase_params_id) (rule PathParams_ConflictKey [OF assms])
  show ?thesis
    by (subst ConflictKey_segs, subst (2) ConflictKey_segs)
      (auto simp: Let_def er path_segs_ConflictKey ConflictKey_trailing)
qed

text \<open>
  Two paths that differ only in the name of a parameter have the same route key.
\<close>

lemma ConflictKey_rename_param:
  assumes "n \<noteq> []" and "m \<noteq> []"
    and "\<forall>c \<in> set n. is_param_char c" and "\<forall>c \<in> set m. is_param_char c"
  shows "ConflictKey (pre @ ''/{'' @ n @ ''}'' @ post) = ConflictKey (pre @ ''/{'' @ m @ ''}'' @ post)"
proof -
  have "erase_params (pre @ ''/{'' @ k @ ''}'' @ post) = erase_params pre @ ''/{}'' @ erase_params post"
    if "k \<noteq> []" "\<forall>c \<in> set k. is_param_char c" for k
    using erase_params_append_slash [of pre "CHR ''{'' # k @ CHR ''}'' # post"]
      param_prefix_name [OF that] by (simp add: erase_params.simps(2))
  with assms show ?thesis by (simp add: ConflictKey_def)
qed

lemma HasSuffix_slash_Cons: "HasSuffix (x @ CHR ''/'' # CHR ''/'' # v) ''/'' = HasSuffix (x @ CHR ''/'' # v) ''/''"
proof (cases v rule: rev_cases)
  case Nil
  then show ?thesis by (simp add: HasSuffix_def)
next
  case (snoc w c)
  then show ?thesis by (simp add: HasSuffix_def)
qed

lemma slash_split_append_slash: "slash_split (x @ CHR ''/'' # w) = slash_split x @ slash_split w"
  by (induction x) (auto split: list.splits)

text \<open>Repeated slashes do not matter either.\<close>

lemma ConflictKey_double_slash: "ConflictKey (pre @ ''//'' @ post) = ConflictKey (pre @ ''/'' @ post)"
proof -
  obtain v where v: "erase_params (CHR ''/'' # post) = CHR ''/'' # v" using erase_params_slash_Cons by blast
  have e1: "erase_params (pre @ CHR ''/'' # post) = erase_params pre @ CHR ''/'' # v"
    using erase_params_append_slash [of pre post] v by simp
  have "erase_params (CHR ''/'' # CHR ''/'' # post) = CHR ''/'' # CHR ''/'' # v"
    using v by (subst erase_params.simps(2)) simp
  then have e2: "erase_params (pre @ CHR ''/'' # CHR ''/'' # post) = erase_params pre @ CHR ''/'' # CHR ''/'' # v"
    using erase_params_append_slash [of pre "CHR ''/'' # post"] by simp
  have "path_segs (x @ CHR ''/'' # CHR ''/'' # v) = path_segs (x @ CHR ''/'' # v)" for x
    by (simp add: path_segs_def slash_split_append_slash clean_segs_drop_empty)
  then show ?thesis by (simp add: ConflictKey_segs Let_def e1 e2 HasSuffix_slash_Cons)
qed

text \<open>The parts of a route key can be read back from it.\<close>

lemma RouteKey_eq_iff:
  assumes "CHR '' '' \<notin> set m" and "CHR '' '' \<notin> set m'"
  shows "RouteKey m e = RouteKey m' e' \<longleftrightarrow> m = m' \<and> ConflictKey e = ConflictKey e'"
proof -
  have "CutChar (RouteKey m e) CHR '' '' = (m, ConflictKey e, True)"
    and "CutChar (RouteKey m' e') CHR '' '' = (m', ConflictKey e', True)"
    using assms by (auto simp: RouteKey_def CutChar_sep)
  then show ?thesis by (metis RouteKey_def prod.inject)
qed

end
