(* ===== verification/Flatten.thy ===== *)
theory Flatten
  imports Routes
begin

text \<open>
  Flattening and conflict resolution of \<^verbatim>\<open>renderer/endpoints.go\<close>: every entry of every
  KrakenDEndpoint becomes a \<open>flatEndpoint\<close>; entries with the same route key and method form a
  group; the oldest entry of a group is served and the others are recorded as conflicts.

  Go visits the groups in an unspecified order. \<open>resolve_groups\<close> therefore takes the groups
  as a list in visiting order, and the lemmas show that the flattened list and the recorded
  conflicts are the same for every order.
\<close>

section \<open>Data\<close>

record flatEndpoint =
  fe_Entry :: EndpointEntry
  fe_Source :: NamespacedName
  fe_CreationTimestampUnix :: int
  fe_Index :: nat

record EntryConflict =
  ec_Endpoint :: string
  ec_Method :: string
  ec_Winner :: NamespacedName
  ec_Detail :: string

type_synonym endpointKey = "string \<times> string"

type_synonym conflicts = "(NamespacedName, EntryConflict list) gomap"

section \<open>Orders\<close>

definition servedBefore :: "flatEndpoint \<Rightarrow> flatEndpoint \<Rightarrow> bool" where
  "servedBefore a b =
     (if fe_CreationTimestampUnix a \<noteq> fe_CreationTimestampUnix b
      then fe_CreationTimestampUnix a < fe_CreationTimestampUnix b
      else if fe_Source a \<noteq> fe_Source b
      then nn_String (fe_Source a) < nn_String (fe_Source b)
      else fe_Index a < fe_Index b)"

definition cmp_Compare :: "'a::linorder \<Rightarrow> 'a \<Rightarrow> int" where
  "cmp_Compare a b = (if a < b then - 1 else if b < a then 1 else 0)"

fun cmp_Or :: "int list \<Rightarrow> int" where
  "cmp_Or [] = 0"
| "cmp_Or (x # xs) = (if x \<noteq> 0 then x else cmp_Or xs)"

definition compareConflicts :: "EntryConflict \<Rightarrow> EntryConflict \<Rightarrow> int" where
  "compareConflicts a b =
     cmp_Or [cmp_Compare (ec_Endpoint a) (ec_Endpoint b), cmp_Compare (ec_Method a) (ec_Method b),
             cmp_Compare (nn_String (ec_Winner a)) (nn_String (ec_Winner b))]"

definition conflict_less :: "EntryConflict \<Rightarrow> EntryConflict \<Rightarrow> bool" where
  "conflict_less a b \<longleftrightarrow> compareConflicts a b < 0"

text \<open>The comparison that orders the flattened list: path, then method.\<close>

definition flat_less :: "flatEndpoint \<Rightarrow> flatEndpoint \<Rightarrow> bool" where
  "flat_less a b =
     (if en_Endpoint (fe_Entry a) \<noteq> en_Endpoint (fe_Entry b)
      then en_Endpoint (fe_Entry a) < en_Endpoint (fe_Entry b)
      else en_Method (fe_Entry a) < en_Method (fe_Entry b))"

section \<open>Flattening\<close>

definition has_invalid_policy :: "policies \<Rightarrow> KrakenDEndpoint \<Rightarrow> bool" where
  "has_invalid_policy policies ep =
     list_ex (\<lambda>entry. list_ex (\<lambda>be.
         case be_PolicyRef be of
           None \<Rightarrow> False
         | Some r \<Rightarrow> map_of policies (PolicyKey r (ep_Namespace ep)) = None) (en_Backends entry))
       (es_Endpoints (ep_Spec ep))"

definition key_of :: "flatEndpoint \<Rightarrow> endpointKey" where
  "key_of fe = (ConflictKey (en_Endpoint (fe_Entry fe)), en_Method (fe_Entry fe))"

definition flat_entries :: "KrakenDEndpoint \<Rightarrow> flatEndpoint list" where
  "flat_entries ep =
     map (\<lambda>(idx, entry). \<lparr>fe_Entry = entry, fe_Source = ep_key ep,
                          fe_CreationTimestampUnix = ep_CreationTimestamp ep, fe_Index = idx\<rparr>)
       (enumerate 0 (es_Endpoints (ep_Spec ep)))"

text \<open>One round of the loop over the endpoints: group its entries, or mark it invalid.\<close>

definition group_endpoint ::
  "policies \<Rightarrow> KrakenDEndpoint \<Rightarrow> (endpointKey, flatEndpoint list) gomap \<times> (NamespacedName, unit) gomap \<Rightarrow>
   (endpointKey, flatEndpoint list) gomap \<times> (NamespacedName, unit) gomap" where
  "group_endpoint policies ep = (\<lambda>(groups, invalid).
     if has_invalid_policy policies ep then (groups, mput (ep_key ep) () invalid)
     else (madds (map (\<lambda>fe. (key_of fe, fe)) (flat_entries ep)) groups, invalid))"

definition loser_conflict :: "flatEndpoint \<Rightarrow> flatEndpoint \<Rightarrow> NamespacedName \<times> EntryConflict" where
  "loser_conflict winner loser =
     (fe_Source loser, \<lparr>ec_Endpoint = en_Endpoint (fe_Entry loser), ec_Method = en_Method (fe_Entry loser),
                        ec_Winner = fe_Source winner, ec_Detail = []\<rparr>)"

definition resolve_group ::
  "flatEndpoint list \<Rightarrow> flatEndpoint list \<times> flatEndpoint list \<times> conflicts \<Rightarrow>
   flatEndpoint list \<times> flatEndpoint list \<times> conflicts" where
  "resolve_group grp = (\<lambda>(flat, shadowed, conflicted).
     if length grp \<le> 1 then (flat @ grp, shadowed, conflicted)
     else (let entries = sort_by servedBefore grp
           in (flat @ [hd entries], shadowed @ tl entries,
               madds (map (loser_conflict (hd entries)) (tl entries)) conflicted)))"

definition resolve_groups ::
  "flatEndpoint list list \<Rightarrow> flatEndpoint list \<times> flatEndpoint list \<times> conflicts" where
  "resolve_groups groups =
     (case fold resolve_group groups ([], [], []) of
        (flat, shadowed, conflicted) \<Rightarrow>
          (sort_by flat_less flat, shadowed,
           map (\<lambda>(nn, cs). (nn, sort_by conflict_less cs)) conflicted))"

definition endpoint_groups ::
  "KrakenDEndpoint list \<Rightarrow> policies \<Rightarrow>
   (endpointKey, flatEndpoint list) gomap \<times> (NamespacedName, unit) gomap" where
  "endpoint_groups endpoints policies = fold (group_endpoint policies) endpoints ([], [])"

definition flattenEndpoints ::
  "KrakenDEndpoint list \<Rightarrow> policies \<Rightarrow>
   flatEndpoint list \<times> flatEndpoint list \<times> conflicts \<times> (NamespacedName, unit) gomap" where
  "flattenEndpoints endpoints policies =
     (case endpoint_groups endpoints policies of
        (groups, invalid) \<Rightarrow>
          (case resolve_groups (map snd groups) of
             (flat, shadowed, conflicted) \<Rightarrow> (flat, shadowed, conflicted, invalid)))"

section \<open>The comparisons compare keys\<close>

definition served_key :: "flatEndpoint \<Rightarrow> int \<times> string \<times> nat" where
  "served_key a = (fe_CreationTimestampUnix a, nn_String (fe_Source a), fe_Index a)"

definition served_ok :: "flatEndpoint \<Rightarrow> bool" where
  "served_ok a \<longleftrightarrow> valid_nn (fe_Source a)"

interpretation served: keyed_less servedBefore served_key served_ok
proof
  fix a b assume "served_ok a" "served_ok b"
  then have "nn_String (fe_Source a) = nn_String (fe_Source b) \<longleftrightarrow> fe_Source a = fe_Source b"
    using nn_String_inj by (auto simp: served_ok_def)
  then show "servedBefore a b \<longleftrightarrow> served_key a < served_key b"
    by (auto simp: servedBefore_def served_key_def less_prod_def)
qed

definition conflict_key :: "EntryConflict \<Rightarrow> string \<times> string \<times> string" where
  "conflict_key c = (ec_Endpoint c, ec_Method c, nn_String (ec_Winner c))"

interpretation confl: keyed_less conflict_less conflict_key "\<lambda>_. True"
  by unfold_locales
    (auto simp: conflict_less_def compareConflicts_def cmp_Compare_def conflict_key_def less_prod_def)

definition flat_key :: "flatEndpoint \<Rightarrow> string \<times> string" where
  "flat_key a = (en_Endpoint (fe_Entry a), en_Method (fe_Entry a))"

interpretation flatord: keyed_less flat_less flat_key "\<lambda>_. True"
  by unfold_locales (auto simp: flat_less_def flat_key_def less_prod_def)

section \<open>The groups\<close>

definition all_flat :: "KrakenDEndpoint list \<Rightarrow> policies \<Rightarrow> flatEndpoint list" where
  "all_flat endpoints policies =
     concat (map flat_entries (filter (\<lambda>ep. \<not> has_invalid_policy policies ep) endpoints))"

lemma endpoint_groups_fold:
  "fold (group_endpoint policies) eps (g, i) =
     (madds (map (\<lambda>fe. (key_of fe, fe)) (all_flat eps policies)) g,
      fold (\<lambda>ep. mput (ep_key ep) ()) (filter (has_invalid_policy policies) eps) i)"
  by (induction eps arbitrary: g i) (auto simp: group_endpoint_def all_flat_def madds_append)

lemma endpoint_groups_eq:
  "endpoint_groups eps policies =
     (madds (map (\<lambda>fe. (key_of fe, fe)) (all_flat eps policies)) [],
      fold (\<lambda>ep. mput (ep_key ep) ()) (filter (has_invalid_policy policies) eps) [])"
  by (simp add: endpoint_groups_def endpoint_groups_fold)

text \<open>
  What the groups of a flattening are: non-empty, one key each, different keys, and together
  every entry once.
\<close>

definition proper_groups :: "flatEndpoint list list \<Rightarrow> flatEndpoint list \<Rightarrow> bool" where
  "proper_groups gs all \<longleftrightarrow>
     mset (concat gs) = mset all \<and>
     (\<forall>g \<in> set gs. g \<noteq> [] \<and> (\<forall>x \<in> set g. \<forall>y \<in> set g. key_of x = key_of y)) \<and>
     distinct (map (\<lambda>g. key_of (hd g)) gs)"

lemma proper_groups_perm: "proper_groups gs all \<Longrightarrow> mset gs' = mset gs \<Longrightarrow> proper_groups gs' all"
proof -
  assume p: "proper_groups gs all" and m: "mset gs' = mset gs"
  from m have s: "set gs' = set gs" by (metis set_mset_mset)
  have "mset (concat hs) = \<Sum>\<^sub># (image_mset mset (mset hs))" for hs :: "flatEndpoint list list"
    by (induction hs) auto
  then have "mset (concat gs') = mset (concat gs)" using m by simp
  moreover have "mset (map (\<lambda>g. key_of (hd g)) gs') = mset (map (\<lambda>g. key_of (hd g)) gs)"
    using m by simp
  then have "distinct (map (\<lambda>g. key_of (hd g)) gs')"
    using p mset_eq_imp_distinct_iff unfolding proper_groups_def by blast
  ultimately show ?thesis using p unfolding proper_groups_def s by (intro conjI) (simp only:, blast+)
qed

lemma madds_entry:
  "(k, g) \<in> set (madds (map (\<lambda>fe. (key_of fe, fe)) xs) []) \<Longrightarrow>
   g = filter (\<lambda>fe. key_of fe = k) xs \<and> g \<noteq> []"
proof -
  let ?m = "madds (map (\<lambda>fe. (key_of fe, fe)) xs) []"
  assume "(k, g) \<in> set ?m"
  then have "map_of ?m k = Some g" using mwf_distinct [of ?m] by simp
  then have "g = map snd (filter (\<lambda>p. fst p = k) (map (\<lambda>fe. (key_of fe, fe)) xs)) \<and> g \<noteq> []"
    by (rule madds_Some_iff [THEN iffD1])
  then show ?thesis by (auto simp: filter_map comp_def)
qed

lemma endpoint_groups_proper:
  "proper_groups (map snd (fst (endpoint_groups eps policies))) (all_flat eps policies)"
proof -
  let ?m = "madds (map (\<lambda>fe. (key_of fe, fe)) (all_flat eps policies)) []"
  have "mset (concat (map snd ?m)) = mset (all_flat eps policies)"
    by (simp add: mset_concat_madds comp_def)
  moreover have key: "key_of (hd g) = k \<and> g \<noteq> [] \<and> (\<forall>x \<in> set g. key_of x = k)" if "(k, g) \<in> set ?m" for k g
  proof -
    from madds_entry [OF that] have g: "g = filter (\<lambda>fe. key_of fe = k) (all_flat eps policies)" and ne: "g \<noteq> []"
      by auto
    then have "\<forall>x \<in> set g. key_of x = k" by auto
    then show ?thesis using ne hd_in_set [OF ne] by blast
  qed
  then have "\<forall>g \<in> set (map snd ?m). g \<noteq> [] \<and> (\<forall>x \<in> set g. \<forall>y \<in> set g. key_of x = key_of y)"
    by (metis (no_types, lifting) imageE list.set_map prod.collapse)
  moreover have "map (\<lambda>g. key_of (hd g)) (map snd ?m) = map fst ?m"
    using key by (auto simp: map_eq_conv)
  then have "distinct (map (\<lambda>g. key_of (hd g)) (map snd ?m))"
    by (simp only: mwf_distinct mwf_madds gm.wf_empty)
  ultimately show ?thesis unfolding proper_groups_def endpoint_groups_eq fst_conv by blast
qed

section \<open>Resolving the groups\<close>

abbreviation ranked :: "flatEndpoint list \<Rightarrow> flatEndpoint list" where
  "ranked g \<equiv> sort_by servedBefore g"

definition group_conflicts :: "flatEndpoint list \<Rightarrow> (NamespacedName \<times> EntryConflict) list" where
  "group_conflicts r = map (loser_conflict (hd r)) (tl r)"

lemma resolve_group_ranked:
  "g \<noteq> [] \<Longrightarrow> resolve_group g (f, s, c) =
     (f @ [hd (ranked g)], s @ tl (ranked g), madds (group_conflicts (ranked g)) c)"
proof (cases "length g \<le> 1")
  case True
  assume "g \<noteq> []"
  with True obtain x where "g = [x]" by (cases g) auto
  then show ?thesis by (simp add: resolve_group_def group_conflicts_def)
next
  case False
  then show ?thesis by (simp add: resolve_group_def group_conflicts_def Let_def)
qed

lemma fold_resolve_group:
  "(\<And>g. g \<in> set gs \<Longrightarrow> g \<noteq> []) \<Longrightarrow>
   fold resolve_group gs (f, s, c) =
     (f @ map hd (map ranked gs), s @ concat (map tl (map ranked gs)),
      madds (concat (map group_conflicts (map ranked gs))) c)"
  by (induction gs arbitrary: f s c) (auto simp: resolve_group_ranked madds_append)

text \<open>The outcome as a function of the ranked groups.\<close>

definition outcome :: "flatEndpoint list list \<Rightarrow> flatEndpoint list \<times> flatEndpoint list \<times> conflicts" where
  "outcome rs =
     (sort_by flat_less (map hd rs), concat (map tl rs),
      map (\<lambda>(nn, cs). (nn, sort_by conflict_less cs)) (madds (concat (map group_conflicts rs)) []))"

lemma resolve_groups_outcome:
  "proper_groups gs all \<Longrightarrow> resolve_groups gs = outcome (map ranked gs)"
  unfolding resolve_groups_def outcome_def
  by (subst fold_resolve_group) (auto simp: proper_groups_def)

lemma flattenEndpoints_outcome:
  assumes "flattenEndpoints eps policies = (flat, shadowed, conflicted, invalid)"
  shows "(flat, shadowed, conflicted) = outcome (map ranked (map snd (fst (endpoint_groups eps policies))))"
    and "invalid = snd (endpoint_groups eps policies)"
  using assms resolve_groups_outcome [OF endpoint_groups_proper, of eps policies]
  by (auto simp: flattenEndpoints_def split: prod.splits)

lemma proper_groups_ranked: "proper_groups gs all \<Longrightarrow> proper_groups (map ranked gs) all"
proof -
  assume p: "proper_groups gs all"
  have "mset (concat (map ranked hs)) = mset (concat hs)" for hs :: "flatEndpoint list list"
    by (induction hs) auto
  then have "mset (concat (map ranked gs)) = mset all" using p by (simp add: proper_groups_def)
  moreover have "key_of (hd (ranked g)) = key_of (hd g)" if "g \<in> set gs" for g
  proof -
    have ne: "g \<noteq> []" and same: "\<forall>x \<in> set g. \<forall>y \<in> set g. key_of x = key_of y"
      using p that unfolding proper_groups_def by blast+
    have "hd (ranked g) \<in> set g" using ne by (metis hd_in_set set_sort_by sort_by_Nil_iff)
    then show ?thesis using same hd_in_set [OF ne] by blast
  qed
  then have "map (\<lambda>g. key_of (hd g)) (map ranked gs) = map (\<lambda>g. key_of (hd g)) gs" by simp
  moreover have "\<forall>g \<in> set (map ranked gs). g \<noteq> [] \<and> (\<forall>x \<in> set g. \<forall>y \<in> set g. key_of x = key_of y)"
    using p unfolding proper_groups_def set_map by (metis (no_types, lifting) imageE set_sort_by sort_by_Nil_iff)
  ultimately show ?thesis using p unfolding proper_groups_def by presburger
qed

lemma hd_tl_partition:
  "(\<And>r. r \<in> set rs \<Longrightarrow> r \<noteq> []) \<Longrightarrow> mset (map hd rs) + mset (concat (map tl rs)) = mset (concat rs)"
proof (induction rs)
  case (Cons r rs)
  then obtain x xs where "r = x # xs" by (cases r) auto
  with Cons show ?case by simp
qed simp

text \<open>
  Every entry of every valid KrakenDEndpoint ends up exactly once in the flattened list or
  among the shadowed entries, and nothing else does.
\<close>

lemma flattenEndpoints_partition:
  "case flattenEndpoints eps policies of (flat, shadowed, conflicted, invalid) \<Rightarrow>
     mset flat + mset shadowed = mset (all_flat eps policies)"
proof -
  obtain flat shadowed conflicted invalid
    where f: "flattenEndpoints eps policies = (flat, shadowed, conflicted, invalid)"
    by (cases "flattenEndpoints eps policies") auto
  let ?rs = "map ranked (map snd (fst (endpoint_groups eps policies)))"
  have p: "proper_groups ?rs (all_flat eps policies)"
    by (intro proper_groups_ranked endpoint_groups_proper)
  have "mset flat + mset shadowed = mset (map hd ?rs) + mset (concat (map tl ?rs))"
    using flattenEndpoints_outcome(1) [OF f] by (simp only: outcome_def prod.inject mset_sort_by)
  also have "\<dots> = mset (concat ?rs)"
    by (rule hd_tl_partition) (use p in \<open>unfold proper_groups_def, blast\<close>)
  also have "\<dots> = mset (all_flat eps policies)" using p unfolding proper_groups_def by blast
  finally show ?thesis using f by simp
qed

lemma distinct_map_mset: "mset xs = mset ys \<Longrightarrow> distinct (map f xs) \<longleftrightarrow> distinct (map f ys)"
  by (metis mset_eq_imp_distinct_iff mset_map)

lemma outcome_keys:
  assumes p: "proper_groups rs all"
  shows "distinct (map key_of (map hd rs))" and "key_of ` set (map hd rs) = key_of ` set all"
proof -
  show "distinct (map key_of (map hd rs))" using p by (simp add: proper_groups_def comp_def)
  have all: "set all = \<Union> (set ` set rs)"
    using p unfolding proper_groups_def by (metis mset_eq_setD set_concat)
  show "key_of ` set (map hd rs) = key_of ` set all"
  proof (intro equalityI subsetI)
    fix k assume "k \<in> key_of ` set (map hd rs)"
    then obtain r where "r \<in> set rs" "k = key_of (hd r)" by auto
    moreover from this have "hd r \<in> set r" using p unfolding proper_groups_def by (metis hd_in_set)
    ultimately show "k \<in> key_of ` set all" using all by blast
  next
    fix k assume "k \<in> key_of ` set all"
    then obtain r x where r: "r \<in> set rs" "x \<in> set r" "k = key_of x" using all by auto
    then have "hd r \<in> set r" using p unfolding proper_groups_def by (metis hd_in_set)
    then have "k = key_of (hd r)" using p r unfolding proper_groups_def by blast
    then show "k \<in> key_of ` set (map hd rs)" using r by auto
  qed
qed

text \<open>
  The flattened list has exactly one entry per route key and method that occurs in a valid
  KrakenDEndpoint: no two of its entries share a key, and no key is lost.
\<close>

lemma flattenEndpoints_one_per_key:
  "case flattenEndpoints eps policies of (flat, shadowed, conflicted, invalid) \<Rightarrow>
     distinct (map key_of flat) \<and> key_of ` set flat = key_of ` set (all_flat eps policies)"
proof -
  obtain flat shadowed conflicted invalid
    where f: "flattenEndpoints eps policies = (flat, shadowed, conflicted, invalid)"
    by (cases "flattenEndpoints eps policies") auto
  let ?rs = "map ranked (map snd (fst (endpoint_groups eps policies)))"
  have p: "proper_groups ?rs (all_flat eps policies)"
    by (intro proper_groups_ranked endpoint_groups_proper)
  have flat: "flat = sort_by flat_less (map hd ?rs)"
    using flattenEndpoints_outcome(1) [OF f] by (simp only: outcome_def prod.inject)
  then have "distinct (map key_of flat)"
    using outcome_keys(1) [OF p] by (simp only: distinct_map_mset [OF mset_sort_by])
  moreover have "key_of ` set flat = key_of ` set (all_flat eps policies)"
    unfolding flat set_sort_by by (rule outcome_keys(2) [OF p])
  ultimately show ?thesis using f by simp
qed

lemma flattenEndpoints_subset:
  assumes f: "flattenEndpoints eps policies = (flat, shadowed, conflicted, invalid)"
  shows "set flat \<union> set shadowed \<subseteq> set (all_flat eps policies)" and "mwf conflicted"
proof -
  let ?rs = "map ranked (map snd (fst (endpoint_groups eps policies)))"
  have p: "proper_groups ?rs (all_flat eps policies)"
    by (intro proper_groups_ranked endpoint_groups_proper)
  have all: "set (all_flat eps policies) = \<Union> (set ` set ?rs)"
    using p unfolding proper_groups_def by (metis mset_eq_setD set_concat)
  have hd: "hd r \<in> set r" and tl: "set (tl r) \<subseteq> set r" if "r \<in> set ?rs" for r
    using p that unfolding proper_groups_def by (metis hd_in_set, metis list.set_sel(2) subsetI)
  have flat: "flat = sort_by flat_less (map hd ?rs)" and sh: "shadowed = concat (map tl ?rs)"
    and conf: "conflicted = map (\<lambda>(nn, cs). (nn, sort_by conflict_less cs)) (madds (concat (map group_conflicts ?rs)) [])"
    using flattenEndpoints_outcome(1) [OF f] by (simp_all only: outcome_def prod.inject)
  show "set flat \<union> set shadowed \<subseteq> set (all_flat eps policies)"
  proof
    fix x assume "x \<in> set flat \<union> set shadowed"
    then obtain r where "r \<in> set ?rs" "x = hd r \<or> x \<in> set (tl r)"
      unfolding flat sh set_sort_by set_concat set_map [of hd] set_map [of tl] by blast
    then show "x \<in> set (all_flat eps policies)" unfolding all using hd tl by blast
  qed
  show "mwf conflicted" unfolding conf by (rule mwf_map_values) (simp only: mwf_madds gm.wf_empty)
qed

subsection \<open>The winner is the oldest\<close>

definition valid_sources :: "KrakenDEndpoint list \<Rightarrow> bool" where
  "valid_sources eps \<longleftrightarrow> (\<forall>ep \<in> set eps. valid_nn (ep_key ep))"

lemma flat_entries_source: "fe \<in> set (flat_entries ep) \<Longrightarrow> fe_Source fe = ep_key ep"
  by (auto simp: flat_entries_def)

lemma all_flat_ok: "valid_sources eps \<Longrightarrow> fe \<in> set (all_flat eps policies) \<Longrightarrow> served_ok fe"
  by (auto simp: all_flat_def valid_sources_def served_ok_def flat_entries_source)

lemma ranked_hd_oldest:
  assumes ok: "\<And>x. x \<in> set g \<Longrightarrow> served_ok x" and x: "x \<in> set g"
  shows "\<not> servedBefore x (hd (ranked g))"
proof -
  obtain y ys where r: "ranked g = y # ys" using x by (cases "ranked g") auto
  then have y: "y \<in> set g" by (metis list.set_intros(1) set_sort_by)
  have "sorted (map served_key (ranked g))" by (rule served.sorted_keys) (rule ok)
  moreover have "x \<in> set (y # ys)" using x r by (metis set_sort_by)
  ultimately have "served_key y \<le> served_key x" using r by auto
  then show ?thesis using served.less_key [OF ok [OF x] ok [OF y]] r by auto
qed

lemma proper_groups_member:
  assumes p: "proper_groups gs all" and x: "x \<in> set all" and g: "g \<in> set gs" "y \<in> set g" "key_of x = key_of y"
  shows "x \<in> set g"
proof -
  have "x \<in> \<Union> (set ` set gs)" using p x unfolding proper_groups_def by (metis mset_eq_setD set_concat)
  then obtain h where h: "h \<in> set gs" "x \<in> set h" by blast
  have "hd g \<in> set g" "hd h \<in> set h" using p h g unfolding proper_groups_def by (metis hd_in_set)+
  then have "key_of (hd g) = key_of (hd h)"
    using p h g unfolding proper_groups_def by metis
  then have "g = h" using p h(1) g(1) unfolding proper_groups_def distinct_map inj_on_def by blast
  then show ?thesis using h by simp
qed

text \<open>
  C17: The entry served for a route was created no later than any other entry of that route:
  no entry of the same route comes before it in age, then name, then position.
\<close>

theorem flattenEndpoints_winner_oldest:
  assumes v: "valid_sources eps"
    and f: "flattenEndpoints eps policies = (flat, shadowed, conflicted, invalid)"
    and w: "w \<in> set flat" and e: "e \<in> set (all_flat eps policies)" and k: "key_of e = key_of w"
  shows "\<not> servedBefore e w"
proof -
  let ?gs = "map snd (fst (endpoint_groups eps policies))"
  note p = endpoint_groups_proper [of eps policies]
  have "flat = sort_by flat_less (map hd (map ranked ?gs))"
    using flattenEndpoints_outcome(1) [OF f] by (simp only: outcome_def prod.inject)
  with w obtain g where g: "g \<in> set ?gs" and wg: "w = hd (ranked g)" by auto
  have ne: "g \<noteq> []" using p g unfolding proper_groups_def by blast
  then have "w \<in> set g" unfolding wg by (metis hd_in_set set_sort_by sort_by_Nil_iff)
  then have "e \<in> set g" using proper_groups_member [OF p e g] k by blast
  moreover have "\<And>x. x \<in> set g \<Longrightarrow> served_ok x"
    using p g all_flat_ok [OF v] unfolding proper_groups_def by (metis UN_I mset_eq_setD set_concat)
  ultimately show ?thesis unfolding wg by (intro ranked_hd_oldest)
qed

subsection \<open>Recorded conflicts\<close>

lemma mlist_map_values: "S [] = [] \<Longrightarrow> mlist (map (\<lambda>(k, l). (k, S l)) m) k = S (mlist m k)"
  by (simp add: mlist_def map_of_map_values split: option.splits)

lemma outcome_conflicts:
  "c \<in> set (mlist (snd (snd (outcome rs))) nn) \<longleftrightarrow>
     (\<exists>r \<in> set rs. \<exists>l \<in> set (tl r). loser_conflict (hd r) l = (nn, c))"
proof -
  have "mlist (snd (snd (outcome rs))) nn = sort_by conflict_less
      (map snd (filter (\<lambda>p. fst p = nn) (concat (map group_conflicts rs))))"
    by (simp add: outcome_def mlist_map_values mlist_madds) (simp add: mlist_def)
  then show ?thesis by (force simp: group_conflicts_def)
qed

text \<open>
  The conflicts recorded for a KrakenDEndpoint are exactly those of its shadowed entries,
  each naming the source of the entry that is served for the same route and method.
\<close>

lemma flattenEndpoints_conflicts_exact:
  "case flattenEndpoints eps policies of (flat, shadowed, conflicted, invalid) \<Rightarrow>
     (c \<in> set (mlist conflicted nn) \<longleftrightarrow>
        (\<exists>l \<in> set shadowed. \<exists>w \<in> set flat. key_of w = key_of l \<and> loser_conflict w l = (nn, c)))"
proof -
  obtain flat shadowed conflicted invalid
    where f: "flattenEndpoints eps policies = (flat, shadowed, conflicted, invalid)"
    by (cases "flattenEndpoints eps policies") auto
  let ?rs = "map ranked (map snd (fst (endpoint_groups eps policies)))"
  have p: "proper_groups ?rs (all_flat eps policies)"
    by (intro proper_groups_ranked endpoint_groups_proper)
  have o: "flat = sort_by flat_less (map hd ?rs)" "shadowed = concat (map tl ?rs)"
    "conflicted = snd (snd (outcome ?rs))"
    using flattenEndpoints_outcome(1) [OF f] by (simp_all only: outcome_def prod.inject fst_conv snd_conv)
  have tl: "l \<in> set r" if "l \<in> set (tl r)" for l and r :: "flatEndpoint list"
    using that by (cases r) auto
  have "w = hd r" if "r \<in> set ?rs" "l \<in> set (tl r)" "w \<in> set (map hd ?rs)" "key_of w = key_of l" for w l r
  proof -
    from that(2) have "r \<noteq> []" by auto
    then have "key_of (hd r) = key_of l"
      using p that(1) tl [OF that(2)] hd_in_set unfolding proper_groups_def by blast
    moreover have "hd r \<in> set (map hd ?rs)" using that(1) by (metis imageI list.set_map)
    ultimately show ?thesis
      using outcome_keys(1) [OF p] that(3,4) unfolding distinct_map inj_on_def by metis
  qed
  moreover have "key_of (hd r) = key_of l \<and> hd r \<in> set (map hd ?rs)" if "r \<in> set ?rs" "l \<in> set (tl r)" for l r
  proof -
    from that(2) have "r \<noteq> []" by auto
    then show ?thesis
      using p that(1) tl [OF that(2)] hd_in_set unfolding proper_groups_def by (metis imageI list.set_map)
  qed
  ultimately have "c \<in> set (mlist conflicted nn) \<longleftrightarrow>
      (\<exists>l \<in> set shadowed. \<exists>w \<in> set flat. key_of w = key_of l \<and> loser_conflict w l = (nn, c))"
    unfolding o(3) outcome_conflicts unfolding o set_sort_by set_concat set_map [of tl] by blast
  then show ?thesis using f by simp
qed

subsection \<open>The order of the input does not matter\<close>

lemma served_key_inj:
  assumes v: "valid_sources eps" and d: "distinct (map ep_key eps)"
    and x: "x \<in> set (all_flat eps policies)" and y: "y \<in> set (all_flat eps policies)"
    and k: "served_key x = served_key y"
  shows "x = y"
proof -
  from x obtain e where e: "e \<in> set eps" "x \<in> set (flat_entries e)" by (auto simp: all_flat_def)
  from y obtain e' where e': "e' \<in> set eps" "y \<in> set (flat_entries e')" by (auto simp: all_flat_def)
  have "nn_String (ep_key e) = nn_String (ep_key e')"
    using k e e' by (simp add: served_key_def flat_entries_source)
  then have "ep_key e = ep_key e'" using v e e' by (auto simp: valid_sources_def intro: nn_String_inj)
  then have "e = e'" using d e e' by (auto simp: distinct_map inj_on_def)
  then show ?thesis
    using e(2) e'(2) k by (auto simp: flat_entries_def served_key_def in_set_enumerate_eq)
qed

lemma all_flat_perm: "mset eps' = mset eps \<Longrightarrow> mset (all_flat eps' policies) = mset (all_flat eps policies)"
proof -
  assume m: "mset eps' = mset eps"
  have "mset (all_flat es policies) =
      \<Sum>\<^sub># (image_mset (\<lambda>e. mset (flat_entries e)) (filter_mset (\<lambda>e. \<not> has_invalid_policy policies e) (mset es)))" for es
    by (induction es) (auto simp: all_flat_def)
  then show ?thesis using m by simp
qed

lemma ranked_groups_perm:
  assumes v: "valid_sources eps" and d: "distinct (map ep_key eps)" and m: "mset eps' = mset eps"
  shows "map ranked (map snd (fst (endpoint_groups eps' policies))) =
         map ranked (map snd (fst (endpoint_groups eps policies)))"
proof -
  let ?ps = "\<lambda>es. map (\<lambda>fe. (key_of fe, fe)) (all_flat es policies)"
  have "map (\<lambda>(k, l). (k, ranked l)) (madds (?ps eps') []) = map (\<lambda>(k, l). (k, ranked l)) (madds (?ps eps) [])"
  proof (rule madds_perm)
    show "mset (?ps eps') = mset (?ps eps)" using all_flat_perm [OF m] by (simp only: mset_map)
  next
    fix l l' assume l: "mset l' = mset l" "\<exists>k. l = map snd (filter (\<lambda>p. fst p = k) (?ps eps))"
    then have sub: "set l \<subseteq> set (all_flat eps policies)" by auto
    show "ranked l' = ranked l"
    proof (rule served.sort_by_mset_cong)
      show "inj_on served_key (set l)"
        using sub served_key_inj [OF v d] by (meson inj_on_def subsetD)
    qed (use l(1) sub all_flat_ok [OF v] in auto)
  qed
  from arg_cong [OF this, of "map snd"] show ?thesis
    by (simp add: endpoint_groups_eq comp_def split_def)
qed

lemma outcome_perm:
  assumes v: "\<And>x. x \<in> set all \<Longrightarrow> served_ok x" and p: "proper_groups rs all" and m: "mset rs' = mset rs"
  shows "fst (outcome rs') = fst (outcome rs)" and "snd (snd (outcome rs')) = snd (snd (outcome rs))"
proof -
  have "sort_by flat_less (map hd rs') = sort_by flat_less (map hd rs)"
  proof (rule flatord.sort_by_mset_cong)
    have "inj_on key_of (set (map hd rs))" using outcome_keys(1) [OF p] unfolding distinct_map by blast
    then show "inj_on flat_key (set (map hd rs))"
      by (simp only: inj_on_def flat_key_def key_of_def prod.inject) metis
  qed (use m in simp_all)
  then show "fst (outcome rs') = fst (outcome rs)" by (simp add: outcome_def)
  have src: "served_ok (hd r)" if "r \<in> set rs" for r
  proof (rule v)
    have "hd r \<in> set r" using p that unfolding proper_groups_def by (metis hd_in_set)
    then show "hd r \<in> set all" using p that unfolding proper_groups_def by (metis UN_I mset_eq_setD set_concat)
  qed
  have eq: "mset (concat (map group_conflicts hs)) = \<Sum>\<^sub># (image_mset (\<lambda>r. mset (group_conflicts r)) (mset hs))" for hs
    by (induction hs) auto
  have "map (\<lambda>(nn, cs). (nn, sort_by conflict_less cs)) (madds (concat (map group_conflicts rs')) []) =
        map (\<lambda>(nn, cs). (nn, sort_by conflict_less cs)) (madds (concat (map group_conflicts rs)) [])"
  proof (rule madds_perm)
    show "mset (concat (map group_conflicts rs')) = mset (concat (map group_conflicts rs))" using m by (simp only: eq)
  next
    fix l l' assume l: "mset l' = mset l"
      "\<exists>k. l = map snd (filter (\<lambda>p. fst p = k) (concat (map group_conflicts rs)))"
    have c: "\<exists>r \<in> set rs. \<exists>x. c = snd (loser_conflict (hd r) x)" if "c \<in> set l" for c
      using l(2) that by (auto simp: group_conflicts_def) blast
    show "sort_by conflict_less l' = sort_by conflict_less l"
    proof (rule confl.sort_by_mset_cong)
      have "c = c'" if "c \<in> set l" "c' \<in> set l" "conflict_key c = conflict_key c'" for c c'
        using c [OF that(1)] c [OF that(2)] that(3) src nn_String_inj
        by (fastforce simp: loser_conflict_def conflict_key_def served_ok_def)
      then show "inj_on conflict_key (set l)" by (intro inj_onI)
    qed (use l(1) in simp_all)
  qed
  then show "snd (snd (outcome rs')) = snd (snd (outcome rs))" by (simp add: outcome_def)
qed


section \<open>Sample inputs\<close>

definition ex_entry :: "string \<Rightarrow> string \<Rightarrow> EndpointEntry" where
  "ex_entry meth path =
     \<lparr>en_Endpoint = path, en_Method = meth, en_Backends = [], en_Timeout = None, en_CacheTTL = None,
      en_InputHeaders = None, en_InputQueryStrings = None, en_OutputEncoding = [],
      en_ConcurrentCalls = None, en_ExtraConfig = None\<rparr>"

definition ex_ep :: "string \<Rightarrow> int \<Rightarrow> EndpointEntry list \<Rightarrow> KrakenDEndpoint" where
  "ex_ep name created entries =
     \<lparr>ep_Name = name, ep_Namespace = ''ns'', ep_UID = name, ep_ResourceVersion = [], ep_Labels = [], ep_Controller = None, ep_Deleting = False,
       ep_Generation = 1, ep_CreationTimestamp = created,
      ep_Spec = \<lparr>es_GatewayRef = \<lparr>gr_Name = ''gw'', gr_Namespace = []\<rparr>, es_Endpoints = entries,
                 es_ComponentSchemas = []\<rparr>, ep_Status = zero_endpoint_status\<rparr>"

definition ex_eps :: "KrakenDEndpoint list" where
  "ex_eps =
     [ex_ep ''a'' 2 [ex_entry ''GET'' ''/u/{id}'', ex_entry ''GET'' ''/v''],
      ex_ep ''b'' 1 [ex_entry ''GET'' ''/u/{name}'']]"

definition ex_flat :: "string \<Rightarrow> int \<Rightarrow> nat \<Rightarrow> string \<Rightarrow> flatEndpoint" where
  "ex_flat name created idx path =
     \<lparr>fe_Entry = ex_entry ''GET'' path, fe_Source = NamespacedName ''ns'' name,
      fe_CreationTimestampUnix = created, fe_Index = idx\<rparr>"

text \<open>
  The older endpoint \<open>b\<close> keeps the shared route; the entry of \<open>a\<close> is shadowed and recorded.
\<close>

lemma ex_flatten:
  "flattenEndpoints ex_eps [] =
     ([ex_flat ''b'' 1 0 ''/u/{name}'', ex_flat ''a'' 2 1 ''/v''], [ex_flat ''a'' 2 0 ''/u/{id}''],
      [(NamespacedName ''ns'' ''a'',
        [\<lparr>ec_Endpoint = ''/u/{id}'', ec_Method = ''GET'', ec_Winner = NamespacedName ''ns'' ''b'', ec_Detail = []\<rparr>])],
      [])"
  by code_simp

theorem flattenEndpoints_winner_oldest_witness:
  "\<not> servedBefore (ex_flat ''a'' 2 0 ''/u/{id}'') (ex_flat ''b'' 1 0 ''/u/{name}'')"
  by (rule flattenEndpoints_winner_oldest [OF _ ex_flatten]) code_simp+


end
