(* ===== verification/RouteCheck.thy ===== *)
theory RouteCheck
  imports Flatten
begin

text \<open>
  The route check of \<^verbatim>\<open>renderer/routecheck.go\<close>: it registers every route of a configuration
  in a gin engine and reports the registrations gin refuses.

  gin is a third-party package. It is the parameter \<open>gin\<close>: the refusal (the empty string when
  there is none) a fresh engine gives to a registration after a history of registrations. An
  engine is the history of registrations attempted on it, refused ones included, so nothing is
  assumed about the tree gin leaves behind after a refusal. The context's \<^verbatim>\<open>ctx.Err()\<close> is the
  parameter \<open>ctx\<close>: the error found at the n-th poll, if any.
\<close>

section \<open>Routes and engines\<close>

type_synonym gin_reg = "string \<times> string \<times> bool"

type_synonym gin_engine = "gin_reg list"

type_synonym gin_router = "gin_engine \<Rightarrow> gin_reg \<Rightarrow> string"

type_synonym ctx = "nat \<Rightarrow> string option"

record ginRoute =
  gr_index :: int
  gr_method :: string
  gr_path :: string
  gr_any :: bool

record routeRefusal =
  rr_index :: int
  rr_message :: string

definition gatewayRoute :: int where
  "gatewayRoute = - 1"

definition reg_of :: "ginRoute \<Rightarrow> gin_reg" where
  "reg_of r = (if gr_any r then [] else gr_method r, gr_path r, gr_any r)"

text \<open>\<^verbatim>\<open>gin.New()\<close>\<close>

definition gin_New :: gin_engine where
  "gin_New = []"

definition registerRoute :: "gin_router \<Rightarrow> gin_engine \<Rightarrow> ginRoute \<Rightarrow> gin_engine \<times> string" where
  "registerRoute gin engine r = (engine @ [reg_of r], gin engine (reg_of r))"

definition engineWith :: "gin_router \<Rightarrow> ginRoute list \<Rightarrow> gin_engine" where
  "engineWith gin routes = fold (\<lambda>r engine. fst (registerRoute gin engine r)) routes gin_New"

definition describe :: "ginRoute \<Rightarrow> string" where
  "describe r = (if gr_any r then ''any method '' @ gr_path r else gr_method r @ '' '' @ gr_path r)"

definition refusal_line :: "routeRefusal \<Rightarrow> ginRoute \<Rightarrow> string" where
  "refusal_line f r =
     (if rr_index f = gatewayRoute then ''- gateway route '' @ describe r @ '': '' @ rr_message f
      else ''- at '' @ [CHR 0x27] @ ''/endpoints/'' @ itoa (rr_index f) @ ''/endpoint'' @ [CHR 0x27] @ '': ''
        @ rr_message f)"

section \<open>Reading the configuration\<close>

text \<open>
  \<^verbatim>\<open>json.Unmarshal\<close> into a string or bool field: null leaves the field, a value of another
  type is an error.
\<close>

fun decode_string :: "json \<Rightarrow> string \<Rightarrow> string option" where
  "decode_string JNull old = Some old"
| "decode_string (JStr s) old = Some s"
| "decode_string _ old = None"

fun decode_bool :: "json \<Rightarrow> bool \<Rightarrow> bool option" where
  "decode_bool JNull old = Some old"
| "decode_bool (JBool b) old = Some b"
| "decode_bool _ old = None"

record RouterOptions =
  ro_HealthPath :: string
  ro_DisableHealth :: bool
  ro_AutoOptions :: bool

definition no_options :: RouterOptions where
  "no_options = \<lparr>ro_HealthPath = [], ro_DisableHealth = False, ro_AutoOptions = False\<rparr>"

text \<open>\<^verbatim>\<open>encoding/json\<close> matches member names to fields without regard to case.\<close>

definition decode_option :: "string \<times> json \<Rightarrow> RouterOptions \<Rightarrow> RouterOptions option" where
  "decode_option p o' =
     (if EqualFold (fst p) ''health_path''
      then map_option (\<lambda>v. o'\<lparr>ro_HealthPath := v\<rparr>) (decode_string (snd p) (ro_HealthPath o'))
      else if EqualFold (fst p) ''disable_health''
      then map_option (\<lambda>v. o'\<lparr>ro_DisableHealth := v\<rparr>) (decode_bool (snd p) (ro_DisableHealth o'))
      else if EqualFold (fst p) ''auto_options''
      then map_option (\<lambda>v. o'\<lparr>ro_AutoOptions := v\<rparr>) (decode_bool (snd p) (ro_AutoOptions o'))
      else Some o')"

fun decode_options :: "(string \<times> json) list \<Rightarrow> RouterOptions \<Rightarrow> RouterOptions option" where
  "decode_options [] o' = Some o'"
| "decode_options (p # ps) o' =
     (case decode_option p o' of None \<Rightarrow> None | Some o'' \<Rightarrow> decode_options ps o'')"

fun ParseRouterOptions :: "json \<Rightarrow> RouterOptions" where
  "ParseRouterOptions (JObj m) = (case decode_options m no_options of None \<Rightarrow> no_options | Some o' \<Rightarrow> o')"
| "ParseRouterOptions _ = no_options"

definition DefaultHealthPath :: string where
  "DefaultHealthPath = ''/__health''"

definition HealthRoute :: "RouterOptions \<Rightarrow> string" where
  "HealthRoute o' =
     (if ro_DisableHealth o' then []
      else if ro_HealthPath o' \<noteq> [] then ro_HealthPath o'
      else DefaultHealthPath)"

record routedConfig =
  rc_Debug :: bool
  rc_Echo :: bool
  rc_ExtraConfig :: jmap
  rc_Endpoints :: "(string \<times> string) list"

text \<open>
  Decoding a rendered document. Its member names are the operator's own, so they are looked up
  as written. \<open>None\<close> is a type error.
\<close>

definition member :: "jmap \<Rightarrow> string \<Rightarrow> json" where
  "member m k = (case map_of m k of None \<Rightarrow> JNull | Some v \<Rightarrow> v)"

fun decode_endpoint :: "json \<Rightarrow> (string \<times> string) option" where
  "decode_endpoint JNull = Some ([], [])"
| "decode_endpoint (JObj m) =
     (case (decode_string (member m ''endpoint'') [], decode_string (member m ''method'') []) of
        (Some e, Some meth) \<Rightarrow> Some (e, meth)
      | _ \<Rightarrow> None)"
| "decode_endpoint _ = None"

fun decode_endpoints :: "json list \<Rightarrow> (string \<times> string) list option" where
  "decode_endpoints [] = Some []"
| "decode_endpoints (j # js) =
     (case (decode_endpoint j, decode_endpoints js) of (Some e, Some es) \<Rightarrow> Some (e # es) | _ \<Rightarrow> None)"

fun decode_routed :: "json \<Rightarrow> routedConfig option" where
  "decode_routed (JObj m) =
     (case (decode_bool (member m ''debug_endpoint'') False, decode_bool (member m ''echo_endpoint'') False,
            unmarshal_map (member m ''extra_config''),
            case member m ''endpoints'' of JArr xs \<Rightarrow> decode_endpoints xs | JNull \<Rightarrow> Some [] | _ \<Rightarrow> None) of
        (Some d, Some e, Some ec, Some eps) \<Rightarrow>
          Some \<lparr>rc_Debug = d, rc_Echo = e, rc_ExtraConfig = ec, rc_Endpoints = eps\<rparr>
      | _ \<Rightarrow> None)"
| "decode_routed JNull = Some \<lparr>rc_Debug = False, rc_Echo = False, rc_ExtraConfig = [], rc_Endpoints = []\<rparr>"
| "decode_routed _ = None"

section \<open>The registrations, in the runtime's order\<close>

definition first_by_path :: "(string \<times> string) list \<Rightarrow> (string, nat) gomap" where
  "first_by_path eps =
     fold (\<lambda>(i, e, meth) m. case map_of m (ginPath e) of None \<Rightarrow> mput (ginPath e) i m | Some _ \<Rightarrow> m)
       (enumerate 0 eps) []"

definition ginRoutesOf :: "routedConfig \<Rightarrow> ginRoute list" where
  "ginRoutesOf cfg =
     (let opts = (case map_of (rc_ExtraConfig cfg) ''router'' of
                    None \<Rightarrow> no_options | Some raw \<Rightarrow> ParseRouterOptions raw);
          health = HealthRoute opts
      in (if health \<noteq> []
          then [\<lparr>gr_index = gatewayRoute, gr_method = ''GET'', gr_path = health, gr_any = False\<rparr>] else [])
       @ (if rc_Debug cfg
          then [\<lparr>gr_index = gatewayRoute, gr_method = [], gr_path = ''/__debug/*param'', gr_any = True\<rparr>] else [])
       @ (if rc_Echo cfg
          then [\<lparr>gr_index = gatewayRoute, gr_method = [], gr_path = ''/__echo/*param'', gr_any = True\<rparr>] else [])
       @ map (\<lambda>(i, e, meth). \<lparr>gr_index = int i, gr_method = ToUpper meth, gr_path = ginPath e, gr_any = False\<rparr>)
           (enumerate 0 (rc_Endpoints cfg))
       @ (if ro_AutoOptions opts
          then map (\<lambda>(p, i). \<lparr>gr_index = int i, gr_method = ''OPTIONS'', gr_path = p, gr_any = False\<rparr>)
                 (first_by_path (rc_Endpoints cfg))
          else []))"

section \<open>The check\<close>

definition MaxRouteRefusals :: nat where
  "MaxRouteRefusals = 21"

fun clash_scan ::
  "gin_router \<Rightarrow> ctx \<Rightarrow> nat \<Rightarrow> ginRoute list \<Rightarrow> ginRoute \<Rightarrow> string \<Rightarrow> string + routeRefusal list \<times> nat" where
  "clash_scan gin ctx n [] r refusal = Inr ([\<lparr>rr_index = gr_index r, rr_message = refusal\<rparr>], n)"
| "clash_scan gin ctx n (a # as) r refusal =
     (case ctx n of
        Some e \<Rightarrow> Inl (''route check did not finish: '' @ e)
      | None \<Rightarrow>
          if snd (registerRoute gin (engineWith gin [a]) r) = [] then clash_scan gin ctx (Suc n) as r refusal
          else if gr_index a = gatewayRoute
          then Inr ([\<lparr>rr_index = gr_index r,
                      rr_message = refusal @ '' ('' @ describe a @ '' is the gateway'' @ [CHR 0x27] @ ''s own route)''\<rparr>], Suc n)
          else if gr_index a \<noteq> gr_index r
          then Inr ([\<lparr>rr_index = gr_index r, rr_message = refusal\<rparr>,
                     \<lparr>rr_index = gr_index a,
                      rr_message = describe a @ '' clashes with '' @ describe r @ '': '' @ refusal\<rparr>], Suc n)
          else Inr ([\<lparr>rr_index = gr_index r, rr_message = refusal\<rparr>], Suc n))"

definition clashRefusals ::
  "gin_router \<Rightarrow> ctx \<Rightarrow> nat \<Rightarrow> ginRoute list \<Rightarrow> ginRoute \<Rightarrow> string \<Rightarrow> string + routeRefusal list \<times> nat" where
  "clashRefusals gin ctx n accepted r refusal =
     (if snd (registerRoute gin gin_New r) \<noteq> []
      then Inr ([\<lparr>rr_index = gr_index r, rr_message = refusal\<rparr>], n)
      else clash_scan gin ctx n accepted r refusal)"

definition groupRefusal :: "ginRoute \<Rightarrow> routeRefusal list \<Rightarrow> string" where
  "groupRefusal r clashes = Join (map (\<lambda>f. refusal_line f r) clashes) [CHR 0x0A]"

text \<open>One iteration per route; \<open>engine\<close>, \<open>accepted\<close> and \<open>refusals\<close> are the loop's variables.\<close>

fun route_loop ::
  "gin_router \<Rightarrow> ctx \<Rightarrow> nat \<Rightarrow> gin_engine \<Rightarrow> ginRoute list \<Rightarrow> string list \<Rightarrow> ginRoute list \<Rightarrow>
   string + string list \<times> bool" where
  "route_loop gin ctx n engine accepted refusals [] = Inr (refusals, False)"
| "route_loop gin ctx n engine accepted refusals (r # rs) =
     (case ctx n of
        Some e \<Rightarrow> Inl (''route check did not finish: '' @ e)
      | None \<Rightarrow>
          (case registerRoute gin engine r of (engine', refusal) \<Rightarrow>
             if refusal = [] then route_loop gin ctx (Suc n) engine' (accepted @ [r]) refusals rs
             else (case clashRefusals gin ctx (Suc n) accepted r refusal of
                     Inl e \<Rightarrow> Inl e
                   | Inr (clashes, n') \<Rightarrow>
                       (let refusals' = refusals @ [groupRefusal r clashes]
                        in if length refusals' = MaxRouteRefusals then Inr (refusals', True)
                           else route_loop gin ctx n' (engineWith gin accepted) accepted refusals' rs))))"

text \<open>\<open>doc\<close> is \<open>None\<close> when the bytes are not JSON.\<close>

definition routeRefusals :: "gin_router \<Rightarrow> ctx \<Rightarrow> json option \<Rightarrow> string + string list \<times> bool" where
  "routeRefusals gin ctx doc =
     (case doc of
        None \<Rightarrow> Inl ''decoding config for the route check''
      | Some j \<Rightarrow>
          (case decode_routed j of
             None \<Rightarrow> Inr ([], False)
           | Some cfg \<Rightarrow> route_loop gin ctx 0 gin_New [] [] (ginRoutesOf cfg)))"

definition refusalLines :: "string list \<Rightarrow> bool \<Rightarrow> string list" where
  "refusalLines refusals capped =
     concat (map (SplitChar (CHR 0x0A)) refusals)
     @ (if capped then [''- route check stopped after '' @ itoa (int MaxRouteRefusals) @ '' refused routes''] else [])"

section \<open>What gin accepts\<close>

text \<open>Every route is accepted when the routes are registered one after another.\<close>

fun all_accepted :: "gin_router \<Rightarrow> gin_engine \<Rightarrow> ginRoute list \<Rightarrow> bool" where
  "all_accepted gin engine [] = True"
| "all_accepted gin engine (r # rs) =
     (gin engine (reg_of r) = [] \<and> all_accepted gin (engine @ [reg_of r]) rs)"

text \<open>
  The specification of the check: go through the routes, keep what a router that holds exactly
  the routes kept so far accepts, and collect the rest.
\<close>

fun greedy :: "gin_router \<Rightarrow> ginRoute list \<Rightarrow> ginRoute list \<Rightarrow> ginRoute list \<times> ginRoute list" where
  "greedy gin kept [] = (kept, [])"
| "greedy gin kept (r # rs) =
     (if gin (map reg_of kept) (reg_of r) = [] then greedy gin (kept @ [r]) rs
      else (case greedy gin kept rs of (k, refused) \<Rightarrow> (k, r # refused)))"

lemma engineWith_map [simp]: "engineWith gin rs = map reg_of rs"
proof -
  have "fold (\<lambda>r engine. fst (registerRoute gin engine r)) rs e = e @ map reg_of rs" for e
    by (induction rs arbitrary: e) (auto simp: registerRoute_def)
  then show ?thesis by (simp add: engineWith_def gin_New_def)
qed

lemma all_accepted_append:
  "all_accepted gin e (xs @ ys) \<longleftrightarrow> all_accepted gin e xs \<and> all_accepted gin (e @ map reg_of xs) ys"
  by (induction xs arbitrary: e) auto

lemma greedy_accepted:
  "all_accepted gin [] kept \<Longrightarrow> all_accepted gin [] (fst (greedy gin kept rs))"
  by (induction gin kept rs rule: greedy.induct) (auto simp: all_accepted_append split: prod.splits)

lemma greedy_none_refused:
  "snd (greedy gin kept rs) = [] \<longleftrightarrow> all_accepted gin (map reg_of kept) rs"
  by (induction gin kept rs rule: greedy.induct) (auto split: prod.splits)

lemma clash_scan_Inr:
  "(\<And>i. ctx i = None) \<Longrightarrow> \<exists>clashes n'. clash_scan gin ctx n as r refusal = Inr (clashes, n')"
  by (induction gin ctx n as r refusal rule: clash_scan.induct) auto

lemma clashRefusals_Inr:
  "(\<And>i. ctx i = None) \<Longrightarrow> \<exists>clashes n'. clashRefusals gin ctx n as r refusal = Inr (clashes, n')"
  unfolding clashRefusals_def using clash_scan_Inr [of ctx gin n as r refusal] by auto

lemma route_loop_count:
  assumes "\<And>i. ctx i = None" and "length refusals < MaxRouteRefusals"
  shows "\<exists>msgs capped. route_loop gin ctx n (map reg_of accepted) accepted refusals rs = Inr (msgs, capped) \<and>
           length msgs = min MaxRouteRefusals (length refusals + length (snd (greedy gin accepted rs))) \<and>
           (capped \<longleftrightarrow> MaxRouteRefusals \<le> length refusals + length (snd (greedy gin accepted rs)))"
  using assms(2)
proof (induction rs arbitrary: n accepted refusals)
  case Nil
  then show ?case by auto
next
  case (Cons r rs)
  have n: "ctx n = None" by (rule assms(1))
  show ?case
  proof (cases "gin (map reg_of accepted) (reg_of r) = []")
    case True
    then show ?thesis
      using n Cons.IH [of refusals "Suc n" "accepted @ [r]"] Cons.prems by (simp add: registerRoute_def)
  next
    case False
    obtain clashes n' where c: "clashRefusals gin ctx (Suc n) accepted r (gin (map reg_of accepted) (reg_of r)) = Inr (clashes, n')"
      using clashRefusals_Inr [of ctx] assms(1) by blast
    let ?refusals = "refusals @ [groupRefusal r clashes]"
    show ?thesis
    proof (cases "length ?refusals = MaxRouteRefusals")
      case True
      then show ?thesis using n False c by (auto simp: registerRoute_def split: prod.splits)
    next
      case not_capped: False
      then have "length ?refusals < MaxRouteRefusals" using Cons.prems by simp
      from Cons.IH [OF this, of n' accepted] show ?thesis
        using n False c not_capped by (auto simp: registerRoute_def split: prod.splits)
    qed
  qed
qed

lemma route_check_greedy:
  assumes "\<And>i. ctx i = None"
  shows "\<exists>msgs capped. route_loop gin ctx 0 gin_New [] [] rs = Inr (msgs, capped) \<and>
           length msgs = min MaxRouteRefusals (length (snd (greedy gin [] rs))) \<and>
           (capped \<longleftrightarrow> MaxRouteRefusals \<le> length (snd (greedy gin [] rs)))"
  using route_loop_count [of ctx "[]" gin 0 "[]" rs] assms by (simp add: gin_New_def MaxRouteRefusals_def)

text \<open>
  When its context is not cancelled, the route check returns, and reports one group of
  refusals for each route that gin refuses next to the routes accepted before it, up to
  \<open>MaxRouteRefusals\<close>, and it reports being capped exactly when there are that many.
\<close>

lemma routeRefusals_count:
  assumes "\<And>i. ctx i = None" and "decode_routed j = Some cfg"
  shows "\<exists>msgs capped. routeRefusals gin ctx (Some j) = Inr (msgs, capped) \<and>
           length msgs = min MaxRouteRefusals (length (snd (greedy gin [] (ginRoutesOf cfg)))) \<and>
           (capped \<longleftrightarrow> MaxRouteRefusals \<le> length (snd (greedy gin [] (ginRoutesOf cfg))))"
  using route_check_greedy [of ctx gin "ginRoutesOf cfg"] assms by (simp add: routeRefusals_def)

text \<open>
  An uncancelled route check finds nothing exactly when gin accepts every route of the
  configuration, registered one after another in the order the runtime registers them.
\<close>

lemma routeRefusals_clean_iff:
  assumes "\<And>i. ctx i = None" and "decode_routed j = Some cfg"
  shows "routeRefusals gin ctx (Some j) = Inr ([], False) \<longleftrightarrow> all_accepted gin gin_New (ginRoutesOf cfg)"
proof -
  from route_check_greedy [of ctx gin "ginRoutesOf cfg"] assms(1)
  obtain msgs capped where r: "routeRefusals gin ctx (Some j) = Inr (msgs, capped)"
    and l: "length msgs = min MaxRouteRefusals (length (snd (greedy gin [] (ginRoutesOf cfg))))"
    and c: "capped \<longleftrightarrow> MaxRouteRefusals \<le> length (snd (greedy gin [] (ginRoutesOf cfg)))"
    using assms(2) by (auto simp: routeRefusals_def)
  have "msgs = [] \<and> \<not> capped \<longleftrightarrow> snd (greedy gin [] (ginRoutesOf cfg)) = []"
    using l c by (auto simp: MaxRouteRefusals_def)
  then show ?thesis using r greedy_none_refused [of gin "[]"] by (simp add: gin_New_def)
qed

section \<open>Sample router\<close>

text \<open>
  A router that refuses a second registration of a method and path, as gin does.
\<close>

definition ex_gin :: gin_router where
  "ex_gin engine reg =
     (if reg \<in> set engine then ''handlers are already registered for path '' @ fst (snd reg) else [])"

definition ex_doc :: json where
  "ex_doc = JObj [(''endpoints'', JArr [JObj [(''endpoint'', JStr ''/a''), (''method'', JStr ''GET'')],
                                       JObj [(''endpoint'', JStr ''/__health''), (''method'', JStr ''GET'')]])]"

definition ex_cfg :: routedConfig where
  "ex_cfg = \<lparr>rc_Debug = False, rc_Echo = False, rc_ExtraConfig = [],
             rc_Endpoints = [(''/a'', ''GET''), (''/__health'', ''GET'')]\<rparr>"

end
