(* ===== verification/RouteAdmit.thy ===== *)
theory RouteAdmit
  imports RouteCheck
begin

text \<open>
  Admission of the flattened entries to KrakenD's router: \<^verbatim>\<open>renderer/routeadmit.go\<close>. The
  loop of \<open>routeLosers\<close> is \<open>admit_loop\<close> over the positions in serving order, one
  \<open>admit_entry\<close> per entry, on a record of the loop's variables.
\<close>

section \<open>Data\<close>

record routeRules =
  ru_autoOptions :: bool
  ru_eeWildcards :: bool

record routedRoute =
  rd_route :: ginRoute
  rd_source :: NamespacedName

record routedEntry =
  re_method :: string
  re_path :: string
  re_shape :: string
  re_source :: NamespacedName

record routerClash =
  cl_winner :: NamespacedName
  cl_detail :: string

record admitState =
  ad_losers :: "(nat, EntryConflict list) gomap"
  ad_capped :: bool
  ad_served :: "routedRoute list"
  ad_dropped :: "routedRoute list"
  ad_older :: "routedEntry list"
  ad_own :: "(NamespacedName, ginRoute list) gomap"
  ad_ownEngines :: "(NamespacedName, gin_engine) gomap"
  ad_options :: "(string, bool) gomap"
  ad_engine :: gin_engine
  ad_refusals :: nat

section \<open>Routes of an entry\<close>

definition servingOrder :: "flatEndpoint list \<Rightarrow> nat list" where
  "servingOrder flat = sort_by (\<lambda>x y. servedBefore (flat ! x) (flat ! y)) [0 ..< length flat]"

definition entryMethod :: "string \<Rightarrow> string" where
  "entryMethod meth = (if meth = [] then ''GET'' else ToUpper meth)"

definition plain_route :: "string \<Rightarrow> string \<Rightarrow> ginRoute" where
  "plain_route meth p = \<lparr>gr_index = 0, gr_method = meth, gr_path = p, gr_any = False\<rparr>"

definition entryRoutes :: "string \<Rightarrow> string \<Rightarrow> routeRules \<Rightarrow> (string, bool) gomap \<Rightarrow> ginRoute list" where
  "entryRoutes meth path rules options =
     (let p = (if ru_eeWildcards rules then routeShape path else ginPath path)
      in plain_route meth p
         # (if ru_autoOptions rules \<and> map_of options p \<noteq> Some True then [plain_route ''OPTIONS'' p] else []))"

definition refusedAlone :: "gin_router \<Rightarrow> ginRoute list \<Rightarrow> bool" where
  "refusedAlone gin routes = list_ex (\<lambda>r. snd (registerRoute gin gin_New r) \<noteq> []) routes"

definition sharedOptions :: "ginRoute \<Rightarrow> ginRoute \<Rightarrow> bool" where
  "sharedOptions a b \<longleftrightarrow> gr_method a = ''OPTIONS'' \<and> gr_method b = ''OPTIONS'' \<and> gr_path a = gr_path b"

text \<open>Registering stops at the first refusal, which leaves the attempt in the engine.\<close>

fun registerAll :: "gin_router \<Rightarrow> gin_engine \<Rightarrow> ginRoute list \<Rightarrow> gin_engine \<times> bool" where
  "registerAll gin engine [] = (engine, True)"
| "registerAll gin engine (r # rs) =
     (case registerRoute gin engine r of
        (engine', refusal) \<Rightarrow> if refusal \<noteq> [] then (engine', False) else registerAll gin engine' rs)"

definition routesOf :: "routedRoute list \<Rightarrow> ginRoute list" where
  "routesOf routed = map rd_route routed"

definition refusedByOwn ::
  "gin_router \<Rightarrow> (NamespacedName, gin_engine) gomap \<Rightarrow> (NamespacedName, ginRoute list) gomap \<Rightarrow>
   NamespacedName \<Rightarrow> ginRoute list \<Rightarrow> (NamespacedName, gin_engine) gomap \<times> bool" where
  "refusedByOwn gin engines own source routes =
     (let engine = (case map_of engines source of None \<Rightarrow> gin_New | Some e \<Rightarrow> e)
      in case registerAll gin engine routes of
           (engine', True) \<Rightarrow> (mput source engine' engines, False)
         | (engine', False) \<Rightarrow> (mput source (engineWith gin (mlist own source)) engines, True))"

section \<open>Clashes with older entries\<close>

definition withClashes :: "routerClash list \<Rightarrow> routerClash list \<Rightarrow> routerClash list" where
  "withClashes clashes extra =
     fold (\<lambda>m cs. if list_ex (\<lambda>c. cl_winner c = cl_winner m) cs then cs else cs @ [m]) extra clashes"

text \<open>The first of \<open>routes\<close> that gin refuses next to \<open>a\<close> alone.\<close>

fun first_refused :: "gin_router \<Rightarrow> ginRoute \<Rightarrow> ginRoute list \<Rightarrow> (ginRoute \<times> string) option" where
  "first_refused gin a [] = None"
| "first_refused gin a (r # rs) =
     (if sharedOptions a r then first_refused gin a rs
      else (let refusal = snd (registerRoute gin (engineWith gin [a]) r)
            in if refusal \<noteq> [] then Some (r, refusal) else first_refused gin a rs))"

definition pairwiseClashes ::
  "gin_router \<Rightarrow> routedRoute list \<Rightarrow> NamespacedName \<Rightarrow> ginRoute list \<Rightarrow> routerClash list" where
  "pairwiseClashes gin against source routes =
     fst (fold (\<lambda>a (clashes, seen).
            if rd_source a = source \<or> rd_source a \<in> set seen then (clashes, seen)
            else (case first_refused gin (rd_route a) routes of
                    None \<Rightarrow> (clashes, seen)
                  | Some (r, refusal) \<Rightarrow>
                      (clashes @ [\<lparr>cl_winner = rd_source a,
                                   cl_detail = describe r @ '' clashes with '' @ describe (rd_route a) @ '': '' @ refusal\<rparr>],
                       seen @ [rd_source a])))
          against ([], []))"

abbreviation quoted :: "string \<Rightarrow> string" where
  "quoted s \<equiv> [CHR 0x27] @ s @ [CHR 0x27]"

definition under_older_wildcard :: "routedEntry \<Rightarrow> routedEntry \<Rightarrow> bool" where
  "under_older_wildcard o' entry \<longleftrightarrow>
     IsEEWildcard (re_path o') \<and> HasPrefix (re_shape entry) (routeShape (TrimSuffix (re_path o') ''*''))"

definition over_older_entry :: "routedEntry \<Rightarrow> routedEntry \<Rightarrow> bool" where
  "over_older_entry o' entry \<longleftrightarrow>
     IsEEWildcard (re_path entry) \<and> HasPrefix (re_shape o') (routeShape (TrimSuffix (re_path entry) ''*''))"

definition overlap_step :: "routedEntry \<Rightarrow> routedEntry \<Rightarrow> routerClash list \<Rightarrow> routerClash list" where
  "overlap_step entry o' clashes =
     (if re_method o' \<noteq> re_method entry \<or> re_source o' = re_source entry then clashes
      else if under_older_wildcard o' entry
      then withClashes clashes
             [\<lparr>cl_winner = re_source o',
               cl_detail = quoted (re_method entry @ '' '' @ re_path entry) @ '' conflicts with EE wildcard ''
                 @ quoted (re_method o' @ '' '' @ re_path o') @ '': the EE router accepts no other ''
                 @ re_method entry @ '' route under '' @ TrimSuffix (re_path o') ''*''\<rparr>]
      else if over_older_entry o' entry
      then withClashes clashes
             [\<lparr>cl_winner = re_source o',
               cl_detail = ''EE wildcard '' @ quoted (re_method entry @ '' '' @ re_path entry) @ '' conflicts with ''
                 @ quoted (re_method o' @ '' '' @ re_path o') @ '': the EE router accepts no other ''
                 @ re_method entry @ '' route under '' @ TrimSuffix (re_path entry) ''*''\<rparr>]
      else clashes)"

definition eeWildcardOverlaps :: "routedEntry list \<Rightarrow> routedEntry \<Rightarrow> routerClash list" where
  "eeWildcardOverlaps older entry = fold (overlap_step entry) older []"

definition olderClashes ::
  "gin_router \<Rightarrow> routeRules \<Rightarrow> routedEntry list \<Rightarrow> routedRoute list \<Rightarrow> routedEntry \<Rightarrow> ginRoute list \<Rightarrow>
   routerClash list" where
  "olderClashes gin rules older dropped entry routes =
     withClashes (if ru_eeWildcards rules then eeWildcardOverlaps older entry else [])
       (pairwiseClashes gin dropped (re_source entry) routes)"

section \<open>The admission loop\<close>

definition entry_of :: "flatEndpoint \<Rightarrow> routedEntry" where
  "entry_of fe =
     \<lparr>re_method = entryMethod (en_Method (fe_Entry fe)), re_path = en_Endpoint (fe_Entry fe),
      re_shape = routeShape (en_Endpoint (fe_Entry fe)), re_source = fe_Source fe\<rparr>"

definition pair_routes :: "routeRules \<Rightarrow> flatEndpoint \<Rightarrow> ginRoute list" where
  "pair_routes rules fe = entryRoutes (entryMethod (en_Method (fe_Entry fe))) (en_Endpoint (fe_Entry fe)) rules []"

definition routed :: "flatEndpoint \<Rightarrow> ginRoute list \<Rightarrow> routedRoute list" where
  "routed fe rs = map (\<lambda>r. \<lparr>rd_route = r, rd_source = fe_Source fe\<rparr>) rs"

text \<open>An entry that lost a same-shape conflict is only recorded among the entries left out.\<close>

definition admit_shadowed :: "gin_router \<Rightarrow> routeRules \<Rightarrow> flatEndpoint \<Rightarrow> admitState \<Rightarrow> admitState" where
  "admit_shadowed gin rules fe st =
     (let pair = pair_routes rules fe
      in if refusedAlone gin pair then st else st\<lparr>ad_dropped := ad_dropped st @ routed fe pair\<rparr>)"

definition serve_entry :: "flatEndpoint \<Rightarrow> ginRoute list \<Rightarrow> gin_engine \<Rightarrow> admitState \<Rightarrow> admitState" where
  "serve_entry fe routes engine st =
     st\<lparr>ad_served := ad_served st @ routed fe routes,
        ad_options := fold (\<lambda>r m. if gr_method r = ''OPTIONS'' then mput (gr_path r) True m else m) routes (ad_options st),
        ad_own := mput (fe_Source fe) (mlist (ad_own st) (fe_Source fe) @ routes) (ad_own st),
        ad_older := ad_older st @ [entry_of fe],
        ad_engine := engine\<rparr>"

definition lose_entry ::
  "gin_router \<Rightarrow> routeRules \<Rightarrow> nat \<Rightarrow> flatEndpoint \<Rightarrow> ginRoute list \<Rightarrow> routerClash list \<Rightarrow> admitState \<Rightarrow> admitState" where
  "lose_entry gin rules i fe routes clashes st =
     (let clashes' = withClashes clashes (pairwiseClashes gin (ad_served st) (fe_Source fe) routes)
      in st\<lparr>ad_refusals := Suc (ad_refusals st),
            ad_ownEngines := mput (fe_Source fe) (engineWith gin (mlist (ad_own st) (fe_Source fe))) (ad_ownEngines st),
            ad_losers := madds (map (\<lambda>c. (i, \<lparr>ec_Endpoint = en_Endpoint (fe_Entry fe), ec_Method = en_Method (fe_Entry fe),
                                              ec_Winner = cl_winner c, ec_Detail = cl_detail c\<rparr>)) clashes')
                           (ad_losers st),
            ad_dropped := ad_dropped st @ routed fe (pair_routes rules fe),
            ad_older := ad_older st @ [entry_of fe]\<rparr>)"

definition admit_entry :: "gin_router \<Rightarrow> routeRules \<Rightarrow> nat \<Rightarrow> flatEndpoint \<Rightarrow> admitState \<Rightarrow> admitState" where
  "admit_entry gin rules i fe st =
     (let routes = entryRoutes (entryMethod (en_Method (fe_Entry fe))) (en_Endpoint (fe_Entry fe)) rules (ad_options st)
      in if refusedAlone gin routes then st
         else (case refusedByOwn gin (ad_ownEngines st) (ad_own st) (fe_Source fe) routes of
                 (engines, own_refused) \<Rightarrow>
                   (let st1 = st\<lparr>ad_ownEngines := engines\<rparr>;
                        clashes = olderClashes gin rules (ad_older st) (ad_dropped st) (entry_of fe) (pair_routes rules fe)
                    in if own_refused then st1
                       else if clashes \<noteq> [] then lose_entry gin rules i fe routes clashes st1
                       else (case registerAll gin (ad_engine st) routes of
                               (engine, True) \<Rightarrow> serve_entry fe routes engine st1
                             | (engine, False) \<Rightarrow>
                                 lose_entry gin rules i fe routes clashes
                                   (st1\<lparr>ad_engine := engineWith gin (routesOf (ad_served st))\<rparr>)))))"

fun admit_loop ::
  "gin_router \<Rightarrow> routeRules \<Rightarrow> flatEndpoint list \<Rightarrow> flatEndpoint list \<Rightarrow> nat list \<Rightarrow> admitState \<Rightarrow> admitState" where
  "admit_loop gin rules flat shadowed [] st = st"
| "admit_loop gin rules flat shadowed (i # is) st =
     (let fe = (flat @ shadowed) ! i
      in if i \<ge> length flat then admit_loop gin rules flat shadowed is (admit_shadowed gin rules fe st)
         else if ad_refusals st = MaxRouteRefusals then st\<lparr>ad_capped := True\<rparr>
         else admit_loop gin rules flat shadowed is (admit_entry gin rules i fe st))"

definition admit_init :: admitState where
  "admit_init =
     \<lparr>ad_losers = [], ad_capped = False, ad_served = [], ad_dropped = [], ad_older = [], ad_own = [],
      ad_ownEngines = [], ad_options = [], ad_engine = gin_New, ad_refusals = 0\<rparr>"

definition routeLosers ::
  "gin_router \<Rightarrow> flatEndpoint list \<Rightarrow> flatEndpoint list \<Rightarrow> routeRules \<Rightarrow> admitState" where
  "routeLosers gin flat shadowed rules =
     admit_loop gin rules flat shadowed (servingOrder (flat @ shadowed)) admit_init"

text \<open>The conflicts of an entry left out are added to its KrakenDEndpoint's, which are sorted again.\<close>

definition add_losses ::
  "(nat, EntryConflict list) gomap \<Rightarrow> nat \<times> flatEndpoint \<Rightarrow> flatEndpoint list \<times> conflicts \<Rightarrow>
   flatEndpoint list \<times> conflicts" where
  "add_losses losers = (\<lambda>(i, fe) (kept, conflicted).
     case map_of losers i of
       None \<Rightarrow> (kept @ [fe], conflicted)
     | Some cs \<Rightarrow>
         (kept, mput (fe_Source fe) (sort_by conflict_less (mlist conflicted (fe_Source fe) @ cs)) conflicted))"

definition dropRouteLosers ::
  "gin_router \<Rightarrow> flatEndpoint list \<Rightarrow> flatEndpoint list \<Rightarrow> conflicts \<Rightarrow> routeRules \<Rightarrow>
   flatEndpoint list \<times> conflicts \<times> bool" where
  "dropRouteLosers gin flat shadowed conflicted rules =
     (let adm = routeLosers gin flat shadowed rules
      in if ad_losers adm = [] then (flat, conflicted, ad_capped adm)
         else (case fold (add_losses (ad_losers adm)) (enumerate 0 flat) ([], conflicted) of
                 (kept, conflicted') \<Rightarrow> (kept, conflicted', ad_capped adm)))"

definition routerOptionsOf :: "jmap \<Rightarrow> RouterOptions" where
  "routerOptionsOf ec = ParseRouterOptions (member ec ''router'')"

section \<open>The loop invariant\<close>

text \<open>
  Each engine holds exactly the accepted routes it stands for: the one of the gateway the served
  routes, the one of a KrakenDEndpoint that endpoint's served routes. No engine in use has seen
  a refusal.
\<close>

definition own_inv ::
  "gin_router \<Rightarrow> (NamespacedName, gin_engine) gomap \<Rightarrow> (NamespacedName, ginRoute list) gomap \<Rightarrow> NamespacedName \<Rightarrow> bool" where
  "own_inv gin engines own s \<longleftrightarrow>
     (case map_of engines s of None \<Rightarrow> mlist own s = [] | Some e \<Rightarrow> e = map reg_of (mlist own s)) \<and>
     all_accepted gin [] (mlist own s)"

lemma own_inv_engine:
  "mwf engines \<Longrightarrow> own_inv gin engines own s' \<Longrightarrow> e = map reg_of (mlist own s) \<Longrightarrow>
   own_inv gin (mput s e engines) own s'"
  by (auto simp: own_inv_def)

lemma own_inv_serve:
  "mwf engines \<Longrightarrow> mwf own \<Longrightarrow> own_inv gin engines own s' \<Longrightarrow> own_inv gin engines own s \<Longrightarrow>
   all_accepted gin (map reg_of (mlist own s)) routes \<Longrightarrow>
   own_inv gin (mput s (map reg_of (mlist own s @ routes)) engines) (mput s (mlist own s @ routes) own) s'"
  by (cases "s' = s") (auto simp: own_inv_def all_accepted_append split: option.splits)

definition admit_inv :: "gin_router \<Rightarrow> admitState \<Rightarrow> bool" where
  "admit_inv gin st \<longleftrightarrow>
     mwf (ad_own st) \<and> mwf (ad_ownEngines st) \<and> mwf (ad_losers st) \<and> mwf (ad_options st) \<and>
     ad_engine st = map reg_of (routesOf (ad_served st)) \<and>
     all_accepted gin [] (routesOf (ad_served st)) \<and>
     (\<forall>s. own_inv gin (ad_ownEngines st) (ad_own st) s) \<and>
     length (ad_losers st) \<le> ad_refusals st \<and> ad_refusals st \<le> MaxRouteRefusals"

lemma registerAll_spec:
  "registerAll gin e rs = (e', b) \<Longrightarrow> b = all_accepted gin e rs \<and> (b \<longrightarrow> e' = e @ map reg_of rs)"
  by (induction gin e rs rule: registerAll.induct) (auto simp: registerRoute_def split: if_splits)

lemma refusedByOwn_spec:
  assumes "own_inv gin engines own s"
  shows "refusedByOwn gin engines own s routes =
     (let ok = all_accepted gin (map reg_of (mlist own s)) routes
      in (mput s (map reg_of (mlist own s @ (if ok then routes else []))) engines, \<not> ok))"
proof -
  let ?e = "case map_of engines s of None \<Rightarrow> gin_New | Some e \<Rightarrow> e"
  have e: "?e = map reg_of (mlist own s)"
    using assms by (auto simp: own_inv_def gin_New_def split: option.splits)
  obtain e' b where r: "registerAll gin ?e routes = (e', b)" by (cases "registerAll gin ?e routes")
  with registerAll_spec [OF this] show ?thesis
    by (auto simp: refusedByOwn_def e Let_def split: bool.splits)
qed

lemma routesOf_routed [simp]: "routesOf (routed fe rs) = rs"
  and routesOf_append [simp]: "routesOf (xs @ ys) = routesOf xs @ routesOf ys"
  by (simp_all add: routesOf_def routed_def comp_def)

lemma mwf_options [simp]:
  "mwf m \<Longrightarrow> mwf (fold (\<lambda>r m. if gr_method r = ''OPTIONS'' then mput (gr_path r) True m else m) rs m)"
  by (induction rs arbitrary: m) auto

lemma admit_inv_own_engine:
  assumes "admit_inv gin st" and "e = map reg_of (mlist (ad_own st) s)"
  shows "admit_inv gin (st\<lparr>ad_ownEngines := mput s e (ad_ownEngines st)\<rparr>)"
  using assms by (simp add: admit_inv_def own_inv_engine)

lemma lose_entry_inv:
  assumes inv: "admit_inv gin st" and e: "st1 = st\<lparr>ad_ownEngines := mput (fe_Source fe) e (ad_ownEngines st)\<rparr>"
    and r: "ad_refusals st < MaxRouteRefusals"
  shows "admit_inv gin (lose_entry gin rules i fe routes clashes st1)"
proof -
  let ?st = "lose_entry gin rules i fe routes clashes st1"
  have "length (ad_losers ?st) \<le> Suc (length (ad_losers st))"
    using inv by (simp add: e lose_entry_def Let_def length_madds_one admit_inv_def)
  then show ?thesis
    using inv r by (simp add: admit_inv_def e lose_entry_def Let_def gm.put_put_same own_inv_engine)
qed

lemma serve_entry_inv:
  assumes inv: "admit_inv gin st"
    and e: "st1 = st\<lparr>ad_ownEngines := mput (fe_Source fe) (map reg_of (mlist (ad_own st) (fe_Source fe) @ routes)) (ad_ownEngines st)\<rparr>"
    and own: "all_accepted gin (map reg_of (mlist (ad_own st) (fe_Source fe))) routes"
    and acc: "all_accepted gin (ad_engine st) routes" and eng: "engine = ad_engine st @ map reg_of routes"
  shows "admit_inv gin (serve_entry fe routes engine st1)"
proof -
  have "own_inv gin (mput (fe_Source fe) (map reg_of (mlist (ad_own st) (fe_Source fe) @ routes)) (ad_ownEngines st))
      (mput (fe_Source fe) (mlist (ad_own st) (fe_Source fe) @ routes) (ad_own st)) s" for s
    using inv own by (intro own_inv_serve) (auto simp: admit_inv_def)
  then show ?thesis
    using inv acc eng by (simp add: admit_inv_def e serve_entry_def all_accepted_append)
qed

abbreviation entry_routes :: "routeRules \<Rightarrow> flatEndpoint \<Rightarrow> admitState \<Rightarrow> ginRoute list" where
  "entry_routes rules fe st \<equiv>
     entryRoutes (entryMethod (en_Method (fe_Entry fe))) (en_Endpoint (fe_Entry fe)) rules (ad_options st)"

abbreviation entry_clashes :: "gin_router \<Rightarrow> routeRules \<Rightarrow> flatEndpoint \<Rightarrow> admitState \<Rightarrow> routerClash list" where
  "entry_clashes gin rules fe st \<equiv>
     olderClashes gin rules (ad_older st) (ad_dropped st) (entry_of fe) (pair_routes rules fe)"

text \<open>In a state that meets the invariant, an entry is left as it is, lost or served.\<close>

lemma admit_entry_split:
  fixes gin :: gin_router and st :: admitState and rules :: routeRules and fe :: flatEndpoint
  assumes inv: "admit_inv gin st"
  defines "routes \<equiv> entry_routes rules fe st" and "own \<equiv> mlist (ad_own st) (fe_Source fe)"
    and "clashes \<equiv> entry_clashes gin rules fe st"
  defines "st1 \<equiv> st\<lparr>ad_ownEngines := mput (fe_Source fe) (map reg_of (own @ routes)) (ad_ownEngines st)\<rparr>"
  shows "admit_entry gin rules i fe st =
     (if refusedAlone gin routes then st
      else if \<not> all_accepted gin (map reg_of own) routes
      then st\<lparr>ad_ownEngines := mput (fe_Source fe) (map reg_of own) (ad_ownEngines st)\<rparr>
      else if clashes \<noteq> [] \<or> \<not> all_accepted gin (ad_engine st) routes
      then lose_entry gin rules i fe routes clashes st1
      else serve_entry fe routes (ad_engine st @ map reg_of routes) st1)"
proof -
  have o: "own_inv gin (ad_ownEngines st) (ad_own st) (fe_Source fe)" using inv by (simp add: admit_inv_def)
  obtain engine b where reg: "registerAll gin (ad_engine st) routes = (engine, b)"
    by (cases "registerAll gin (ad_engine st) routes")
  note b = registerAll_spec [OF this]
  note ref = refusedByOwn_spec [OF o, of routes, folded own_def]
  have "st1\<lparr>ad_engine := engineWith gin (routesOf (ad_served st))\<rparr> = st1"
    using inv by (simp add: admit_inv_def st1_def)
  then show ?thesis
    using reg b ref unfolding admit_entry_def Let_def routes_def [symmetric] clashes_def [symmetric]
    by (cases b) (auto simp: st1_def)
qed

lemma admit_entry_inv:
  assumes inv: "admit_inv gin st" and r: "ad_refusals st < MaxRouteRefusals"
  shows "admit_inv gin (admit_entry gin rules i fe st)"
  using inv lose_entry_inv [OF inv refl r] serve_entry_inv [OF inv refl] admit_inv_own_engine [OF inv refl]
  by (simp add: admit_entry_split [OF inv])

lemma admit_loop_inv: "admit_inv gin st \<Longrightarrow> admit_inv gin (admit_loop gin rules flat shadowed is st)"
proof (induction "is" arbitrary: st)
  case (Cons i "is")
  have "admit_inv gin (admit_shadowed gin rules fe st)" for fe
    using Cons.prems by (simp add: admit_shadowed_def admit_inv_def Let_def)
  moreover have "admit_inv gin (st\<lparr>ad_capped := True\<rparr>)"
    using Cons.prems by (simp add: admit_inv_def)
  moreover have "admit_inv gin (admit_entry gin rules i fe st)" if "ad_refusals st \<noteq> MaxRouteRefusals" for fe
    using Cons.prems that by (intro admit_entry_inv) (auto simp: admit_inv_def)
  ultimately show ?case using Cons.IH by (auto simp: Let_def)
qed simp

lemma admit_init_inv: "admit_inv gin admit_init"
  by (simp add: admit_inv_def own_inv_def admit_init_def routesOf_def gin_New_def mlist_def)

lemma routeLosers_inv: "admit_inv gin (routeLosers gin flat shadowed rules)"
  unfolding routeLosers_def by (rule admit_loop_inv [OF admit_init_inv])

text \<open>
  C19: Whatever gin accepts or refuses and whatever a refusal does to its tree, the routes the
  admission serves are all accepted when registered one after another in a fresh engine, and so
  are the served routes of each single KrakenDEndpoint.
\<close>

theorem routeLosers_served_accepted:
  "let adm = routeLosers gin flat shadowed rules in
     all_accepted gin gin_New (routesOf (ad_served adm)) \<and>
     (\<forall>s. all_accepted gin gin_New (mlist (ad_own adm) s))"
  using routeLosers_inv [of gin flat shadowed rules]
  by (simp add: admit_inv_def own_inv_def Let_def gin_New_def)

text \<open>
  The admission leaves out at most \<open>MaxRouteRefusals\<close> entries, however many entries clash.
\<close>

lemma routeLosers_bounded:
  "length (ad_losers (routeLosers gin flat shadowed rules)) \<le> MaxRouteRefusals"
  using routeLosers_inv [of gin flat shadowed rules] by (simp add: admit_inv_def)

section \<open>Every loss names a real clash with an older entry\<close>

definition clash_between :: "gin_router \<Rightarrow> routeRules \<Rightarrow> flatEndpoint \<Rightarrow> flatEndpoint \<Rightarrow> bool" where
  "clash_between gin rules old fe \<longleftrightarrow>
     list_ex (\<lambda>a. list_ex (\<lambda>r. gin [reg_of a] (reg_of r) \<noteq> []) (pair_routes rules fe)) (pair_routes rules old) \<or>
     ru_eeWildcards rules \<and> re_method (entry_of old) = re_method (entry_of fe) \<and>
       (under_older_wildcard (entry_of old) (entry_of fe) \<or> over_older_entry (entry_of old) (entry_of fe))"

lemma withClashes_set: "set (withClashes cs extra) \<subseteq> set cs \<union> set extra"
proof (induction extra arbitrary: cs)
  case (Cons m extra)
  have "set (withClashes cs (m # extra)) \<subseteq>
      set (if list_ex (\<lambda>c. cl_winner c = cl_winner m) cs then cs else cs @ [m]) \<union> set extra"
    using Cons.IH by (simp add: withClashes_def)
  then show ?case by (auto split: if_splits)
qed (simp add: withClashes_def)

lemma first_refused_Some:
  "first_refused gin a rs = Some (r, refusal) \<Longrightarrow> r \<in> set rs \<and> gin [reg_of a] (reg_of r) \<noteq> []"
  by (induction gin a rs rule: first_refused.induct)
    (auto simp: registerRoute_def Let_def split: if_splits)

lemma pairwiseClashes_sound:
  assumes "c \<in> set (pairwiseClashes gin against source routes)"
  shows "\<exists>a \<in> set against. rd_source a \<noteq> source \<and> cl_winner c = rd_source a \<and>
           (\<exists>r \<in> set routes. gin [reg_of (rd_route a)] (reg_of r) \<noteq> [])"
proof -
  define ok :: "routedRoute list \<Rightarrow> routerClash \<Rightarrow> bool" where "ok = (\<lambda>A c. \<exists>a \<in> set A. rd_source a \<noteq> source \<and> cl_winner c = rd_source a \<and>
      (\<exists>r \<in> set routes. gin [reg_of (rd_route a)] (reg_of r) \<noteq> []))"
  let ?f = "\<lambda>a (clashes, seen).
            if rd_source a = source \<or> rd_source a \<in> set seen then (clashes, seen)
            else (case first_refused gin (rd_route a) routes of
                    None \<Rightarrow> (clashes, seen)
                  | Some (r, refusal) \<Rightarrow>
                      (clashes @ [\<lparr>cl_winner = rd_source a,
                                   cl_detail = describe r @ '' clashes with '' @ describe (rd_route a) @ '': '' @ refusal\<rparr>],
                       seen @ [rd_source a]))"
  have "\<forall>c \<in> set (fst (fold ?f A (cs, seen))). ok against c"
    if "\<forall>c \<in> set cs. ok against c" "set A \<subseteq> set against" for A cs seen
    using that
  proof (induction A arbitrary: cs seen)
    case (Cons a A)
    obtain cs' seen' where st: "?f a (cs, seen) = (cs', seen')" by (cases "?f a (cs, seen)")
    have "\<forall>c \<in> set cs'. ok against c"
      using Cons.prems st first_refused_Some by (auto simp: ok_def split: if_splits option.splits) blast+
    with Cons st show ?case by simp
  qed simp
  from this [of "[]" against "[]"] assms show ?thesis by (simp add: pairwiseClashes_def ok_def)
qed

lemma overlap_step_set:
  "c \<in> set (overlap_step entry o' cs) \<Longrightarrow>
   c \<in> set cs \<or> re_method o' = re_method entry \<and> re_source o' \<noteq> re_source entry \<and>
     cl_winner c = re_source o' \<and> (under_older_wildcard o' entry \<or> over_older_entry o' entry)"
  unfolding overlap_step_def by (auto split: if_splits dest!: subsetD [OF withClashes_set])

lemma eeWildcardOverlaps_sound:
  assumes "c \<in> set (eeWildcardOverlaps older entry)"
  shows "\<exists>o' \<in> set older. re_method o' = re_method entry \<and> re_source o' \<noteq> re_source entry \<and>
           cl_winner c = re_source o' \<and> (under_older_wildcard o' entry \<or> over_older_entry o' entry)"
proof -
  define ok :: "routerClash \<Rightarrow> bool" where "ok = (\<lambda>c. \<exists>o' \<in> set older. re_method o' = re_method entry \<and> re_source o' \<noteq> re_source entry \<and>
      cl_winner c = re_source o' \<and> (under_older_wildcard o' entry \<or> over_older_entry o' entry))"
  have step: "\<forall>c \<in> set (overlap_step entry o' cs). ok c" if "\<forall>c \<in> set cs. ok c" "o' \<in> set older" for o' cs
    using that overlap_step_set [of _ entry o' cs] unfolding ok_def by blast
  have "\<forall>c \<in> set (fold (overlap_step entry) os cs). ok c" if "\<forall>c \<in> set cs. ok c" "set os \<subseteq> set older" for os cs
    using that
  proof (induction os arbitrary: cs)
    case (Cons o' os)
    then have "\<forall>c \<in> set (overlap_step entry o' cs). ok c" by (intro step) auto
    with Cons show ?case by simp
  qed simp
  from this [of "[]" older] assms show ?thesis by (simp add: eeWildcardOverlaps_def ok_def)
qed

text \<open>Where the recorded routes and entries come from: the entries \<open>P\<close> processed so far.\<close>

definition provenance :: "routeRules \<Rightarrow> flatEndpoint set \<Rightarrow> admitState \<Rightarrow> bool" where
  "provenance rules P st \<longleftrightarrow>
     (\<forall>d \<in> set (ad_served st) \<union> set (ad_dropped st).
        \<exists>f \<in> P. rd_source d = fe_Source f \<and> rd_route d \<in> set (pair_routes rules f)) \<and>
     (\<forall>o' \<in> set (ad_older st). \<exists>f \<in> P. o' = entry_of f)"

lemma provenance_mono: "provenance rules P st \<Longrightarrow> P \<subseteq> Q \<Longrightarrow> provenance rules Q st"
  unfolding provenance_def by (meson subsetD)

lemma entryRoutes_pair: "set (entryRoutes meth path rules options) \<subseteq> set (entryRoutes meth path rules [])"
  by (auto simp: entryRoutes_def Let_def)

lemma routed_provenance: "d \<in> set (routed fe rs) \<Longrightarrow> rd_source d = fe_Source fe \<and> rd_route d \<in> set rs"
  by (auto simp: routed_def)

definition lost_to :: "gin_router \<Rightarrow> routeRules \<Rightarrow> flatEndpoint set \<Rightarrow> flatEndpoint \<Rightarrow> EntryConflict \<Rightarrow> bool" where
  "lost_to gin rules P fe c \<longleftrightarrow>
     ec_Endpoint c = en_Endpoint (fe_Entry fe) \<and> ec_Method c = en_Method (fe_Entry fe) \<and>
     ec_Winner c \<noteq> fe_Source fe \<and>
     (\<exists>f \<in> P. ec_Winner c = fe_Source f \<and> clash_between gin rules f fe)"

lemma pairwise_lost_to:
  assumes "c \<in> set (pairwiseClashes gin against (fe_Source fe) routes)" and "set routes \<subseteq> set (pair_routes rules fe)"
    and "\<And>d. d \<in> set against \<Longrightarrow> \<exists>f \<in> P. rd_source d = fe_Source f \<and> rd_route d \<in> set (pair_routes rules f)"
  shows "cl_winner c \<noteq> fe_Source fe \<and> (\<exists>f \<in> P. cl_winner c = fe_Source f \<and> clash_between gin rules f fe)"
proof -
  obtain a r where a: "a \<in> set against" "rd_source a \<noteq> fe_Source fe" "cl_winner c = rd_source a"
    "r \<in> set routes" "gin [reg_of (rd_route a)] (reg_of r) \<noteq> []"
    using pairwiseClashes_sound [OF assms(1)] by blast
  obtain f where f: "f \<in> P" "rd_source a = fe_Source f" "rd_route a \<in> set (pair_routes rules f)"
    using assms(3) [OF a(1)] by blast
  then have "clash_between gin rules f fe"
    using a(4,5) assms(2) unfolding clash_between_def list_ex_iff by blast
  with a f show ?thesis by auto
qed

lemma older_lost_to:
  assumes "c \<in> set (olderClashes gin rules (ad_older st) (ad_dropped st) (entry_of fe) (pair_routes rules fe))"
    and p: "provenance rules P st"
  shows "cl_winner c \<noteq> fe_Source fe \<and> (\<exists>f \<in> P. cl_winner c = fe_Source f \<and> clash_between gin rules f fe)"
proof -
  have src: "re_source (entry_of fe) = fe_Source fe" by (simp add: entry_of_def)
  from assms(1) consider
      (wild) "ru_eeWildcards rules" "c \<in> set (eeWildcardOverlaps (ad_older st) (entry_of fe))"
    | (pair) "c \<in> set (pairwiseClashes gin (ad_dropped st) (fe_Source fe) (pair_routes rules fe))"
    using withClashes_set by (fastforce simp: olderClashes_def src split: if_splits)
  then show ?thesis
  proof cases
    case wild
    from eeWildcardOverlaps_sound [OF this(2)] obtain o' where o': "o' \<in> set (ad_older st)"
      "re_method o' = re_method (entry_of fe)" "re_source o' \<noteq> fe_Source fe" "cl_winner c = re_source o'"
      "under_older_wildcard o' (entry_of fe) \<or> over_older_entry o' (entry_of fe)"
      by (auto simp: src)
    then obtain f where "f \<in> P" "o' = entry_of f" using p unfolding provenance_def by blast
    with o' wild(1) show ?thesis by (auto simp: clash_between_def entry_of_def)
  next
    case pair
    show ?thesis by (rule pairwise_lost_to [OF pair]) (use p in \<open>auto simp: provenance_def\<close>)
  qed
qed

lemma lose_entry_losses:
  assumes w: "mwf (ad_losers st)" and p: "provenance rules P st"
    and r: "set routes \<subseteq> set (pair_routes rules fe)"
    and c: "\<And>c. c \<in> set clashes \<Longrightarrow> cl_winner c \<noteq> fe_Source fe \<and> (\<exists>f \<in> P. cl_winner c = fe_Source f \<and> clash_between gin rules f fe)"
    and x: "x \<in> set (mlist (ad_losers (lose_entry gin rules i fe routes clashes st)) j)"
  shows "x \<in> set (mlist (ad_losers st) j) \<or> j = i \<and> lost_to gin rules P fe x"
proof -
  have "cl_winner c \<noteq> fe_Source fe \<and> (\<exists>f \<in> P. cl_winner c = fe_Source f \<and> clash_between gin rules f fe)"
    if "c \<in> set (withClashes clashes (pairwiseClashes gin (ad_served st) (fe_Source fe) routes))" for c
    using that withClashes_set c pairwise_lost_to [OF _ r, of c gin "ad_served st" P] p
    by (fastforce simp: provenance_def)
  with x w show ?thesis by (auto simp: lose_entry_def Let_def mlist_madds lost_to_def)
qed

lemma admit_entry_provenance:
  assumes inv: "admit_inv gin st" and p: "provenance rules P st"
  shows "provenance rules (insert fe P) (admit_entry gin rules i fe st)"
proof -
  have sub: "set (entry_routes rules fe st) \<subseteq> set (pair_routes rules fe)"
    unfolding pair_routes_def by (rule entryRoutes_pair)
  have q: "provenance rules (insert fe P) st" using provenance_mono [OF p] by blast
  then have e: "provenance rules (insert fe P) (st\<lparr>ad_ownEngines := x\<rparr>)" for x by (simp add: provenance_def)
  then have "provenance rules (insert fe P) (lose_entry gin rules i fe rs cs (st\<lparr>ad_ownEngines := x\<rparr>))" for rs cs x
    using routed_provenance by (fastforce simp: provenance_def lose_entry_def Let_def)
  moreover from e have
    "provenance rules (insert fe P) (serve_entry fe (entry_routes rules fe st) en (st\<lparr>ad_ownEngines := x\<rparr>))" for en x
    using sub routed_provenance by (fastforce simp: provenance_def serve_entry_def)
  ultimately show ?thesis using q e by (simp add: admit_entry_split [OF inv])
qed

lemma admit_entry_losses:
  assumes inv: "admit_inv gin st" and p: "provenance rules P st"
    and x: "x \<in> set (mlist (ad_losers (admit_entry gin rules i fe st)) j)"
  shows "x \<in> set (mlist (ad_losers st) j) \<or> j = i \<and> lost_to gin rules P fe x"
proof -
  have sub: "set (entry_routes rules fe st) \<subseteq> set (pair_routes rules fe)"
    unfolding pair_routes_def by (rule entryRoutes_pair)
  have w: "mwf (ad_losers (st\<lparr>ad_ownEngines := e\<rparr>))" and q: "provenance rules P (st\<lparr>ad_ownEngines := e\<rparr>)" for e
    using inv p by (simp_all add: admit_inv_def provenance_def)
  note lose = lose_entry_losses [OF w q sub older_lost_to [OF _ p]]
  show ?thesis
    using x lose unfolding admit_entry_split [OF inv] by (auto simp: serve_entry_def split: if_splits)
qed

definition loss_ok :: "gin_router \<Rightarrow> routeRules \<Rightarrow> flatEndpoint list \<Rightarrow> nat \<Rightarrow> EntryConflict \<Rightarrow> bool" where
  "loss_ok gin rules all i c \<longleftrightarrow>
     lost_to gin rules {f \<in> set all. \<not> servedBefore (all ! i) f} (all ! i) c"

lemma admit_loop_losses:
  assumes "admit_inv gin st" and "provenance rules P st" and "P \<subseteq> set (flat @ shadowed)"
    and "\<And>f j. f \<in> P \<Longrightarrow> j \<in> set is \<Longrightarrow> \<not> servedBefore ((flat @ shadowed) ! j) f"
    and "sorted_wrt (\<lambda>k j. \<not> servedBefore ((flat @ shadowed) ! j) ((flat @ shadowed) ! k)) is"
    and "\<And>j. j \<in> set is \<Longrightarrow> j < length (flat @ shadowed)"
    and "\<And>i c. c \<in> set (mlist (ad_losers st) i) \<Longrightarrow> i < length flat \<and> loss_ok gin rules (flat @ shadowed) i c"
    and "c \<in> set (mlist (ad_losers (admit_loop gin rules flat shadowed is st)) i)"
  shows "i < length flat \<and> loss_ok gin rules (flat @ shadowed) i c"
  using assms
proof (induction "is" arbitrary: st P)
  case (Cons k ks)
  let ?all = "flat @ shadowed" and ?fe = "(flat @ shadowed) ! k"
  have k: "?fe \<in> set ?all" using Cons.prems(6) [of k] by (auto simp: nth_append)
  let ?P = "insert ?fe P"
  have P: "?P \<subseteq> set ?all" "\<And>f j. f \<in> ?P \<Longrightarrow> j \<in> set ks \<Longrightarrow> \<not> servedBefore (?all ! j) f"
    using Cons.prems(3-5) k by auto
  note IH = Cons.IH [OF _ _ P]
  consider (shadowed) "length flat \<le> k" | (capped) "k < length flat" "ad_refusals st = MaxRouteRefusals"
    | (entry) "k < length flat" "ad_refusals st \<noteq> MaxRouteRefusals" by linarith
  then show ?case
  proof cases
    case shadowed
    let ?st = "admit_shadowed gin rules ?fe st"
    have "provenance rules ?P ?st"
      using provenance_mono [OF Cons.prems(2), of ?P] routed_provenance
      by (fastforce simp: admit_shadowed_def provenance_def Let_def)
    moreover have "admit_inv gin ?st" "ad_losers ?st = ad_losers st"
      using Cons.prems(1) by (simp_all add: admit_shadowed_def admit_inv_def Let_def)
    ultimately show ?thesis using Cons.prems(5-8) shadowed by (intro IH [of ?st]) (auto simp: Let_def)
  next
    case capped
    then show ?thesis using Cons.prems(7,8) by (simp add: Let_def)
  next
    case entry
    let ?st = "admit_entry gin rules k ?fe st"
    have "admit_inv gin ?st"
      using Cons.prems(1) entry by (intro admit_entry_inv) (auto simp: admit_inv_def)
    moreover have "provenance rules ?P ?st" by (rule admit_entry_provenance [OF Cons.prems(1,2)])
    moreover have "i < length flat \<and> loss_ok gin rules ?all i c" if "c \<in> set (mlist (ad_losers ?st) i)" for i c
    proof -
      have "lost_to gin rules P ?fe c \<Longrightarrow> loss_ok gin rules ?all k c"
        using Cons.prems(3,4) unfolding loss_ok_def lost_to_def by fastforce
      then show ?thesis using admit_entry_losses [OF Cons.prems(1,2) that] Cons.prems(7) entry(1) by blast
    qed
    ultimately show ?thesis using Cons.prems(5,6,8) entry by (intro IH [of ?st]) (auto simp: Let_def)
  qed
qed simp

interpretation serving: keyed_less "\<lambda>x y. servedBefore (xs ! x) (xs ! y)" "\<lambda>x. served_key (xs ! x)"
  "\<lambda>x. served_ok (xs ! x)" for xs
  by unfold_locales (rule served.less_key)

lemma servingOrder_sorted:
  assumes "\<And>f. f \<in> set xs \<Longrightarrow> served_ok f"
  shows "sorted_wrt (\<lambda>k j. \<not> servedBefore (xs ! j) (xs ! k)) (servingOrder xs)"
proof -
  have ok: "served_ok (xs ! x)" if "x \<in> set (servingOrder xs)" for x
    using that assms by (simp add: servingOrder_def)
  have "sorted (map (\<lambda>x. served_key (xs ! x)) (servingOrder xs))"
    unfolding servingOrder_def by (rule serving.sorted_keys) (use assms in simp)
  then show ?thesis
    unfolding sorted_map by (rule sorted_wrt_mono_rel [rotated]) (use ok served.less_key in \<open>auto simp: not_less\<close>)
qed


section \<open>Removing the losers\<close>

lemma fold_add_losses:
  assumes "mwf conflicted"
  shows "fst (fold (add_losses losers) ps (kept, conflicted)) = kept @ map snd (filter (\<lambda>p. map_of losers (fst p) = None) ps)"
    and "mset (mlist (snd (fold (add_losses losers) ps (kept, conflicted))) nn) =
           mset (mlist conflicted nn) + mset (concat (map (\<lambda>p. mlist losers (fst p)) (filter (\<lambda>p. fe_Source (snd p) = nn) ps)))"
  using assms
proof (induction ps arbitrary: kept conflicted)
  case (Cons p ps)
  obtain i fe where p: "p = (i, fe)" by (cases p)
  case 1
  with Cons.IH(1) p show ?case by (cases "map_of losers i") (auto simp: add_losses_def)
next
  case (Cons p ps)
  obtain i fe where p: "p = (i, fe)" by (cases p)
  case 2
  with Cons.IH(2) p show ?case by (cases "map_of losers i") (auto simp: add_losses_def mlist_def [of losers])
qed simp_all

lemma dropRouteLosers_subset:
  assumes "mwf conflicted"
  shows "set (fst (dropRouteLosers gin flat shadowed conflicted rules)) \<subseteq> set flat"
proof -
  let ?r = "fold (add_losses (ad_losers (routeLosers gin flat shadowed rules))) (enumerate 0 flat) ([], conflicted)"
  have "set (map snd (filter P (enumerate 0 flat))) \<subseteq> set flat" for P
    by (auto simp: in_set_enumerate_eq)
  then have "set (fst ?r) \<subseteq> set flat" unfolding fold_add_losses(1) [OF assms] append_Nil .
  then show ?thesis by (cases ?r) (simp add: dropRouteLosers_def Let_def)
qed

text \<open>
  Removing the losers keeps every other entry in its place, and adds to each
  KrakenDEndpoint's conflicts exactly the losses of its own entries, counted once each.
\<close>

lemma dropRouteLosers_exact:
  assumes "mwf conflicted"
  shows "case dropRouteLosers gin flat shadowed conflicted rules of (kept, conflicted', capped) \<Rightarrow>
     (let losers = ad_losers (routeLosers gin flat shadowed rules) in
        kept = map snd (filter (\<lambda>p. map_of losers (fst p) = None) (enumerate 0 flat)) \<and>
        mset (mlist conflicted' nn) = mset (mlist conflicted nn) +
          mset (concat (map (\<lambda>p. mlist losers (fst p)) (filter (\<lambda>p. fe_Source (snd p) = nn) (enumerate 0 flat)))))"
  using fold_add_losses [OF assms, of "ad_losers (routeLosers gin flat shadowed rules)" "enumerate 0 flat" "[]"]
  by (auto simp: dropRouteLosers_def Let_def mlist_def [of "[]"] split: prod.splits)

section \<open>Sample admission\<close>

text \<open>
  A router that, like gin's tree, refuses two different parameters, or a parameter and a
  catch-all, at one position.
\<close>

definition ex_clash :: "string \<Rightarrow> string \<Rightarrow> bool" where
  "ex_clash p q \<longleftrightarrow> p = q \<or> HasPrefix p ''/u/:'' \<and> HasPrefix q ''/u/:'' "

definition ex_tree :: gin_router where
  "ex_tree engine reg =
     (if list_ex (\<lambda>r. fst r = fst reg \<and> ex_clash (fst (snd r)) (fst (snd reg))) engine
      then ''conflict at '' @ fst (snd reg) else [])"

definition ex_rules :: routeRules where
  "ex_rules = \<lparr>ru_autoOptions = True, ru_eeWildcards = False\<rparr>"

definition ex_two :: "flatEndpoint list" where
  "ex_two = [ex_flat ''a'' 2 0 ''/u/{id}/x'', ex_flat ''b'' 1 0 ''/u/{name}/y'']"

lemma ex_two_losers:
  "ad_losers (routeLosers ex_tree ex_two [] ex_rules) =
     [(0, [\<lparr>ec_Endpoint = ''/u/{id}/x'', ec_Method = ''GET'', ec_Winner = NamespacedName ''ns'' ''b'',
            ec_Detail = ''GET /u/:id/x clashes with GET /u/:name/y: conflict at /u/:id/x''\<rparr>])]"
  by code_simp


end
