(* ===== verification/EEStrip.thy ===== *)
theory EEStrip
  imports Flatten
begin

text \<open>
  Enterprise-only features in a CE render: \<^verbatim>\<open>renderer/eestrip.go\<close> with the lists of
  \<^verbatim>\<open>renderer/eeonly_namespaces.json\<close>. A Go function that edits a map in place returns
  the edited map here.

  The lemmas show what \<open>stripNamespaces\<close> leaves, that it lists exactly what it changed, and
  that admission (\<open>CEDrops\<close>) and the render agree on what CE drops.
\<close>

section \<open>The lists\<close>

datatype NamespaceLevel = LevelService | LevelEndpoint | LevelBackend

fun EnterpriseOnly :: "NamespaceLevel \<Rightarrow> string list" where
  "EnterpriseOnly LevelService =
     [''ai/mcp'', ''auth/api-keys'', ''auth/basic'', ''documentation/openapi'', ''documentation/postman'',
      ''governance/processors'', ''governance/quota'', ''grpc'', ''modifier/request-body-extractor'',
      ''modifier/response-headers'', ''qos/ratelimit/service'', ''qos/ratelimit/service/redis'',
      ''qos/ratelimit/tiered'', ''redis'', ''server/static-filesystem'', ''server/virtualhost'',
      ''telemetry/moesif'', ''telemetry/newrelic'', ''telemetry/opentelemetry-security'']"
| "EnterpriseOnly LevelEndpoint =
     [''ai/mcp'', ''auth/api-keys'', ''auth/basic'', ''documentation/openapi'', ''documentation/postman'',
      ''governance/quota'', ''modifier/jmespath'', ''modifier/request-body-extractor'',
      ''modifier/request-body-extractor/early'', ''modifier/request-body-generator'',
      ''modifier/response-body'', ''modifier/response-body-generator'', ''plugin/middleware'',
      ''qos/ratelimit/router/redis'', ''qos/ratelimit/tiered'', ''security/policies'',
      ''validation/response-json-schema'', ''websocket'']"
| "EnterpriseOnly LevelBackend =
     [''ai/llm'', ''auth/aws-sigv4'', ''auth/gcp'', ''auth/ntlm'', ''backend/conditional'', ''backend/grpc'',
      ''backend/http/client'', ''backend/pubsub/publisher/kafka'', ''backend/pubsub/subscriber/kafka'',
      ''backend/soap'', ''backend/static-filesystem'', ''governance/quota'', ''modifier/body-generator'',
      ''modifier/jmespath'', ''modifier/request-body-generator'', ''modifier/response-body'',
      ''modifier/response-body-generator'', ''plugin/middleware'', ''qos/circuit-breaker/http'',
      ''security/policies'', ''telemetry/logging'', ''validation/response-json-schema'', ''workflow'']"

fun CEHonoredKeys :: "NamespaceLevel \<Rightarrow> string \<Rightarrow> string list option" where
  "CEHonoredKeys LevelBackend ns =
     (if ns = ''backend/http/client'' then Some [''send_body_on_redirect''] else None)"
| "CEHonoredKeys _ ns = None"

definition ceDroppedEndpointNamespaces :: "string list" where
  "ceDroppedEndpointNamespaces = [''documentation/openapi'']"

lemma EnterpriseOnly_distinct: "distinct (EnterpriseOnly level)"
proof -
  have "distinct (EnterpriseOnly LevelService)" "distinct (EnterpriseOnly LevelEndpoint)"
    "distinct (EnterpriseOnly LevelBackend)"
    by code_simp+
  then show ?thesis by (cases level) (simp_all only:)
qed

declare EnterpriseOnly.simps [simp del]

section \<open>Operations\<close>

record StrippedEEFeature =
  sf_Source :: NamespacedName
  sf_Method :: string
  sf_Endpoint :: string
  sf_Feature :: string

definition no_feature :: StrippedEEFeature where
  "no_feature = \<lparr>sf_Source = NamespacedName [] [], sf_Method = [], sf_Endpoint = [], sf_Feature = []\<rparr>"

definition StrippedEEFeature_String :: "StrippedEEFeature \<Rightarrow> string" where
  "StrippedEEFeature_String f =
     (if sf_Source f = NamespacedName [] [] then ''gateway: '' @ sf_Feature f
      else nn_String (sf_Source f) @ '' '' @ sf_Method f @ '' '' @ sf_Endpoint f @ '': '' @ sf_Feature f)"

definition string_less :: "string \<Rightarrow> string \<Rightarrow> bool" where
  "string_less a b \<longleftrightarrow> a < b"

definition ceDroppedKeys :: "NamespaceLevel \<Rightarrow> string \<Rightarrow> string list \<Rightarrow> bool \<times> string list" where
  "ceDroppedKeys level ns keys =
     (case CEHonoredKeys level ns of
        None \<Rightarrow> (False, [])
      | Some honored \<Rightarrow> (True, sort_by string_less (filter (\<lambda>k. k \<notin> set honored) keys)))"

definition featureOf :: "StrippedEEFeature \<Rightarrow> string \<Rightarrow> string \<Rightarrow> StrippedEEFeature" where
  "featureOf base location key = base\<lparr>sf_Feature := location @ '' '' @ key\<rparr>"

definition dropCEInertNamespaces :: "jmap \<Rightarrow> jmap" where
  "dropCEInertNamespaces ep =
     (case get_obj ep ''extra_config'' of
        None \<Rightarrow> ep
      | Some ec \<Rightarrow>
          (let ec' = fold mdel ceDroppedEndpointNamespaces ec
           in if ec' = [] then mdel ''extra_config'' ep else mput ''extra_config'' (JObj ec') ep))"

text \<open>One round of the loop over the namespaces of \<open>ec\<close>.\<close>

definition strip_step ::
  "NamespaceLevel \<Rightarrow> string list \<Rightarrow> StrippedEEFeature \<Rightarrow> string \<Rightarrow> string \<Rightarrow>
   jmap \<times> StrippedEEFeature list \<Rightarrow> jmap \<times> StrippedEEFeature list" where
  "strip_step level eeOnly base location k = (\<lambda>(ec, out).
     if k \<notin> set eeOnly then (ec, out)
     else (let removed = (mdel k ec, out @ [featureOf base location k])
           in case get_obj ec k of
                None \<Rightarrow> removed
              | Some block \<Rightarrow>
                  (case ceDroppedKeys level k (mkeys block) of
                     (False, _) \<Rightarrow> removed
                   | (True, dropped) \<Rightarrow>
                       if dropped = [] then (ec, out)
                       else (let block' = fold mdel dropped block
                             in if block' \<noteq> []
                                then (mput k (JObj block') ec, out @ [featureOf base location k])
                                else removed))))"

definition feature_less :: "StrippedEEFeature \<Rightarrow> StrippedEEFeature \<Rightarrow> bool" where
  "feature_less a b \<longleftrightarrow> sf_Feature a < sf_Feature b"

definition stripNamespaces ::
  "jmap \<Rightarrow> NamespaceLevel \<Rightarrow> string list \<Rightarrow> StrippedEEFeature \<Rightarrow> string \<Rightarrow> jmap \<times> StrippedEEFeature list" where
  "stripNamespaces ec level eeOnly base location =
     (case fold (strip_step level eeOnly base location) (mkeys ec) (ec, []) of
        (ec', out) \<Rightarrow> (ec', sort_by feature_less out))"

definition put_or_drop :: "string \<Rightarrow> jmap \<Rightarrow> jmap \<Rightarrow> jmap" where
  "put_or_drop k ec m = (if ec = [] then mdel k m else mput k (JObj ec) m)"

text \<open>One backend of an entry, at position \<open>i\<close>.\<close>

definition strip_backend :: "StrippedEEFeature \<Rightarrow> nat \<Rightarrow> json \<Rightarrow> json \<times> StrippedEEFeature list" where
  "strip_backend base i b =
     (case b of
        JObj bm \<Rightarrow>
          (case get_obj bm ''extra_config'' of
             None \<Rightarrow> (b, [])
           | Some ec \<Rightarrow>
               (case stripNamespaces ec LevelBackend (EnterpriseOnly LevelBackend) base
                       (''backend['' @ itoa (int i) @ ''] extra_config'') of
                  (ec', out) \<Rightarrow> (JObj (put_or_drop ''extra_config'' ec' bm), out)))
      | _ \<Rightarrow> (b, []))"

definition stripEndpointEEFeatures :: "jmap \<Rightarrow> flatEndpoint \<Rightarrow> jmap \<times> StrippedEEFeature list" where
  "stripEndpointEEFeatures ep fe =
     (let base = \<lparr>sf_Source = fe_Source fe, sf_Method = en_Method (fe_Entry fe),
                  sf_Endpoint = en_Endpoint (fe_Entry fe), sf_Feature = []\<rparr>;
          (ep1, out1) =
            (case get_obj ep ''extra_config'' of
               None \<Rightarrow> (ep, [])
             | Some ec \<Rightarrow>
                 (case stripNamespaces ec LevelEndpoint (EnterpriseOnly LevelEndpoint) base ''extra_config'' of
                    (ec', out) \<Rightarrow> (put_or_drop ''extra_config'' ec' ep, out)))
      in case map_of ep1 ''backend'' of
           Some (JArr backends) \<Rightarrow>
             (let bs = map (\<lambda>(i, b). strip_backend base i b) (enumerate 0 backends)
              in (mput ''backend'' (JArr (map fst bs)) ep1, out1 @ concat (map snd bs)))
         | _ \<Rightarrow> (ep1, out1))"

definition EEOnlyNamespaces :: "NamespaceLevel \<Rightarrow> string list" where
  "EEOnlyNamespaces level =
     (let names = sort_by string_less (EnterpriseOnly level)
      in if level = LevelEndpoint then filter (\<lambda>n. n \<notin> set ceDroppedEndpointNamespaces) names else names)"

record CEDrop =
  cd_Namespace :: string
  cd_Keys :: "string list"

definition CEDrop_String :: "CEDrop \<Rightarrow> string" where
  "CEDrop_String d =
     (if cd_Keys d \<noteq> [] then cd_Namespace d @ '' ('' @ Join (cd_Keys d) '', '' @ '')'' else cd_Namespace d)"

text \<open>
  The drop of one namespace: \<^verbatim>\<open>null\<close> decodes to a nil map, any other non-object is an error,
  and both report the whole namespace.
\<close>

definition ns_drop :: "NamespaceLevel \<Rightarrow> jmap \<Rightarrow> string \<Rightarrow> CEDrop list" where
  "ns_drop level ec ns =
     (case map_of ec ns of
        None \<Rightarrow> []
      | Some (JObj keys) \<Rightarrow>
          (case ceDroppedKeys level ns (mkeys keys) of
             (False, _) \<Rightarrow> [\<lparr>cd_Namespace = ns, cd_Keys = []\<rparr>]
           | (True, dropped) \<Rightarrow> if dropped \<noteq> [] then [\<lparr>cd_Namespace = ns, cd_Keys = dropped\<rparr>] else [])
      | Some _ \<Rightarrow> [\<lparr>cd_Namespace = ns, cd_Keys = []\<rparr>])"

definition CEDrops :: "NamespaceLevel \<Rightarrow> jmap \<Rightarrow> CEDrop list" where
  "CEDrops level ec = concat (map (ns_drop level ec) (EEOnlyNamespaces level))"

definition EEOnlyNamespacesIn :: "RawExtension option \<Rightarrow> NamespaceLevel \<Rightarrow> CEDrop list" where
  "EEOnlyNamespacesIn raw level =
     (case raw of
        None \<Rightarrow> []
      | Some RawNil \<Rightarrow> []
      | Some e \<Rightarrow> (case raw_map e of None \<Rightarrow> [] | Some ec \<Rightarrow> CEDrops level ec))"

section \<open>What a CE render keeps of a namespace\<close>

text \<open>
  The specification: the value that remains of namespace \<open>k\<close>, if any. A namespace CE implements
  is untouched; of a block CE partly honors the honored keys remain; any other goes.
\<close>

definition ce_value :: "NamespaceLevel \<Rightarrow> string list \<Rightarrow> string \<Rightarrow> json \<Rightarrow> json option" where
  "ce_value level eeOnly k v =
     (if k \<notin> set eeOnly then Some v
      else (case v of
              JObj block \<Rightarrow>
                (case CEHonoredKeys level k of
                   None \<Rightarrow> None
                 | Some honored \<Rightarrow>
                     if set (mkeys block) \<subseteq> set honored then Some v
                     else (let b = filter (\<lambda>p. fst p \<in> set honored) block in if b = [] then None else Some (JObj b)))
            | _ \<Rightarrow> None))"

lemma fold_mdel: "fold mdel ks m = filter (\<lambda>p. fst p \<notin> set ks) m"
proof (induction ks arbitrary: m)
  case (Cons k ks)
  have "fold mdel (k # ks) m = filter (\<lambda>p. fst p \<notin> set ks) (filter (\<lambda>p. fst p \<noteq> k) m)"
    using Cons.IH [of "mdel k m"] by (simp add: mdel_def [of k m])
  then show ?case by (simp add: conj_commute)
qed simp

lemma fold_mdel_dropped:
  "fold mdel (sort_by string_less (filter (\<lambda>k. k \<notin> set honored) (mkeys block))) block =
     filter (\<lambda>p. fst p \<in> set honored) block"
  unfolding fold_mdel by (rule filter_cong) (auto simp: mkeys_def)

lemma strip_step_spec:
  assumes w: "mwf ec" and v: "map_of ec k = Some v"
  shows "strip_step level eeOnly base location k (ec, out) = (ec', out') \<Longrightarrow>
     mwf ec' \<and> map_of ec' = (map_of ec)(k := ce_value level eeOnly k v) \<and>
     out' = out @ (if ce_value level eeOnly k v = Some v then [] else [featureOf base location k])"
proof -
  assume s: "strip_step level eeOnly base location k (ec, out) = (ec', out')"
  show ?thesis
  proof (cases "k \<in> set eeOnly \<and> (\<exists>block honored. v = JObj block \<and> CEHonoredKeys level k = Some honored)")
    case False
    then show ?thesis
      using s w v by (cases v)
        (auto simp: strip_step_def ce_value_def get_obj_def ceDroppedKeys_def Let_def split: if_splits option.splits)
  next
    case True
    then obtain block honored where b: "v = JObj block" "CEHonoredKeys level k = Some honored" by blast
    have "filter (\<lambda>k. k \<notin> set honored) (mkeys block) = [] \<longleftrightarrow> set (mkeys block) \<subseteq> set honored"
      by (auto simp: filter_empty_conv)
    moreover have "filter (\<lambda>p. fst p \<in> set honored) block \<noteq> block" if "\<not> set (mkeys block) \<subseteq> set honored"
      using that by (auto simp: mkeys_def filter_id_conv)
    ultimately show ?thesis
      using s w v True b
      by (auto simp: strip_step_def ce_value_def get_obj_def ceDroppedKeys_def fold_mdel_dropped Let_def
          split: if_splits)
  qed
qed

abbreviation ce_lookup :: "NamespaceLevel \<Rightarrow> string list \<Rightarrow> jmap \<Rightarrow> string \<Rightarrow> json option" where
  "ce_lookup level eeOnly ec k \<equiv> Option.bind (map_of ec k) (ce_value level eeOnly k)"

lemma fold_strip_step:
  assumes "mwf ec" and "distinct ks" and "set ks \<subseteq> dom (map_of ec)"
    and "fold (strip_step level eeOnly base location) ks (ec, out) = (ec', out')"
  shows "mwf ec' \<and> (\<forall>k. map_of ec' k = (if k \<in> set ks then ce_lookup level eeOnly ec k else map_of ec k)) \<and>
     out' = out @ map (featureOf base location) (filter (\<lambda>k. ce_lookup level eeOnly ec k \<noteq> map_of ec k) ks)"
  using assms
proof (induction ks arbitrary: ec out)
  case (Cons k ks)
  from Cons.prems(3) obtain v where v: "map_of ec k = Some v" by auto
  obtain ec1 out1 where s: "strip_step level eeOnly base location k (ec, out) = (ec1, out1)"
    by (cases "strip_step level eeOnly base location k (ec, out)")
  note step = strip_step_spec [OF Cons.prems(1) v s]
  have other: "map_of ec1 k' = map_of ec k'" if "k' \<in> set ks" for k'
    using step Cons.prems(2) that by auto
  have sub: "set ks \<subseteq> dom (map_of ec1)" using other Cons.prems(3) by (auto simp: domIff)
  have f: "fold (strip_step level eeOnly base location) ks (ec1, out1) = (ec', out')"
    using Cons.prems(4) s by simp
  have IH: "mwf ec' \<and> (\<forall>k. map_of ec' k = (if k \<in> set ks then ce_lookup level eeOnly ec1 k else map_of ec1 k)) \<and>
      out' = out1 @ map (featureOf base location) (filter (\<lambda>k. ce_lookup level eeOnly ec1 k \<noteq> map_of ec1 k) ks)"
    by (rule Cons.IH [OF _ _ sub f]) (use step Cons.prems(2) in simp_all)
  have "filter (\<lambda>k. ce_lookup level eeOnly ec1 k \<noteq> map_of ec1 k) ks = filter (\<lambda>k. ce_lookup level eeOnly ec k \<noteq> map_of ec k) ks"
    using other by (intro filter_cong) auto
  then have out: "out' = out1 @ map (featureOf base location) (filter (\<lambda>k. ce_lookup level eeOnly ec k \<noteq> map_of ec k) ks)"
    using IH by (simp only:)
  have "map_of ec' x = (if x \<in> set (k # ks) then ce_lookup level eeOnly ec x else map_of ec x)" for x
    using IH step v other Cons.prems(2) by auto
  then show ?case using IH step v out by simp
qed simp

lemma prefix_less: "(p @ a < p @ b) = (a < (b::string))"
  by (induction p) auto

interpretation features: keyed_less feature_less sf_Feature "\<lambda>_. True"
  by unfold_locales (simp add: feature_less_def)

interpretation strings: keyed_less string_less "\<lambda>s. s" "\<lambda>_. True"
  by unfold_locales (simp add: string_less_def)

lemma sort_by_strict:
  "sorted_wrt lt xs \<Longrightarrow> (\<And>x y. lt x y \<Longrightarrow> \<not> lt y x) \<Longrightarrow> sort_by lt xs = xs"
proof (induction xs)
  case (Cons x xs)
  have "insert_by lt x xs = x # xs" using Cons.prems by (cases xs) auto
  with Cons show ?case by simp
qed simp

lemma stripNamespaces_lookup:
  assumes w: "mwf ec"
  shows "case stripNamespaces ec level eeOnly base location of (ec', out) \<Rightarrow>
     mwf ec' \<and> (\<forall>k. map_of ec' k = ce_lookup level eeOnly ec k) \<and>
     out = map (featureOf base location) (filter (\<lambda>k. map_of ec' k \<noteq> map_of ec k) (mkeys ec))"
proof -
  obtain ec' out where f: "fold (strip_step level eeOnly base location) (mkeys ec) (ec, []) = (ec', out)"
    by (cases "fold (strip_step level eeOnly base location) (mkeys ec) (ec, [])")
  have d: "distinct (mkeys ec)" "set (mkeys ec) = dom (map_of ec)"
    using w gm.keys_dom [OF w] by (auto simp: mkeys_def mwf_distinct)
  from fold_strip_step [OF w d(1) _ f] d(2) have r: "mwf ec'"
    "\<forall>k. map_of ec' k = (if k \<in> set (mkeys ec) then ce_lookup level eeOnly ec k else map_of ec k)"
    "out = map (featureOf base location) (filter (\<lambda>k. ce_lookup level eeOnly ec k \<noteq> map_of ec k) (mkeys ec))"
    by auto
  have all: "map_of ec' k = ce_lookup level eeOnly ec k" for k
    using r(2) d(2) by (cases "map_of ec k") auto
  have "sorted_wrt (<) (filter (\<lambda>k. map_of ec' k \<noteq> map_of ec k) (mkeys ec))"
    using gm.keys_sorted [OF w] by (rule sorted_wrt_filter)
  then have "sorted_wrt feature_less (map (featureOf base location) (filter (\<lambda>k. map_of ec' k \<noteq> map_of ec k) (mkeys ec)))"
    unfolding sorted_wrt_map by (rule sorted_wrt_mono_rel [rotated]) (simp add: feature_less_def featureOf_def prefix_less)
  then have "sort_by feature_less (map (featureOf base location) (filter (\<lambda>k. map_of ec' k \<noteq> map_of ec k) (mkeys ec)))
      = map (featureOf base location) (filter (\<lambda>k. map_of ec' k \<noteq> map_of ec k) (mkeys ec))"
    by (rule sort_by_strict) (simp add: feature_less_def)
  then show ?thesis using f r(1,3) all by (simp add: stripNamespaces_def)
qed

text \<open>No Enterprise-only namespace, except blocks that hold only keys CE honors.\<close>

definition ce_clean_member :: "NamespaceLevel \<Rightarrow> string \<times> json \<Rightarrow> bool" where
  "ce_clean_member level p =
     (fst p \<in> set (EnterpriseOnly level) \<longrightarrow>
        (case (CEHonoredKeys level (fst p), snd p) of
           (Some honored, JObj block) \<Rightarrow> set (mkeys block) \<subseteq> set honored
         | _ \<Rightarrow> False))"

definition ce_clean :: "NamespaceLevel \<Rightarrow> jmap \<Rightarrow> bool" where
  "ce_clean level ec = list_all (ce_clean_member level) ec"

lemma ce_value_clean: "ce_value level (EnterpriseOnly level) k v = Some v' \<Longrightarrow> ce_clean_member level (k, v')"
  by (cases v) (auto simp: ce_value_def ce_clean_member_def mkeys_def Let_def split: if_splits option.splits)

lemma ce_clean_iff: "mwf ec \<Longrightarrow> ce_clean level ec \<longleftrightarrow> (\<forall>k v. map_of ec k = Some v \<longrightarrow> ce_clean_member level (k, v))"
  unfolding ce_clean_def list_all_iff using mwf_distinct [of ec] by (metis map_of_eq_Some_iff surj_pair)


section \<open>Admission and render agree\<close>

lemma ns_drop_iff:
  assumes "ns \<in> set (EnterpriseOnly level)"
  shows "ns_drop level ec ns = [] \<longleftrightarrow> ce_lookup level (EnterpriseOnly level) ec ns = map_of ec ns"
    and "ns_drop level ec ns \<noteq> [] \<Longrightarrow> map cd_Namespace (ns_drop level ec ns) = [ns]"
proof -
  have f: "filter (\<lambda>k. k \<notin> set honored) (mkeys block) = [] \<longleftrightarrow> set (mkeys block) \<subseteq> set honored"
    for honored and block :: jmap by (auto simp: filter_empty_conv)
  have g: "filter (\<lambda>p. fst p \<in> set honored) block \<noteq> block" if "\<not> set (mkeys block) \<subseteq> set honored"
    for honored and block :: jmap using that by (auto simp: mkeys_def filter_id_conv)
  show "ns_drop level ec ns = [] \<longleftrightarrow> ce_lookup level (EnterpriseOnly level) ec ns = map_of ec ns"
    using assms by (auto simp: ns_drop_def ce_value_def ceDroppedKeys_def Let_def f g split: option.splits json.splits if_splits)
  show "ns_drop level ec ns \<noteq> [] \<Longrightarrow> map cd_Namespace (ns_drop level ec ns) = [ns]"
    by (auto simp: ns_drop_def split: option.splits json.splits prod.splits bool.splits if_splits)
qed

lemma EEOnlyNamespaces_sorted: "sorted_wrt (<) (EEOnlyNamespaces level)"
proof -
  note d = EnterpriseOnly_distinct [of level]
  have "sorted (sort_by string_less (EnterpriseOnly level))" using strings.sorted_keys [of "EnterpriseOnly level"] by simp
  then have s: "sorted_wrt (<) (sort_by string_less (EnterpriseOnly level))"
    using d by (simp only: strict_sorted_iff distinct_sort_by)
  then have "sorted_wrt (<) (filter P (sort_by string_less (EnterpriseOnly level)))" for P
    by (rule sorted_wrt_filter)
  with s show ?thesis by (cases "level = LevelEndpoint") (simp_all add: EEOnlyNamespaces_def Let_def)
qed

lemma set_EEOnlyNamespaces:
  "set (EEOnlyNamespaces level) =
     (if level = LevelEndpoint then set (EnterpriseOnly level) - set ceDroppedEndpointNamespaces
      else set (EnterpriseOnly level))"
  by (auto simp: EEOnlyNamespaces_def Let_def)

lemma CEDrops_namespaces:
  "map cd_Namespace (CEDrops level ec) =
     filter (\<lambda>ns. ce_lookup level (EnterpriseOnly level) ec ns \<noteq> map_of ec ns) (EEOnlyNamespaces level)"
proof -
  have sub: "set (EEOnlyNamespaces level) \<subseteq> set (EnterpriseOnly level)"
    by (auto simp: set_EEOnlyNamespaces)
  have "map cd_Namespace (concat (map (ns_drop level ec) nss)) =
      filter (\<lambda>ns. ce_lookup level (EnterpriseOnly level) ec ns \<noteq> map_of ec ns) nss"
    if "set nss \<subseteq> set (EnterpriseOnly level)" for nss
    using that
  proof (induction nss)
    case (Cons ns nss)
    then have ns: "ns \<in> set (EnterpriseOnly level)" and IH: "map cd_Namespace (concat (map (ns_drop level ec) nss)) =
      filter (\<lambda>ns. ce_lookup level (EnterpriseOnly level) ec ns \<noteq> map_of ec ns) nss" by auto
    show ?case
    proof (cases "ns_drop level ec ns = []")
      case True
      then show ?thesis using IH ns_drop_iff(1) [OF ns] by simp
    next
      case False
      then show ?thesis using IH ns_drop_iff [OF ns, of ec] by simp
    qed
  qed simp
  then show ?thesis using sub by (simp add: CEDrops_def)
qed

text \<open>
  Admission reports for a CE gateway exactly the namespaces a CE-fallback render strips and
  lists, in the same order. At endpoint level the render has dropped the documentation-only
  namespaces before, which neither reports.
\<close>

lemma CEDrops_agrees_with_strip:
  assumes w: "mwf ec"
  shows "map sf_Feature (snd (stripNamespaces
           (if level = LevelEndpoint then fold mdel ceDroppedEndpointNamespaces ec else ec)
           level (EnterpriseOnly level) base location)) =
         map (\<lambda>d. location @ '' '' @ cd_Namespace d) (CEDrops level ec)"
proof -
  let ?ec = "if level = LevelEndpoint then fold mdel ceDroppedEndpointNamespaces ec else ec"
  have we: "mwf ?ec" using w by (simp add: gm.wf_fold_del)
  let ?ch = "\<lambda>m k. ce_lookup level (EnterpriseOnly level) m k \<noteq> map_of m k"
  have look: "map_of ?ec k = (if level = LevelEndpoint \<and> k \<in> set ceDroppedEndpointNamespaces then None else map_of ec k)" for k
    using w by (simp add: gm.lookup_fold_del)
  have "filter (?ch ?ec) (mkeys ?ec) = filter (?ch ec) (EEOnlyNamespaces level)"
  proof (rule strict_sorted_equal)
    show "sorted_wrt (<) (filter (?ch ?ec) (mkeys ?ec))"
      using gm.keys_sorted [OF we] by (rule sorted_wrt_filter)
    show "sorted_wrt (<) (filter (?ch ec) (EEOnlyNamespaces level))"
      using EEOnlyNamespaces_sorted by (rule sorted_wrt_filter)
    have "k \<in> set (mkeys ?ec) \<and> ?ch ?ec k \<longleftrightarrow> k \<in> set (EEOnlyNamespaces level) \<and> ?ch ec k" for k
      unfolding gm.keys_dom [OF we] domIff look set_EEOnlyNamespaces
      by (cases "map_of ec k") (auto simp: ce_value_def)
    then show "set (filter (?ch ?ec) (mkeys ?ec)) = set (filter (?ch ec) (EEOnlyNamespaces level))"
      unfolding set_filter by blast
  qed
  then have "map cd_Namespace (CEDrops level ec) = filter (?ch ?ec) (mkeys ?ec)" by (simp only: CEDrops_namespaces)
  moreover have "snd (stripNamespaces ?ec level (EnterpriseOnly level) base location) =
      map (featureOf base location) (filter (?ch ?ec) (mkeys ?ec))"
    using stripNamespaces_lookup [OF we, of level "EnterpriseOnly level" base location]
    by (cases "stripNamespaces ?ec level (EnterpriseOnly level) base location") simp
  ultimately have "map sf_Feature (snd (stripNamespaces ?ec level (EnterpriseOnly level) base location)) =
      map (\<lambda>ns. location @ '' '' @ ns) (map cd_Namespace (CEDrops level ec))"
    by (simp only: map_map) (simp add: featureOf_def comp_def)
  then show ?thesis by (simp add: comp_def)
qed

subsection \<open>Sample\<close>

definition ex_ec :: jmap where
  "ex_ec = [(''backend/http'', JObj []),
            (''backend/http/client'', JObj [(''no_redirect'', JBool True), (''send_body_on_redirect'', JBool True)]),
            (''workflow'', JNull)]"


end
