(* ===== verification/Builders.thy ===== *)
theory Builders
  imports Flatten
begin

text \<open>
  The JSON blocks of a krakend.json: \<^verbatim>\<open>buildEndpointJSON\<close>, \<^verbatim>\<open>buildBackendJSON\<close> and
  \<^verbatim>\<open>formatDuration\<close> of \<^verbatim>\<open>renderer/endpoints.go\<close>, \<^verbatim>\<open>renderer/extra_config.go\<close>, the
  gateway-level builders of \<^verbatim>\<open>renderer/config.go\<close> and \<^verbatim>\<open>buildPluginBlock\<close>. A map that Go
  fills with conditional assignments is \<open>puts\<close> of their list.
\<close>

section \<open>Durations\<close>

text \<open>Nanoseconds of a \<^verbatim>\<open>time.Duration\<close>; the micro sign is two bytes of UTF-8.\<close>

definition formatDuration :: "int \<Rightarrow> string" where
  "formatDuration d =
     (if d \<ge> 3600000000000 \<and> d mod 3600000000000 = 0 then itoa (d div 3600000000000) @ ''h''
      else if d \<ge> 60000000000 \<and> d mod 60000000000 = 0 then itoa (d div 60000000000) @ ''m''
      else if d \<ge> 1000000000 \<and> d mod 1000000000 = 0 then itoa (d div 1000000000) @ ''s''
      else if d \<ge> 1000000 \<and> d mod 1000000 = 0 then itoa (d div 1000000) @ ''ms''
      else if d \<ge> 1000 \<and> d mod 1000 = 0 then itoa (d div 1000) @ [CHR 0xC2, CHR 0xB5] @ ''s''
      else itoa d @ ''ns'')"

section \<open>Backends and endpoints\<close>

abbreviation nonempty :: "'a list \<Rightarrow> bool" where
  "nonempty xs \<equiv> xs \<noteq> []"

text \<open>A sorted copy of a string slice.\<close>

definition sorted_strs :: "string list \<Rightarrow> json" where
  "sorted_strs xs = jstrs (sort xs)"

definition str_obj :: "(string, string) gomap \<Rightarrow> json" where
  "str_obj m = JObj (map (\<lambda>(k, v). (k, JStr v)) m)"

definition jbool_opt :: "bool option \<Rightarrow> json" where
  "jbool_opt b = (case b of None \<Rightarrow> JNull | Some v \<Rightarrow> JBool v)"

text \<open>Layer 2: the typed fields of a policy.\<close>

definition policy_typed :: "KrakenDBackendPolicySpec \<Rightarrow> (bool \<times> string \<times> json) list" where
  "policy_typed sp =
     [(bp_CircuitBreaker sp \<noteq> None, ''qos/circuit-breaker'',
       case bp_CircuitBreaker sp of None \<Rightarrow> JNull
       | Some cb \<Rightarrow> JObj (puts [(True, ''interval'', jint (cb_Interval cb)), (True, ''timeout'', jint (cb_Timeout cb)),
                               (True, ''max_errors'', jint (cb_MaxErrors cb)),
                               (True, ''log_status_change'', JBool (cb_LogStatusChange cb))] [])),
      (bp_RateLimit sp \<noteq> None, ''qos/ratelimit/proxy'',
       case bp_RateLimit sp of None \<Rightarrow> JNull
       | Some rl \<Rightarrow> JObj (puts [(True, ''max_rate'', jint (rl_MaxRate rl)),
                               (rl_Capacity rl > 0, ''capacity'', jint (rl_Capacity rl))] [])),
      (bp_Cache sp \<noteq> None, ''qos/http-cache'',
       case bp_Cache sp of None \<Rightarrow> JNull | Some ca \<Rightarrow> JObj (puts [(True, ''shared'', JBool (ca_Shared ca))] []))]"

definition applyPolicyExtraConfig :: "jmap \<Rightarrow> PolicyRef option \<Rightarrow> policies \<Rightarrow> string \<Rightarrow> jmap" where
  "applyPolicyExtraConfig merged ref policies ns =
     (case ref of
        None \<Rightarrow> merged
      | Some r \<Rightarrow>
          (case map_of policies (PolicyKey r ns) of
             None \<Rightarrow> merged
           | Some policy \<Rightarrow>
               puts (policy_typed (pol_Spec policy)) (mmerge merged (raw_members (bp_Raw (pol_Spec policy))))))"

definition buildBackendExtraConfig :: "BackendSpec \<Rightarrow> policies \<Rightarrow> string \<Rightarrow> jmap option" where
  "buildBackendExtraConfig backend policies ns =
     (let merged = mmerge (applyPolicyExtraConfig [] (be_PolicyRef backend) policies ns)
                     (raw_members (be_ExtraConfig backend))
      in if merged = [] then None else Some merged)"

definition buildEndpointExtraConfig :: "RawExtension option \<Rightarrow> jmap option" where
  "buildEndpointExtraConfig raw = (let m = raw_members raw in if m = [] then None else Some m)"

definition put_opt :: "string \<Rightarrow> jmap option \<Rightarrow> jmap \<Rightarrow> jmap" where
  "put_opt k v m = (case v of None \<Rightarrow> m | Some o' \<Rightarrow> mput k (JObj o') m)"

definition backend_fields :: "BackendSpec \<Rightarrow> (bool \<times> string \<times> json) list" where
  "backend_fields be =
     [(True, ''url_pattern'', JStr (be_URLPattern be)),
      (nonempty (be_Host be), ''host'', sorted_strs (be_Host be)),
      (nonempty (be_Method be), ''method'', JStr (be_Method be)),
      (nonempty (be_Encoding be), ''encoding'', JStr (be_Encoding be)),
      (nonempty (be_SD be), ''sd'', JStr (be_SD be)),
      (nonempty (be_SDScheme be), ''sd_scheme'', JStr (be_SDScheme be)),
      (be_DisableHostSanitize be \<noteq> None, ''disable_host_sanitize'', jbool_opt (be_DisableHostSanitize be)),
      (nonempty (be_InputHeaders be), ''input_headers'', sorted_strs (be_InputHeaders be)),
      (nonempty (be_InputQueryStrings be), ''input_query_strings'', sorted_strs (be_InputQueryStrings be)),
      (nonempty (be_Allow be), ''allow'', sorted_strs (be_Allow be)),
      (nonempty (be_Deny be), ''deny'', sorted_strs (be_Deny be)),
      (nonempty (be_Group be), ''group'', JStr (be_Group be)),
      (nonempty (be_Target be), ''target'', JStr (be_Target be)),
      (be_IsCollection be \<noteq> None, ''is_collection'', jbool_opt (be_IsCollection be)),
      (nonempty (be_Mapping be), ''mapping'', str_obj (be_Mapping be))]"

definition buildBackendJSON :: "BackendSpec \<Rightarrow> policies \<Rightarrow> string \<Rightarrow> jmap" where
  "buildBackendJSON be policies ns =
     put_opt ''extra_config'' (buildBackendExtraConfig be policies ns) (puts (backend_fields be) [])"

definition endpoint_fields :: "EndpointEntry \<Rightarrow> (bool \<times> string \<times> json) list" where
  "endpoint_fields entry =
     [(True, ''endpoint'', JStr (en_Endpoint entry)),
      (True, ''method'', JStr (en_Method entry)),
      (en_Timeout entry \<noteq> None, ''timeout'', JStr (case en_Timeout entry of None \<Rightarrow> [] | Some d \<Rightarrow> formatDuration d)),
      (en_CacheTTL entry \<noteq> None, ''cache_ttl'', JStr (case en_CacheTTL entry of None \<Rightarrow> [] | Some d \<Rightarrow> formatDuration d)),
      (nonempty (en_OutputEncoding entry), ''output_encoding'', JStr (en_OutputEncoding entry)),
      (en_ConcurrentCalls entry \<noteq> None, ''concurrent_calls'',
       case en_ConcurrentCalls entry of None \<Rightarrow> JNull | Some n \<Rightarrow> jint n),
      (nonempty (els (en_InputHeaders entry)), ''input_headers'', sorted_strs (els (en_InputHeaders entry))),
      (nonempty (els (en_InputQueryStrings entry)), ''input_query_strings'', sorted_strs (els (en_InputQueryStrings entry)))]"

text \<open>An entry without backends has a nil slice, which is written as null.\<close>

definition backends_json :: "BackendSpec list \<Rightarrow> policies \<Rightarrow> string \<Rightarrow> json" where
  "backends_json bes policies ns =
     (if bes = [] then JNull else JArr (map (\<lambda>be. JObj (buildBackendJSON be policies ns)) bes))"

definition buildEndpointJSON :: "EndpointEntry \<Rightarrow> policies \<Rightarrow> string \<Rightarrow> jmap" where
  "buildEndpointJSON entry policies ns =
     mput ''backend'' (backends_json (en_Backends entry) policies ns)
       (put_opt ''extra_config'' (buildEndpointExtraConfig (en_ExtraConfig entry)) (puts (endpoint_fields entry) []))"

section \<open>The gateway level\<close>

record DragonflyState =
  df_Enabled :: bool
  df_ServiceDNS :: string

definition buildRootConfig :: "KrakenDGateway \<Rightarrow> jmap" where
  "buildRootConfig gw =
     (let sp = gs_Config (gw_Spec gw)
      in puts [(True, ''version'', jint 3),
               (nonempty (gc_Name sp), ''name'', JStr (gc_Name sp)),
               (nonempty (gc_Timeout sp), ''timeout'', JStr (gc_Timeout sp)),
               (nonempty (gc_CacheTTL sp), ''cache_ttl'', JStr (gc_CacheTTL sp)),
               (nonempty (gc_DNSCacheTTL sp), ''dns_cache_ttl'', JStr (gc_DNSCacheTTL sp)),
               (nonempty (gc_OutputEncoding sp), ''output_encoding'', JStr (gc_OutputEncoding sp)),
               (gc_Port sp \<noteq> 0, ''port'', jint (gc_Port sp)),
               (nonempty (gc_ListenIP sp), ''listen_ip'', JStr (gc_ListenIP sp)),
               (nonempty (gc_Host sp), ''host'', jstrs (gc_Host sp)),
               (gc_EchoEndpoint sp, ''echo_endpoint'', JBool True),
               (gc_DebugEndpoint sp, ''debug_endpoint'', JBool True)] [])"

definition otlp_entry :: "OTLPExporter \<Rightarrow> json" where
  "otlp_entry o' =
     JObj (puts [(True, ''host'', JStr (ot_Host o')),
                 (ot_Port o' \<noteq> 0, ''port'', jint (ot_Port o')),
                 (True, ''name'', JStr (if ot_Name o' = [] then ''default_otlp'' else ot_Name o')),
                 (ot_UseHTTP o', ''use_http'', JBool True)] [])"

definition prometheus_entry :: "OTelPrometheusExporter \<Rightarrow> json" where
  "prometheus_entry p =
     JObj (puts [(nonempty (op_Name p), ''name'', JStr (op_Name p)),
                 (op_Port p \<noteq> 0, ''port'', jint (op_Port p)),
                 (nonempty (op_ListenIP p), ''listen_ip'', JStr (op_ListenIP p)),
                 (op_ProcessMetrics p, ''process_metrics'', JBool True),
                 (op_GoMetrics p, ''go_metrics'', JBool True)] [])"

definition buildOTelExporters :: "OTelExporters \<Rightarrow> jmap" where
  "buildOTelExporters ex =
     puts [(nonempty (ox_OTLP ex), ''otlp'', JArr (map otlp_entry (ox_OTLP ex))),
           (nonempty (ox_Prometheus ex), ''prometheus'', JArr (map prometheus_entry (ox_Prometheus ex)))] []"

definition buildOTelBackendDetail :: "OTelBackendDetail \<Rightarrow> jmap" where
  "buildOTelBackendDetail d =
     puts [(True, ''disable_stage'', JBool (od_DisableStage d)),
           (True, ''round_trip'', JBool (od_RoundTrip d)),
           (True, ''read_payload'', JBool (od_ReadPayload d)),
           (True, ''detailed_connection'', JBool (od_DetailedConnection d)),
           (nonempty (od_StaticAttributes d), ''static_attributes'',
            JArr (map (\<lambda>a. JObj (puts [(True, ''key'', JStr (oa_Key a)), (True, ''value'', JStr (oa_Value a))] []))
                    (od_StaticAttributes d)))] []"

definition buildOTelLayers :: "OTelLayers \<Rightarrow> jmap" where
  "buildOTelLayers l =
     puts [(ol_Global l \<noteq> None, ''global'',
            case ol_Global l of None \<Rightarrow> JNull
            | Some g \<Rightarrow> JObj (puts [(True, ''disable_metrics'', JBool (og_DisableMetrics g)),
                                   (True, ''disable_traces'', JBool (og_DisableTraces g)),
                                   (True, ''disable_propagation'', JBool (og_DisablePropagation g)),
                                   (True, ''report_headers'', JBool (og_ReportHeaders g))] [])),
           (ol_Proxy l \<noteq> None, ''proxy'',
            case ol_Proxy l of None \<Rightarrow> JNull
            | Some p \<Rightarrow> JObj (puts [(True, ''disable_metrics'', JBool (oy_DisableMetrics p)),
                                   (True, ''disable_traces'', JBool (oy_DisableTraces p))] [])),
           (ol_Backend l \<noteq> None, ''backend'',
            case ol_Backend l of None \<Rightarrow> JNull
            | Some b \<Rightarrow> JObj (puts [(ob_Metrics b \<noteq> None, ''metrics'',
                                     case ob_Metrics b of None \<Rightarrow> JNull | Some d \<Rightarrow> JObj (buildOTelBackendDetail d)),
                                    (ob_Traces b \<noteq> None, ''traces'',
                                     case ob_Traces b of None \<Rightarrow> JNull | Some d \<Rightarrow> JObj (buildOTelBackendDetail d))] []))] []"

definition buildOpenTelemetryConfig :: "TelemetryConfig \<Rightarrow> jmap" where
  "buildOpenTelemetryConfig tel =
     (let exporters = (case te_Exporters tel of None \<Rightarrow> [] | Some e \<Rightarrow> buildOTelExporters e);
          layers = (case te_Layers tel of None \<Rightarrow> [] | Some l \<Rightarrow> buildOTelLayers l)
      in puts [(nonempty (te_ServiceName tel), ''service_name'', JStr (te_ServiceName tel)),
               (nonempty exporters, ''exporters'', JObj exporters),
               (nonempty layers, ''layers'', JObj layers)] [])"

text \<open>\<^verbatim>\<open>if len(block) > 0 { ec[k] = block }\<close>, for a block built from an optional spec field.\<close>

definition append_block :: "string \<Rightarrow> ('a \<Rightarrow> jmap) \<Rightarrow> 'a option \<Rightarrow> jmap \<Rightarrow> jmap" where
  "append_block k build x ec =
     (case x of None \<Rightarrow> ec | Some v \<Rightarrow> (let b = build v in if nonempty b then mput k (JObj b) ec else ec))"

definition appendTelemetryConfig :: "jmap \<Rightarrow> TelemetryConfig option \<Rightarrow> jmap" where
  "appendTelemetryConfig ec tel = append_block ''telemetry/opentelemetry'' buildOpenTelemetryConfig tel ec"

definition appendCORSConfig :: "jmap \<Rightarrow> CORSConfig option \<Rightarrow> jmap" where
  "appendCORSConfig ec cors =
     append_block ''security/cors'' (\<lambda>c.
       puts [(nonempty (co_AllowOrigins c), ''allow_origins'', jstrs (co_AllowOrigins c)),
             (nonempty (co_AllowMethods c), ''allow_methods'', jstrs (co_AllowMethods c)),
             (nonempty (co_AllowHeaders c), ''allow_headers'', jstrs (co_AllowHeaders c)),
             (nonempty (co_ExposeHeaders c), ''expose_headers'', jstrs (co_ExposeHeaders c)),
             (co_AllowCredentials c, ''allow_credentials'', JBool True),
             (nonempty (co_MaxAge c), ''max_age'', JStr (co_MaxAge c)),
             (co_Debug c, ''debug'', JBool True)] []) cors ec"

definition appendSecurityConfig :: "jmap \<Rightarrow> SecurityConfig option \<Rightarrow> jmap" where
  "appendSecurityConfig ec sec =
     append_block ''security/http'' (\<lambda>s.
       puts [(sc_SSLRedirect s, ''ssl_redirect'', JBool True),
             (nonempty (sc_SSLProxyHeaders s), ''ssl_proxy_headers'', str_obj (sc_SSLProxyHeaders s)),
             (nonempty (sc_FrameOptions s), ''frame_deny'', JBool (sc_FrameOptions s = ''DENY'')),
             (nonempty (sc_FrameOptions s), ''custom_frame_options_value'', JStr (sc_FrameOptions s)),
             (sc_ContentTypeNosniff s, ''content_type_nosniff'', JBool True),
             (sc_BrowserXSSFilter s, ''browser_xss_filter'', JBool True),
             (sc_HSTSSeconds s > 0, ''sts_seconds'', jint (sc_HSTSSeconds s)),
             (nonempty (sc_ContentSecurityPolicy s), ''content_security_policy'', JStr (sc_ContentSecurityPolicy s))] []) sec ec"

definition appendRouterConfig :: "jmap \<Rightarrow> RouterConfig option \<Rightarrow> jmap" where
  "appendRouterConfig ec router =
     append_block ''router'' (\<lambda>r.
       puts [(rt_ReturnErrorMsg r, ''return_error_msg'', JBool True),
             (nonempty (rt_HealthPath r), ''health_path'', JStr (rt_HealthPath r)),
             (rt_AutoOptions r, ''auto_options'', JBool True),
             (rt_DisableAccessLog r, ''disable_access_log'', JBool True),
             (nonempty (rt_LoggerSkipPaths r), ''logger_skip_paths'', jstrs (rt_LoggerSkipPaths r)),
             (rt_DisableRedirectFixedPath r, ''disable_redirect_fixed_path'', JBool True),
             (rt_DisableRedirectTrailingSlash r, ''disable_redirect_trailing_slash'', JBool True)] []) router ec"

definition appendLoggingConfig :: "jmap \<Rightarrow> LoggingConfig option \<Rightarrow> jmap" where
  "appendLoggingConfig ec logging =
     append_block ''telemetry/logging'' (\<lambda>l.
       puts [(nonempty (lg_Level l), ''level'', JStr (lg_Level l)),
             (nonempty (lg_Prefix l), ''prefix'', JStr (lg_Prefix l)),
             (lg_Stdout l, ''stdout'', JBool True),
             (lg_Syslog l, ''syslog'', JBool True),
             (nonempty (lg_Format l), ''format'', JStr (lg_Format l))] []) logging ec"

definition appendDocumentationConfig :: "jmap \<Rightarrow> DocumentationConfig option \<Rightarrow> jmap" where
  "appendDocumentationConfig ec doc =
     append_block ''documentation/openapi'' (\<lambda>d.
       puts [(nonempty (dc_BasePath d), ''base_path'', JStr (dc_BasePath d)),
             (nonempty (dc_Version d), ''version'', JStr (dc_Version d))] []) doc ec"

definition RedisPoolName :: string where
  "RedisPoolName = ''default''"

definition appendRedisConfig :: "jmap \<Rightarrow> RedisSpec option \<Rightarrow> DragonflyState option \<Rightarrow> jmap" where
  "appendRedisConfig ec redis df =
     (let pool0 = [(True, ''name'', JStr RedisPoolName)];
          (pool, addrs) =
            (case redis of
               None \<Rightarrow> (pool0, [])
             | Some r \<Rightarrow>
                 (let p = rs_ConnectionPool r
                  in (pool0 @ [(rp_PoolSize p > 0, ''pool_size'', jint (rp_PoolSize p)),
                               (rp_MinIdleConns p > 0, ''min_idle_conns'', jint (rp_MinIdleConns p)),
                               (nonempty (rp_DialTimeout p), ''dial_timeout'', JStr (rp_DialTimeout p))],
                      rp_Addresses p)));
          addresses =
            (case df of
               None \<Rightarrow> addrs
             | Some d \<Rightarrow> if df_Enabled d \<and> nonempty (df_ServiceDNS d) then [df_ServiceDNS d] else addrs)
      in case addresses of
           [] \<Rightarrow> ec
         | [a] \<Rightarrow> mput ''redis'' (JObj [(''connection_pools'',
                    JArr [JObj (puts (pool @ [(True, ''address'', JStr a)]) [])])]) ec
         | _ \<Rightarrow> mput ''redis'' (JObj [(''clusters'',
                    JArr [JObj (puts (pool @ [(True, ''addresses'', jstrs addresses)]) [])])]) ec)"

definition buildGatewayExtraConfig :: "KrakenDGateway \<Rightarrow> DragonflyState option \<Rightarrow> jmap" where
  "buildGatewayExtraConfig gw df =
     (let sp = gs_Config (gw_Spec gw);
          ec1 = appendTelemetryConfig [] (gc_Telemetry sp);
          ec2 = appendCORSConfig ec1 (gc_CORS sp);
          ec3 = appendSecurityConfig ec2 (gc_Security sp);
          ec4 = appendRouterConfig ec3 (gc_Router sp);
          ec5 = appendLoggingConfig ec4 (gc_Logging sp);
          ec6 = appendDocumentationConfig ec5 (gc_Documentation sp);
          ec7 = appendRedisConfig ec6 (gs_Redis (gw_Spec gw)) df
      in mmerge ec7 (raw_members (gc_ExtraConfig sp)))"

definition buildPluginBlock :: "KrakenDGateway \<Rightarrow> jmap option" where
  "buildPluginBlock gw =
     (if els (gs_Plugins (gw_Spec gw)) = [] then None
      else Some (puts [(True, ''pattern'', JStr ''.so''), (True, ''folder'', JStr ''/opt/krakend/plugins/'')] []))"

section \<open>Durations can be read back\<close>

text \<open>
  KrakenD's duration format \<^verbatim>\<open>^[0-9]+(ns|ms|us|\<mu>s|s|m|h)$\<close>, read as nanoseconds.
\<close>

definition unit_ns :: "string \<Rightarrow> int option" where
  "unit_ns u =
     map_of [(''h'', 3600000000000), (''m'', 60000000000), (''s'', 1000000000), (''ms'', 1000000),
             (''us'', 1000), ([CHR 0xC2, CHR 0xB5] @ ''s'', 1000), (''ns'', 1)] u"

definition parse_duration :: "string \<Rightarrow> int option" where
  "parse_duration s =
     (let ds = takeWhile is_digit s
      in if ds = [] then None else map_option (\<lambda>m. int (str_nat ds) * m) (unit_ns (dropWhile is_digit s)))"

lemma parse_duration_unit:
  assumes "0 \<le> n" and "unit_ns u = Some m" and "u \<noteq> []" and "\<not> is_digit (hd u)"
  shows "parse_duration (itoa n @ u) = Some (n * m)"
proof -
  have i: "itoa n = nat_str (nat n)" using assms(1) by (simp add: itoa_def)
  have tw: "takeWhile is_digit u = []" and dw: "dropWhile is_digit u = u" using assms(3,4) by (cases u; simp)+
  have "takeWhile is_digit (itoa n @ u) = itoa n" "dropWhile is_digit (itoa n @ u) = u"
    unfolding i using nat_str_digits [of "nat n"] tw dw by simp_all
  then show ?thesis using assms(1,2) by (simp add: parse_duration_def i Let_def)
qed

text \<open>
  C29: A non-negative duration is written in the single-unit format KrakenD accepts, without
  rounding: reading it back gives the same number of nanoseconds.
\<close>

theorem formatDuration_roundtrip:
  assumes "0 \<le> d"
  shows "parse_duration (formatDuration d) = Some d"
proof -
  have "parse_duration (itoa (d div m) @ u) = Some d"
    if "d mod m = 0" "0 < m" "unit_ns u = Some m" "u \<noteq> []" "\<not> is_digit (hd u)" for m u
  proof -
    have "0 \<le> d div m" using assms that(2) by (simp add: pos_imp_zdiv_nonneg_iff)
    moreover have "d div m * m = d" using that(1) by (simp add: mod_0_imp_dvd)
    ultimately show ?thesis using parse_duration_unit that(3-5) by metis
  qed
  note unit = this
  show ?thesis
    unfolding formatDuration_def
    using unit [of 3600000000000 "''h''"] unit [of 60000000000 "''m''"] unit [of 1000000000 "''s''"]
      unit [of 1000000 "''ms''"] unit [of 1000 "[CHR 0xC2, CHR 0xB5] @ ''s''"] unit [of 1 "''ns''"]
    by (simp add: unit_ns_def is_digit_def)
qed

theorem formatDuration_roundtrip_witness: "parse_duration (formatDuration 90000000000) = Some 90000000000"
  by (rule formatDuration_roundtrip) simp

section \<open>Layers of a backend's extra\_config\<close>

text \<open>The typed members a referenced policy contributes, and its raw members.\<close>

definition policy_of :: "PolicyRef option \<Rightarrow> policies \<Rightarrow> string \<Rightarrow> KrakenDBackendPolicySpec option" where
  "policy_of ref policies ns =
     (case ref of None \<Rightarrow> None | Some r \<Rightarrow> map_option pol_Spec (map_of policies (PolicyKey r ns)))"

definition typed_lookup :: "KrakenDBackendPolicySpec option \<Rightarrow> string \<Rightarrow> json option" where
  "typed_lookup sp k = (case sp of None \<Rightarrow> None | Some s \<Rightarrow> map_of (map snd (filter fst (policy_typed s))) k)"

definition raw_lookup :: "KrakenDBackendPolicySpec option \<Rightarrow> string \<Rightarrow> json option" where
  "raw_lookup sp k = (case sp of None \<Rightarrow> None | Some s \<Rightarrow> map_of (raw_members (bp_Raw s)) k)"

definition policies_wf :: "policies \<Rightarrow> bool" where
  "policies_wf policies \<longleftrightarrow> list_all (\<lambda>p. raw_opt_wf (bp_Raw (pol_Spec (snd p)))) policies"

lemma policies_wf_lookup: "policies_wf policies \<Longrightarrow> map_of policies k = Some p \<Longrightarrow> raw_opt_wf (bp_Raw (pol_Spec p))"
  unfolding policies_wf_def list_all_iff using map_of_SomeD by fastforce

lemma applyPolicyExtraConfig_wf:
  "policies_wf policies \<Longrightarrow> mwf m \<Longrightarrow> mwf (applyPolicyExtraConfig m ref policies ns)"
  by (auto simp: applyPolicyExtraConfig_def policies_wf_lookup split: option.splits)

lemma policy_typed_keys: "distinct (map (fst \<circ> snd) (policy_typed sp))"
  by (simp add: policy_typed_def)

lemma applyPolicyExtraConfig_lookup:
  assumes "policies_wf policies"
  shows "map_of (applyPolicyExtraConfig [] ref policies ns) k =
     (case typed_lookup (policy_of ref policies ns) k of
        Some v \<Rightarrow> Some v | None \<Rightarrow> raw_lookup (policy_of ref policies ns) k)"
  using assms policies_wf_lookup [OF assms]
  by (auto simp: applyPolicyExtraConfig_def policy_of_def typed_lookup_def raw_lookup_def map_of_puts
      policy_typed_keys map_add_def split: option.splits)

definition layered :: "BackendSpec \<Rightarrow> policies \<Rightarrow> string \<Rightarrow> string \<Rightarrow> json option" where
  "layered be policies ns k =
     (let pol = policy_of (be_PolicyRef be) policies ns
      in case map_of (raw_members (be_ExtraConfig be)) k of
           Some v \<Rightarrow> Some v
         | None \<Rightarrow> (case typed_lookup pol k of Some v \<Rightarrow> Some v | None \<Rightarrow> raw_lookup pol k))"

text \<open>
  A key of a backend's extra\_config comes from the inline extraConfig if that has it, else
  from the typed fields of the referenced policy, else from the policy's raw block; the backend
  has no extra\_config exactly when no layer has a key.
\<close>

lemma buildBackendExtraConfig_precedence:
  assumes "policies_wf policies" and "raw_opt_wf (be_ExtraConfig be)"
  shows "case buildBackendExtraConfig be policies ns of
           None \<Rightarrow> (\<forall>k. layered be policies ns k = None)
         | Some ec \<Rightarrow> mwf ec \<and> ec \<noteq> [] \<and> map_of ec = layered be policies ns"
proof -
  let ?m = "mmerge (applyPolicyExtraConfig [] (be_PolicyRef be) policies ns) (raw_members (be_ExtraConfig be))"
  have w: "mwf ?m" using assms by (simp add: applyPolicyExtraConfig_wf)
  have l: "map_of ?m = layered be policies ns"
    using assms by (auto simp: layered_def applyPolicyExtraConfig_wf applyPolicyExtraConfig_lookup
        map_add_def fun_eq_iff Let_def split: option.splits)
  have "?m = [] \<longleftrightarrow> (\<forall>k. layered be policies ns k = None)" using mwf_Nil_iff [OF w] l by simp
  then show ?thesis using w l by (auto simp: buildBackendExtraConfig_def Let_def)
qed

definition ex_policy :: KrakenDBackendPolicy where
  "ex_policy =
     \<lparr>pol_Name = ''p'', pol_Namespace = ''ns'',
      pol_Spec = \<lparr>bp_CircuitBreaker = None, bp_RateLimit = Some \<lparr>rl_MaxRate = 10, rl_Capacity = 0\<rparr>, bp_Cache = None,
                  bp_Raw = Some (RawJSON (JObj [(''proxy'', JBool True), (''qos/ratelimit/proxy'', JNull)]))\<rparr>\<rparr>"

definition ex_backend :: BackendSpec where
  "ex_backend =
     \<lparr>be_Host = [''http://h''], be_URLPattern = ''/x'', be_Method = [], be_Encoding = [], be_SD = [], be_SDScheme = [],
      be_DisableHostSanitize = None, be_InputHeaders = [], be_InputQueryStrings = [], be_Allow = [], be_Deny = [],
      be_Group = [], be_Target = [], be_IsCollection = None, be_Mapping = [],
      be_PolicyRef = Some \<lparr>pr_Name = ''p'', pr_Namespace = []\<rparr>,
      be_ExtraConfig = Some (RawJSON (JObj [(''proxy'', JBool False)]))\<rparr>"

section \<open>Members of the rendered objects\<close>

definition entry_wf :: "EndpointEntry \<Rightarrow> bool" where
  "entry_wf e \<longleftrightarrow> raw_opt_wf (en_ExtraConfig e) \<and>
     list_all (\<lambda>be. raw_opt_wf (be_ExtraConfig be) \<and> mwf (be_Mapping be)) (en_Backends e)"

lemma mwf_put_opt [simp]: "mwf m \<Longrightarrow> mwf (put_opt k v m)"
  by (auto simp: put_opt_def split: option.splits)

lemma map_of_put_opt [simp]:
  "mwf m \<Longrightarrow> map_of (put_opt k v m) = (case v of None \<Rightarrow> map_of m | Some o' \<Rightarrow> (map_of m)(k \<mapsto> JObj o'))"
  by (auto simp: put_opt_def split: option.splits)

lemma mwf_buildEndpointJSON [simp]: "mwf (buildEndpointJSON e policies ns)"
  by (simp add: buildEndpointJSON_def)

lemma mwf_buildBackendJSON [simp]: "mwf (buildBackendJSON be policies ns)"
  by (simp add: buildBackendJSON_def)

lemma endpoint_fields_keys: "distinct (map (fst \<circ> snd) (endpoint_fields e))"
  by (simp add: endpoint_fields_def)

lemma backend_fields_keys: "distinct (map (fst \<circ> snd) (backend_fields e))"
  by (simp add: backend_fields_def)

lemma map_of_fields:
  "map_of (map snd (filter fst ((c, k, v) # xs))) x = (if c \<and> k = x then Some v else map_of (map snd (filter fst xs)) x)"
  by simp

lemmas fields_lookup = map_of_fields filter.simps(1) list.map(1) map_of.simps(1)

lemma buildEndpointJSON_members:
  "map_of (buildEndpointJSON e policies ns) ''endpoint'' = Some (JStr (en_Endpoint e))"
  "map_of (buildEndpointJSON e policies ns) ''method'' = Some (JStr (en_Method e))"
  "map_of (buildEndpointJSON e policies ns) ''backend'' = Some (backends_json (en_Backends e) policies ns)"
  "map_of (buildEndpointJSON e policies ns) ''extra_config'' = map_option JObj (buildEndpointExtraConfig (en_ExtraConfig e))"
proof -
  let ?f = "map_of (map snd (filter fst (endpoint_fields e)))"
  have f: "?f ''endpoint'' = Some (JStr (en_Endpoint e))" "?f ''method'' = Some (JStr (en_Method e))"
    "?f ''extra_config'' = None"
    unfolding endpoint_fields_def fields_lookup by simp_all
  have l: "map_of (buildEndpointJSON e policies ns) k =
      (if k = ''backend'' then Some (backends_json (en_Backends e) policies ns)
       else case buildEndpointExtraConfig (en_ExtraConfig e) of
              Some ec \<Rightarrow> if k = ''extra_config'' then Some (JObj ec) else ?f k
            | None \<Rightarrow> ?f k)" for k
    by (auto simp: buildEndpointJSON_def map_of_puts endpoint_fields_keys split: option.splits)
  show "map_of (buildEndpointJSON e policies ns) ''endpoint'' = Some (JStr (en_Endpoint e))"
    "map_of (buildEndpointJSON e policies ns) ''method'' = Some (JStr (en_Method e))"
    "map_of (buildEndpointJSON e policies ns) ''backend'' = Some (backends_json (en_Backends e) policies ns)"
    "map_of (buildEndpointJSON e policies ns) ''extra_config'' = map_option JObj (buildEndpointExtraConfig (en_ExtraConfig e))"
    unfolding l by (simp_all add: f split: option.splits)
qed

lemma buildBackendJSON_extra_config:
  "map_of (buildBackendJSON be policies ns) ''extra_config'' = map_option JObj (buildBackendExtraConfig be policies ns)"
proof -
  have "map_of (map snd (filter fst (backend_fields be))) ''extra_config'' = None"
    unfolding backend_fields_def fields_lookup by simp
  then show ?thesis by (auto simp: buildBackendJSON_def map_of_puts backend_fields_keys split: option.splits)
qed

lemma buildBackendExtraConfig_wf:
  "policies_wf policies \<Longrightarrow> raw_opt_wf (be_ExtraConfig be) \<Longrightarrow> buildBackendExtraConfig be policies ns = Some ec \<Longrightarrow> mwf ec"
  by (auto simp: buildBackendExtraConfig_def applyPolicyExtraConfig_wf Let_def split: if_splits)

lemma buildEndpointExtraConfig_wf:
  "raw_opt_wf raw \<Longrightarrow> buildEndpointExtraConfig raw = Some ec \<Longrightarrow> mwf ec"
  by (auto simp: buildEndpointExtraConfig_def Let_def split: if_splits)

lemma mwf_append_block [simp]: "mwf ec \<Longrightarrow> mwf (append_block k f x ec)"
  by (auto simp: append_block_def Let_def split: option.splits)

lemma mwf_gateway_extra_config: "mwf (buildGatewayExtraConfig gw df)"
  by (auto simp: buildGatewayExtraConfig_def appendTelemetryConfig_def appendCORSConfig_def appendSecurityConfig_def
      appendRouterConfig_def appendLoggingConfig_def appendDocumentationConfig_def appendRedisConfig_def Let_def
      split: option.splits list.splits prod.splits)

lemma mwf_buildRootConfig [simp]: "mwf (buildRootConfig gw)"
  by (simp add: buildRootConfig_def Let_def)

end
