(* ===== verification/Hash.thy ===== *)
theory Hash
  imports Api "HOL-Library.Word"
begin

unbundle bit_operations_syntax

text \<open>
  Package \<^verbatim>\<open>internal/util/hash\<close>. SHA-256 (\<^verbatim>\<open>crypto/sha256\<close>) is defined as FIPS 180-4
  specifies it, on 32-bit words, so that the checksums of the model are those of the code.
  The framing of \<open>CombineHex\<close> is shown to be injective: different digest lists never feed the
  same bytes to the hash.
\<close>

section \<open>SHA-256\<close>

type_synonym w32 = "32 word"

definition rotr :: "nat \<Rightarrow> w32 \<Rightarrow> w32" where
  "rotr n w = drop_bit n w OR push_bit (32 - n) w"

definition sha_K :: "w32 list" where
  "sha_K =
     [1116352408, 1899447441, 3049323471, 3921009573, 961987163, 1508970993, 2453635748, 2870763221,
      3624381080, 310598401, 607225278, 1426881987, 1925078388, 2162078206, 2614888103, 3248222580,
      3835390401, 4022224774, 264347078, 604807628, 770255983, 1249150122, 1555081692, 1996064986,
      2554220882, 2821834349, 2952996808, 3210313671, 3336571891, 3584528711, 113926993, 338241895,
      666307205, 773529912, 1294757372, 1396182291, 1695183700, 1986661051, 2177026350, 2456956037,
      2730485921, 2820302411, 3259730800, 3345764771, 3516065817, 3600352804, 4094571909, 275423344,
      430227734, 506948616, 659060556, 883997877, 958139571, 1322822218, 1537002063, 1747873779,
      1955562222, 2024104815, 2227730452, 2361852424, 2428436474, 2756734187, 3204031479, 3329325298]"

definition sha_H0 :: "w32 list" where
  "sha_H0 =
     [1779033703, 3144134277, 1013904242, 2773480762, 1359893119, 2600822924, 528734635, 1541459225]"

definition small0 :: "w32 \<Rightarrow> w32" where
  "small0 x = rotr 7 x XOR rotr 18 x XOR drop_bit 3 x"

definition small1 :: "w32 \<Rightarrow> w32" where
  "small1 x = rotr 17 x XOR rotr 19 x XOR drop_bit 10 x"

definition big0 :: "w32 \<Rightarrow> w32" where
  "big0 x = rotr 2 x XOR rotr 13 x XOR rotr 22 x"

definition big1 :: "w32 \<Rightarrow> w32" where
  "big1 x = rotr 6 x XOR rotr 11 x XOR rotr 25 x"

definition sha_ch :: "w32 \<Rightarrow> w32 \<Rightarrow> w32 \<Rightarrow> w32" where
  "sha_ch x y z = (x AND y) XOR (NOT x AND z)"

definition sha_maj :: "w32 \<Rightarrow> w32 \<Rightarrow> w32 \<Rightarrow> w32" where
  "sha_maj x y z = (x AND y) XOR (x AND z) XOR (y AND z)"

text \<open>The message schedule, most recent word first.\<close>

fun schedule :: "nat \<Rightarrow> w32 list \<Rightarrow> w32 list" where
  "schedule 0 ws = ws"
| "schedule (Suc n) ws = schedule n ((small1 (ws ! 1) + ws ! 6 + small0 (ws ! 14) + ws ! 15) # ws)"

definition sha_round :: "w32 \<times> w32 \<Rightarrow> w32 list \<Rightarrow> w32 list" where
  "sha_round kw st =
     (case st of
        [a, b, c, d, e, f, g, h] \<Rightarrow>
          (let t1 = h + big1 e + sha_ch e f g + fst kw + snd kw;
               t2 = big0 a + sha_maj a b c
           in [t1 + t2, a, b, c, d + t1, e, f, g])
      | _ \<Rightarrow> st)"

definition sha_block :: "w32 list \<Rightarrow> w32 list \<Rightarrow> w32 list" where
  "sha_block block st =
     map2 (+) st (fold sha_round (zip sha_K (rev (schedule 48 (rev block)))) st)"

definition byte_val :: "char \<Rightarrow> w32" where
  "byte_val c = of_nat (of_char c)"

fun words_of :: "string \<Rightarrow> w32 list" where
  "words_of (a # b # c # d # rest) =
     (push_bit 24 (byte_val a) OR push_bit 16 (byte_val b) OR push_bit 8 (byte_val c) OR byte_val d) # words_of rest"
| "words_of _ = []"

definition be_bytes :: "nat \<Rightarrow> string" where
  "be_bytes n = map (\<lambda>i. char_of (n div 256 ^ (7 - i) mod 256)) [0 ..< 8]"

definition sha_pad :: "string \<Rightarrow> string" where
  "sha_pad s = s @ [CHR 0x80] @ replicate ((119 - length s mod 64) mod 64) (CHR 0x00) @ be_bytes (8 * length s)"

fun sha_blocks :: "nat \<Rightarrow> w32 list \<Rightarrow> w32 list \<Rightarrow> w32 list" where
  "sha_blocks 0 ws st = st"
| "sha_blocks (Suc n) ws st = sha_blocks n (drop 16 ws) (sha_block (take 16 ws) st)"

definition sha256 :: "string \<Rightarrow> w32 list" where
  "sha256 s = (let ws = words_of (sha_pad s) in sha_blocks (length ws div 16) ws sha_H0)"

definition hex_nibble :: "nat \<Rightarrow> char" where
  "hex_nibble n = (if n < 10 then char_of (48 + n) else char_of (87 + n))"

definition hex_word :: "w32 \<Rightarrow> string" where
  "hex_word w = map (\<lambda>i. hex_nibble (unat w div 16 ^ (7 - i) mod 16)) [0 ..< 8]"

definition SHA256Hex :: "string \<Rightarrow> string" where
  "SHA256Hex data = concat (map hex_word (sha256 data))"

text \<open>A digest has 64 digits.\<close>

lemma length_sha_round [simp]: "length (sha_round kw st) = length st"
  by (simp add: sha_round_def Let_def split: list.splits)

lemma length_sha_rounds [simp]: "length (fold sha_round kws st) = length st"
  by (induction kws arbitrary: st) simp_all

lemma length_sha_blocks [simp]: "length (sha_blocks n ws st) = length st"
  by (induction n ws st rule: sha_blocks.induct) (simp_all add: sha_block_def)

lemma length_SHA256Hex [simp]: "length (SHA256Hex data) = 64"
proof -
  have "length (sha256 data) = 8" by (simp add: sha256_def Let_def sha_H0_def)
  then show ?thesis by (simp add: SHA256Hex_def length_concat hex_word_def comp_def sum_list_triv)
qed

lemma SHA256Hex_not_Nil [simp]: "SHA256Hex data \<noteq> []"
  using length_SHA256Hex [of data] by (metis list.size(3) zero_neq_numeral)

section \<open>Combining digests\<close>

definition netstring :: "string \<Rightarrow> string" where
  "netstring d = itoa (int (length d)) @ '':'' @ d @ [CHR 0x00]"

definition combine_stream :: "string list \<Rightarrow> string" where
  "combine_stream digests = concat (map netstring digests)"

definition CombineHex :: "string list \<Rightarrow> string" where
  "CombineHex digests = SHA256Hex (combine_stream digests)"

lemma netstring_split:
  assumes "netstring d @ s = netstring e @ t"
  shows "d = e \<and> s = t"
proof -
  have c: "CHR '':'' \<notin> set (itoa (int n))" for n
    using nat_str_digits [of n] by (auto simp: itoa_def is_digit_def)
  have cut: "CutChar (netstring x @ u) CHR '':'' = (nat_str (length x), x @ [CHR 0x00] @ u, True)" for x u
    using CutChar_sep [OF c [of "length x"], of "x @ [CHR 0x00] @ u"]
    by (simp add: netstring_def itoa_def)
  from assms cut [of d s] cut [of e t] have n: "nat_str (length d) = nat_str (length e)"
    and r: "d @ [CHR 0x00] @ s = e @ [CHR 0x00] @ t" by auto
  from nat_str_inj [OF n] r show ?thesis by auto
qed

text \<open>
  The framing of combined digests is unambiguous: two lists of digests feed the same bytes
  to SHA-256 only when they are the same list.
\<close>

lemma combine_stream_inj: "combine_stream ds = combine_stream es \<longleftrightarrow> ds = es"
proof
  show "combine_stream ds = combine_stream es \<Longrightarrow> ds = es"
  proof (induction ds arbitrary: es)
    case Nil
    then show ?case by (cases es) (auto simp: combine_stream_def netstring_def)
  next
    case (Cons d ds)
    then obtain e es' where es: "es = e # es'" by (cases es) (auto simp: combine_stream_def netstring_def)
    then have "netstring d @ combine_stream ds = netstring e @ combine_stream es'"
      using Cons.prems by (simp add: combine_stream_def)
    from netstring_split [OF this] Cons.IH es show ?case by blast
  qed
qed simp

section \<open>Plugin checksums\<close>

record ConfigMap =
  cm_Name :: string
  cm_BinaryData :: "(string, string) gomap"

definition cm_less :: "ConfigMap \<Rightarrow> ConfigMap \<Rightarrow> bool" where
  "cm_less a b \<longleftrightarrow> cm_Name a < cm_Name b"

definition PluginChecksum :: "ConfigMap list \<Rightarrow> string list \<Rightarrow> string" where
  "PluginChecksum configMaps ociTags =
     SHA256Hex (concat (map (\<lambda>cm. concat (map snd (cm_BinaryData cm))) (sort_by cm_less configMaps))
                @ concat (sort ociTags))"

interpretation cms: keyed_less cm_less cm_Name "\<lambda>_. True"
  by unfold_locales (simp add: cm_less_def)

text \<open>
  The plugin checksum depends neither on the order in which the ConfigMaps (with different
  names) are listed nor on that of the image tags.
\<close>

lemma PluginChecksum_order_independent:
  assumes "distinct (map cm_Name cms)" and "mset cms' = mset cms" and "mset tags' = mset tags"
  shows "PluginChecksum cms' tags' = PluginChecksum cms tags"
proof -
  have "sort_by cm_less cms' = sort_by cm_less cms"
    by (rule cms.sort_by_mset_cong) (use assms in \<open>auto simp: distinct_map\<close>)
  moreover have "sort tags' = sort tags" using assms(3) by (metis properties_for_sort mset_sort sorted_sort)
  ultimately show ?thesis by (simp add: PluginChecksum_def)
qed

end
