(* ===== verification/Render.thy ===== *)
theory Render
  imports RouteAdmit EEStrip Builders Hash
begin

text \<open>
  \<open>Render\<close> of \<^verbatim>\<open>renderer/config.go\<close>: from the custom resources to a krakend.json, its
  checksums, and the conflicts, invalid endpoints and stripped features it reports. gin is the
  parameter \<open>gin\<close> of the route admission.
\<close>

section \<open>Data\<close>

record RenderInput =
  in_Gateway :: "KrakenDGateway option"
  in_Endpoints :: "KrakenDEndpoint list"
  in_Policies :: policies
  in_CEFallback :: bool
  in_Dragonfly :: "DragonflyState option"
  in_PluginConfigMaps :: "ConfigMap list"

record SchemaConflict =
  sx_Endpoint :: NamespacedName
  sx_Schema :: string
  sx_Winner :: NamespacedName

record RenderOutput =
  out_JSON :: string
  out_Checksum :: string
  out_PluginChecksum :: string
  out_ConflictedEndpoints :: "NamespacedName list"
  out_InvalidEndpoints :: "NamespacedName list"
  out_EntryConflicts :: conflicts
  out_StrippedEEFeatures :: "StrippedEEFeature list"
  out_SchemaConflicts :: "SchemaConflict list"
  out_RouteResolutionCapped :: bool

section \<open>Component schemas\<close>

type_synonym schema_state = "jmap \<times> (string, NamespacedName) gomap \<times> SchemaConflict list"

text \<open>One schema of the endpoint \<open>source\<close>; bytes that do not decode are skipped.\<close>

definition add_schema :: "NamespacedName \<Rightarrow> string \<times> RawExtension \<Rightarrow> schema_state \<Rightarrow> schema_state" where
  "add_schema source p = (\<lambda>(schemas, origin, conflicts).
     case snd p of
       RawJSON schema \<Rightarrow>
         (case map_of schemas (fst p) of
            None \<Rightarrow> (mput (fst p) schema schemas, mput (fst p) source origin, conflicts)
          | Some seen \<Rightarrow>
              if seen \<noteq> schema
              then (schemas, origin,
                    conflicts @ [\<lparr>sx_Endpoint = source, sx_Schema = fst p,
                                  sx_Winner = (case map_of origin (fst p) of None \<Rightarrow> NamespacedName [] [] | Some w \<Rightarrow> w)\<rparr>])
              else (schemas, origin, conflicts))
     | _ \<Rightarrow> (schemas, origin, conflicts))"

definition add_schemas :: "KrakenDEndpoint \<Rightarrow> schema_state \<Rightarrow> schema_state" where
  "add_schemas ep st = fold (add_schema (ep_key ep)) (es_ComponentSchemas (ep_Spec ep)) st"

definition appendEndpointComponentSchemas :: "jmap \<Rightarrow> KrakenDEndpoint list \<Rightarrow> jmap \<times> SchemaConflict list" where
  "appendEndpointComponentSchemas ec endpoints =
     (case fold add_schemas endpoints ([], [], []) of
        (schemas, origin, conflicts) \<Rightarrow>
          if schemas = [] then (ec, conflicts)
          else (let docConfig = (case get_obj ec ''documentation/openapi'' of None \<Rightarrow> [] | Some d \<Rightarrow> d)
                in (mput ''documentation/openapi'' (JObj (mput ''components_schemas'' (JObj schemas) docConfig)) ec,
                    conflicts)))"

definition publishesDocs :: "KrakenDGateway \<Rightarrow> bool \<Rightarrow> bool" where
  "publishesDocs gw ceFallback \<longleftrightarrow>
     gs_Edition (gw_Spec gw) = EditionEE \<and> \<not> ceFallback \<and>
     (case gs_OpenAPI (gw_Spec gw) of None \<Rightarrow> False | Some oe \<Rightarrow> oe_Enabled oe)"

section \<open>Images and checksums\<close>

definition ResolveImage :: "KrakenDGateway \<Rightarrow> bool \<Rightarrow> string" where
  "ResolveImage gw ceFallback =
     (let sp = gw_Spec gw
      in if ceFallback
         then (if gs_CEImage sp \<noteq> [] then gs_CEImage sp else ''krakend:'' @ gs_Version sp)
         else if gs_Image sp \<noteq> [] then gs_Image sp
         else (case gs_Edition sp of
                 EditionEE \<Rightarrow> ''krakend/krakend-ee:'' @ gs_Version sp
               | EditionCE \<Rightarrow> ''krakend:'' @ gs_Version sp))"

definition serializeJSON :: "jmap \<Rightarrow> string" where
  "serializeJSON config = jprint 0 (JObj config)"

definition computePluginChecksum :: "KrakenDGateway \<Rightarrow> ConfigMap list \<Rightarrow> string" where
  "computePluginChecksum gw cms =
     (let sources = els (gs_Plugins (gw_Spec gw))
      in if sources = [] then []
         else PluginChecksum cms (sort (List.map_filter ps_ImageRef sources)))"

section \<open>Render\<close>

text \<open>One entry of the endpoints array, or the wildcard entry a CE fallback removes.\<close>

definition render_entry ::
  "KrakenDGateway \<Rightarrow> bool \<Rightarrow> policies \<Rightarrow> flatEndpoint \<Rightarrow> json list \<times> StrippedEEFeature list" where
  "render_entry gw ceFallback policies fe =
     (if ceFallback \<and> IsEEWildcard (en_Endpoint (fe_Entry fe))
      then ([], [\<lparr>sf_Source = fe_Source fe, sf_Method = en_Method (fe_Entry fe),
                  sf_Endpoint = en_Endpoint (fe_Entry fe), sf_Feature = ''wildcard endpoint''\<rparr>])
      else (let ep = buildEndpointJSON (fe_Entry fe) policies (nn_Namespace (fe_Source fe));
                ep1 = (if ceFallback \<or> gs_Edition (gw_Spec gw) = EditionCE then dropCEInertNamespaces ep else ep)
            in if ceFallback
               then (case stripEndpointEEFeatures ep1 fe of (ep2, out) \<Rightarrow> ([JObj ep2], out))
               else ([JObj ep1], [])))"

text \<open>The gateway-level extra\_config with the aggregated schemas, stripped on a CE fallback.\<close>

definition render_gateway_ec ::
  "KrakenDGateway \<Rightarrow> bool \<Rightarrow> KrakenDEndpoint list \<Rightarrow> jmap \<Rightarrow> jmap \<times> SchemaConflict list \<times> StrippedEEFeature list" where
  "render_gateway_ec gw ceFallback endpoints gatewayEC =
     (let (ec1, conflicts) =
            (if gs_Edition (gw_Spec gw) \<noteq> EditionCE then appendEndpointComponentSchemas gatewayEC endpoints
             else (gatewayEC, []));
          conflicts' = (if publishesDocs gw ceFallback then conflicts else []);
          (ec2, out) =
            (if ceFallback
             then stripNamespaces ec1 LevelService (EnterpriseOnly LevelService) no_feature ''extra_config''
             else (ec1, []))
      in (ec2, conflicts', out))"

record RenderedConfig =
  rn_config :: jmap
  rn_kept :: "flatEndpoint list"
  rn_conflicted :: conflicts
  rn_invalid :: "(NamespacedName, unit) gomap"
  rn_capped :: bool
  rn_stripped :: "StrippedEEFeature list"
  rn_schemaConflicts :: "SchemaConflict list"

definition render_rules :: "KrakenDGateway \<Rightarrow> RenderInput \<Rightarrow> routeRules" where
  "render_rules gw inp =
     \<lparr>ru_autoOptions = ro_AutoOptions (routerOptionsOf (buildGatewayExtraConfig gw (in_Dragonfly inp))),
      ru_eeWildcards = (gs_Edition (gw_Spec gw) = EditionEE \<and> \<not> in_CEFallback inp)\<rparr>"

definition render_config :: "gin_router \<Rightarrow> KrakenDGateway \<Rightarrow> RenderInput \<Rightarrow> RenderedConfig" where
  "render_config gin gw inp =
     (case flattenEndpoints (in_Endpoints inp) (in_Policies inp) of
        (flat0, shadowed, conflicted0, invalid) \<Rightarrow>
          (case dropRouteLosers gin flat0 shadowed conflicted0 (render_rules gw inp) of
             (flat, conflicted, capped) \<Rightarrow>
               (let config = buildRootConfig gw;
                    gatewayEC = buildGatewayExtraConfig gw (in_Dragonfly inp);
                    entries = map (render_entry gw (in_CEFallback inp) (in_Policies inp)) flat;
                    config1 = mput ''endpoints'' (JArr (concat (map fst entries))) config
                in case render_gateway_ec gw (in_CEFallback inp) (in_Endpoints inp) gatewayEC of
                     (ec, schemaConflicts, ecStripped) \<Rightarrow>
                       (let config2 = put_if (ec \<noteq> []) ''extra_config'' (JObj ec) config1;
                            config3 = put_opt ''plugin'' (buildPluginBlock gw) config2
                        in \<lparr>rn_config = config3, rn_kept = flat, rn_conflicted = conflicted, rn_invalid = invalid,
                            rn_capped = capped, rn_stripped = concat (map snd entries) @ ecStripped,
                            rn_schemaConflicts = schemaConflicts\<rparr>))))"

definition Render :: "gin_router \<Rightarrow> RenderInput \<Rightarrow> string + RenderOutput" where
  "Render gin inp =
     (case in_Gateway inp of
        None \<Rightarrow> Inl ''gateway must not be nil''
      | Some gw \<Rightarrow>
          (let r = render_config gin gw inp; jsonData = serializeJSON (rn_config r)
           in Inr \<lparr>out_JSON = jsonData, out_Checksum = SHA256Hex jsonData,
                   out_PluginChecksum = computePluginChecksum gw (in_PluginConfigMaps inp),
                   out_ConflictedEndpoints = mkeys (rn_conflicted r),
                   out_InvalidEndpoints = mkeys (rn_invalid r),
                   out_EntryConflicts = rn_conflicted r,
                   out_StrippedEEFeatures = rn_stripped r,
                   out_SchemaConflicts = rn_schemaConflicts r,
                   out_RouteResolutionCapped = rn_capped r\<rparr>))"

section \<open>Component schemas: first seen wins\<close>

text \<open>The schemas of the endpoints that decode, in endpoint order and then by name.\<close>

definition schema_decls :: "KrakenDEndpoint list \<Rightarrow> (string \<times> NamespacedName \<times> json) list" where
  "schema_decls eps =
     concat (map (\<lambda>ep. List.map_filter
       (\<lambda>p. case snd p of RawJSON j \<Rightarrow> Some (fst p, ep_key ep, j) | _ \<Rightarrow> None)
       (es_ComponentSchemas (ep_Spec ep))) eps)"

definition decl_step :: "string \<times> NamespacedName \<times> json \<Rightarrow> schema_state \<Rightarrow> schema_state" where
  "decl_step d = (case d of (n, src, j) \<Rightarrow> add_schema src (n, RawJSON j))"

lemma fold_add_schema:
  "fold (add_schema src) ps st =
     fold decl_step (List.map_filter (\<lambda>p. case snd p of RawJSON j \<Rightarrow> Some (fst p, src, j) | _ \<Rightarrow> None) ps) st"
proof (induction ps arbitrary: st)
  case (Cons p ps)
  then show ?case
    by (cases p, cases "snd p") (auto simp: map_filter_simps decl_step_def add_schema_def split: prod.splits)
qed (simp add: map_filter_simps)

lemma fold_add_schemas: "fold add_schemas eps st = fold decl_step (schema_decls eps) st"
  by (induction eps arbitrary: st) (auto simp: schema_decls_def add_schemas_def fold_add_schema)

definition decl_conflict ::
  "(string \<times> NamespacedName \<times> json) list \<Rightarrow> string \<times> NamespacedName \<times> json \<Rightarrow> SchemaConflict option" where
  "decl_conflict ds d =
     (case d of (n, src, j) \<Rightarrow>
        (case map_of ds n of
           None \<Rightarrow> None
         | Some (w, j0) \<Rightarrow>
             if j0 \<noteq> j then Some \<lparr>sx_Endpoint = src, sx_Schema = n, sx_Winner = w\<rparr> else None))"

lemma fold_decl_step:
  assumes "all = dn @ ds" and "mwf schemas" and "mwf origin"
    and "map_of schemas = (\<lambda>n. map_option snd (map_of dn n))" and "map_of origin = (\<lambda>n. map_option fst (map_of dn n))"
    and "fold decl_step ds (schemas, origin, conflicts) = (schemas', origin', conflicts')"
  shows "mwf schemas' \<and> map_of schemas' = (\<lambda>n. map_option snd (map_of all n)) \<and>
         conflicts' = conflicts @ List.map_filter (decl_conflict all) ds"
  using assms
proof (induction ds arbitrary: dn schemas origin conflicts)
  case Nil
  then show ?case by (simp add: map_filter_simps)
next
  case (Cons d ds)
  obtain n src j where d: "d = (n, src, j)" by (cases d)
  show ?case
  proof (cases "map_of dn n")
    case None
    then have step: "decl_step d (schemas, origin, conflicts) = (mput n j schemas, mput n src origin, conflicts)"
      using Cons.prems(4) by (simp add: d decl_step_def add_schema_def)
    have "map_of all n = Some (src, j)" using None Cons.prems(1) d by (simp add: map_add_def)
    then have nc: "decl_conflict all d = None" by (simp add: decl_conflict_def d)
    have m: "map_of (dn @ [d]) x = (if x = n then Some (src, j) else map_of dn x)" for x
      using None d by (auto simp: map_add_def split: option.splits)
    have "mwf schemas' \<and> map_of schemas' = (\<lambda>n. map_option snd (map_of all n)) \<and>
        conflicts' = conflicts @ List.map_filter (decl_conflict all) ds"
      by (rule Cons.IH [where dn = "dn @ [d]" and schemas = "mput n j schemas" and origin = "mput n src origin"])
        (use Cons.prems step m in \<open>auto simp: fun_eq_iff\<close>)
    then show ?thesis using nc by (simp add: map_filter_simps)
  next
    case (Some p)
    then obtain w j0 where p: "map_of dn n = Some (w, j0)" by (cases p) auto
    have all: "map_of all n = Some (w, j0)" using p Cons.prems(1) by (simp add: map_add_def)
    have lk: "map_of schemas n = Some j0" "map_of origin n = Some w" using p Cons.prems(4,5) by simp_all
    have step: "decl_step d (schemas, origin, conflicts) =
        (schemas, origin, conflicts @ (case decl_conflict all d of None \<Rightarrow> [] | Some c \<Rightarrow> [c]))"
      using lk all by (simp add: d decl_step_def add_schema_def decl_conflict_def)
    have m: "map_of (dn @ [d]) = map_of dn"
      using p d by (auto simp: map_add_def fun_eq_iff split: option.splits)
    have "mwf schemas' \<and> map_of schemas' = (\<lambda>n. map_option snd (map_of all n)) \<and>
        conflicts' = (conflicts @ (case decl_conflict all d of None \<Rightarrow> [] | Some c \<Rightarrow> [c]))
          @ List.map_filter (decl_conflict all) ds"
      by (rule Cons.IH [where dn = "dn @ [d]"]) (use Cons.prems step m in auto)
    then show ?thesis by (auto simp: map_filter_simps split: option.splits)
  qed
qed

lemma schemas_first_seen:
  assumes "fold add_schemas eps ([], [], []) = (schemas, origin, conflicts)"
  shows "mwf schemas" and "map_of schemas n = map_option snd (map_of (schema_decls eps) n)"
    and "conflicts = List.map_filter (decl_conflict (schema_decls eps)) (schema_decls eps)"
  using fold_decl_step [of "schema_decls eps" "[]" "schema_decls eps" "[]" "[]" "[]" schemas origin conflicts] assms
  by (auto simp: fold_add_schemas)

text \<open>
  The rendered documentation holds, under every schema name, the definition of the first
  endpoint that declares it, and the reported schema conflicts are exactly the later declarations
  that differ from it, in order, each naming that first endpoint.
\<close>

lemma appendEndpointComponentSchemas_first_wins:
  assumes a: "appendEndpointComponentSchemas ec eps = (ec', conflicts)" and ne: "schema_decls eps \<noteq> []"
  shows "conflicts = List.map_filter (decl_conflict (schema_decls eps)) (schema_decls eps) \<and>
         (\<exists>doc schemas. get_obj ec' ''documentation/openapi'' = Some doc \<and>
            get_obj doc ''components_schemas'' = Some schemas \<and>
            map_of schemas n = map_option snd (map_of (schema_decls eps) n))"
proof -
  obtain schemas origin cs where f: "fold add_schemas eps ([], [], []) = (schemas, origin, cs)"
    by (metis prod_cases3)
  note fs = schemas_first_seen [OF f]
  have c: "conflicts = cs" using a f by (auto simp: appendEndpointComponentSchemas_def Let_def split: if_splits)
  obtain k v rest where "schema_decls eps = (k, v) # rest" using ne by (cases "schema_decls eps") auto
  then have "map_of schemas k \<noteq> None" using fs(2) [of k] by simp
  then have "schemas \<noteq> []" by auto
  moreover define doc where "doc = (case get_obj ec ''documentation/openapi'' of None \<Rightarrow> [] | Some d \<Rightarrow> d)"
  ultimately have ec': "ec' = mput ''documentation/openapi'' (JObj (mput ''components_schemas'' (JObj schemas) doc)) ec"
    using a f by (auto simp: appendEndpointComponentSchemas_def Let_def doc_def)
  have "map_of (mput k v m) k = Some v" for k :: string and v :: json and m
    by (induction k v m rule: mput.induct) auto
  then show ?thesis using c fs(2,3) ec' by (auto simp: get_obj_def)
qed

section \<open>The rendered document\<close>

definition inputs_wf :: "RenderInput \<Rightarrow> bool" where
  "inputs_wf inp \<longleftrightarrow> policies_wf (in_Policies inp) \<and>
     list_all (\<lambda>ep. list_all entry_wf (es_Endpoints (ep_Spec ep))) (in_Endpoints inp)"

lemma kept_entries:
  assumes "inputs_wf inp" and "fe \<in> set (rn_kept (render_config gin gw inp))"
  shows "entry_wf (fe_Entry fe)"
proof -
  obtain flat0 shadowed conflicted0 invalid where
    f: "flattenEndpoints (in_Endpoints inp) (in_Policies inp) = (flat0, shadowed, conflicted0, invalid)"
    by (metis prod_cases4)
  obtain flat conflicted capped where
    d: "dropRouteLosers gin flat0 shadowed conflicted0 (render_rules gw inp) = (flat, conflicted, capped)"
    by (metis prod_cases3)
  have "fe \<in> set flat" using assms(2) f d by (simp add: render_config_def Let_def split: prod.splits)
  moreover have "set flat \<subseteq> set flat0"
    using d dropRouteLosers_subset [OF flattenEndpoints_subset(2) [OF f], of gin flat0 shadowed "render_rules gw inp"] by simp
  ultimately have "fe \<in> set (all_flat (in_Endpoints inp) (in_Policies inp))"
    using flattenEndpoints_subset(1) [OF f] by blast
  then obtain ep where "ep \<in> set (in_Endpoints inp)" "fe \<in> set (flat_entries ep)" by (auto simp: all_flat_def)
  moreover from this(2) have "fe_Entry fe \<in> set (es_Endpoints (ep_Spec ep))"
    by (auto simp: flat_entries_def in_set_enumerate_eq)
  ultimately show ?thesis using assms(1) by (auto simp: inputs_wf_def list_all_iff)
qed

text \<open>What the render made of each kept entry.\<close>

lemma render_config_endpoints:
  "get_arr (rn_config (render_config gin gw inp)) ''endpoints'' =
     concat (map (\<lambda>fe. fst (render_entry gw (in_CEFallback inp) (in_Policies inp) fe)) (rn_kept (render_config gin gw inp)))"
proof -
  have "map_of (rn_config (render_config gin gw inp)) ''endpoints'' =
      Some (JArr (concat (map (\<lambda>fe. fst (render_entry gw (in_CEFallback inp) (in_Policies inp) fe))
                           (rn_kept (render_config gin gw inp)))))"
    by (auto simp: render_config_def Let_def comp_def split: prod.splits option.splits)
  then show ?thesis by (simp add: get_arr_def)
qed

lemma get_obj_put_or_drop:
  "mwf m \<Longrightarrow> get_obj (put_or_drop k ec m) k' = (if k' = k then (if ec = [] then None else Some ec) else get_obj m k')"
  by (auto simp: put_or_drop_def get_obj_def)

lemma mwf_put_or_drop [simp]: "mwf m \<Longrightarrow> mwf (put_or_drop k ec m)"
  by (simp add: put_or_drop_def)

lemma map_of_put_or_drop: "mwf m \<Longrightarrow> k' \<noteq> k \<Longrightarrow> map_of (put_or_drop k ec m) k' = map_of m k'"
  by (simp add: put_or_drop_def)

lemma dropCEInert_props:
  assumes "mwf ep"
  shows "mwf (dropCEInertNamespaces ep)" and "k \<noteq> ''extra_config'' \<Longrightarrow> map_of (dropCEInertNamespaces ep) k = map_of ep k"
    and "get_obj (dropCEInertNamespaces ep) ''extra_config'' = Some ec \<Longrightarrow>
         \<exists>ec0. get_obj ep ''extra_config'' = Some ec0 \<and> ec = fold mdel ceDroppedEndpointNamespaces ec0"
  using assms by (auto simp: dropCEInertNamespaces_def Let_def get_obj_def split: option.splits if_splits)

text \<open>Stripping an entry leaves its path and method alone.\<close>

lemma stripEndpoint_props:
  assumes "mwf ep"
  shows "mwf (fst (stripEndpointEEFeatures ep fe))"
    and "k \<noteq> ''extra_config'' \<Longrightarrow> k \<noteq> ''backend'' \<Longrightarrow> map_of (fst (stripEndpointEEFeatures ep fe)) k = map_of ep k"
  using assms
  by (auto simp: stripEndpointEEFeatures_def Let_def map_of_put_or_drop split: option.splits prod.splits json.splits)

lemma render_entry_identity:
  assumes "JObj m \<in> set (fst (render_entry gw fb policies fe))"
  shows "map_of m ''endpoint'' = Some (JStr (en_Endpoint (fe_Entry fe))) \<and>
         map_of m ''method'' = Some (JStr (en_Method (fe_Entry fe)))"
proof -
  let ?ep = "buildEndpointJSON (fe_Entry fe) policies (nn_Namespace (fe_Source fe))"
  have ex: "map_of ?ep ''endpoint'' = Some (JStr (en_Endpoint (fe_Entry fe)))"
    "map_of ?ep ''method'' = Some (JStr (en_Method (fe_Entry fe)))"
    by (simp_all add: buildEndpointJSON_members)
  define ep1 where "ep1 = (if fb \<or> gs_Edition (gw_Spec gw) = EditionCE then dropCEInertNamespaces ?ep else ?ep)"
  have w: "mwf ep1" by (simp add: ep1_def dropCEInert_props(1))
  have e1: "map_of ep1 ''endpoint'' = map_of ?ep ''endpoint''" "map_of ep1 ''method'' = map_of ?ep ''method''"
    by (simp_all add: ep1_def dropCEInert_props(2))
  have "m = ep1 \<or> m = fst (stripEndpointEEFeatures ep1 fe)"
    using assms by (auto simp: render_entry_def ep1_def Let_def split: if_splits prod.splits)
  moreover have "map_of (fst (stripEndpointEEFeatures ep1 fe)) ''endpoint'' = map_of ep1 ''endpoint''"
    "map_of (fst (stripEndpointEEFeatures ep1 fe)) ''method'' = map_of ep1 ''method''"
    by (rule stripEndpoint_props(2) [OF w]; simp)+
  ultimately show ?thesis using ex e1 by metis
qed

lemma render_entry_shape:
  "fst (render_entry gw fb policies fe) = [] \<and> fb \<and> IsEEWildcard (en_Endpoint (fe_Entry fe)) \<or>
   (\<exists>m. fst (render_entry gw fb policies fe) = [JObj m]) \<and> \<not> (fb \<and> IsEEWildcard (en_Endpoint (fe_Entry fe)))"
  by (auto simp: render_entry_def Let_def split: prod.splits)


section \<open>A CE-fallback render holds no Enterprise feature\<close>

definition ec_clean :: "NamespaceLevel \<Rightarrow> jmap \<Rightarrow> bool" where
  "ec_clean level m = (case get_obj m ''extra_config'' of None \<Rightarrow> True | Some ec \<Rightarrow> ce_clean level ec)"

definition backend_clean :: "json \<Rightarrow> bool" where
  "backend_clean b = (case b of JObj bm \<Rightarrow> ec_clean LevelBackend bm | _ \<Rightarrow> False)"

definition endpoint_clean :: "json \<Rightarrow> bool" where
  "endpoint_clean e =
     (case e of
        JObj m \<Rightarrow>
          (case map_of m ''endpoint'' of Some (JStr p) \<Rightarrow> \<not> IsEEWildcard p | _ \<Rightarrow> False) \<and>
          ec_clean LevelEndpoint m \<and> list_all backend_clean (get_arr m ''backend'')
      | _ \<Rightarrow> False)"

definition doc_clean :: "jmap \<Rightarrow> bool" where
  "doc_clean config \<longleftrightarrow> list_all endpoint_clean (get_arr config ''endpoints'') \<and> ec_clean LevelService config"

lemma strip_ce_clean: "mwf ec \<Longrightarrow> ce_clean level (fst (stripNamespaces ec level (EnterpriseOnly level) base location))"
proof -
  assume w: "mwf ec"
  obtain ec' out where s: "stripNamespaces ec level (EnterpriseOnly level) base location = (ec', out)"
    by (cases "stripNamespaces ec level (EnterpriseOnly level) base location")
  from stripNamespaces_lookup [OF w, of level "EnterpriseOnly level" base location] s
  have r: "mwf ec'" "\<And>k. map_of ec' k = ce_lookup level (EnterpriseOnly level) ec k" by auto
  show ?thesis
    unfolding s fst_conv ce_clean_iff [OF r(1)] r(2) using ce_value_clean by (auto simp: bind_eq_Some_conv)
qed

lemma strip_backend_clean:
  assumes "mwf bm" and "\<And>ec. get_obj bm ''extra_config'' = Some ec \<Longrightarrow> mwf ec"
  shows "backend_clean (fst (strip_backend base i (JObj bm)))"
proof (cases "get_obj bm ''extra_config''")
  case None
  then show ?thesis by (simp add: strip_backend_def backend_clean_def ec_clean_def)
next
  case (Some ec)
  have "ce_clean LevelBackend (fst (stripNamespaces ec LevelBackend (EnterpriseOnly LevelBackend) base loc))" for loc
    by (rule strip_ce_clean [OF assms(2) [OF Some]])
  then show ?thesis
    using Some assms(1) by (auto simp: strip_backend_def backend_clean_def ec_clean_def get_obj_put_or_drop split: prod.splits)
      (metis fst_conv)
qed

lemma built_backend_ec:
  "policies_wf policies \<Longrightarrow> raw_opt_wf (be_ExtraConfig be) \<Longrightarrow>
   get_obj (buildBackendJSON be policies ns) ''extra_config'' = Some ec \<Longrightarrow> mwf ec"
  by (auto simp: get_obj_def buildBackendJSON_extra_config intro: buildBackendExtraConfig_wf split: option.splits)

lemma strip_entry_clean:
  assumes w: "mwf ep" and ec: "\<And>ec. get_obj ep ''extra_config'' = Some ec \<Longrightarrow> mwf ec"
    and be: "map_of ep ''backend'' = Some (backends_json bes policies ns)" and p: "policies_wf policies"
    and raw: "\<And>b. b \<in> set bes \<Longrightarrow> raw_opt_wf (be_ExtraConfig b)"
  shows "ec_clean LevelEndpoint (fst (stripEndpointEEFeatures ep fe)) \<and>
         list_all backend_clean (get_arr (fst (stripEndpointEEFeatures ep fe)) ''backend'')"
proof -
  define base where "base = \<lparr>sf_Source = fe_Source fe, sf_Method = en_Method (fe_Entry fe),
                  sf_Endpoint = en_Endpoint (fe_Entry fe), sf_Feature = []\<rparr>"
  define ep1 where "ep1 = (case get_obj ep ''extra_config'' of None \<Rightarrow> ep
      | Some ec \<Rightarrow> put_or_drop ''extra_config'' (fst (stripNamespaces ec LevelEndpoint (EnterpriseOnly LevelEndpoint) base ''extra_config'')) ep)"
  have w1: "mwf ep1" using w by (simp add: ep1_def split: option.splits)
  have be1: "map_of ep1 ''backend'' = Some (backends_json bes policies ns)"
    using be w by (simp add: ep1_def map_of_put_or_drop split: option.splits)
  have c1: "ec_clean LevelEndpoint ep1"
    using w ec strip_ce_clean by (auto simp: ep1_def ec_clean_def get_obj_put_or_drop split: option.splits if_splits)
  let ?ep2 = "fst (stripEndpointEEFeatures ep fe)"
  have e2: "?ep2 = (case backends_json bes policies ns of
      JArr bs \<Rightarrow> mput ''backend'' (JArr (map (\<lambda>(i, b). fst (strip_backend base i b)) (enumerate 0 bs))) ep1 | _ \<Rightarrow> ep1)"
    using be1 by (auto simp: stripEndpointEEFeatures_def Let_def base_def [symmetric] ep1_def comp_def split_def
        split: option.splits json.splits prod.splits)
  have clean: "backend_clean (fst (strip_backend base i (JObj (buildBackendJSON b policies ns))))" if "b \<in> set bes" for i b
    by (rule strip_backend_clean) (use built_backend_ec [OF p raw [OF that]] in auto)
  show ?thesis
  proof (cases "bes = []")
    case True
    then show ?thesis using e2 c1 be1 by (simp add: backends_json_def get_arr_def)
  next
    case False
    then have "?ep2 = mput ''backend'' (JArr (map (\<lambda>(i, b). fst (strip_backend base i b))
        (enumerate 0 (map (\<lambda>be. JObj (buildBackendJSON be policies ns)) bes)))) ep1"
      using e2 by (simp add: backends_json_def)
    then show ?thesis
      using w1 c1 clean by (auto simp: ec_clean_def get_obj_def get_arr_def list_all_iff in_set_enumerate_eq split_def)
  qed
qed

lemma render_entry_clean:
  assumes wf: "entry_wf (fe_Entry fe)" and p: "policies_wf policies"
    and e: "e \<in> set (fst (render_entry gw True policies fe))"
  shows "endpoint_clean e"
proof -
  let ?ep = "buildEndpointJSON (fe_Entry fe) policies (nn_Namespace (fe_Source fe))"
  let ?ep1 = "dropCEInertNamespaces ?ep"
  have nw: "\<not> IsEEWildcard (en_Endpoint (fe_Entry fe))" using e by (auto simp: render_entry_def)
  have e2: "e = JObj (fst (stripEndpointEEFeatures ?ep1 fe))"
    using e nw by (auto simp: render_entry_def Let_def split: prod.splits)
  have mem: "map_of ?ep ''endpoint'' = Some (JStr (en_Endpoint (fe_Entry fe)))"
    "map_of ?ep ''backend'' = Some (backends_json (en_Backends (fe_Entry fe)) policies (nn_Namespace (fe_Source fe)))"
    by (simp_all add: buildEndpointJSON_members)
  have "mwf ec" if g: "get_obj ?ep1 ''extra_config'' = Some ec" for ec
  proof -
    obtain ec0 where "get_obj ?ep ''extra_config'' = Some ec0" "ec = fold mdel ceDroppedEndpointNamespaces ec0"
      using dropCEInert_props(3) [OF mwf_buildEndpointJSON g] by blast
    moreover from this(1) have "mwf ec0"
      using wf by (auto simp: get_obj_def buildEndpointJSON_members entry_wf_def intro: buildEndpointExtraConfig_wf
          split: option.splits)
    ultimately show ?thesis by (simp add: gm.wf_fold_del)
  qed
  then have "ec_clean LevelEndpoint (fst (stripEndpointEEFeatures ?ep1 fe)) \<and>
      list_all backend_clean (get_arr (fst (stripEndpointEEFeatures ?ep1 fe)) ''backend'')"
    by (intro strip_entry_clean [OF _ _ _ p])
      (use wf mem(2) in \<open>auto simp: dropCEInert_props entry_wf_def list_all_iff\<close>)
  moreover have "map_of (fst (stripEndpointEEFeatures ?ep1 fe)) ''endpoint'' = Some (JStr (en_Endpoint (fe_Entry fe)))"
    using mem(1) by (simp add: stripEndpoint_props(2) dropCEInert_props)
  ultimately show ?thesis using nw e2 by (simp add: endpoint_clean_def)
qed

lemma mwf_appendEndpointComponentSchemas: "mwf ec \<Longrightarrow> mwf (fst (appendEndpointComponentSchemas ec eps))"
  by (auto simp: appendEndpointComponentSchemas_def Let_def split: prod.splits)

lemma render_config_ec:
  assumes "in_CEFallback inp" and "get_obj (rn_config (render_config gin gw inp)) ''extra_config'' = Some ec"
  shows "ce_clean LevelService ec"
proof -
  let ?gec = "buildGatewayExtraConfig gw (in_Dragonfly inp)"
  define ec1 where "ec1 = (if gs_Edition (gw_Spec gw) \<noteq> EditionCE
      then fst (appendEndpointComponentSchemas ?gec (in_Endpoints inp)) else ?gec)"
  define ec2 where "ec2 = fst (stripNamespaces ec1 LevelService (EnterpriseOnly LevelService) no_feature ''extra_config'')"
  have "mwf ec1" by (simp add: ec1_def mwf_gateway_extra_config mwf_appendEndpointComponentSchemas)
  then have "ce_clean LevelService ec2" unfolding ec2_def by (rule strip_ce_clean)
  moreover have "fst (render_gateway_ec gw True (in_Endpoints inp) ?gec) = ec2"
    by (auto simp: render_gateway_ec_def ec1_def ec2_def Let_def split: prod.splits)
  moreover have root: "get_obj (buildRootConfig gw) ''extra_config'' = None"
    unfolding get_obj_def buildRootConfig_def Let_def by (subst map_of_puts) (simp, simp, simp add: fields_lookup del: filter.simps)
  ultimately show ?thesis using assms
    by (auto simp: render_config_def Let_def get_obj_def put_opt_def put_if_def split: prod.splits option.splits if_splits)
qed

text \<open>
  C21: The document a CE fallback renders holds no EE wildcard path, and no Enterprise-only
  namespace in the extra\_config of the gateway, of an endpoint or of a backend, except blocks
  reduced to the keys CE honors.
\<close>

theorem render_ce_fallback_clean:
  assumes "inputs_wf inp" and "in_CEFallback inp"
  shows "doc_clean (rn_config (render_config gin gw inp))"
proof -
  have "list_all endpoint_clean (get_arr (rn_config (render_config gin gw inp)) ''endpoints'')"
    using assms kept_entries [OF assms(1), of _ gin gw] render_entry_clean
    by (fastforce simp: render_config_endpoints list_all_iff inputs_wf_def)
  moreover have "ec_clean LevelService (rn_config (render_config gin gw inp))"
    using render_config_ec [OF assms(2)] by (auto simp: ec_clean_def split: option.splits)
  ultimately show ?thesis by (simp add: doc_clean_def)
qed

section \<open>Sample render\<close>

definition ex_gw :: KrakenDGateway where
  "ex_gw =
     \<lparr>gw_Name = ''gw'', gw_Namespace = ''ns'', gw_UID = ''u'', gw_Generation = 1,
      gw_Spec = \<lparr>gs_Version = ''2.13.0'', gs_Edition = EditionEE, gs_Image = [], gs_CEImage = [],
        gs_Config = \<lparr>gc_Name = [], gc_Port = 8080, gc_ListenIP = [], gc_Host = [], gc_Timeout = [], gc_CacheTTL = [],
          gc_OutputEncoding = [], gc_DNSCacheTTL = [], gc_EchoEndpoint = False, gc_DebugEndpoint = False,
          gc_CORS = None, gc_Security = None, gc_Logging = None, gc_Router = None, gc_Telemetry = None,
          gc_Documentation = None, gc_ExtraConfig = Some (RawJSON (JObj [(''auth/basic'', JObj [])]))\<rparr>,
        gs_License = None, gs_Redis = None, gs_Plugins = None, gs_OpenAPI = None\<rparr>,
      gw_Status = zero_gateway_status\<rparr>"

definition ex_inp :: RenderInput where
  "ex_inp =
     \<lparr>in_Gateway = Some ex_gw, in_Endpoints = ex_eps, in_Policies = [], in_CEFallback = True, in_Dragonfly = None,
      in_PluginConfigMaps = []\<rparr>"

theorem render_ce_fallback_clean_witness: "doc_clean (rn_config (render_config ex_tree ex_gw ex_inp))"
  by (rule render_ce_fallback_clean) code_simp+

definition ex_schema_eps :: "KrakenDEndpoint list" where
  "ex_schema_eps =
     map (\<lambda>(n, j). \<lparr>ep_Name = n, ep_Namespace = ''ns'', ep_UID = [], ep_ResourceVersion = [], ep_Labels = [], ep_Controller = None, ep_Deleting = False,
       ep_Generation = 0, ep_CreationTimestamp = 0,
        ep_Spec = \<lparr>es_GatewayRef = \<lparr>gr_Name = ''gw'', gr_Namespace = []\<rparr>, es_Endpoints = [],
                   es_ComponentSchemas = [(''User'', RawJSON j)]\<rparr>, ep_Status = zero_endpoint_status\<rparr>)
       [(''a'', JBool True), (''b'', JBool False)]"

lemma ex_schemas:
  "appendEndpointComponentSchemas [] ex_schema_eps =
     ([(''documentation/openapi'', JObj [(''components_schemas'', JObj [(''User'', JBool True)])])],
      [\<lparr>sx_Endpoint = NamespacedName ''ns'' ''b'', sx_Schema = ''User'', sx_Winner = NamespacedName ''ns'' ''a''\<rparr>])"
  by code_simp

end
