(* ===== verification/Validator.thy ===== *)
theory Validator
  imports Render
begin

text \<open>
  The validator of \<^verbatim>\<open>renderer/validator.go\<close> and the EE wildcard rules of
  \<^verbatim>\<open>renderer/eewildcard.go\<close>. A document is its decoded value, \<open>None\<close> when the bytes are not
  JSON. The krakend binary, the temporary file and the deadline are the parameters of the
  record \<open>check_env\<close>; gin and the context are those of the route check.
\<close>

section \<open>EE wildcard rules\<close>

definition stringField :: "jmap \<Rightarrow> string \<Rightarrow> string" where
  "stringField m key = (case map_of m key of Some (JStr s) \<Rightarrow> s | _ \<Rightarrow> [])"

definition endpointMethod :: "jmap \<Rightarrow> string" where
  "endpointMethod m = (let meth = stringField m ''method'' in if meth \<noteq> [] then meth else ''GET'')"

text \<open>The rewritten array, and whether an endpoint changed.\<close>

fun rewrite_endpoint :: "json \<Rightarrow> json \<times> bool" where
  "rewrite_endpoint (JObj m) =
     (case map_of m ''endpoint'' of
        Some (JStr path) \<Rightarrow>
          if IsEEWildcard path
          then (JObj (mput ''endpoint'' (JStr (TrimSuffix path ''*'' @ eeWildcardParam)) m), True)
          else (JObj m, False)
      | _ \<Rightarrow> (JObj m, False))"
| "rewrite_endpoint j = (j, False)"

definition rewriteEEWildcards :: "json list \<Rightarrow> json list \<times> bool" where
  "rewriteEEWildcards endpoints =
     (map (\<lambda>e. fst (rewrite_endpoint e)) endpoints, list_ex (\<lambda>e. snd (rewrite_endpoint e)) endpoints)"

record wroute =
  wr_index :: nat
  wr_method :: string
  wr_path :: string
  wr_shape :: string

definition wildcard_routes :: "json list \<Rightarrow> wroute list" where
  "wildcard_routes endpoints =
     List.map_filter (\<lambda>(i, e).
       case e of
         JObj m \<Rightarrow> Some \<lparr>wr_index = i, wr_method = endpointMethod m, wr_path = stringField m ''endpoint'',
                        wr_shape = routeShape (stringField m ''endpoint'')\<rparr>
       | _ \<Rightarrow> None) (enumerate 0 endpoints)"

definition at_endpoint :: "nat \<Rightarrow> string" where
  "at_endpoint i = ''- at '' @ quoted (''/endpoints/'' @ itoa (int i) @ ''/endpoint'') @ '': ''"

definition conflict_lines :: "wroute \<Rightarrow> wroute \<Rightarrow> string \<Rightarrow> string list" where
  "conflict_lines w o' prefix =
     [at_endpoint (wr_index w) @ ''EE wildcard '' @ quoted (wr_method w @ '' '' @ wr_path w) @ '' conflicts with ''
        @ quoted (wr_method o' @ '' '' @ wr_path o') @ '' (endpoints/'' @ itoa (int (wr_index o'))
        @ ''): the EE router accepts no other '' @ wr_method w @ '' route under '' @ prefix,
      at_endpoint (wr_index o') @ quoted (wr_method o' @ '' '' @ wr_path o') @ '' conflicts with EE wildcard ''
        @ quoted (wr_method w @ '' '' @ wr_path w) @ '' (endpoints/'' @ itoa (int (wr_index w)) @ '')'']"

definition wild_clash :: "wroute \<Rightarrow> wroute \<Rightarrow> bool" where
  "wild_clash w o' \<longleftrightarrow>
     wr_index o' \<noteq> wr_index w \<and> wr_method o' = wr_method w \<and>
     HasPrefix (wr_shape o') (routeShape (TrimSuffix (wr_path w) ''*''))"

text \<open>The loop over the other routes: the findings, the conflicts counted, and whether it stopped.\<close>

fun wild_inner :: "wroute \<Rightarrow> wroute list \<Rightarrow> string list \<Rightarrow> nat \<Rightarrow> string list \<times> nat \<times> bool" where
  "wild_inner w [] findings conflicts = (findings, conflicts, False)"
| "wild_inner w (o' # os) findings conflicts =
     (if \<not> wild_clash w o' then wild_inner w os findings conflicts
      else if conflicts = MaxRouteRefusals then (findings, conflicts, True)
      else wild_inner w os (findings @ conflict_lines w o' (TrimSuffix (wr_path w) ''*'')) (Suc conflicts))"

fun wild_outer :: "ctx \<Rightarrow> nat \<Rightarrow> wroute list \<Rightarrow> wroute list \<Rightarrow> string list \<Rightarrow> nat \<Rightarrow> string + string list \<times> nat \<times> bool" where
  "wild_outer ctx n routes [] findings conflicts = Inr (findings, conflicts, False)"
| "wild_outer ctx n routes (w # ws) findings conflicts =
     (if \<not> IsEEWildcard (wr_path w) then wild_outer ctx n routes ws findings conflicts
      else (case ctx n of
              Some e \<Rightarrow> Inl (''wildcard check did not finish: '' @ e)
            | None \<Rightarrow>
                (case wild_inner w routes findings conflicts of
                   (findings', conflicts', True) \<Rightarrow> Inr (findings', conflicts', True)
                 | (findings', conflicts', False) \<Rightarrow> wild_outer ctx (Suc n) routes ws findings' conflicts')))"

definition param_finding :: "nat \<Rightarrow> jmap \<Rightarrow> nat \<Rightarrow> json \<Rightarrow> string list" where
  "param_finding i m j b =
     (case b of
        JObj bm \<Rightarrow>
          if Contains (stringField bm ''url_pattern'') eeWildcardParam
          then [''- at '' @ quoted (''/endpoints/'' @ itoa (int i) @ ''/backend/'' @ itoa (int j) @ ''/url_pattern'')
                @ '': undefined output param '' @ quoted ''Wildcard'' @ ''! endpoint: '' @ endpointMethod m @ '' ''
                @ stringField m ''endpoint'' @ '', backend: '' @ itoa (int j) @ ''. input: [], output: [Wildcard]'']
          else []
      | _ \<Rightarrow> [])"

definition eeWildcardParamFindings :: "json list \<Rightarrow> string list" where
  "eeWildcardParamFindings endpoints =
     concat (map (\<lambda>(i, e).
       case e of
         JObj m \<Rightarrow>
           (let path = stringField m ''endpoint''
            in if \<not> IsEEWildcard path \<or> Contains path eeWildcardParam then []
               else concat (map (\<lambda>(j, b). param_finding i m j b) (enumerate 0 (get_arr m ''backend''))))
       | _ \<Rightarrow> []) (enumerate 0 endpoints))"

definition eeWildcardBackendFindings :: "json list \<Rightarrow> string list" where
  "eeWildcardBackendFindings endpoints =
     concat (map (\<lambda>(i, e).
       case e of
         JObj m \<Rightarrow>
           if IsEEWildcard (stringField m ''endpoint'') \<and> length (get_arr m ''backend'') > 1
           then [at_endpoint i @ endpointMethod m @ '' '' @ stringField m ''endpoint''
                 @ '': wildcard endpoint can only have 1 backend'']
           else []
       | _ \<Rightarrow> []) (enumerate 0 endpoints))"

definition eeWildcardFindings :: "ctx \<Rightarrow> json list \<Rightarrow> string + string list" where
  "eeWildcardFindings ctx endpoints =
     (let routes = wildcard_routes endpoints
      in case wild_outer ctx 0 routes routes [] 0 of
           Inl e \<Rightarrow> Inl e
         | Inr (findings, conflicts, stopped) \<Rightarrow>
             Inr (sort (findings @ eeWildcardParamFindings endpoints @ eeWildcardBackendFindings endpoints)
                  @ (if stopped then [''- EE wildcard check stopped after '' @ itoa (int conflicts) @ '' conflicts''] else [])))"

section \<open>The validator\<close>

definition EditionFor :: "KrakenDGateway \<Rightarrow> bool \<Rightarrow> Edition" where
  "EditionFor gw ceFallback =
     (if gs_Edition (gw_Spec gw) = EditionEE \<and> \<not> ceFallback then EditionEE else EditionCE)"

datatype RejectionStage = StageUnknown | StageEEWildcard | StageRoute | StageCheck

record ValidationError =
  ve_Output :: string
  ve_Err :: string
  ve_Stage :: RejectionStage

datatype check_error = Verdict ValidationError | Unjudged string

definition ValidationError_Error :: "ValidationError \<Rightarrow> string" where
  "ValidationError_Error e = ''krakend config validation failed: '' @ ve_Err e @ '': '' @ ve_Output e"

definition validationCopy :: "ctx \<Rightarrow> json option \<Rightarrow> Edition \<Rightarrow> string + json \<times> string list" where
  "validationCopy ctx doc edition =
     (case doc of
        None \<Rightarrow> Inl ''unmarshaling config for validation copy''
      | Some j \<Rightarrow>
          (case unmarshal_map j of
             None \<Rightarrow> Inl ''unmarshaling config for validation copy''
           | Some config \<Rightarrow>
               (case map_of config ''endpoints'' of
                  Some (JArr endpoints) \<Rightarrow>
                    if edition \<noteq> EditionEE then Inr (j, [])
                    else (case eeWildcardFindings ctx endpoints of
                            Inl e \<Rightarrow> Inl e
                          | Inr findings \<Rightarrow>
                              if findings \<noteq> [] then Inr (JNull, findings)
                              else (case rewriteEEWildcards endpoints of
                                      (_, False) \<Rightarrow> Inr (j, [])
                                    | (endpoints', True) \<Rightarrow> Inr (JObj (mput ''endpoints'' (JArr endpoints') config), [])))
                | _ \<Rightarrow> Inr (j, []))))"

text \<open>An error of package os; a \<^verbatim>\<open>*fs.PathError\<close> carries the operation and the path.\<close>

datatype os_error = PathError (pe_Op: string) (pe_Path: string) (pe_Err: string) | OtherError string

fun withoutPath :: "os_error \<Rightarrow> string" where
  "withoutPath (PathError op path e) = op @ '': '' @ e"
| "withoutPath (OtherError e) = e"

datatype exec_result = ExecOk | ExitCode int | ExecFailed string

record check_env =
  env_create :: "os_error option"
  env_tmpName :: string
  env_write :: "os_error option"
  env_close :: "os_error option"
  env_remove :: "os_error option"
  env_execute :: "json \<Rightarrow> string list \<Rightarrow> string \<times> exec_result"
  env_ctxErr :: "string option"

fun exec_error :: "exec_result \<Rightarrow> string" where
  "exec_error ExecOk = []"
| "exec_error (ExitCode n) = ''exit status '' @ itoa n"
| "exec_error (ExecFailed e) = e"

definition classifyCheckError :: "string option \<Rightarrow> string \<Rightarrow> exec_result \<Rightarrow> check_error" where
  "classifyCheckError ctxErr output e =
     (case ctxErr of
        Some c \<Rightarrow> Unjudged (''krakend check did not finish: '' @ c @ '': '' @ exec_error e)
      | None \<Rightarrow>
          (case e of
             ExitCode n \<Rightarrow>
               if n > 0 then Verdict \<lparr>ve_Output = output, ve_Err = exec_error e, ve_Stage = StageCheck\<rparr>
               else Unjudged (''running krakend check: '' @ exec_error e)
           | _ \<Rightarrow> Unjudged (''running krakend check: '' @ exec_error e)))"

text \<open>The body of \<open>check\<close> once the temporary file exists; removing it is deferred.\<close>

definition check_file :: "check_env \<Rightarrow> json \<Rightarrow> string list \<Rightarrow> check_error option" where
  "check_file env doc flags =
     (case env_write env of
        Some we \<Rightarrow>
          Some (Unjudged (case env_close env of
                  Some ce \<Rightarrow> ''writing config to temp file: '' @ withoutPath we @ '', close error: '' @ withoutPath ce
                | None \<Rightarrow> ''writing config to temp file: '' @ withoutPath we))
      | None \<Rightarrow>
          (case env_close env of
             Some ce \<Rightarrow> Some (Unjudged (''closing temp file: '' @ withoutPath ce))
           | None \<Rightarrow>
               (case env_execute env doc ([''check''] @ flags @ [''-c'', env_tmpName env]) of
                  (output, ExecOk) \<Rightarrow> None
                | (output, e) \<Rightarrow>
                    Some (classifyCheckError (env_ctxErr env) (ReplaceAll output (env_tmpName env) ''krakend.json'') e))))"

definition check :: "check_env \<Rightarrow> json \<Rightarrow> string list \<Rightarrow> check_error option" where
  "check env doc flags =
     (case env_create env of
        Some e \<Rightarrow> Some (Unjudged (''creating temp file: '' @ withoutPath e))
      | None \<Rightarrow>
          (case check_file env doc flags of
             None \<Rightarrow> map_option (\<lambda>e. Unjudged (''removing temp file: '' @ withoutPath e)) (env_remove env)
           | Some err \<Rightarrow> Some err))"

definition validate ::
  "gin_router \<Rightarrow> ctx \<Rightarrow> ctx \<Rightarrow> check_env \<Rightarrow> json option \<Rightarrow> Edition \<Rightarrow> string list \<Rightarrow> check_error option" where
  "validate gin wctx rctx env doc edition flags =
     (case validationCopy wctx doc edition of
        Inl e \<Rightarrow> Some (Unjudged (''preparing validation copy: '' @ e))
      | Inr (copy, findings) \<Rightarrow>
          if findings \<noteq> []
          then Some (Verdict \<lparr>ve_Output = Join findings [CHR 0x0A], ve_Err = ''EE wildcard rule'', ve_Stage = StageEEWildcard\<rparr>)
          else (case routeRefusals gin rctx (Some copy) of
                  Inl e \<Rightarrow> Some (Unjudged (''checking routes: '' @ e))
                | Inr (refusals, capped) \<Rightarrow>
                    if refusals \<noteq> []
                    then Some (Verdict \<lparr>ve_Output = Join (refusalLines refusals capped) [CHR 0x0A],
                                        ve_Err = ''route conflict'', ve_Stage = StageRoute\<rparr>)
                    else check env copy flags))"

definition Validate ::
  "gin_router \<Rightarrow> ctx \<Rightarrow> ctx \<Rightarrow> check_env \<Rightarrow> json option \<Rightarrow> Edition \<Rightarrow> check_error option" where
  "Validate gin wctx rctx env doc edition = validate gin wctx rctx env doc edition [''-t'', ''-n'']"

definition Lint ::
  "gin_router \<Rightarrow> ctx \<Rightarrow> ctx \<Rightarrow> check_env \<Rightarrow> json option \<Rightarrow> Edition \<Rightarrow> check_error option" where
  "Lint gin wctx rctx env doc edition = validate gin wctx rctx env doc edition [''-n'']"

section \<open>The wildcard rules\<close>

lemma wild_inner_spec:
  "wild_inner w os f c = (f', c', stopped) \<Longrightarrow> (c > 0 \<longrightarrow> f \<noteq> []) \<Longrightarrow>
   (c' > 0 \<longrightarrow> f' \<noteq> []) \<and> (f' = [] \<longleftrightarrow> f = [] \<and> (\<forall>o' \<in> set os. \<not> wild_clash w o')) \<and> (stopped \<longrightarrow> f' \<noteq> [])"
proof (induction w os f c rule: wild_inner.induct)
  case (2 w o' os f c)
  then show ?case
    by (cases "wild_clash w o'"; cases "c = MaxRouteRefusals")
      (auto simp: MaxRouteRefusals_def conflict_lines_def)
qed simp

lemma wild_outer_spec:
  assumes "\<And>i. ctx i = None" and "c > 0 \<longrightarrow> f \<noteq> []"
  shows "\<exists>f' c' stopped. wild_outer ctx n routes ws f c = Inr (f', c', stopped) \<and> (stopped \<longrightarrow> f' \<noteq> []) \<and>
     (f' = [] \<longleftrightarrow> f = [] \<and> (\<forall>w \<in> set ws. IsEEWildcard (wr_path w) \<longrightarrow> (\<forall>o' \<in> set routes. \<not> wild_clash w o')))"
  using assms(2)
proof (induction ws arbitrary: n f c)
  case (Cons w ws)
  have n: "ctx n = None" by (rule assms(1))
  show ?case
  proof (cases "IsEEWildcard (wr_path w)")
    case False
    then show ?thesis using Cons by simp
  next
    case True
    obtain f1 c1 st where i: "wild_inner w routes f c = (f1, c1, st)" by (metis prod_cases3)
    note spec = wild_inner_spec [OF i Cons.prems]
    show ?thesis
    proof (cases st)
      case True
      then show ?thesis using spec i n \<open>IsEEWildcard (wr_path w)\<close> by auto
    next
      case False
      with Cons.IH [of c1 f1 "Suc n"] spec i n True show ?thesis by auto
    qed
  qed
qed auto

text \<open>
  The EE wildcard check of an uncancelled context finds nothing exactly when no endpoint lies
  under an EE wildcard of its method, no EE wildcard endpoint refers to the parameter the copy
  invents, and none has more than one backend.
\<close>

lemma eeWildcardFindings_clean_iff:
  assumes "\<And>i. ctx i = None"
  shows "eeWildcardFindings ctx endpoints = Inr [] \<longleftrightarrow>
     (\<forall>w \<in> set (wildcard_routes endpoints). IsEEWildcard (wr_path w) \<longrightarrow>
        (\<forall>o' \<in> set (wildcard_routes endpoints). \<not> wild_clash w o')) \<and>
     eeWildcardParamFindings endpoints = [] \<and> eeWildcardBackendFindings endpoints = []"
proof -
  let ?rs = "wildcard_routes endpoints"
  obtain f' c' stopped where o: "wild_outer ctx 0 ?rs ?rs [] 0 = Inr (f', c', stopped)" "stopped \<longrightarrow> f' \<noteq> []"
    "f' = [] \<longleftrightarrow> (\<forall>w \<in> set ?rs. IsEEWildcard (wr_path w) \<longrightarrow> (\<forall>o' \<in> set ?rs. \<not> wild_clash w o'))"
    using wild_outer_spec [of ctx 0 "[]" 0 ?rs ?rs] assms by blast
  have srt: "sort xs = [] \<longleftrightarrow> xs = []" for xs :: "string list" by (metis set_empty set_sort)
  have "eeWildcardFindings ctx endpoints = Inr [] \<longleftrightarrow>
      f' = [] \<and> eeWildcardParamFindings endpoints = [] \<and> eeWildcardBackendFindings endpoints = []"
    using o(1,2) by (auto simp: eeWildcardFindings_def Let_def srt)
  then show ?thesis using o(3) by simp
qed

lemma rewritten_not_wildcard: "\<not> IsEEWildcard (p @ eeWildcardParam)"
proof -
  have "last (p @ eeWildcardParam) = CHR ''}''" by (simp add: eeWildcardParam_def)
  moreover have "last (t @ ''/*'') = CHR ''*''" for t by simp
  ultimately show ?thesis by (auto simp: IsEEWildcard_def HasSuffix_iff)
qed

text \<open>
  The copy checked for an EE render has as many endpoints as the render, at the same
  positions. An endpoint keeps its other members; its path in the copy is no EE wildcard and is
  registered by the router as the route shape of the rendered path.
\<close>

lemma rewriteEEWildcards_aligned:
  assumes "i < length endpoints" and "endpoints ! i = JObj m" and "mwf m" and "map_of m ''endpoint'' = Some (JStr path)"
  shows "case rewriteEEWildcards endpoints of (endpoints', changed) \<Rightarrow>
     length endpoints' = length endpoints \<and>
     (\<exists>m' path'. endpoints' ! i = JObj m' \<and> map_of m' = (map_of m)(''endpoint'' \<mapsto> JStr path') \<and>
        ginPath path' = routeShape path \<and> \<not> IsEEWildcard path' \<and> (changed \<or> path' = path))"
proof -
  have "\<exists>m' path'. fst (rewrite_endpoint (JObj m)) = JObj m' \<and> map_of m' = (map_of m)(''endpoint'' \<mapsto> JStr path') \<and>
      ginPath path' = routeShape path \<and> \<not> IsEEWildcard path' \<and> (snd (rewrite_endpoint (JObj m)) \<or> path' = path)"
  proof (cases "IsEEWildcard path")
    case True
    then show ?thesis using assms(3,4) by (auto simp: routeShape_def rewritten_not_wildcard)
  next
    case False
    have upd: "map_of m = (map_of m)(''endpoint'' \<mapsto> JStr path)" using assms(4) by (intro ext) simp
    show ?thesis
    proof (intro exI conjI)
      show "fst (rewrite_endpoint (JObj m)) = JObj m" using assms(4) False by simp
      show "map_of m = (map_of m)(''endpoint'' \<mapsto> JStr path)" by (rule upd)
    qed (use False in \<open>simp_all add: routeShape_def\<close>)
  qed
  then obtain m' path' where m': "fst (rewrite_endpoint (JObj m)) = JObj m'"
    "map_of m' = (map_of m)(''endpoint'' \<mapsto> JStr path')" "ginPath path' = routeShape path" "\<not> IsEEWildcard path'"
    and ch: "snd (rewrite_endpoint (JObj m)) \<or> path' = path" by blast
  have "JObj m \<in> set endpoints" using assms(1,2) by (metis nth_mem)
  then have "list_ex (\<lambda>e. snd (rewrite_endpoint e)) endpoints \<or> path' = path"
    using ch unfolding list_ex_iff by blast
  moreover have "map (\<lambda>e. fst (rewrite_endpoint e)) endpoints ! i = JObj m'"
    by (simp only: nth_map [OF assms(1)] assms(2) m'(1))
  ultimately show ?thesis
    unfolding rewriteEEWildcards_def prod.case length_map using m'(2-4) by blast
qed

section \<open>What an answer of the validator means\<close>

lemma check_None_iff:
  "check env doc flags = None \<longleftrightarrow>
     env_create env = None \<and> env_write env = None \<and> env_close env = None \<and> env_remove env = None \<and>
     snd (env_execute env doc ([''check''] @ flags @ [''-c'', env_tmpName env])) = ExecOk"
  by (auto simp: check_def check_file_def split: option.splits prod.splits exec_result.splits)

text \<open>
  The validator accepts a configuration exactly when its copy was made without a wildcard
  finding, the route check refused nothing in the copy, and krakend check ran on the copy with
  the given flags and succeeded.
\<close>

lemma validate_accepts_iff:
  "validate gin wctx rctx env doc edition flags = None \<longleftrightarrow>
     (\<exists>copy capped. validationCopy wctx doc edition = Inr (copy, []) \<and>
        routeRefusals gin rctx (Some copy) = Inr ([], capped) \<and>
        env_create env = None \<and> env_write env = None \<and> env_close env = None \<and> env_remove env = None \<and>
        snd (env_execute env copy ([''check''] @ flags @ [''-c'', env_tmpName env])) = ExecOk)"
  by (auto simp: validate_def check_None_iff split: sum.splits prod.splits)

lemma check_verdict:
  "check env doc flags = Some (Verdict v) \<Longrightarrow>
     ve_Stage v = StageCheck \<and> env_ctxErr env = None \<and>
     (\<exists>n > 0. snd (env_execute env doc ([''check''] @ flags @ [''-c'', env_tmpName env])) = ExitCode n)"
  by (auto simp: check_def check_file_def classifyCheckError_def
      split: option.splits prod.splits exec_result.splits if_splits)

text \<open>
  C23: A verdict is only given by a check that ran to completion: the wildcard rule found
  something (on an EE render), the route check found a refusal, or krakend check exited with a
  positive status before its deadline. Every other failure is an error without a verdict.
\<close>

theorem validate_verdict_completed:
  assumes "validate gin wctx rctx env doc edition flags = Some (Verdict v)"
  shows "case ve_Stage v of
           StageUnknown \<Rightarrow> False
         | StageEEWildcard \<Rightarrow>
             edition = EditionEE \<and>
             (\<exists>copy findings. validationCopy wctx doc edition = Inr (copy, findings) \<and> findings \<noteq> [] \<and>
                ve_Output v = Join findings [CHR 0x0A])
         | StageRoute \<Rightarrow>
             (\<exists>copy refusals capped. validationCopy wctx doc edition = Inr (copy, []) \<and>
                routeRefusals gin rctx (Some copy) = Inr (refusals, capped) \<and> refusals \<noteq> [])
         | StageCheck \<Rightarrow>
             env_ctxErr env = None \<and>
             (\<exists>copy n. validationCopy wctx doc edition = Inr (copy, []) \<and> n > 0 \<and>
                snd (env_execute env copy ([''check''] @ flags @ [''-c'', env_tmpName env])) = ExitCode n)"
proof -
  have ee: "edition = EditionEE" if "validationCopy wctx doc edition = Inr (copy, findings)" "findings \<noteq> []" for copy findings
    using that by (auto simp: validationCopy_def split: option.splits json.splits if_splits sum.splits prod.splits bool.splits)
  from assms show ?thesis
    using ee by (auto simp: validate_def split: sum.splits prod.splits if_splits dest!: check_verdict)
qed

subsection \<open>Samples\<close>

definition ex_wild :: "json list" where
  "ex_wild = [JObj [(''endpoint'', JStr ''/v1/*''), (''method'', JStr ''GET'')],
              JObj [(''endpoint'', JStr ''/v2''), (''method'', JStr ''GET'')]]"

definition ex_env :: check_env where
  "ex_env =
     \<lparr>env_create = None, env_tmpName = ''/tmp/k'', env_write = None, env_close = None, env_remove = None,
      env_execute = (\<lambda>doc args. (''bad port'', ExitCode 1)), env_ctxErr = None\<rparr>"

lemma ex_verdict:
  "validate ex_tree (\<lambda>_. None) (\<lambda>_. None) ex_env (Some (JObj [(''endpoints'', JArr ex_wild)])) EditionEE [''-n''] =
     Some (Verdict \<lparr>ve_Output = ''bad port'', ve_Err = ''exit status 1'', ve_Stage = StageCheck\<rparr>)"
  by code_simp

theorem validate_verdict_completed_witness:
  "case ve_Stage \<lparr>ve_Output = ''bad port'', ve_Err = ''exit status 1'', ve_Stage = StageCheck\<rparr> of
     StageUnknown \<Rightarrow> False
   | StageEEWildcard \<Rightarrow>
       EditionEE = EditionEE \<and>
       (\<exists>copy findings. validationCopy (\<lambda>_. None) (Some (JObj [(''endpoints'', JArr ex_wild)])) EditionEE = Inr (copy, findings) \<and>
          findings \<noteq> [] \<and>
          ve_Output \<lparr>ve_Output = ''bad port'', ve_Err = ''exit status 1'', ve_Stage = StageCheck\<rparr> = Join findings [CHR 0x0A])
   | StageRoute \<Rightarrow>
       (\<exists>copy refusals capped. validationCopy (\<lambda>_. None) (Some (JObj [(''endpoints'', JArr ex_wild)])) EditionEE = Inr (copy, []) \<and>
          routeRefusals ex_tree (\<lambda>_. None) (Some copy) = Inr (refusals, capped) \<and> refusals \<noteq> [])
   | StageCheck \<Rightarrow>
       env_ctxErr ex_env = None \<and>
       (\<exists>copy n. validationCopy (\<lambda>_. None) (Some (JObj [(''endpoints'', JArr ex_wild)])) EditionEE = Inr (copy, []) \<and> n > 0 \<and>
          snd (env_execute ex_env copy ([''check''] @ [''-n''] @ [''-c'', env_tmpName ex_env])) = ExitCode n)"
  by (rule validate_verdict_completed [OF ex_verdict])

end
