(* ===== verification/ConfigVerdict.thy ===== *)
theory ConfigVerdict
  imports Validator
begin

text \<open>
  Verdicts of the config checks and how they are shown (\<^verbatim>\<open>configcheck/verdict.go\<close>), and
  the comparison of what two renders leave out (\<^verbatim>\<open>configcheck/clash.go\<close>). Byte limits are
  natural numbers: every caller passes a positive constant.
\<close>

section \<open>Cutting text\<close>

text \<open>\<^verbatim>\<open>utf8.RuneStart\<close>: every byte but a continuation byte \<^verbatim>\<open>10xxxxxx\<close>.\<close>

definition RuneStart :: "char \<Rightarrow> bool" where
  "RuneStart b \<longleftrightarrow> (of_char b :: nat) div 64 \<noteq> 2"

primrec cut_loop :: "string \<Rightarrow> nat \<Rightarrow> nat" where
  "cut_loop s 0 = 0"
| "cut_loop s (Suc n) = (if RuneStart (s ! Suc n) then Suc n else cut_loop s n)"

definition Truncate :: "string \<Rightarrow> nat \<Rightarrow> string" where
  "Truncate s limit = (if length s \<le> limit then s else take (cut_loop s limit) s)"

definition TruncateEllipsis :: "string \<Rightarrow> nat \<Rightarrow> string" where
  "TruncateEllipsis s limit =
     (if length s \<le> limit then s
      else if limit < length ''...'' then Truncate s limit
      else Truncate s (limit - length ''...'') @ ''...'')"

text \<open>The loop of \<open>joinBounded\<close>: \<open>i\<close> parts are written to the builder \<open>b\<close>.\<close>

fun join_loop :: "nat \<Rightarrow> string \<Rightarrow> nat \<Rightarrow> string list \<Rightarrow> string" where
  "join_loop limit b i [] = b"
| "join_loop limit b i (p # ps) =
     (let s = (if i > 0 then ''; '' @ p else p)
      in if length b + length s > limit
         then (let b1 = (if i = 0 then b @ Truncate s limit else b);
                   left = (if i = 0 then length (p # ps) - 1 else length (p # ps))
               in if left = 0 then b1 @ '' (truncated)'' else b1 @ '' (+'' @ itoa (int left) @ '' more)'')
         else join_loop limit (b @ s) (Suc i) ps)"

definition joinBounded :: "string list \<Rightarrow> nat \<Rightarrow> string" where
  "joinBounded parts limit = join_loop limit [] 0 parts"

section \<open>Verdicts\<close>

record Verdict =
  v_OK :: bool
  v_Output :: string
  v_Masked :: "NamespacedName list"
  v_Stage :: RejectionStage

definition Suspect :: "Verdict \<Rightarrow> NamespacedName \<Rightarrow> bool" where
  "Suspect v name \<longleftrightarrow> \<not> v_OK v \<or> name \<in> set (v_Masked v)"

definition noFinding :: "string \<Rightarrow> bool" where
  "noFinding line \<longleftrightarrow>
     line = [] \<or> line = ''Syntax OK!'' \<or> HasPrefix line ''Parsing configuration file'' \<or>
     HasPrefix line ''ERROR linting the configuration file''"

definition Excerpt :: "Verdict \<Rightarrow> nat \<Rightarrow> string" where
  "Excerpt v limit =
     (let lines = filter (\<lambda>l. \<not> noFinding l) (map TrimSpace (SplitChar (CHR 0x0A) (v_Output v)));
          lines1 = (if lines = [] \<and> \<not> v_OK v then [''rejected with no output''] else lines)
      in joinBounded lines1 limit)"

section \<open>Route conflicts and clashes\<close>

record RouteConflicts =
  rc_Lost :: conflicts
  rc_Capped :: bool

record Clash =
  cl_Loser :: NamespacedName
  cl_Method :: string
  cl_Endpoint :: string
  cl_Winner :: NamespacedName
  cl_Detail :: string

definition Clash_String :: "Clash \<Rightarrow> string" where
  "Clash_String c =
     cl_Method c @ '' '' @ cl_Endpoint c @ '' of KrakenDEndpoint '' @ nn_String (cl_Loser c) @
     '' cannot be routed next to KrakenDEndpoint '' @ nn_String (cl_Winner c) @
     '', which is older: '' @ cl_Detail c"

text \<open>\<open>clashKey\<close>: loser, winner, method, endpoint.\<close>

type_synonym clashKey = "NamespacedName \<times> NamespacedName \<times> string \<times> string"

definition clash_key :: "NamespacedName \<Rightarrow> EntryConflict \<Rightarrow> clashKey" where
  "clash_key loser e = (loser, ec_Winner e, ec_Method e, ec_Endpoint e)"

definition lost_entries :: "RouteConflicts \<Rightarrow> (NamespacedName \<times> EntryConflict) list" where
  "lost_entries rc = concat (map (\<lambda>(loser, lost). map (Pair loser) lost) (rc_Lost rc))"

definition known_clashes :: "RouteConflicts \<Rightarrow> clashKey set" where
  "known_clashes before = set (map (\<lambda>(loser, e). clash_key loser e) (lost_entries before))"

definition clash_of :: "NamespacedName \<Rightarrow> EntryConflict \<Rightarrow> Clash" where
  "clash_of loser e =
     \<lparr>cl_Loser = loser, cl_Method = ec_Method e, cl_Endpoint = ec_Endpoint e, cl_Winner = ec_Winner e,
      cl_Detail = ec_Detail e\<rparr>"

definition compareClashes :: "Clash \<Rightarrow> Clash \<Rightarrow> int" where
  "compareClashes a b =
     cmp_Or [cmp_Compare (nn_String (cl_Loser a)) (nn_String (cl_Loser b)),
             cmp_Compare (cl_Endpoint a) (cl_Endpoint b), cmp_Compare (cl_Method a) (cl_Method b),
             cmp_Compare (nn_String (cl_Winner a)) (nn_String (cl_Winner b))]"

definition clash_less :: "Clash \<Rightarrow> Clash \<Rightarrow> bool" where
  "clash_less a b \<longleftrightarrow> compareClashes a b < 0"

text \<open>A nil \<open>involving\<close> map is \<^const>\<open>None\<close>.\<close>

definition skip_clash ::
  "clashKey set \<Rightarrow> NamespacedName set option \<Rightarrow> NamespacedName \<Rightarrow> EntryConflict \<Rightarrow> bool" where
  "skip_clash known involving loser e \<longleftrightarrow>
     ec_Detail e = [] \<or> clash_key loser e \<in> known \<or>
     (case involving of None \<Rightarrow> False | Some names \<Rightarrow> loser \<notin> names \<and> ec_Winner e \<notin> names)"

definition NewClashes ::
  "RouteConflicts \<Rightarrow> RouteConflicts \<Rightarrow> NamespacedName set option \<Rightarrow> Clash list" where
  "NewClashes before after involving =
     sort_by clash_less
       (map (\<lambda>(loser, e). clash_of loser e)
          (filter (\<lambda>(loser, e). \<not> skip_clash (known_clashes before) involving loser e) (lost_entries after)))"

section \<open>A cut ends on a rune boundary\<close>

definition boundary :: "string \<Rightarrow> nat \<Rightarrow> bool" where
  "boundary s n \<longleftrightarrow> n = 0 \<or> n = length s \<or> n < length s \<and> RuneStart (s ! n)"

lemma cut_loop_le: "cut_loop s n \<le> n"
  by (induction n) auto

lemma cut_loop_start: "cut_loop s n = 0 \<or> RuneStart (s ! cut_loop s n)"
  by (induction n) auto

lemma cut_loop_greatest: "m \<le> n \<Longrightarrow> m > 0 \<Longrightarrow> RuneStart (s ! m) \<Longrightarrow> m \<le> cut_loop s n"
  by (induction n) (auto simp: le_Suc_eq)

text \<open>
  \<open>Truncate\<close> returns the longest prefix that is at most \<open>limit\<close> bytes long and ends on a
  rune boundary, so a cut never leaves half a character.
\<close>

lemma Truncate_longest:
  "Truncate s limit = take (Max {n. n \<le> limit \<and> n \<le> length s \<and> boundary s n}) s"
proof -
  let ?B = "{n. n \<le> limit \<and> n \<le> length s \<and> boundary s n}"
  let ?n = "if length s \<le> limit then length s else cut_loop s limit"
  have "Max ?B = ?n"
  proof (rule Max_eqI)
    show "finite ?B" by simp
    show "?n \<in> ?B"
      using cut_loop_le [of s limit] cut_loop_start [of s limit] by (auto simp: boundary_def)
    show "m \<le> ?n" if "m \<in> ?B" for m
      using that cut_loop_greatest [of m limit s] by (auto simp: boundary_def)
  qed
  then show ?thesis by (simp add: Truncate_def)
qed

lemma Truncate_length: "length (Truncate s limit) \<le> limit"
  using cut_loop_le [of s limit] by (simp add: Truncate_def)

lemma Truncate_prefix: "\<exists>n. Truncate s limit = take n s"
  unfolding Truncate_def by (metis take_all order_refl)

lemma Truncate_set: "set (Truncate s limit) \<subseteq> set s"
  using Truncate_prefix [of s limit] by (metis set_take_subset)

lemma TruncateEllipsis_length: "length (TruncateEllipsis s limit) \<le> limit"
  using Truncate_length [of s limit] Truncate_length [of s "limit - length ''...''"]
  by (cases "limit < 3") (auto simp: TruncateEllipsis_def)

text \<open>Cutting what was already cut changes nothing, so a stored text is a fixed point.\<close>

lemma TruncateEllipsis_idem: "TruncateEllipsis (TruncateEllipsis s limit) limit = TruncateEllipsis s limit"
  using TruncateEllipsis_length [of s limit] by (simp add: TruncateEllipsis_def [of _ limit])

section \<open>Bounded joins\<close>

definition left_out :: "nat \<Rightarrow> string" where
  "left_out n = (if n = 0 then '' (truncated)'' else '' (+'' @ itoa (int n) @ '' more)'')"

lemma Join_snoc: "xs \<noteq> [] \<Longrightarrow> Join (xs @ [x]) sep = Join xs sep @ sep @ x"
  by (induction xs sep rule: Join.induct) auto

lemma Join_take_Suc:
  "i < length parts \<Longrightarrow>
   Join (take (Suc i) parts) ''; '' = Join (take i parts) ''; '' @ (if i > 0 then ''; '' @ parts ! i else parts ! i)"
proof (cases "i = 0")
  case True
  assume "i < length parts"
  with True show ?thesis by (cases parts) simp_all
next
  case False
  assume i: "i < length parts"
  with False have "take i parts \<noteq> []" by auto
  with False i show ?thesis
    using Join_snoc [of "take i parts" "parts ! i" "''; ''"] by (simp add: take_Suc_conv_app_nth)
qed

lemma Join_take_mono: "i \<le> j \<Longrightarrow> length (Join (take i parts) ''; '') \<le> length (Join (take j parts) ''; '')"
proof (induction j)
  case (Suc j)
  then show ?case
    by (cases "j < length parts") (auto simp: Join_take_Suc le_Suc_eq)
qed simp

text \<open>How many parts fit in \<open>limit\<close> bytes, separators included.\<close>

definition fitting :: "string list \<Rightarrow> nat \<Rightarrow> nat" where
  "fitting parts limit = Max {k. k \<le> length parts \<and> length (Join (take k parts) ''; '') \<le> limit}"

lemma fitting_eqI:
  assumes "k \<le> length parts" and "length (Join (take k parts) ''; '') \<le> limit"
    and "k < length parts \<Longrightarrow> length (Join (take (Suc k) parts) ''; '') > limit"
  shows "fitting parts limit = k"
  unfolding fitting_def
proof (rule Max_eqI)
  fix j assume "j \<in> {k. k \<le> length parts \<and> length (Join (take k parts) ''; '') \<le> limit}"
  then show "j \<le> k"
    using assms(3) Join_take_mono [of "Suc k" j parts] by (cases "j \<le> k") auto
qed (use assms in auto)

definition bounded_join :: "string list \<Rightarrow> nat \<Rightarrow> nat \<Rightarrow> string" where
  "bounded_join parts limit k =
     (if k = length parts then Join parts ''; ''
      else if k = 0 then Truncate (hd parts) limit @ left_out (length parts - 1)
      else Join (take k parts) ''; '' @ left_out (length parts - k))"

lemma join_loop_spec:
  "i \<le> length parts \<Longrightarrow> length (Join (take i parts) ''; '') \<le> limit \<Longrightarrow>
   join_loop limit (Join (take i parts) ''; '') i (drop i parts) = bounded_join parts limit (fitting parts limit)"
proof (induction "length parts - i" arbitrary: i)
  case 0
  then have "fitting parts limit = i" by (intro fitting_eqI) auto
  with 0 show ?case by (simp add: bounded_join_def)
next
  case (Suc n)
  then have i: "i < length parts" by simp
  then have d: "drop i parts = parts ! i # drop (Suc i) parts" by (simp add: Cons_nth_drop_Suc)
  show ?case
  proof (cases "length (Join (take (Suc i) parts) ''; '') > limit")
    case True
    then have "fitting parts limit = i" by (intro fitting_eqI) (use Suc.prems i in auto)
    then show ?thesis
    proof (cases "i = 0")
      case True
      with \<open>fitting parts limit = i\<close> \<open>limit < length (Join (take (Suc i) parts) ''; '')\<close> i show ?thesis
        by (cases parts) (simp_all add: Let_def bounded_join_def left_out_def)
    next
      case False
      with \<open>fitting parts limit = i\<close> \<open>limit < length (Join (take (Suc i) parts) ''; '')\<close> i show ?thesis
        by (simp add: d Let_def Join_take_Suc bounded_join_def left_out_def Suc_diff_Suc)
    qed
  next
    case False
    have "join_loop limit (Join (take (Suc i) parts) ''; '') (Suc i) (drop (Suc i) parts) =
        bounded_join parts limit (fitting parts limit)"
      by (rule Suc.hyps(1)) (use Suc.hyps(2) i False in auto)
    with False i show ?thesis by (auto simp: d Let_def Join_take_Suc)
  qed
qed

text \<open>
  \<open>joinBounded\<close> writes the longest list of whole parts that fits in \<open>limit\<close> bytes and
  counts the parts left out; when not even the first part fits, it writes the longest prefix
  of it that ends on a rune boundary.
\<close>

lemma joinBounded_exact: "joinBounded parts limit = bounded_join parts limit (fitting parts limit)"
  using join_loop_spec [of 0 parts limit] by (simp add: joinBounded_def)

lemma Join_chars: "set (Join xs sep) \<subseteq> set sep \<union> \<Union> (set ` set xs)"
  by (induction xs sep rule: Join.induct) auto

lemma left_out_no_newline: "CHR 0x0A \<notin> set (left_out n)"
  using nat_str_digits [of n] by (auto simp: left_out_def itoa_def is_digit_def)

lemma bounded_join_chars:
  "(\<And>p. p \<in> set parts \<Longrightarrow> CHR 0x0A \<notin> set p) \<Longrightarrow> CHR 0x0A \<notin> set (bounded_join parts limit k)"
proof -
  assume p: "\<And>p. p \<in> set parts \<Longrightarrow> CHR 0x0A \<notin> set p"
  have j: "CHR 0x0A \<notin> set (Join (take k parts) ''; '')" for k
    using Join_chars [of "take k parts" "''; ''"] p by (auto dest: in_set_takeD)
  have t: "CHR 0x0A \<notin> set (Truncate (hd parts) limit)" if "parts \<noteq> []"
    using Truncate_set [of "hd parts" limit] p [of "hd parts"] that by auto
  from j [of "length parts"] j [of k] t show ?thesis
    by (cases parts) (auto simp: bounded_join_def left_out_no_newline)
qed

lemma joinBounded_chars:
  "(\<And>p. p \<in> set parts \<Longrightarrow> CHR 0x0A \<notin> set p) \<Longrightarrow> CHR 0x0A \<notin> set (joinBounded parts limit)"
  by (simp add: joinBounded_exact bounded_join_chars)

lemma trim_both_set: "set (trim_both P s) \<subseteq> set s"
  unfolding trim_both_def by (metis set_rev set_dropWhileD subsetI)

lemma Join_not_Nil: "p \<in> set parts \<Longrightarrow> p \<noteq> [] \<Longrightarrow> Join parts sep \<noteq> []"
  by (induction parts sep rule: Join.induct) auto

lemma bounded_join_not_Nil:
  "parts \<noteq> [] \<Longrightarrow> (\<And>p. p \<in> set parts \<Longrightarrow> p \<noteq> []) \<Longrightarrow> bounded_join parts limit k \<noteq> []"
  using Join_not_Nil [of "hd parts" parts "''; ''"] by (auto simp: bounded_join_def left_out_def)

lemma joinBounded_not_Nil:
  "parts \<noteq> [] \<Longrightarrow> (\<And>p. p \<in> set parts \<Longrightarrow> p \<noteq> []) \<Longrightarrow> joinBounded parts limit \<noteq> []"
  by (simp add: joinBounded_exact bounded_join_not_Nil)

text \<open>
  An excerpt of a verdict is one line of text, and the excerpt of a rejection is never
  empty.
\<close>

lemma Excerpt_one_line_reason:
  "CHR 0x0A \<notin> set (Excerpt v limit) \<and> (v_OK v \<or> Excerpt v limit \<noteq> [])"
proof -
  define ls where "ls = filter (\<lambda>l. \<not> noFinding l) (map TrimSpace (SplitChar (CHR 0x0A) (v_Output v)))"
  define ls1 where "ls1 = (if ls = [] \<and> \<not> v_OK v then [''rejected with no output''] else ls)"
  have e: "Excerpt v limit = joinBounded ls1 limit" by (simp add: Excerpt_def ls1_def ls_def Let_def)
  have "CHR 0x0A \<notin> set l" if "l \<in> set ls" for l
  proof -
    from that obtain r where r: "r \<in> set (SplitChar (CHR 0x0A) (v_Output v))" "l = TrimSpace r"
      by (auto simp: ls_def)
    from SplitChar_no_sep [OF r(1)] trim_both_set [of is_space r] r(2) show ?thesis
      by (auto simp: TrimSpace_def)
  qed
  then have "CHR 0x0A \<notin> set (Excerpt v limit)"
    unfolding e by (intro joinBounded_chars) (auto simp: ls1_def split: if_splits)
  moreover have "v_OK v \<or> Excerpt v limit \<noteq> []"
  proof (cases "ls1 = []")
    case True
    then show ?thesis by (auto simp: ls1_def split: if_splits)
  next
    case False
    have "p \<noteq> []" if "p \<in> set ls1" for p
      using that by (auto simp: ls1_def ls_def noFinding_def split: if_splits)
    with False show ?thesis unfolding e using joinBounded_not_Nil by blast
  qed
  ultimately show ?thesis by simp
qed

section \<open>New clashes\<close>

definition clash_sort_key :: "Clash \<Rightarrow> string \<times> string \<times> string \<times> string" where
  "clash_sort_key c = (nn_String (cl_Loser c), cl_Endpoint c, cl_Method c, nn_String (cl_Winner c))"

interpretation clashes: keyed_less clash_less clash_sort_key "\<lambda>_. True"
  by unfold_locales
    (auto simp: clash_less_def compareClashes_def cmp_Compare_def clash_sort_key_def less_prod_def)

lemma lost_entries_iff:
  "mwf (rc_Lost rc) \<Longrightarrow> (loser, e) \<in> set (lost_entries rc) \<longleftrightarrow> e \<in> set (mlist (rc_Lost rc) loser)"
  by (auto simp: lost_entries_def mlist_def mwf_distinct split: option.splits dest: map_of_SomeD)

text \<open>
  A clash is reported exactly when it is a router clash (not a conflict of equal shapes)
  of the render after a change, its loser and winner involve an endpoint of interest, and the
  render before did not have the same entry of the same endpoint losing to the same winner,
  however the router worded it.
\<close>

lemma NewClashes_exact:
  assumes "mwf (rc_Lost before)" and "mwf (rc_Lost after)"
  shows "c \<in> set (NewClashes before after involving) \<longleftrightarrow>
    (\<exists>e \<in> set (mlist (rc_Lost after) (cl_Loser c)).
       c = clash_of (cl_Loser c) e \<and> cl_Detail c \<noteq> [] \<and>
       (\<forall>names. involving = Some names \<longrightarrow> cl_Loser c \<in> names \<or> cl_Winner c \<in> names) \<and>
       (\<forall>e' \<in> set (mlist (rc_Lost before) (cl_Loser c)).
          (ec_Winner e', ec_Method e', ec_Endpoint e') \<noteq> (cl_Winner c, cl_Method c, cl_Endpoint c)))"
proof -
  have known: "clash_key l e \<in> known_clashes before \<longleftrightarrow>
      (\<exists>e' \<in> set (mlist (rc_Lost before) l).
         (ec_Winner e', ec_Method e', ec_Endpoint e') = (ec_Winner e, ec_Method e, ec_Endpoint e))" for l e
    using assms(1) by (force simp: known_clashes_def clash_key_def lost_entries_iff [symmetric])
  have "c \<in> set (NewClashes before after involving) \<longleftrightarrow>
      (\<exists>l e. (l, e) \<in> set (lost_entries after) \<and> c = clash_of l e \<and>
        \<not> skip_clash (known_clashes before) involving l e)"
    by (auto simp: NewClashes_def)
  also have "\<dots> \<longleftrightarrow> (\<exists>e \<in> set (mlist (rc_Lost after) (cl_Loser c)). c = clash_of (cl_Loser c) e \<and>
        \<not> skip_clash (known_clashes before) involving (cl_Loser c) e)"
    using assms(2) by (auto simp: lost_entries_iff clash_of_def)
  also have "\<dots> \<longleftrightarrow> (\<exists>e \<in> set (mlist (rc_Lost after) (cl_Loser c)).
       c = clash_of (cl_Loser c) e \<and> cl_Detail c \<noteq> [] \<and>
       (\<forall>names. involving = Some names \<longrightarrow> cl_Loser c \<in> names \<or> cl_Winner c \<in> names) \<and>
       (\<forall>e' \<in> set (mlist (rc_Lost before) (cl_Loser c)).
          (ec_Winner e', ec_Method e', ec_Endpoint e') \<noteq> (cl_Winner c, cl_Method c, cl_Endpoint c)))"
  proof (intro bex_cong [OF refl] conj_cong refl)
    fix e assume "c = clash_of (cl_Loser c) e"
    then have "cl_Detail c = ec_Detail e" "cl_Winner c = ec_Winner e" "cl_Method c = ec_Method e"
      "cl_Endpoint c = ec_Endpoint e" by (metis Clash.select_convs clash_of_def)+
    then show "\<not> skip_clash (known_clashes before) involving (cl_Loser c) e \<longleftrightarrow>
       cl_Detail c \<noteq> [] \<and>
       (\<forall>names. involving = Some names \<longrightarrow> cl_Loser c \<in> names \<or> cl_Winner c \<in> names) \<and>
       (\<forall>e' \<in> set (mlist (rc_Lost before) (cl_Loser c)).
          (ec_Winner e', ec_Method e', ec_Endpoint e') \<noteq> (cl_Winner c, cl_Method c, cl_Endpoint c))"
      by (cases involving) (simp_all add: skip_clash_def known conj_ac)
  qed
  finally show ?thesis .
qed

definition ex_clash_before :: RouteConflicts where
  "ex_clash_before = \<lparr>rc_Lost = [], rc_Capped = False\<rparr>"

definition ex_clash_after :: RouteConflicts where
  "ex_clash_after =
     \<lparr>rc_Lost = [(NamespacedName ''ns'' ''b'',
        [\<lparr>ec_Endpoint = ''/a/{x}'', ec_Method = ''GET'', ec_Winner = NamespacedName ''ns'' ''a'', ec_Detail = ''clash''\<rparr>])],
      rc_Capped = False\<rparr>"

end
