(* ===== verification/Effects.thy ===== *)
theory Effects
  imports Prelude
begin

text \<open>
  Fallible stateful code. An \<open>action\<close> maps a state to an error or a value, and the state it
  leaves: a Go method that returns \<^verbatim>\<open>(value, error)\<close> and changes what its receiver refers
  to. \<open>andThen\<close> is the sequence \<^verbatim>\<open>if err != nil { return err }\<close>. \<open>implements\<close> is the
  contract of an action that either returns one given value or fails where it may.
\<close>

type_synonym ('s, 'a) action = "'s \<Rightarrow> (string + 'a) \<times> 's"

definition returns :: "'a \<Rightarrow> ('s, 'a) action" where
  "returns x s = (Inr x, s)"

definition fails :: "string \<Rightarrow> ('s, 'a) action" where
  "fails e s = (Inl e, s)"

definition andThen :: "('s, 'a) action \<Rightarrow> ('a \<Rightarrow> ('s, 'b) action) \<Rightarrow> ('s, 'b) action" where
  "andThen act f s = (case act s of (Inl e, s') \<Rightarrow> (Inl e, s') | (Inr x, s') \<Rightarrow> f x s')"

text \<open>\<open>lift_sum\<close> lifts a pure computation that may fail.\<close>

definition lift_sum :: "string + 'a \<Rightarrow> ('s, 'a) action" where
  "lift_sum r s = (r, s)"

named_theorems implI \<open>rules for \<open>implements\<close>\<close>

definition implements :: "('s \<Rightarrow> bool) \<Rightarrow> bool \<Rightarrow> ('s, 'a) action \<Rightarrow> 'a \<Rightarrow> bool" where
  "implements I may_fail act x \<longleftrightarrow>
     (\<forall>s. I s \<longrightarrow>
        I (snd (act s)) \<and> (fst (act s) = Inr x \<or> (\<exists>e. fst (act s) = Inl e) \<and> may_fail))"

lemma implementsD:
  "implements I mf act x \<Longrightarrow> I s \<Longrightarrow> act s = (r, s') \<Longrightarrow>
   I s' \<and> (r = Inr x \<or> (\<exists>e. r = Inl e) \<and> mf)"
  unfolding implements_def by (metis fst_conv snd_conv)

lemma implements_value: "implements I mf act x \<Longrightarrow> I s \<Longrightarrow> act s = (Inr y, s') \<Longrightarrow> y = x"
  by (drule (2) implementsD) auto

lemma implements_total: "implements I False act x \<Longrightarrow> I s \<Longrightarrow> fst (act s) = Inr x"
  by (auto simp: implements_def)

lemma implements_returns [implI]: "implements I mf (returns x) x"
  by (simp add: implements_def returns_def)

lemma implements_andThen [implI]:
  assumes "implements I mf act x" and "implements I mf (f x) y"
  shows "implements I mf (andThen act f) y"
  unfolding implements_def
proof (intro allI impI)
  fix s assume "I s"
  obtain r s' where a: "act s = (r, s')" by force
  from implementsD [OF assms(1) \<open>I s\<close> a] have "I s'" and r: "r = Inr x \<or> (\<exists>e. r = Inl e) \<and> mf" by auto
  with assms(2) a show "I (snd (andThen act f s)) \<and>
      (fst (andThen act f s) = Inr y \<or> (\<exists>e. fst (andThen act f s) = Inl e) \<and> mf)"
    by (auto simp: andThen_def implements_def)
qed

lemma implements_weaken: "implements I mf act x \<Longrightarrow> (mf \<Longrightarrow> mf') \<Longrightarrow> implements I mf' act x"
  unfolding implements_def by blast

text \<open>
  \<open>triple I P act Q\<close>: \<open>act\<close> keeps the invariant \<open>I\<close>, also when it fails, and a value it returns
  satisfies \<open>Q\<close> together with the state it leaves, when it starts in a state with \<open>I\<close> and \<open>P\<close>.
\<close>

named_theorems tripleI \<open>rules for \<open>triple\<close>\<close>

definition triple :: "('s \<Rightarrow> bool) \<Rightarrow> ('s \<Rightarrow> bool) \<Rightarrow> ('s, 'a) action \<Rightarrow> ('a \<Rightarrow> 's \<Rightarrow> bool) \<Rightarrow> bool" where
  "triple I P act Q \<longleftrightarrow>
     (\<forall>s. I s \<longrightarrow> P s \<longrightarrow> I (snd (act s)) \<and> (\<forall>x. fst (act s) = Inr x \<longrightarrow> Q x (snd (act s))))"

lemma tripleD: "triple I P act Q \<Longrightarrow> I s \<Longrightarrow> P s \<Longrightarrow> act s = (Inr x, s') \<Longrightarrow> I s' \<and> Q x s'"
  unfolding triple_def by (metis fst_conv snd_conv)

lemma triple_keeps: "triple I P act Q \<Longrightarrow> I s \<Longrightarrow> P s \<Longrightarrow> act s = (r, s') \<Longrightarrow> I s'"
  unfolding triple_def by (metis snd_conv)

lemma triple_andThen:
  assumes "triple I P act Q" and "\<And>x. triple I (Q x) (f x) R"
  shows "triple I P (andThen act f) R"
  unfolding triple_def
proof (intro allI impI)
  fix s assume s: "I s" "P s"
  obtain r t where a: "act s = (r, t)" by force
  show "I (snd (andThen act f s)) \<and> (\<forall>y. fst (andThen act f s) = Inr y \<longrightarrow> R y (snd (andThen act f s)))"
  proof (cases r)
    case (Inl e)
    then show ?thesis using triple_keeps [OF assms(1) s a] a by (simp add: andThen_def)
  next
    case (Inr x)
    with a have "andThen act f s = f x t" by (simp add: andThen_def)
    moreover have "I t \<and> Q x t" using tripleD [OF assms(1) s] a Inr by simp
    ultimately show ?thesis using assms(2) [of x] by (simp add: triple_def)
  qed
qed

lemma triple_pre: "triple I P act Q \<Longrightarrow> (\<And>s. I s \<Longrightarrow> P' s \<Longrightarrow> P s) \<Longrightarrow> triple I P' act Q"
  unfolding triple_def by blast

lemma triple_post: "triple I P act Q \<Longrightarrow> (\<And>x s. I s \<Longrightarrow> Q x s \<Longrightarrow> Q' x s) \<Longrightarrow> triple I P act Q'"
  unfolding triple_def by blast

lemma triple_returns [tripleI]: "(\<And>s. I s \<Longrightarrow> P s \<Longrightarrow> Q x s) \<Longrightarrow> triple I P (returns x) Q"
  by (simp add: triple_def returns_def)

lemma triple_fails [tripleI]: "triple I P (fails e) Q"
  by (simp add: triple_def fails_def)

text \<open>An action that reads the state it starts in.\<close>

lemma triple_state: "(\<And>s0. triple I (\<lambda>s. P s \<and> s = s0) (f s0) Q) \<Longrightarrow> triple I P (\<lambda>s. f s s) Q"
  unfolding triple_def by blast

text \<open>An assignment to the state before the action.\<close>

lemma triple_assign:
  "triple I P act Q \<Longrightarrow> (\<And>s. I s \<Longrightarrow> P' s \<Longrightarrow> I (g s) \<and> P (g s)) \<Longrightarrow> triple I P' (\<lambda>s. act (g s)) Q"
  unfolding triple_def by blast

text \<open>\<^verbatim>\<open>if err != nil { return fmt.Errorf(prefix, err) }\<close>\<close>

definition wrap_error :: "string \<Rightarrow> ('s, 'a) action \<Rightarrow> ('s, 'a) action" where
  "wrap_error prefix act s = (case act s of (Inl e, s') \<Rightarrow> (Inl (prefix @ e), s') | (Inr x, s') \<Rightarrow> (Inr x, s'))"

lemma triple_wrap_error [tripleI]: "triple I P act Q \<Longrightarrow> triple I P (wrap_error prefix act) Q"
  unfolding triple_def wrap_error_def by (auto split: prod.splits sum.splits)

end
