(* ===== verification/ConfigCheck.thy ===== *)
theory ConfigCheck
  imports ConfigVerdict Effects
begin

text \<open>
  The \<open>Checker\<close> of \<^verbatim>\<open>configcheck/checker.go\<close> and \<^verbatim>\<open>configcheck/unit.go\<close>: what is rendered
  and checked to judge a gateway root, a policy, an endpoint, a group or a whole render, and
  the memo the answers come from.

  The API reader, gin, the validator and the wait for a validation slot are fields of the
  record \<open>Checker\<close>. The validator and the wait depend on the number of the run, so the
  same content may get a different answer on another run; the reader is fixed during one
  check. The state of a check is the number of runs so far and the memo. Tracing spans are
  left out.
\<close>

section \<open>The checker\<close>

datatype get_result = Found KrakenDBackendPolicy | NotFound | GetError string

type_synonym validator = "nat \<Rightarrow> string \<Rightarrow> Edition \<Rightarrow> check_error option"

record Checker =
  ck_List :: "string \<Rightarrow> string + KrakenDEndpoint list"
  ck_Get :: "NamespacedName \<Rightarrow> get_result"
  ck_gin :: gin_router
  ck_Validate :: validator
  ck_Lint :: validator
  ck_slot :: "nat \<Rightarrow> string option"

record 'm Memo =
  mm_Lookup :: "string \<Rightarrow> 'm \<Rightarrow> Verdict option \<times> 'm"
  mm_Store :: "string \<Rightarrow> Verdict \<Rightarrow> 'm \<Rightarrow> 'm"

record 'm check_state =
  cs_runs :: nat
  cs_memo :: 'm

definition maxStoredOutput :: nat where
  "maxStoredOutput = 16384"

definition modeLint :: string where
  "modeLint = ''lint''"

definition modeValidate :: string where
  "modeValidate = ''validate''"

fun edition_str :: "Edition \<Rightarrow> string" where
  "edition_str EditionCE = ''CE''"
| "edition_str EditionEE = ''EE''"

definition contentKey :: "RenderOutput \<Rightarrow> Edition \<Rightarrow> string \<Rightarrow> string" where
  "contentKey out edition mode = out_Checksum out @ ''/'' @ edition_str edition @ ''/'' @ mode"

definition nn_less :: "NamespacedName \<Rightarrow> NamespacedName \<Rightarrow> bool" where
  "nn_less a b \<longleftrightarrow>
     cmp_Or [cmp_Compare (nn_Namespace a) (nn_Namespace b), cmp_Compare (nn_Name a) (nn_Name b)] < 0"

definition MaskedEndpoints :: "RenderOutput \<Rightarrow> NamespacedName list" where
  "MaskedEndpoints out = sort_by nn_less (mkeys (out_EntryConflicts out))"

text \<open>The edition a render input is checked as; a nil gateway never renders.\<close>

definition in_edition :: "RenderInput \<Rightarrow> Edition" where
  "in_edition inp =
     (case in_Gateway inp of None \<Rightarrow> EditionCE | Some gw \<Rightarrow> EditionFor gw (in_CEFallback inp))"

definition judged :: "Verdict \<Rightarrow> bool" where
  "judged kept \<longleftrightarrow> v_OK kept \<noteq> (v_Output kept \<noteq> [] \<or> v_Stage kept \<noteq> StageUnknown)"

definition verdictFor :: "ValidationError option \<Rightarrow> Verdict" where
  "verdictFor rejection =
     (case rejection of
        None \<Rightarrow> \<lparr>v_OK = True, v_Output = [], v_Masked = [], v_Stage = StageUnknown\<rparr>
      | Some r \<Rightarrow> \<lparr>v_OK = False, v_Output = TruncateEllipsis (ve_Output r) maxStoredOutput, v_Masked = [],
                   v_Stage = ve_Stage r\<rparr>)"

section \<open>Runs and the memo\<close>

definition acquire :: "Checker \<Rightarrow> ('m check_state, unit) action" where
  "acquire ck st =
     (case ck_slot ck (cs_runs st) of
        Some e \<Rightarrow> (Inl (''waiting for a validation slot: '' @ e), st\<lparr>cs_runs := Suc (cs_runs st)\<rparr>)
      | None \<Rightarrow> (Inr (), st))"

definition run_validator ::
  "validator \<Rightarrow> RenderOutput \<Rightarrow> Edition \<Rightarrow> ('m check_state, ValidationError option) action" where
  "run_validator vld out edition st =
     ((case vld (cs_runs st) (out_JSON out) edition of
         None \<Rightarrow> Inr None
       | Some (Verdict invalid) \<Rightarrow> Inr (Some invalid)
       | Some (Unjudged e) \<Rightarrow> Inl e),
      st\<lparr>cs_runs := Suc (cs_runs st)\<rparr>)"

definition run ::
  "Checker \<Rightarrow> RenderInput \<Rightarrow> RenderOutput \<Rightarrow> validator \<Rightarrow> ('m check_state, ValidationError option) action" where
  "run ck inp out vld =
     andThen (acquire ck) (\<lambda>_. run_validator vld out (in_edition inp))"

definition memo_lookup :: "'m Memo option \<Rightarrow> string \<Rightarrow> ('m check_state, Verdict option) action" where
  "memo_lookup memo key st =
     (case memo of
        None \<Rightarrow> (Inr None, st)
      | Some mm \<Rightarrow>
          (case mm_Lookup mm key (cs_memo st) of (kept, m) \<Rightarrow>
             (Inr (case kept of
                     Some v \<Rightarrow> if judged v then Some v else None
                   | None \<Rightarrow> None), st\<lparr>cs_memo := m\<rparr>)))"

definition memo_store :: "'m Memo option \<Rightarrow> string \<Rightarrow> Verdict \<Rightarrow> ('m check_state, unit) action" where
  "memo_store memo key v st =
     (Inr (), case memo of None \<Rightarrow> st | Some mm \<Rightarrow> st\<lparr>cs_memo := mm_Store mm key v (cs_memo st)\<rparr>)"

definition remembered ::
  "Checker \<Rightarrow> RenderInput \<Rightarrow> RenderOutput \<Rightarrow> string \<Rightarrow> validator \<Rightarrow> 'm Memo option \<Rightarrow>
   ('m check_state, Verdict) action" where
  "remembered ck inp out mode vld memo =
     (let key = contentKey out (in_edition inp) mode
      in andThen (memo_lookup memo key) (\<lambda>hit.
           case hit of
             Some kept \<Rightarrow> returns \<lparr>v_OK = v_OK kept, v_Output = v_Output kept, v_Masked = [], v_Stage = v_Stage kept\<rparr>
           | None \<Rightarrow>
               andThen (run ck inp out vld) (\<lambda>rejection.
                 let verdict = verdictFor rejection
                 in andThen (memo_store memo key verdict) (\<lambda>_. returns verdict))))"

definition render :: "Checker \<Rightarrow> RenderInput \<Rightarrow> string + RenderOutput" where
  "render ck inp =
     (case Render (ck_gin ck) inp of Inl e \<Rightarrow> Inl (''rendering config: '' @ e) | Inr out \<Rightarrow> Inr out)"

definition lintInput :: "Checker \<Rightarrow> RenderInput \<Rightarrow> 'm Memo option \<Rightarrow> ('m check_state, Verdict) action" where
  "lintInput ck inp memo =
     andThen (lift_sum (render ck inp)) (\<lambda>out.
       andThen (remembered ck inp out modeLint (ck_Lint ck) memo) (\<lambda>v.
         returns (v\<lparr>v_Masked := MaskedEndpoints out\<rparr>)))"

definition CheckRendered ::
  "Checker \<Rightarrow> RenderInput \<Rightarrow> RenderOutput \<Rightarrow> 'm Memo option \<Rightarrow> ('m check_state, Verdict) action" where
  "CheckRendered ck inp out memo = remembered ck inp out modeValidate (ck_Validate ck) memo"

section \<open>Gathering inputs\<close>

text \<open>The index of the endpoint of the same namespace and name.\<close>

fun index_of :: "NamespacedName \<Rightarrow> KrakenDEndpoint list \<Rightarrow> nat option" where
  "index_of n [] = None"
| "index_of n (e # es) = (if ep_key e = n then Some 0 else map_option Suc (index_of n es))"

definition substitute_one :: "KrakenDEndpoint \<Rightarrow> KrakenDEndpoint list \<Rightarrow> KrakenDEndpoint list" where
  "substitute_one r out =
     (case index_of (ep_key r) out of
        Some i \<Rightarrow> if es_Endpoints (ep_Spec r) = [] then take i out @ drop (Suc i) out else out[i := r]
      | None \<Rightarrow> if es_Endpoints (ep_Spec r) = [] then out else out @ [r])"

definition substitute :: "KrakenDEndpoint list \<Rightarrow> KrakenDEndpoint list \<Rightarrow> KrakenDEndpoint list" where
  "substitute current replace = fold substitute_one replace current"

definition policyKey :: "KrakenDBackendPolicy \<Rightarrow> string" where
  "policyKey policy = PolicyKey \<lparr>pr_Name = pol_Name policy, pr_Namespace = []\<rparr> (pol_Namespace policy)"

definition endpoint_less :: "KrakenDEndpoint \<Rightarrow> KrakenDEndpoint \<Rightarrow> bool" where
  "endpoint_less a b \<longleftrightarrow>
     (let c = cmp_Compare (ep_Namespace a) (ep_Namespace b)
      in if c \<noteq> 0 then c < 0 else cmp_Compare (ep_Name a) (ep_Name b) < 0)"

definition sortEndpoints :: "KrakenDEndpoint list \<Rightarrow> KrakenDEndpoint list" where
  "sortEndpoints endpoints = sort_by endpoint_less endpoints"

definition CEFallback :: "KrakenDGateway \<Rightarrow> bool" where
  "CEFallback gw \<longleftrightarrow>
     gs_Edition (gw_Spec gw) = EditionEE \<and>
     IsStatusConditionTrue (gst_Conditions (gw_Status gw)) ''LicenseDegraded''"

text \<open>\<^verbatim>\<open>strings.Cut(key, "/")\<close> as the namespaced name of a policy key.\<close>

definition key_name :: "string \<Rightarrow> NamespacedName" where
  "key_name key = (case CutChar key CHR ''/'' of (ns, name, _) \<Rightarrow> NamespacedName ns name)"

fun fetch_policies :: "Checker \<Rightarrow> string list \<Rightarrow> policies \<Rightarrow> string + policies" where
  "fetch_policies ck [] policies = Inr policies"
| "fetch_policies ck (key # keys) policies =
     (case map_of policies key of
        Some _ \<Rightarrow> fetch_policies ck keys policies
      | None \<Rightarrow>
          (case ck_Get ck (key_name key) of
             NotFound \<Rightarrow> fetch_policies ck keys policies
           | GetError e \<Rightarrow> Inl (''getting policy '' @ key @ '': '' @ e)
           | Found policy \<Rightarrow> fetch_policies ck keys (mput key policy policies)))"

definition policiesFor :: "Checker \<Rightarrow> KrakenDEndpoint list \<Rightarrow> string + policies" where
  "policiesFor ck endpoints = fetch_policies ck (concat (map EndpointPolicyKeys endpoints)) []"

definition inputFor ::
  "Checker \<Rightarrow> KrakenDGateway \<Rightarrow> KrakenDEndpoint list \<Rightarrow> KrakenDBackendPolicy option \<Rightarrow> bool \<Rightarrow> string + RenderInput" where
  "inputFor ck gw endpoints override fallback =
     (let sorted' = sortEndpoints endpoints
      in case policiesFor ck sorted' of
           Inl e \<Rightarrow> Inl e
         | Inr read \<Rightarrow>
             (let policies = (case override of None \<Rightarrow> read | Some p \<Rightarrow> mput (policyKey p) p read)
              in Inr \<lparr>in_Gateway = Some gw, in_Endpoints = sorted', in_Policies = policies, in_CEFallback = fallback,
                      in_Dragonfly = None, in_PluginConfigMaps = []\<rparr>))"

definition gather :: "Checker \<Rightarrow> KrakenDGateway \<Rightarrow> KrakenDEndpoint list \<Rightarrow> string + RenderInput" where
  "gather ck gw replace =
     (case ck_List ck (gw_Namespace gw @ ''/'' @ gw_Name gw) of
        Inl e \<Rightarrow> Inl (''listing endpoints of gateway '' @ gw_Namespace gw @ ''/'' @ gw_Name gw @ '': '' @ e)
      | Inr items \<Rightarrow> inputFor ck gw (substitute items replace) None (CEFallback gw))"

definition Gather :: "Checker \<Rightarrow> KrakenDGateway \<Rightarrow> KrakenDEndpoint list \<Rightarrow> string + RenderInput" where
  "Gather ck gw replace = gather ck gw replace"

definition SameConfig :: "Checker \<Rightarrow> KrakenDGateway \<Rightarrow> KrakenDGateway \<Rightarrow> string + bool" where
  "SameConfig ck old gw =
     (case gather ck gw [] of
        Inl e \<Rightarrow> Inl e
      | Inr inp \<Rightarrow>
          (case render ck inp of
             Inl e \<Rightarrow> Inl e
           | Inr out \<Rightarrow>
               (let before = inp\<lparr>in_Gateway := Some old, in_CEFallback := CEFallback old\<rparr>
                in case render ck before of
                     Inl e \<Rightarrow> Inl e
                   | Inr oldOut \<Rightarrow>
                       Inr (out_JSON out = out_JSON oldOut \<and>
                            EditionFor gw (in_CEFallback inp) = EditionFor old (in_CEFallback before)))))"

definition Conflicts :: "Checker \<Rightarrow> KrakenDGateway \<Rightarrow> KrakenDEndpoint list \<Rightarrow> string + RouteConflicts" where
  "Conflicts ck gw replace =
     (case gather ck gw replace of
        Inl e \<Rightarrow> Inl e
      | Inr inp \<Rightarrow>
          (case render ck inp of
             Inl e \<Rightarrow> Inl e
           | Inr out \<Rightarrow> Inr \<lparr>rc_Lost = out_EntryConflicts out, rc_Capped = out_RouteResolutionCapped out\<rparr>))"

section \<open>The units that are judged\<close>

record Group =
  gp_Gateway :: KrakenDGateway
  gp_Endpoints :: "KrakenDEndpoint list"
  gp_Override :: "KrakenDBackendPolicy option"
  gp_CEFallback :: bool

record EndpointUnit =
  eu_Gateway :: KrakenDGateway
  eu_Endpoint :: KrakenDEndpoint
  eu_Policies :: "policies option"
  eu_Override :: "KrakenDBackendPolicy option"
  eu_CEFallback :: bool
  eu_Dragonfly :: "DragonflyState option"

record EndpointVerdict =
  ev_OK :: bool
  ev_Reason :: string
  ev_Policies :: "NamespacedName list"
  ev_PoliciesFailAlone :: bool
  ev_Output :: string

record Root =
  rt_Gateway :: KrakenDGateway
  rt_CEFallback :: bool
  rt_Dragonfly :: "DragonflyState option"

definition ev_ok :: EndpointVerdict where
  "ev_ok = \<lparr>ev_OK = True, ev_Reason = [], ev_Policies = [], ev_PoliciesFailAlone = False, ev_Output = []\<rparr>"

definition ev_policies :: "NamespacedName list \<Rightarrow> bool \<Rightarrow> EndpointVerdict" where
  "ev_policies names alone =
     \<lparr>ev_OK = False, ev_Reason = ''PolicyInvalid'', ev_Policies = names, ev_PoliciesFailAlone = alone, ev_Output = []\<rparr>"

definition ev_invalid :: "string \<Rightarrow> EndpointVerdict" where
  "ev_invalid output =
     \<lparr>ev_OK = False, ev_Reason = ''EndpointInvalid'', ev_Policies = [], ev_PoliciesFailAlone = False, ev_Output = output\<rparr>"

definition EndpointVerdict_Message :: "EndpointVerdict \<Rightarrow> nat \<Rightarrow> string" where
  "EndpointVerdict_Message v limit =
     (let names = map nn_String (ev_Policies v)
      in if ev_OK v then []
         else if ev_Reason v = ''PolicyInvalid'' \<and> ev_PoliciesFailAlone v
         then ''references KrakenDBackendPolicy '' @ Join names '', '' @ '', which fails krakend check on its own''
         else if ev_Reason v = ''PolicyInvalid''
         then ''fails krakend check only together with KrakenDBackendPolicy '' @ Join names '', '' @
              '' of another namespace, whose content is not shown''
         else ''fails krakend check on its own: '' @
              Excerpt \<lparr>v_OK = False, v_Output = ev_Output v, v_Masked = [], v_Stage = StageUnknown\<rparr> limit)"

section \<open>The checks\<close>

definition CheckRoot :: "Checker \<Rightarrow> Root \<Rightarrow> 'm Memo option \<Rightarrow> ('m check_state, Verdict) action" where
  "CheckRoot ck r memo =
     lintInput ck
       \<lparr>in_Gateway = Some (rt_Gateway r), in_Endpoints = [], in_Policies = [], in_CEFallback = rt_CEFallback r,
        in_Dragonfly = rt_Dragonfly r, in_PluginConfigMaps = []\<rparr> memo"

definition CheckGroup :: "Checker \<Rightarrow> Group \<Rightarrow> 'm Memo option \<Rightarrow> ('m check_state, Verdict) action" where
  "CheckGroup ck g memo =
     andThen (lift_sum (inputFor ck (gp_Gateway g) (gp_Endpoints g) (gp_Override g) (gp_CEFallback g)))
       (\<lambda>inp. lintInput ck inp memo)"

text \<open>The zero values the composite literals of \<open>policyAlone\<close> leave.\<close>

definition zero_config :: GatewayConfig where
  "zero_config =
     \<lparr>gc_Name = [], gc_Port = 0, gc_ListenIP = [], gc_Host = [], gc_Timeout = [], gc_CacheTTL = [],
      gc_OutputEncoding = [], gc_DNSCacheTTL = [], gc_EchoEndpoint = False, gc_DebugEndpoint = False,
      gc_CORS = None, gc_Security = None, gc_Logging = None, gc_Router = None, gc_Telemetry = None,
      gc_Documentation = None, gc_ExtraConfig = None\<rparr>"

definition zero_gateway :: "string \<Rightarrow> string \<Rightarrow> Edition \<Rightarrow> KrakenDGateway" where
  "zero_gateway name ns edition =
     \<lparr>gw_Name = name, gw_Namespace = ns, gw_UID = [], gw_Generation = 0,
      gw_Spec = \<lparr>gs_Version = [], gs_Edition = edition, gs_Image = [], gs_CEImage = [], gs_Config = zero_config,
        gs_License = None, gs_Redis = None, gs_Plugins = None, gs_OpenAPI = None\<rparr>,
      gw_Status = zero_gateway_status\<rparr>"

definition zero_backend :: BackendSpec where
  "zero_backend =
     \<lparr>be_Host = [], be_URLPattern = [], be_Method = [], be_Encoding = [], be_SD = [], be_SDScheme = [],
      be_DisableHostSanitize = None, be_InputHeaders = [], be_InputQueryStrings = [], be_Allow = [], be_Deny = [],
      be_Group = [], be_Target = [], be_IsCollection = None, be_Mapping = [], be_PolicyRef = None,
      be_ExtraConfig = None\<rparr>"

definition zero_entry :: EndpointEntry where
  "zero_entry =
     \<lparr>en_Endpoint = [], en_Method = [], en_Backends = [], en_Timeout = None, en_CacheTTL = None,
      en_InputHeaders = None, en_InputQueryStrings = None, en_OutputEncoding = [], en_ConcurrentCalls = None,
      en_ExtraConfig = None\<rparr>"

definition policyAlone :: "KrakenDBackendPolicy \<Rightarrow> RenderInput" where
  "policyAlone policy =
     (let name = ''policy-lint'';
          be = zero_backend\<lparr>be_Host := [''http://'' @ name], be_URLPattern := ''/'',
                 be_PolicyRef := Some \<lparr>pr_Name = pol_Name policy, pr_Namespace = []\<rparr>\<rparr>;
          ep = \<lparr>ep_Name = name, ep_Namespace = pol_Namespace policy, ep_UID = [], ep_ResourceVersion = [], ep_Labels = [], ep_Controller = None, ep_Deleting = False,
       ep_Generation = 0, ep_CreationTimestamp = 0,
                ep_Spec = \<lparr>es_GatewayRef = \<lparr>gr_Name = name, gr_Namespace = []\<rparr>,
                  es_Endpoints = [zero_entry\<lparr>en_Endpoint := ''/'' @ name, en_Method := ''GET'', en_Backends := [be]\<rparr>],
                  es_ComponentSchemas = []\<rparr>, ep_Status = zero_endpoint_status\<rparr>
      in \<lparr>in_Gateway = Some (zero_gateway name (pol_Namespace policy) EditionCE), in_Endpoints = [ep],
          in_Policies = [(policyKey policy, policy)], in_CEFallback = False, in_Dragonfly = None,
          in_PluginConfigMaps = []\<rparr>)"

definition CheckPolicy ::
  "Checker \<Rightarrow> KrakenDBackendPolicy \<Rightarrow> 'm Memo option \<Rightarrow> ('m check_state, Verdict) action" where
  "CheckPolicy ck policy memo = lintInput ck (policyAlone policy) memo"

definition unitPolicies :: "Checker \<Rightarrow> EndpointUnit \<Rightarrow> string + policies" where
  "unitPolicies ck u =
     (case (case eu_Policies u of None \<Rightarrow> policiesFor ck [eu_Endpoint u] | Some ps \<Rightarrow> Inr ps) of
        Inl e \<Rightarrow> Inl e
      | Inr policies \<Rightarrow>
          Inr (case eu_Override u of None \<Rightarrow> policies | Some p \<Rightarrow> mput (policyKey p) p policies))"

definition foreignPolicies :: "string \<Rightarrow> string list \<Rightarrow> string list" where
  "foreignPolicies namespace keys = filter (\<lambda>key. fst (CutChar key CHR ''/'') \<noteq> namespace) keys"

definition EmptyPolicy :: "string \<Rightarrow> string \<Rightarrow> KrakenDBackendPolicy" where
  "EmptyPolicy namespace name =
     \<lparr>pol_Name = name, pol_Namespace = namespace,
      pol_Spec = \<lparr>bp_CircuitBreaker = None, bp_RateLimit = None, bp_Cache = None, bp_Raw = None\<rparr>\<rparr>"

text \<open>Every key is present: \<open>CheckEndpoint\<close> has returned for a missing policy before.\<close>

definition emptied :: "policies \<Rightarrow> string list \<Rightarrow> policies" where
  "emptied policies keys =
     fold (\<lambda>key out. case map_of policies key of
             Some p \<Rightarrow> mput key (EmptyPolicy (pol_Namespace p) (pol_Name p)) out
           | None \<Rightarrow> out) keys policies"

definition policyNames :: "string list \<Rightarrow> NamespacedName list" where
  "policyNames keys = map key_name keys"

text \<open>
  The first step of \<open>CheckEndpoint\<close>, the policies alone: \<^const>\<open>None\<close> when one is missing,
  otherwise those that fail.
\<close>

fun check_policies ::
  "Checker \<Rightarrow> 'm Memo option \<Rightarrow> policies \<Rightarrow> NamespacedName list \<Rightarrow> string list \<Rightarrow>
   ('m check_state, NamespacedName list option) action" where
  "check_policies ck memo policies failing [] = returns (Some failing)"
| "check_policies ck memo policies failing (key # keys) =
     (case map_of policies key of
        None \<Rightarrow> returns None
      | Some policy \<Rightarrow>
          andThen (CheckPolicy ck policy memo) (\<lambda>alone.
            check_policies ck memo policies
              (if v_OK alone then failing
               else failing @ [NamespacedName (pol_Namespace policy) (pol_Name policy)]) keys))"

definition unit_input :: "EndpointUnit \<Rightarrow> policies \<Rightarrow> RenderInput" where
  "unit_input u policies =
     \<lparr>in_Gateway = Some (eu_Gateway u), in_Endpoints = [eu_Endpoint u], in_Policies = policies,
      in_CEFallback = eu_CEFallback u, in_Dragonfly = eu_Dragonfly u, in_PluginConfigMaps = []\<rparr>"

text \<open>The second and third step: the endpoint with its policies, then with foreign ones emptied.\<close>

definition check_unit ::
  "Checker \<Rightarrow> 'm Memo option \<Rightarrow> EndpointUnit \<Rightarrow> policies \<Rightarrow> string list \<Rightarrow>
   ('m check_state, EndpointVerdict) action" where
  "check_unit ck memo u policies keys =
     andThen (lintInput ck (unit_input u policies) memo) (\<lambda>whole.
       if v_OK whole then returns ev_ok
       else (let foreign = foreignPolicies (ep_Namespace (eu_Endpoint u)) keys
             in if foreign = [] then returns (ev_invalid (v_Output whole))
                else andThen (lintInput ck (unit_input u (emptied policies foreign)) memo) (\<lambda>own.
                       if v_OK own then returns (ev_policies (policyNames foreign) False)
                       else returns (ev_invalid (v_Output own)))))"

definition CheckEndpoint ::
  "Checker \<Rightarrow> EndpointUnit \<Rightarrow> 'm Memo option \<Rightarrow> ('m check_state, EndpointVerdict) action" where
  "CheckEndpoint ck u memo =
     andThen (lift_sum (unitPolicies ck u)) (\<lambda>policies.
       (let keys = EndpointPolicyKeys (eu_Endpoint u)
        in andThen (check_policies ck memo policies [] keys) (\<lambda>res.
             case res of
               None \<Rightarrow> returns ev_ok
             | Some failing \<Rightarrow>
                 if failing \<noteq> [] then returns (ev_policies failing True)
                 else check_unit ck memo u policies keys)))"

section \<open>What the checks decide\<close>

text \<open>
  The abstract view of a check has no runs, slots or memo: a judgement gives the rejection of a
  content by its key, \<^const>\<open>None\<close> for an accepted one. \<open>consistent\<close> is what the memo relies on,
  that a run which judges a content judges it in that way; \<open>reliable\<close> says that every
  run gets a slot and judges.
\<close>

type_synonym judgement = "string \<Rightarrow> ValidationError option"

definition content_key :: "string \<Rightarrow> Edition \<Rightarrow> string \<Rightarrow> string" where
  "content_key js edition mode = SHA256Hex js @ ''/'' @ edition_str edition @ ''/'' @ mode"

definition agrees :: "validator \<Rightarrow> string \<Rightarrow> judgement \<Rightarrow> bool" where
  "agrees vld mode orc \<longleftrightarrow>
     (\<forall>n js edition.
        case vld n js edition of
          None \<Rightarrow> orc (content_key js edition mode) = None
        | Some (Verdict r) \<Rightarrow> orc (content_key js edition mode) = Some r
        | Some (Unjudged e) \<Rightarrow> True)"

definition consistent :: "Checker \<Rightarrow> judgement \<Rightarrow> bool" where
  "consistent ck orc \<longleftrightarrow> agrees (ck_Lint ck) modeLint orc \<and> agrees (ck_Validate ck) modeValidate orc"

definition always_judges :: "validator \<Rightarrow> bool" where
  "always_judges vld \<longleftrightarrow> (\<forall>n js edition e. vld n js edition \<noteq> Some (Unjudged e))"

definition reliable :: "Checker \<Rightarrow> bool" where
  "reliable ck \<longleftrightarrow> (\<forall>n. ck_slot ck n = None) \<and> always_judges (ck_Lint ck) \<and> always_judges (ck_Validate ck)"

definition lint_spec :: "gin_router \<Rightarrow> judgement \<Rightarrow> RenderInput \<Rightarrow> Verdict" where
  "lint_spec gin orc inp =
     (case Render gin inp of
        Inl _ \<Rightarrow> verdictFor None
      | Inr out \<Rightarrow>
          (verdictFor (orc (contentKey out (in_edition inp) modeLint)))\<lparr>v_Masked := MaskedEndpoints out\<rparr>)"

definition policy_passes :: "gin_router \<Rightarrow> judgement \<Rightarrow> KrakenDBackendPolicy \<Rightarrow> bool" where
  "policy_passes gin orc p \<longleftrightarrow> v_OK (lint_spec gin orc (policyAlone p))"

definition failing_policies :: "gin_router \<Rightarrow> judgement \<Rightarrow> policies \<Rightarrow> string list \<Rightarrow> NamespacedName list" where
  "failing_policies gin orc policies keys =
     map (\<lambda>p. NamespacedName (pol_Namespace p) (pol_Name p))
       (filter (\<lambda>p. \<not> policy_passes gin orc p) (List.map_filter (map_of policies) keys))"

definition unit_spec ::
  "gin_router \<Rightarrow> judgement \<Rightarrow> EndpointUnit \<Rightarrow> policies \<Rightarrow> string list \<Rightarrow> EndpointVerdict" where
  "unit_spec gin orc u policies keys =
     (let whole = lint_spec gin orc (unit_input u policies);
          foreign = foreignPolicies (ep_Namespace (eu_Endpoint u)) keys;
          own = lint_spec gin orc (unit_input u (emptied policies foreign))
      in if v_OK whole then ev_ok
         else if v_OK own \<and> foreign \<noteq> [] then ev_policies (policyNames foreign) False
         else ev_invalid (v_Output own))"

definition endpoint_spec :: "gin_router \<Rightarrow> judgement \<Rightarrow> EndpointUnit \<Rightarrow> policies \<Rightarrow> EndpointVerdict" where
  "endpoint_spec gin orc u policies =
     (let keys = EndpointPolicyKeys (eu_Endpoint u); failing = failing_policies gin orc policies keys
      in if \<not> set keys \<subseteq> dom (map_of policies) then ev_ok
         else if failing \<noteq> [] then ev_policies failing True
         else unit_spec gin orc u policies keys)"

text \<open>
  The contract of a memo: it returns only verdicts it holds, a lookup adds none, and a store
  adds the one it is given. \<open>holds m k v\<close> says that the memo \<open>m\<close> may answer \<open>v\<close> for \<open>k\<close>.
\<close>

definition memo_ok :: "('m \<Rightarrow> string \<Rightarrow> Verdict \<Rightarrow> bool) \<Rightarrow> judgement \<Rightarrow> 'm check_state \<Rightarrow> bool" where
  "memo_ok holds orc st \<longleftrightarrow> (\<forall>k v. holds (cs_memo st) k v \<longrightarrow> v = verdictFor (orc k))"

lemma Render_checksum: "Render gin inp = Inr out \<Longrightarrow> out_Checksum out = SHA256Hex (out_JSON out)"
  by (auto simp: Render_def Let_def split: option.splits)

lemma Render_some: "in_Gateway inp = Some gw \<Longrightarrow> \<exists>out. Render gin inp = Inr out"
  by (simp add: Render_def Let_def)

lemma contentKey_content: "out_Checksum out = SHA256Hex (out_JSON out) \<Longrightarrow>
  contentKey out edition mode = content_key (out_JSON out) edition mode"
  by (simp add: contentKey_def content_key_def)

lemma v_Masked_verdictFor [simp]: "v_Masked (verdictFor r) = []"
  by (simp add: verdictFor_def split: option.splits)

lemma emptied_none [simp]: "emptied policies [] = policies"
  by (simp add: emptied_def)

text \<open>The two checks a content key names.\<close>

definition check_mode :: "Checker \<Rightarrow> string \<Rightarrow> validator \<Rightarrow> bool" where
  "check_mode ck mode vld \<longleftrightarrow> (mode, vld) \<in> {(modeLint, ck_Lint ck), (modeValidate, ck_Validate ck)}"

lemma check_mode_agrees: "consistent ck orc \<Longrightarrow> check_mode ck mode vld \<Longrightarrow> agrees vld mode orc"
  by (auto simp: consistent_def check_mode_def)

lemma run_implements:
  assumes c: "consistent ck orc" and m: "check_mode ck mode vld"
    and oc: "out_Checksum out = SHA256Hex (out_JSON out)"
    and I: "\<And>st n. I (st\<lparr>cs_runs := n\<rparr>) = I st"
  shows "implements I (\<not> reliable ck) (run ck inp out vld) (orc (contentKey out (in_edition inp) mode))"
proof -
  have a: "implements I (\<not> reliable ck) (acquire ck) ()"
    using I by (auto simp: implements_def acquire_def reliable_def split: option.splits)
  have "implements I (\<not> reliable ck) (run_validator vld out (in_edition inp))
          (orc (contentKey out (in_edition inp) mode))"
    unfolding implements_def
  proof (intro allI impI)
    fix st assume "I st"
    moreover from check_mode_agrees [OF c m]
    have "case vld (cs_runs st) (out_JSON out) (in_edition inp) of
          None \<Rightarrow> orc (contentKey out (in_edition inp) mode) = None
        | Some (Verdict r) \<Rightarrow> orc (contentKey out (in_edition inp) mode) = Some r
        | Some (Unjudged e) \<Rightarrow> True"
      unfolding agrees_def contentKey_content [OF oc] by blast
    moreover have "vld (cs_runs st) (out_JSON out) (in_edition inp) = Some (Unjudged e) \<Longrightarrow> \<not> reliable ck" for e
      using m by (auto simp: reliable_def always_judges_def check_mode_def)
    ultimately show "I (snd (run_validator vld out (in_edition inp) st)) \<and>
       (fst (run_validator vld out (in_edition inp) st) = Inr (orc (contentKey out (in_edition inp) mode)) \<or>
        (\<exists>e. fst (run_validator vld out (in_edition inp) st) = Inl e) \<and> \<not> reliable ck)"
      by (auto simp: run_validator_def I split: option.splits check_error.splits)
  qed
  with a show ?thesis unfolding run_def by (rule implements_andThen)
qed

locale sound_memo =
  fixes memo :: "'m Memo"
    and holds :: "'m \<Rightarrow> string \<Rightarrow> Verdict \<Rightarrow> bool"
  assumes lookup_holds: "mm_Lookup memo k m = (Some v, m') \<Longrightarrow> holds m k v"
    and lookup_keeps: "mm_Lookup memo k m = (r, m') \<Longrightarrow> holds m' k' v \<Longrightarrow> holds m k' v"
    and store_holds: "holds (mm_Store memo k v m) k' w \<Longrightarrow> k' = k \<and> w = v \<or> holds m k' w"
begin

lemma lookup_ok:
  assumes "memo_ok holds orc st" and "memo_lookup (Some memo) k st = (r, st')"
  shows "memo_ok holds orc st' \<and> (r = Inr None \<or> r = Inr (Some (verdictFor (orc k))))"
proof -
  obtain kept m where l: "mm_Lookup memo k (cs_memo st) = (kept, m)" by force
  have "holds m k' v \<Longrightarrow> v = verdictFor (orc k')" for k' v
    using lookup_keeps [OF l] assms(1) by (simp add: memo_ok_def)
  moreover have "kept = Some v \<Longrightarrow> v = verdictFor (orc k)" for v
    using lookup_holds l assms(1) by (simp add: memo_ok_def)
  ultimately show ?thesis
    using assms(2) l by (auto simp: memo_lookup_def memo_ok_def split: option.splits if_splits)
qed

lemma store_ok: "implements (memo_ok holds orc) mf (memo_store (Some memo) k (verdictFor (orc k))) ()"
  using store_holds by (fastforce simp: implements_def memo_store_def memo_ok_def)

lemma remembered_implements:
  assumes "consistent ck orc" and "check_mode ck mode vld" and "out_Checksum out = SHA256Hex (out_JSON out)"
  shows "implements (memo_ok holds orc) (\<not> reliable ck) (remembered ck inp out mode vld (Some memo))
           (verdictFor (orc (contentKey out (in_edition inp) mode)))"
proof -
  let ?k = "contentKey out (in_edition inp) mode"
  let ?miss = "andThen (run ck inp out vld) (\<lambda>rejection.
    andThen (memo_store (Some memo) ?k (verdictFor rejection)) (\<lambda>_. returns (verdictFor rejection)))"
  have miss: "implements (memo_ok holds orc) (\<not> reliable ck) ?miss (verdictFor (orc ?k))"
    by (rule implements_andThen [OF run_implements [OF assms]])
      (auto simp: memo_ok_def [abs_def] intro!: implements_andThen [OF store_ok [unfolded memo_ok_def [abs_def]]] implI)
  show ?thesis
    unfolding implements_def
  proof (intro allI impI)
    fix st assume ok: "memo_ok holds orc st"
    obtain r st' where l: "memo_lookup (Some memo) ?k st = (r, st')" by force
    from lookup_ok [OF ok l] have "memo_ok holds orc st'"
      and "r = Inr None \<or> r = Inr (Some (verdictFor (orc ?k)))" by auto
    with miss l show "memo_ok holds orc (snd (remembered ck inp out mode vld (Some memo) st)) \<and>
       (fst (remembered ck inp out mode vld (Some memo) st) = Inr (verdictFor (orc ?k)) \<or>
        (\<exists>e. fst (remembered ck inp out mode vld (Some memo) st) = Inl e) \<and> \<not> reliable ck)"
      by (auto simp: remembered_def Let_def andThen_def [of "memo_lookup _ _"] implements_def returns_def
          intro!: Verdict.equality)
  qed
qed

lemma lintInput_implements:
  assumes "consistent ck orc" and "in_Gateway inp = Some gw"
  shows "implements (memo_ok holds orc) (\<not> reliable ck) (lintInput ck inp (Some memo)) (lint_spec (ck_gin ck) orc inp)"
proof -
  obtain out where r: "Render (ck_gin ck) inp = Inr out" using Render_some [OF assms(2)] by blast
  then have o': "out_Checksum out = SHA256Hex (out_JSON out)" by (rule Render_checksum)
  have "check_mode ck modeLint (ck_Lint ck)" by (simp add: check_mode_def)
  then show ?thesis
    unfolding lintInput_def lint_spec_def render_def r sum.case
    by (intro implements_andThen [where x = out] implements_andThen [OF remembered_implements [OF assms(1) _ o']] implI)
      (simp_all add: implements_def lift_sum_def)
qed

lemma CheckRoot_implements:
  "consistent ck orc \<Longrightarrow>
   implements (memo_ok holds orc) (\<not> reliable ck) (CheckRoot ck r (Some memo))
     (lint_spec (ck_gin ck) orc
        \<lparr>in_Gateway = Some (rt_Gateway r), in_Endpoints = [], in_Policies = [], in_CEFallback = rt_CEFallback r,
         in_Dragonfly = rt_Dragonfly r, in_PluginConfigMaps = []\<rparr>)"
  unfolding CheckRoot_def by (rule lintInput_implements) simp_all

lemma CheckRendered_implements:
  "consistent ck orc \<Longrightarrow> out_Checksum out = SHA256Hex (out_JSON out) \<Longrightarrow>
   implements (memo_ok holds orc) (\<not> reliable ck) (CheckRendered ck inp out (Some memo))
     (verdictFor (orc (contentKey out (in_edition inp) modeValidate)))"
  unfolding CheckRendered_def by (rule remembered_implements) (simp_all add: check_mode_def)

lemma CheckPolicy_implements:
  "consistent ck orc \<Longrightarrow>
   implements (memo_ok holds orc) (\<not> reliable ck) (CheckPolicy ck p (Some memo))
     (lint_spec (ck_gin ck) orc (policyAlone p))"
  unfolding CheckPolicy_def by (rule lintInput_implements) (simp_all add: policyAlone_def Let_def)

lemma check_policies_implements:
  assumes "consistent ck orc"
  shows "implements (memo_ok holds orc) (\<not> reliable ck) (check_policies ck (Some memo) policies failing keys)
     (if set keys \<subseteq> dom (map_of policies)
      then Some (failing @ failing_policies (ck_gin ck) orc policies keys) else None)"
proof (induction keys arbitrary: failing)
  case Nil
  then show ?case by (simp add: implements_returns failing_policies_def List.map_filter_def)
next
  case (Cons key keys)
  show ?case
  proof (cases "map_of policies key")
    case None
    then have "\<not> set (key # keys) \<subseteq> dom (map_of policies)" by auto
    with None show ?thesis by (simp only: check_policies.simps option.case if_False implements_returns)
  next
    case (Some policy)
    let ?failing = "if policy_passes (ck_gin ck) orc policy then failing
      else failing @ [NamespacedName (pol_Namespace policy) (pol_Name policy)]"
    have "?failing @ failing_policies (ck_gin ck) orc policies keys =
        failing @ failing_policies (ck_gin ck) orc policies (key # keys)"
      by (simp add: failing_policies_def Some List.map_filter_def)
    moreover have "set (key # keys) \<subseteq> dom (map_of policies) \<longleftrightarrow> set keys \<subseteq> dom (map_of policies)"
      using Some by auto
    ultimately have spec: "(if set (key # keys) \<subseteq> dom (map_of policies)
        then Some (failing @ failing_policies (ck_gin ck) orc policies (key # keys)) else None) =
       (if set keys \<subseteq> dom (map_of policies)
        then Some (?failing @ failing_policies (ck_gin ck) orc policies keys) else None)"
      by presburger
    show ?thesis
      unfolding check_policies.simps Some option.case spec
      by (rule implements_andThen [OF CheckPolicy_implements [OF assms]])
        (fold policy_passes_def, rule Cons.IH)
  qed
qed

lemma check_unit_implements:
  assumes "consistent ck orc"
  shows "implements (memo_ok holds orc) (\<not> reliable ck) (check_unit ck (Some memo) u policies keys)
     (unit_spec (ck_gin ck) orc u policies keys)"
proof -
  have lint: "implements (memo_ok holds orc) (\<not> reliable ck) (lintInput ck (unit_input u ps) (Some memo))
      (lint_spec (ck_gin ck) orc (unit_input u ps))" for ps
    by (rule lintInput_implements [OF assms]) (simp add: unit_input_def)
  show ?thesis
    unfolding check_unit_def
    by (rule implements_andThen [OF lint])
      (auto simp: unit_spec_def Let_def intro!: implements_andThen [OF lint] implI)
qed

lemma CheckEndpoint_implements:
  assumes "consistent ck orc" and "unitPolicies ck u = Inr policies"
  shows "implements (memo_ok holds orc) (\<not> reliable ck) (CheckEndpoint ck u (Some memo))
     (endpoint_spec (ck_gin ck) orc u policies)"
proof -
  have "implements (memo_ok holds orc) (\<not> reliable ck) (lift_sum (unitPolicies ck u)) policies"
    by (simp add: implements_def lift_sum_def assms(2))
  then show ?thesis
    unfolding CheckEndpoint_def Let_def
    by (rule implements_andThen, intro implements_andThen [OF check_policies_implements [OF assms(1)]])
      (auto simp: endpoint_spec_def Let_def intro!: implI check_unit_implements [OF assms(1)])
qed

end

section \<open>Foreign policies stay private\<close>

text \<open>Two policy maps that differ at most in the content of the policies \<open>keys\<close>.\<close>

definition same_but :: "string list \<Rightarrow> policies \<Rightarrow> policies \<Rightarrow> bool" where
  "same_but keys ps ps' \<longleftrightarrow>
     mwf ps \<and> mwf ps' \<and>
     (\<forall>k. k \<notin> set keys \<longrightarrow> map_of ps k = map_of ps' k) \<and>
     (\<forall>k \<in> set keys. map_option (\<lambda>p. (pol_Namespace p, pol_Name p)) (map_of ps k) =
                     map_option (\<lambda>p. (pol_Namespace p, pol_Name p)) (map_of ps' k))"

lemma emptied_lookup:
  assumes "mwf ps"
  shows "mwf (emptied ps keys)"
    and "map_of (emptied ps keys) k =
     (if k \<in> set keys then map_option (\<lambda>p. EmptyPolicy (pol_Namespace p) (pol_Name p)) (map_of ps k)
      else map_of ps k)"
proof -
  let ?f = "\<lambda>key out. case map_of ps key of
             Some p \<Rightarrow> mput key (EmptyPolicy (pol_Namespace p) (pol_Name p)) out
           | None \<Rightarrow> out"
  have "mwf out \<Longrightarrow> mwf (fold ?f keys out) \<and> map_of (fold ?f keys out) k =
     (if k \<in> set keys \<and> map_of ps k \<noteq> None
      then map_option (\<lambda>p. EmptyPolicy (pol_Namespace p) (pol_Name p)) (map_of ps k)
      else map_of out k)" for out
    by (induction keys arbitrary: out) (auto split: option.splits)
  from this [OF assms] show "mwf (emptied ps keys)"
    and "map_of (emptied ps keys) k =
     (if k \<in> set keys then map_option (\<lambda>p. EmptyPolicy (pol_Namespace p) (pol_Name p)) (map_of ps k)
      else map_of ps k)" by (auto simp: emptied_def)
qed

lemma emptied_same_but:
  assumes "same_but keys ps ps'"
  shows "emptied ps keys = emptied ps' keys"
proof (rule mwf_ext)
  show "map_of (emptied ps keys) = map_of (emptied ps' keys)"
  proof
    fix k
    show "map_of (emptied ps keys) k = map_of (emptied ps' keys) k"
      using assms unfolding same_but_def
      by (cases "k \<in> set keys"; cases "map_of ps k"; cases "map_of ps' k") (force simp: emptied_lookup)+
  qed
qed (use assms in \<open>simp_all add: same_but_def emptied_lookup\<close>)

lemma endpoint_spec_invalid:
  "ev_Reason (endpoint_spec gin orc u ps) = ''EndpointInvalid'' \<Longrightarrow>
   endpoint_spec gin orc u ps =
     ev_invalid (v_Output (lint_spec gin orc
       (unit_input u (emptied ps (foreignPolicies (ep_Namespace (eu_Endpoint u)) (EndpointPolicyKeys (eu_Endpoint u)))))))"
  by (auto simp: endpoint_spec_def unit_spec_def Let_def ev_ok_def ev_policies_def split: if_splits)

end
