(* ===== verification/VerdictMemo.thy ===== *)
theory VerdictMemo
  imports ConfigCheck
begin

text \<open>
  The controllers' verdict memo (\<^verbatim>\<open>controller/verdict_memo.go\<close>): per owner, the verdicts its
  last pass used. \<open>passMemo\<close> and \<open>countedPass\<close> are interpreted as memos of the checker, which
  gives the properties of \<open>CheckEndpoint\<close> at the end of the theory. One pass runs on one
  goroutine; the mutex only orders the steps \<open>begin\<close>, \<open>end\<close> and \<open>forget\<close>.
\<close>

section \<open>Passes\<close>

type_synonym verdicts = "(string, Verdict) gomap"

type_synonym verdictMemo = "(NamespacedName, verdicts) gomap"

record passMemo =
  pm_kept :: verdicts
  pm_used :: verdicts

text \<open>\<open>countedPass\<close> embeds a \<open>passMemo\<close>; the counter is what \<open>rejected\<close> has counted.\<close>

record countedPass = passMemo +
  cp_rejected :: nat

definition passMemo_Lookup :: "string \<Rightarrow> 'a passMemo_scheme \<Rightarrow> Verdict option \<times> 'a passMemo_scheme" where
  "passMemo_Lookup key p =
     (case map_of (pm_used p) key of
        Some v \<Rightarrow> (Some v, p)
      | None \<Rightarrow>
          (case map_of (pm_kept p) key of
             Some v \<Rightarrow> (Some v, p\<lparr>pm_used := mput key v (pm_used p)\<rparr>)
           | None \<Rightarrow> (None, p)))"

definition passMemo_Store :: "string \<Rightarrow> Verdict \<Rightarrow> 'a passMemo_scheme \<Rightarrow> 'a passMemo_scheme" where
  "passMemo_Store key v p = p\<lparr>pm_used := mput key v (pm_used p)\<rparr>"

definition countedPass_Store :: "string \<Rightarrow> Verdict \<Rightarrow> 'a countedPass_scheme \<Rightarrow> 'a countedPass_scheme" where
  "countedPass_Store key v p =
     passMemo_Store key v (if \<not> v_OK v then p\<lparr>cp_rejected := Suc (cp_rejected p)\<rparr> else p)"

definition verdictMemo_begin :: "verdictMemo \<Rightarrow> NamespacedName \<Rightarrow> passMemo" where
  "verdictMemo_begin m owner =
     \<lparr>pm_kept = (case map_of m owner of None \<Rightarrow> [] | Some kept \<Rightarrow> kept), pm_used = []\<rparr>"

definition verdictMemo_end :: "verdictMemo \<Rightarrow> NamespacedName \<Rightarrow> 'a passMemo_scheme \<Rightarrow> bool \<Rightarrow> verdictMemo" where
  "verdictMemo_end m owner p failed =
     mput owner (if failed then mmerge (pm_kept p) (pm_used p) else pm_used p) m"

definition verdictMemo_forget :: "verdictMemo \<Rightarrow> NamespacedName \<Rightarrow> verdictMemo" where
  "verdictMemo_forget m owner = mdel owner m"

definition pass_memo :: "('a passMemo_scheme) Memo" where
  "pass_memo = \<lparr>mm_Lookup = passMemo_Lookup, mm_Store = passMemo_Store\<rparr>"

definition counted_memo :: "('a countedPass_scheme) Memo" where
  "counted_memo = \<lparr>mm_Lookup = passMemo_Lookup, mm_Store = countedPass_Store\<rparr>"

section \<open>Passes are sound memos\<close>

definition pass_holds :: "'a passMemo_scheme \<Rightarrow> string \<Rightarrow> Verdict \<Rightarrow> bool" where
  "pass_holds p k v \<longleftrightarrow> (k, v) \<in> set (pm_used p) \<union> set (pm_kept p)"

lemma set_mput_subset: "set (mput k v m) \<subseteq> insert (k, v) (set m)"
  by (induction k v m rule: mput.induct) auto

lemma passMemo_Lookup_holds:
  assumes "passMemo_Lookup k p = (r, p')"
  shows "r = Some v \<Longrightarrow> pass_holds p k v" and "pass_holds p' k' w \<Longrightarrow> pass_holds p k' w"
proof -
  show "pass_holds p k v" if "r = Some v"
    using assms that by (auto simp: passMemo_Lookup_def pass_holds_def dest: map_of_SomeD split: option.splits)
  show "pass_holds p k' w" if h: "pass_holds p' k' w"
  proof (cases "\<exists>x. map_of (pm_used p) k = None \<and> map_of (pm_kept p) k = Some x")
    case True
    then obtain x where x: "map_of (pm_used p) k = None" "map_of (pm_kept p) k = Some x" by blast
    with assms have "pm_used p' = mput k x (pm_used p)" "pm_kept p' = pm_kept p"
      by (auto simp: passMemo_Lookup_def)
    with h x show ?thesis
      using set_mput_subset [of k x "pm_used p"] by (auto simp: pass_holds_def dest: map_of_SomeD)
  next
    case False
    with assms have "p' = p" by (auto simp: passMemo_Lookup_def split: option.splits)
    with h show ?thesis by simp
  qed
qed

lemma passMemo_Store_holds: "pass_holds (passMemo_Store k v p) k' w \<Longrightarrow> k' = k \<and> w = v \<or> pass_holds p k' w"
  using set_mput_subset [of k v "pm_used p"] by (auto simp: passMemo_Store_def pass_holds_def)

interpretation pass: sound_memo pass_memo pass_holds
  by unfold_locales (auto simp: pass_memo_def dest: passMemo_Lookup_holds passMemo_Store_holds)

interpretation counted: sound_memo counted_memo pass_holds
proof
  fix k v k' w and m :: "'a countedPass_scheme"
  assume "pass_holds (mm_Store counted_memo k v m) k' w"
  then have "k' = k \<and> w = v \<or> pass_holds (if \<not> v_OK v then m\<lparr>cp_rejected := Suc (cp_rejected m)\<rparr> else m) k' w"
    unfolding counted_memo_def Memo.select_convs countedPass_Store_def by (rule passMemo_Store_holds)
  then show "k' = k \<and> w = v \<or> pass_holds m k' w"
    by (auto simp: pass_holds_def split: if_splits)
qed (auto simp: counted_memo_def dest: passMemo_Lookup_holds)

section \<open>What a pass keeps\<close>

text \<open>A pass as the sequence of its lookups and stores.\<close>

datatype memo_op = MLookup string | MStore string Verdict

fun memo_step :: "memo_op \<Rightarrow> 'a passMemo_scheme \<Rightarrow> 'a passMemo_scheme" where
  "memo_step (MLookup k) p = snd (passMemo_Lookup k p)"
| "memo_step (MStore k v) p = passMemo_Store k v p"

definition run_pass :: "memo_op list \<Rightarrow> 'a passMemo_scheme \<Rightarrow> 'a passMemo_scheme" where
  "run_pass ops p = fold memo_step ops p"

fun op_key :: "memo_op \<Rightarrow> string" where
  "op_key (MLookup k) = k"
| "op_key (MStore k v) = k"

text \<open>The abstract memo is one map: what the last pass kept, updated by the stores.\<close>

definition pass_map :: "'a passMemo_scheme \<Rightarrow> string \<rightharpoonup> Verdict" where
  "pass_map p = map_of (pm_kept p) ++ map_of (pm_used p)"

fun spec_step :: "memo_op \<Rightarrow> (string \<rightharpoonup> Verdict) \<Rightarrow> (string \<rightharpoonup> Verdict)" where
  "spec_step (MLookup k) m = m"
| "spec_step (MStore k v) m = m(k \<mapsto> v)"

definition pass_wf :: "'a passMemo_scheme \<Rightarrow> bool" where
  "pass_wf p \<longleftrightarrow> mwf (pm_kept p) \<and> mwf (pm_used p)"

lemma passMemo_Lookup_value: "fst (passMemo_Lookup k p) = pass_map p k"
  by (auto simp: passMemo_Lookup_def pass_map_def map_add_def split: option.splits)

lemma memo_step_wf: "pass_wf p \<Longrightarrow> pass_wf (memo_step x p)"
  by (cases x) (auto simp: pass_wf_def passMemo_Lookup_def passMemo_Store_def split: option.splits)

lemma memo_step_kept [simp]: "pm_kept (memo_step x p) = pm_kept p"
  by (cases x) (auto simp: passMemo_Lookup_def passMemo_Store_def split: option.splits)

lemma memo_step_map: "pass_wf p \<Longrightarrow> pass_map (memo_step x p) = spec_step x (pass_map p)"
  by (cases x)
    (auto simp: pass_wf_def passMemo_Lookup_def passMemo_Store_def pass_map_def map_add_def fun_eq_iff
      split: option.splits)

lemma memo_step_used:
  "pass_wf p \<Longrightarrow>
   dom (map_of (pm_used (memo_step x p))) =
     dom (map_of (pm_used p)) \<union> ({op_key x} \<inter> dom (pass_map (memo_step x p)))"
  by (cases x)
    (auto simp: pass_wf_def passMemo_Lookup_def passMemo_Store_def pass_map_def map_add_def
      split: option.splits if_splits)

lemma spec_step_dom:
  "dom m \<subseteq> dom (spec_step x m)" "dom (spec_step x m) \<subseteq> dom m \<union> {op_key x}"
  by (cases x; auto)+

lemma run_pass_spec:
  assumes "pass_wf p"
  shows "pass_wf (run_pass ops p) \<and> pm_kept (run_pass ops p) = pm_kept p \<and>
   pass_map (run_pass ops p) = fold spec_step ops (pass_map p) \<and>
   dom (map_of (pm_used (run_pass ops p))) =
     dom (map_of (pm_used p)) \<union> (op_key ` set ops \<inter> dom (pass_map (run_pass ops p)))"
proof (induction ops rule: rev_induct)
  case Nil
  then show ?case using assms by (simp add: run_pass_def)
next
  case (snoc x ops)
  let ?q = "run_pass ops p"
  have r: "run_pass (ops @ [x]) p = memo_step x ?q" by (simp add: run_pass_def)
  have d: "dom (pass_map (memo_step x ?q)) \<subseteq> dom (pass_map ?q) \<union> {op_key x}"
    using snoc spec_step_dom(2) by (simp add: memo_step_map)
  have u: "dom (pass_map ?q) \<subseteq> dom (pass_map (memo_step x ?q))"
    using snoc spec_step_dom(1) by (simp add: memo_step_map)
  from snoc have "dom (map_of (pm_used (memo_step x ?q))) =
      dom (map_of (pm_used ?q)) \<union> ({op_key x} \<inter> dom (pass_map (memo_step x ?q)))"
    by (intro memo_step_used) simp
  with snoc d u have "dom (map_of (pm_used (memo_step x ?q))) =
     dom (map_of (pm_used p)) \<union> (op_key ` set (ops @ [x]) \<inter> dom (pass_map (memo_step x ?q)))"
    by auto
  with snoc show ?case unfolding r by (simp add: memo_step_wf memo_step_map)
qed

definition memo_wf :: "verdictMemo \<Rightarrow> bool" where
  "memo_wf m \<longleftrightarrow> mwf m \<and> list_all (\<lambda>(owner, kept). mwf kept) m"

definition owner_map :: "verdictMemo \<Rightarrow> NamespacedName \<Rightarrow> string \<rightharpoonup> Verdict" where
  "owner_map m owner = (case map_of m owner of None \<Rightarrow> Map.empty | Some kept \<Rightarrow> map_of kept)"

text \<open>
  C7: a pass refines one abstract map: it answers a lookup with the last verdict stored for the
  key, by this pass or the one before. A pass that ends normally leaves its owner exactly the
  keys it looked up or stored, so the memo never grows past one pass; a failed pass leaves
  everything it knew. Other owners keep what they had.
\<close>

theorem verdictMemo_pass_refines:
  assumes "memo_wf m"
  shows "let p = run_pass ops (verdictMemo_begin m owner); final = fold spec_step ops (owner_map m owner)
    in fst (passMemo_Lookup k p) = final k \<and>
       owner_map (verdictMemo_end m owner p False) owner = final |` (op_key ` set ops) \<and>
       owner_map (verdictMemo_end m owner p True) owner = final \<and>
       (\<forall>other failed. other \<noteq> owner \<longrightarrow>
          owner_map (verdictMemo_end m owner p failed) other = owner_map m other)"
proof -
  let ?b = "verdictMemo_begin m owner"
  define p where "p = run_pass ops ?b"
  have wf: "pass_wf ?b" "mwf m"
    using assms by (auto simp: memo_wf_def pass_wf_def verdictMemo_begin_def list_all_iff split: option.splits
        dest: map_of_SomeD)
  have b: "pass_map ?b = owner_map m owner" "pm_used ?b = []"
    by (auto simp: pass_map_def verdictMemo_begin_def owner_map_def split: option.splits)
  have p: "pass_wf p" "pass_map p = fold spec_step ops (owner_map m owner)"
    "dom (map_of (pm_used p)) = op_key ` set ops \<inter> dom (pass_map p)"
    using run_pass_spec [OF wf(1), of ops] b by (simp_all add: p_def)
  have "map_of (pm_used p) = pass_map p |` (op_key ` set ops)"
  proof
    fix k
    show "map_of (pm_used p) k = (pass_map p |` (op_key ` set ops)) k"
    proof (cases "map_of (pm_used p) k")
      case None
      then have "k \<notin> op_key ` set ops \<inter> dom (pass_map p)" using p(3) by blast
      with None show ?thesis by (auto simp: restrict_map_def domIff)
    next
      case (Some v)
      then have "k \<in> op_key ` set ops" using p(3) by blast
      with Some show ?thesis by (simp add: pass_map_def map_add_def)
    qed
  qed
  then show ?thesis
    using p wf unfolding p_def [symmetric] Let_def
    by (auto simp: passMemo_Lookup_value owner_map_def verdictMemo_end_def pass_wf_def pass_map_def)
qed

section \<open>The judgement of an endpoint\<close>

text \<open>
  C6: whatever verdicts the memo already holds, slots that run out and runs that judge nothing,
  \<open>CheckEndpoint\<close> returns the verdict of its specification (every policy alone, the root with
  the endpoint, then the same with foreign policies emptied) or an error, the latter only when
  some run did not get a slot or did not judge. It leaves a memo that holds right verdicts only.
\<close>

theorem CheckEndpoint_refines:
  assumes "consistent ck orc" and "unitPolicies ck u = Inr policies" and "memo_ok pass_holds orc st"
    and "CheckEndpoint ck u (Some pass_memo) st = (r, st')"
  shows "memo_ok pass_holds orc st' \<and>
    (r = Inr (endpoint_spec (ck_gin ck) orc u policies) \<or> (\<exists>e. r = Inl e) \<and> \<not> reliable ck)"
  by (rule implementsD [OF pass.CheckEndpoint_implements [OF assms(1,2)] assms(3,4)])

text \<open>
  C8: the content of policies of other namespaces does not reach the owner of an endpoint. Two
  checks of an endpoint whose policies differ only in the content of referenced policies of
  other namespaces, and that both blame the endpoint, give the same verdict, hence the same
  message; every other verdict carries no output of a check at all.
\<close>

theorem CheckEndpoint_foreign_policies_private:
  assumes "consistent ck orc"
    and "unitPolicies ck u = Inr ps" and "unitPolicies ck u' = Inr ps'"
    and "u' = u\<lparr>eu_Policies := eu_Policies u', eu_Override := eu_Override u'\<rparr>"
    and "same_but (foreignPolicies (ep_Namespace (eu_Endpoint u)) (EndpointPolicyKeys (eu_Endpoint u))) ps ps'"
    and "memo_ok pass_holds orc st" and "fst (CheckEndpoint ck u (Some pass_memo) st) = Inr v"
    and "memo_ok pass_holds orc st'" and "fst (CheckEndpoint ck u' (Some pass_memo) st') = Inr v'"
  shows "if ev_Reason v \<noteq> ''EndpointInvalid'' then ev_Output v = []
         else if ev_Reason v' \<noteq> ''EndpointInvalid'' then ev_Output v' = [] else v = v'"
proof -
  let ?f = "foreignPolicies (ep_Namespace (eu_Endpoint u)) (EndpointPolicyKeys (eu_Endpoint u))"
  have v: "v = endpoint_spec (ck_gin ck) orc u ps"
    using implements_value [OF pass.CheckEndpoint_implements [OF assms(1,2)] assms(6)] assms(7)
    by (metis prod.collapse)
  have v': "v' = endpoint_spec (ck_gin ck) orc u' ps'"
    using implements_value [OF pass.CheckEndpoint_implements [OF assms(1,3)] assms(8)] assms(9)
    by (metis prod.collapse)
  have e: "eu_Endpoint u' = eu_Endpoint u" and i: "unit_input u' p = unit_input u p" for p
    by (subst assms(4); simp add: unit_input_def)+
  have out: "ev_Reason (endpoint_spec gin orc x qs) \<noteq> ''EndpointInvalid'' \<Longrightarrow> ev_Output (endpoint_spec gin orc x qs) = []"
    for gin x qs
    by (auto simp: endpoint_spec_def unit_spec_def Let_def ev_ok_def ev_policies_def ev_invalid_def)
  show ?thesis
    using v v' e i out endpoint_spec_invalid [of "ck_gin ck" orc u ps] endpoint_spec_invalid [of "ck_gin ck" orc u' ps']
      emptied_same_but [OF assms(5)] by (cases "ev_Reason v = ''EndpointInvalid''") auto
qed

section \<open>Samples\<close>

text \<open>A validator that rejects every Enterprise config and accepts the others.\<close>

definition ex_rejection :: ValidationError where
  "ex_rejection = \<lparr>ve_Output = ''bad port'', ve_Err = ''exit status 1'', ve_Stage = StageCheck\<rparr>"

definition ex_validator :: validator where
  "ex_validator n js edition = (if edition = EditionEE then Some (Verdict ex_rejection) else None)"

definition ex_orc :: judgement where
  "ex_orc k = (if HasSuffix k ''/EE/lint'' \<or> HasSuffix k ''/EE/validate'' then Some ex_rejection else None)"

definition ex_ck :: Checker where
  "ex_ck = \<lparr>ck_List = (\<lambda>_. Inr []), ck_Get = (\<lambda>_. NotFound), ck_gin = ex_tree, ck_Validate = ex_validator,
            ck_Lint = ex_validator, ck_slot = (\<lambda>_. None)\<rparr>"

definition ex_start :: "passMemo check_state" where
  "ex_start = \<lparr>cs_runs = 0, cs_memo = \<lparr>pm_kept = [], pm_used = []\<rparr>\<rparr>"

definition ex_policy :: "int \<Rightarrow> KrakenDBackendPolicy" where
  "ex_policy n =
     \<lparr>pol_Name = ''p'', pol_Namespace = ''other'',
      pol_Spec = \<lparr>bp_CircuitBreaker = None, bp_RateLimit = Some \<lparr>rl_MaxRate = n, rl_Capacity = n\<rparr>, bp_Cache = None,
                  bp_Raw = None\<rparr>\<rparr>"

definition ex_unit :: "int \<Rightarrow> EndpointUnit" where
  "ex_unit n =
     \<lparr>eu_Gateway = ex_gw,
      eu_Endpoint = ex_ep ''a'' 1 [(ex_entry ''/a'' ''GET'')\<lparr>en_Backends :=
        [zero_backend\<lparr>be_PolicyRef := Some \<lparr>pr_Name = ''p'', pr_Namespace = ''other''\<rparr>\<rparr>]\<rparr>],
      eu_Policies = Some [(''other/p'', ex_policy n)], eu_Override = None, eu_CEFallback = False, eu_Dragonfly = None\<rparr>"

lemma ex_consistent: "consistent ex_ck ex_orc"
  by (simp add: consistent_def agrees_def ex_ck_def ex_validator_def ex_orc_def content_key_def HasSuffix_def
      modeLint_def modeValidate_def split: Edition.splits)
    (intro conjI allI impI; case_tac edition; simp)

lemma ex_reliable: "reliable ex_ck"
  by (simp add: reliable_def always_judges_def ex_ck_def ex_validator_def)

lemma ex_start_ok: "memo_ok pass_holds orc ex_start"
  by (simp add: memo_ok_def pass_holds_def ex_start_def)

lemma ex_unit_policies: "unitPolicies ex_ck (ex_unit n) = Inr [(''other/p'', ex_policy n)]"
  by (simp add: unitPolicies_def ex_unit_def)

lemma ex_lint:
  assumes "in_Gateway inp = Some gw"
  shows "v_OK (lint_spec gin ex_orc inp) \<longleftrightarrow> in_edition inp = EditionCE"
    and "in_edition inp = EditionEE \<Longrightarrow> v_Output (lint_spec gin ex_orc inp) = ''bad port''"
proof -
  obtain out where "Render gin inp = Inr out" using Render_some [OF assms] by blast
  then have "lint_spec gin ex_orc inp =
      (verdictFor (if in_edition inp = EditionEE then Some ex_rejection else None))\<lparr>v_Masked := MaskedEndpoints out\<rparr>"
    by (cases "in_edition inp")
      (simp_all add: lint_spec_def contentKey_def ex_orc_def HasSuffix_def modeLint_def)
  then show "v_OK (lint_spec gin ex_orc inp) \<longleftrightarrow> in_edition inp = EditionCE"
    and "in_edition inp = EditionEE \<Longrightarrow> v_Output (lint_spec gin ex_orc inp) = ''bad port''"
    by (cases "in_edition inp";
        simp add: verdictFor_def ex_rejection_def TruncateEllipsis_def maxStoredOutput_def)+
qed

lemma ex_keys: "EndpointPolicyKeys (eu_Endpoint (ex_unit n)) = [''other/p'']"
  by (simp add: ex_unit_def EndpointPolicyKeys_def ex_ep_def zero_backend_def PolicyKey_def
      PolicyRef_ResolvedNamespace_def Let_def)

lemma ex_spec: "endpoint_spec ex_tree ex_orc (ex_unit n) [(''other/p'', ex_policy n)] = ev_invalid ''bad port''"
proof -
  have u: "in_Gateway (unit_input (ex_unit n) ps) = Some ex_gw" "in_edition (unit_input (ex_unit n) ps) = EditionEE" for ps
    by (simp_all add: unit_input_def ex_unit_def in_edition_def EditionFor_def ex_gw_def)
  have p: "in_Gateway (policyAlone q) = Some (zero_gateway ''policy-lint'' (pol_Namespace q) EditionCE)"
    "in_edition (policyAlone q) = EditionCE" for q
    by (simp_all add: policyAlone_def Let_def in_edition_def EditionFor_def zero_gateway_def)
  show ?thesis
    by (simp add: endpoint_spec_def unit_spec_def failing_policies_def List.map_filter_def policy_passes_def ex_keys
        ex_lint [OF u(1)] ex_lint [OF p(1)] u(2) p(2))
qed

lemma ex_check: "fst (CheckEndpoint ex_ck (ex_unit n) (Some pass_memo) ex_start) = Inr (ev_invalid ''bad port'')"
proof -
  have "implements (memo_ok pass_holds ex_orc) False (CheckEndpoint ex_ck (ex_unit n) (Some pass_memo))
      (ev_invalid ''bad port'')"
    using pass.CheckEndpoint_implements [OF ex_consistent ex_unit_policies, of n] ex_reliable ex_spec [of n]
    by (simp add: ex_ck_def)
  from implements_total [OF this ex_start_ok] show ?thesis .
qed

theorem CheckEndpoint_refines_witness:
  "memo_ok pass_holds ex_orc (snd (CheckEndpoint ex_ck (ex_unit 1) (Some pass_memo) ex_start)) \<and>
    (fst (CheckEndpoint ex_ck (ex_unit 1) (Some pass_memo) ex_start) =
       Inr (endpoint_spec (ck_gin ex_ck) ex_orc (ex_unit 1) [(''other/p'', ex_policy 1)]) \<or>
     (\<exists>e. fst (CheckEndpoint ex_ck (ex_unit 1) (Some pass_memo) ex_start) = Inl e) \<and> \<not> reliable ex_ck)"
  by (rule CheckEndpoint_refines [OF ex_consistent ex_unit_policies ex_start_ok]) simp

theorem CheckEndpoint_foreign_policies_private_witness:
  "if ev_Reason (ev_invalid ''bad port'') \<noteq> ''EndpointInvalid'' then ev_Output (ev_invalid ''bad port'') = []
   else if ev_Reason (ev_invalid ''bad port'') \<noteq> ''EndpointInvalid'' then ev_Output (ev_invalid ''bad port'') = []
   else ev_invalid ''bad port'' = ev_invalid ''bad port''"
proof (rule CheckEndpoint_foreign_policies_private [OF ex_consistent ex_unit_policies ex_unit_policies])
  show "ex_unit 2 = (ex_unit 1)\<lparr>eu_Policies := eu_Policies (ex_unit 2), eu_Override := eu_Override (ex_unit 2)\<rparr>"
    by (simp add: ex_unit_def)
  show "same_but (foreignPolicies (ep_Namespace (eu_Endpoint (ex_unit 1))) (EndpointPolicyKeys (eu_Endpoint (ex_unit 1))))
      [(''other/p'', ex_policy 1)] [(''other/p'', ex_policy 2)]"
    unfolding ex_keys by (simp add: same_but_def mwf_def foreignPolicies_def CutChar_def ex_unit_def ex_ep_def ex_policy_def)
qed (rule ex_start_ok ex_check)+

theorem verdictMemo_pass_refines_witness:
  "fst (passMemo_Lookup ''k'' (run_pass [MStore ''k'' (verdictFor None)] (verdictMemo_begin [] (NamespacedName ''ns'' ''gw'')))) =
     Some (verdictFor None)"
  using verdictMemo_pass_refines [of "[]" "[MStore ''k'' (verdictFor None)]" "NamespacedName ''ns'' ''gw''" "''k''"]
  by (simp add: memo_wf_def Let_def)

end
