(* ===== verification/Conditions.thy ===== *)
theory Conditions
  imports ConfigVerdict
begin

text \<open>
  Conditions, events and bounded messages as the controllers handle them
  (\<^verbatim>\<open>controller/helpers.go\<close>, \<^verbatim>\<open>controller/gateway_events.go\<close>). The event recorder is the list
  of the events emitted so far, newest last.
\<close>

section \<open>Bounded messages\<close>

definition maxConditionMessageBytes :: nat where
  "maxConditionMessageBytes = 4096"

definition truncationReserve :: nat where
  "truncationReserve = 64"

text \<open>The loop that keeps whole lines: the text so far and how many lines it holds.\<close>

fun keep_lines :: "nat \<Rightarrow> string \<Rightarrow> nat \<Rightarrow> string list \<Rightarrow> string \<times> nat" where
  "keep_lines budget b kept [] = (b, kept)"
| "keep_lines budget b kept (line # lines) =
     (if length b + length line + 1 > budget then (b, kept)
      else keep_lines budget (b @ line @ [CHR 0x0A]) (Suc kept) lines)"

definition truncateMessage :: "string \<Rightarrow> string" where
  "truncateMessage msg =
     (if length msg \<le> maxConditionMessageBytes then msg
      else (let budget = maxConditionMessageBytes - truncationReserve;
                lines = SplitChar (CHR 0x0A) (TrimSuffix msg [CHR 0x0A]);
                (b0, kept0) = keep_lines budget [] 0 lines;
                (b, kept) = (if kept0 = 0 then (b0 @ Truncate (hd lines) budget @ [CHR 0x0A], 1) else (b0, kept0))
            in b @ ''(output truncated, '' @ itoa (int (length lines) - int kept) @ '' more lines)''))"

section \<open>Comparing conditions\<close>

definition sameCondition :: "Condition option \<Rightarrow> Condition option \<Rightarrow> bool" where
  "sameCondition a b =
     (case (a, b) of
        (Some x, Some y) \<Rightarrow>
          cond_Status x = cond_Status y \<and> cond_Reason x = cond_Reason y \<and> cond_Message x = cond_Message y \<and>
          cond_ObservedGeneration x = cond_ObservedGeneration y
      | (None, None) \<Rightarrow> True
      | _ \<Rightarrow> False)"

definition conditionsEqual :: "Condition list \<Rightarrow> Condition list \<Rightarrow> bool" where
  "conditionsEqual a b \<longleftrightarrow>
     length a = length b \<and>
     (let index = fold (\<lambda>c. mput (cond_Type c) c) a []
      in list_all (\<lambda>c. case map_of index (cond_Type c) of
                          None \<Rightarrow> False
                        | Some prev \<Rightarrow> sameCondition (Some prev) (Some c)) b)"

section \<open>Events\<close>

datatype EventType = EventNormal | EventWarning

record Event =
  evt_Type :: EventType
  evt_Reason :: string
  evt_Message :: string

definition warning :: "string \<Rightarrow> string \<Rightarrow> Event" where
  "warning reason message = \<lparr>evt_Type = EventWarning, evt_Reason = reason, evt_Message = message\<rparr>"

definition normal :: "string \<Rightarrow> string \<Rightarrow> Event" where
  "normal reason message = \<lparr>evt_Type = EventNormal, evt_Reason = reason, evt_Message = message\<rparr>"

definition recordConditionTransition :: "Condition option \<Rightarrow> Condition \<Rightarrow> Event list" where
  "recordConditionTransition prev next =
     (if cond_Status next = ConditionFalse \<and>
         (case prev of None \<Rightarrow> True
          | Some p \<Rightarrow> cond_Status p \<noteq> cond_Status next \<or> cond_Reason p \<noteq> cond_Reason next)
      then [warning (cond_Reason next) (cond_Message next)]
      else if cond_Status next = ConditionTrue \<and>
              (case prev of None \<Rightarrow> False | Some p \<Rightarrow> cond_Status p \<noteq> ConditionTrue)
      then [normal (cond_Reason next) (cond_Message next)]
      else [])"

section \<open>Conditions of a gateway\<close>

text \<open>A gateway in memory with the events recorded while it is reconciled.\<close>

type_synonym gw_events = "KrakenDGateway \<times> Event list"

definition gw_conditions :: "KrakenDGateway \<Rightarrow> Condition list" where
  "gw_conditions gw = gst_Conditions (gw_Status gw)"

definition with_conditions :: "(Condition list \<Rightarrow> Condition list) \<Rightarrow> KrakenDGateway \<Rightarrow> KrakenDGateway" where
  "with_conditions f gw = gw\<lparr>gw_Status := (gw_Status gw)\<lparr>gst_Conditions := f (gw_conditions gw)\<rparr>\<rparr>"

definition set_condition :: "Condition \<Rightarrow> KrakenDGateway \<Rightarrow> KrakenDGateway" where
  "set_condition c gw = with_conditions (SetStatusCondition c) gw"

definition gw_cond :: "KrakenDGateway \<Rightarrow> string \<Rightarrow> ConditionStatus \<Rightarrow> string \<Rightarrow> string \<Rightarrow> Condition" where
  "gw_cond gw t status reason message =
     \<lparr>cond_Type = t, cond_Status = status, cond_ObservedGeneration = gw_Generation gw, cond_Reason = reason,
      cond_Message = message\<rparr>"

definition setReadyCondition ::
  "Condition list \<Rightarrow> int \<Rightarrow> ConditionStatus \<Rightarrow> string \<Rightarrow> string \<Rightarrow> Condition list" where
  "setReadyCondition conds generation status reason message =
     SetStatusCondition
       \<lparr>cond_Type = ''Ready'', cond_Status = status, cond_ObservedGeneration = generation, cond_Reason = reason,
        cond_Message = message\<rparr> conds"

definition setConditionWithEvent :: "Condition \<Rightarrow> gw_events \<Rightarrow> gw_events" where
  "setConditionWithEvent cond = (\<lambda>(gw, events).
     (set_condition cond gw,
      events @ recordConditionTransition (FindStatusCondition (gw_conditions gw) (cond_Type cond)) cond))"

definition setProblemCondition :: "Condition \<Rightarrow> gw_events \<Rightarrow> gw_events" where
  "setProblemCondition cond = (\<lambda>(gw, events).
     (set_condition cond gw,
      events @
        (if cond_Status cond = ConditionTrue \<and>
            (case FindStatusCondition (gw_conditions gw) (cond_Type cond) of
               None \<Rightarrow> True
             | Some p \<Rightarrow> cond_Status p \<noteq> ConditionTrue \<or> cond_Reason p \<noteq> cond_Reason cond)
         then [warning (cond_Reason cond) (cond_Message cond)] else [])))"

lemma gw_conditions_with [simp]: "gw_conditions (with_conditions f gw) = f (gw_conditions gw)"
  by (simp add: gw_conditions_def with_conditions_def)

lemma gw_conditions_set [simp]: "gw_conditions (set_condition c gw) = SetStatusCondition c (gw_conditions gw)"
  by (simp add: set_condition_def)

lemma set_condition_keeps [simp]:
  "gw_Spec (set_condition c gw) = gw_Spec gw" "gw_Generation (set_condition c gw) = gw_Generation gw"
  "gw_Name (set_condition c gw) = gw_Name gw" "gw_Namespace (set_condition c gw) = gw_Namespace gw"
  "gst_LicenseExpiry (gw_Status (set_condition c gw)) = gst_LicenseExpiry (gw_Status gw)"
  by (simp_all add: set_condition_def with_conditions_def)

lemma gw_cond_select [simp]:
  "cond_Type (gw_cond gw t s r m) = t" "cond_Status (gw_cond gw t s r m) = s"
  "cond_Reason (gw_cond gw t s r m) = r" "cond_Message (gw_cond gw t s r m) = m"
  "cond_ObservedGeneration (gw_cond gw t s r m) = gw_Generation gw"
  by (simp_all add: gw_cond_def)

lemma fst_setProblemCondition [simp]: "fst (setProblemCondition c p) = set_condition c (fst p)"
  by (cases p) (simp add: setProblemCondition_def)

lemma fst_setConditionWithEvent [simp]: "fst (setConditionWithEvent c p) = set_condition c (fst p)"
  by (cases p) (simp add: setConditionWithEvent_def)

section \<open>A steady condition emits nothing\<close>

lemma recordConditionTransition_steady:
  "recordConditionTransition (Some c) c = []"
  by (simp add: recordConditionTransition_def)

lemma setConditionWithEvent_repeat:
  "snd (setConditionWithEvent c (set_condition c gw, events)) = events"
  by (simp add: setConditionWithEvent_def recordConditionTransition_steady)

lemma setProblemCondition_repeat:
  "snd (setProblemCondition c (set_condition c gw, events)) = events"
  by (simp add: setProblemCondition_def)

section \<open>A message stays within its bound\<close>

lemma nat_str_length: "k > 0 \<Longrightarrow> n < 10 ^ k \<Longrightarrow> length (nat_str n) \<le> k"
proof (induction k arbitrary: n)
  case (Suc k)
  show ?case
  proof (cases "n < 10")
    case True
    then show ?thesis by (subst nat_str.simps) simp
  next
    case False
    with Suc.prems have "k > 0" "n div 10 < 10 ^ k" by (cases k; auto)+
    with Suc.IH False show ?thesis by (subst nat_str.simps) simp
  qed
qed simp

lemma keep_lines_bound:
  "length b \<le> budget \<Longrightarrow> keep_lines budget b kept lines = (b', kept') \<Longrightarrow>
   length b' \<le> budget \<and> kept \<le> kept' \<and> kept' \<le> kept + length lines \<and> (kept' = kept \<longrightarrow> b' = b)"
  by (induction budget b kept lines arbitrary: b' kept' rule: keep_lines.induct) (fastforce split: if_splits)+

lemma SplitChar_length: "length (SplitChar sep s) \<le> Suc (length s)"
  by (induction s) (auto split: list.splits)

lemma TrimSuffix_length: "length (TrimSuffix s p) \<le> length s"
  by (simp add: TrimSuffix_def)

text \<open>
  A message of any length a Go string can have is cut to at most 4096 bytes, the marker
  that counts the dropped lines included, so it fits the condition the API server stores.
\<close>

lemma truncateMessage_bounded:
  assumes "length msg < 2 ^ 63"
  shows "length (truncateMessage msg) \<le> maxConditionMessageBytes"
proof (cases "length msg \<le> maxConditionMessageBytes")
  case True
  then show ?thesis by (simp add: truncateMessage_def)
next
  case False
  let ?lines = "SplitChar (CHR 0x0A) (TrimSuffix msg [CHR 0x0A])"
  obtain b0 kept0 where k: "keep_lines 4032 [] 0 ?lines = (b0, kept0)" by force
  from keep_lines_bound [OF _ k] have b0: "length b0 \<le> 4032" "kept0 \<le> length ?lines" "kept0 = 0 \<longrightarrow> b0 = []" by auto
  have n: "length ?lines - j < 10 ^ 20" for j
    using SplitChar_length [of "CHR 0x0A" "TrimSuffix msg [CHR 0x0A]"] TrimSuffix_length [of msg "[CHR 0x0A]"] assms
    by simp
  have marker: "j \<le> length ?lines \<Longrightarrow> length (itoa (int (length ?lines) - int j)) \<le> 20" for j
    using nat_str_length [OF _ n [of j]] by (simp add: itoa_def nat_diff_distrib)
  have "1 \<le> length ?lines" by (simp add: Suc_le_eq)
  then show ?thesis
    using False k b0 marker [of 1] marker [of kept0] Truncate_length [of "hd ?lines" 4032]
    by (auto simp: truncateMessage_def Let_def maxConditionMessageBytes_def truncationReserve_def)
qed

section \<open>Equal conditions\<close>

text \<open>
  Condition lists hold one condition per type; \<open>conditionsEqual\<close> compares them as the maps they
  stand for.
\<close>

lemma FindStatusCondition_None: "FindStatusCondition cs t = None \<longleftrightarrow> t \<notin> cond_Type ` set cs"
  unfolding FindStatusCondition_def find_None_iff by blast

lemma index_lookup:
  "mwf m \<Longrightarrow> distinct (map cond_Type a) \<Longrightarrow>
   map_of (fold (\<lambda>c. mput (cond_Type c) c) a m) t =
     (case FindStatusCondition a t of None \<Rightarrow> map_of m t | Some c \<Rightarrow> Some c)"
proof (induction a arbitrary: m)
  case (Cons c a)
  then have "t = cond_Type c \<Longrightarrow> FindStatusCondition a t = None"
    by (simp add: FindStatusCondition_None)
  with Cons show ?case by (auto simp: FindStatusCondition_def split: option.splits)
qed (simp add: FindStatusCondition_def)

lemma sameCondition_iff: "cond_Type x = cond_Type y \<Longrightarrow> sameCondition (Some x) (Some y) \<longleftrightarrow> x = y"
  by (cases x; cases y) (auto simp: sameCondition_def)

lemma FindStatusCondition_type: "FindStatusCondition cs t = Some c \<Longrightarrow> cond_Type c = t \<and> c \<in> set cs"
  by (auto simp: FindStatusCondition_def find_Some_iff)

lemma FindStatusCondition_member:
  "distinct (map cond_Type cs) \<Longrightarrow> c \<in> set cs \<Longrightarrow> FindStatusCondition cs (cond_Type c) = Some c"
  by (induction cs) (auto simp: FindStatusCondition_def)

lemma FindStatusCondition_dom: "dom (FindStatusCondition cs) = cond_Type ` set cs"
proof (rule set_eqI)
  show "t \<in> dom (FindStatusCondition cs) \<longleftrightarrow> t \<in> cond_Type ` set cs" for t
    unfolding domIff by (simp add: FindStatusCondition_None)
qed

lemma conditionsEqual_alt:
  assumes "distinct (map cond_Type a)"
  shows "conditionsEqual a b \<longleftrightarrow>
    length a = length b \<and> (\<forall>c \<in> set b. FindStatusCondition a (cond_Type c) = Some c)"
proof -
  have "(case map_of (fold (\<lambda>c. mput (cond_Type c) c) a []) (cond_Type c) of
            None \<Rightarrow> False | Some prev \<Rightarrow> sameCondition (Some prev) (Some c)) \<longleftrightarrow>
      FindStatusCondition a (cond_Type c) = Some c" for c
  proof (cases "FindStatusCondition a (cond_Type c)")
    case None
    then show ?thesis by (simp add: index_lookup [OF _ assms])
  next
    case (Some d)
    with FindStatusCondition_type [OF Some] show ?thesis
      by (simp add: index_lookup [OF _ assms] sameCondition_iff)
  qed
  then show ?thesis by (simp add: conditionsEqual_def Let_def list_all_iff)
qed

lemma conditionsEqual_iff:
  assumes "distinct (map cond_Type a)" and "distinct (map cond_Type b)"
  shows "conditionsEqual a b \<longleftrightarrow> FindStatusCondition a = FindStatusCondition b"
proof
  have card: "card (cond_Type ` set cs) = length cs" if "distinct (map cond_Type cs)" for cs
    using distinct_card [OF that] by simp
  show "FindStatusCondition a = FindStatusCondition b" if eq: "conditionsEqual a b"
  proof -
    from eq have l: "length a = length b" and f: "\<And>c. c \<in> set b \<Longrightarrow> FindStatusCondition a (cond_Type c) = Some c"
      by (auto simp: conditionsEqual_alt [OF assms(1)])
    have "cond_Type ` set b \<subseteq> cond_Type ` set a"
      using f FindStatusCondition_dom [of a] by blast
    then have "cond_Type ` set b = cond_Type ` set a"
      by (intro card_subset_eq) (auto simp: card assms l)
    then have d: "dom (FindStatusCondition a) = dom (FindStatusCondition b)"
      by (simp add: FindStatusCondition_dom)
    show ?thesis
    proof
      fix t
      show "FindStatusCondition a t = FindStatusCondition b t"
        using d f FindStatusCondition_type [of b t] by (cases "FindStatusCondition b t") auto
    qed
  qed
  show "conditionsEqual a b" if eq: "FindStatusCondition a = FindStatusCondition b"
  proof -
    have "cond_Type ` set a = cond_Type ` set b"
      using eq FindStatusCondition_dom by metis
    then have "length a = length b" using card assms by metis
    then show ?thesis
      using eq FindStatusCondition_member [OF assms(2)] by (simp add: conditionsEqual_alt [OF assms(1)])
  qed
qed

end
