(* ===== verification/License.thy ===== *)
theory License
  imports Conditions
begin

text \<open>
  The license of an Enterprise gateway: the stages of its validity window
  (\<^verbatim>\<open>util/license/window.go\<close>), the Secret it is read from (\<^verbatim>\<open>resources/license.go\<close>) and the
  license stage of a reconcile (\<^verbatim>\<open>controller/gateway_license.go\<close>). Instants and durations are
  nanoseconds. An instant is an unbounded \<^typ>\<open>int\<close>; a duration computed from the spec wraps
  around at 64 bits (\<open>int64\<close>). The Secret read, the certificate parser and CRD discovery are
  fields of \<open>license_env\<close>; metrics are left out.
\<close>

section \<open>Windows\<close>

datatype Stage = StageValid | StageExpiringSoon | StagePreExpiry | StageExpired

record Window =
  w_Warning :: int
  w_SafetyBuffer :: int

definition StageAt :: "Window \<Rightarrow> int \<Rightarrow> int \<Rightarrow> Stage" where
  "StageAt w notAfter now =
     (if \<not> notAfter > now then StageExpired
      else if \<not> notAfter > now + w_SafetyBuffer w then StagePreExpiry
      else if \<not> notAfter > now + w_Warning w then StageExpiringSoon
      else StageValid)"

fun first_after :: "int \<Rightarrow> int list \<Rightarrow> int" where
  "first_after now [] = 0"
| "first_after now (b # bs) = (if b > now then b - now else first_after now bs)"

definition NextChange :: "Window \<Rightarrow> int \<Rightarrow> int \<Rightarrow> int" where
  "NextChange w notAfter now =
     first_after now [notAfter - w_Warning w, notAfter - w_SafetyBuffer w, notAfter]"

section \<open>Durations and times\<close>

definition int64 :: "int \<Rightarrow> int" where
  "int64 x = (x + 2 ^ 63) mod 2 ^ 64 - 2 ^ 63"

definition hour :: int where
  "hour = 3600 * 10 ^ 9"

definition licenseRecheckInterval :: int where
  "licenseRecheckInterval = 5 * 60 * 10 ^ 9"

definition licenseSafetyBuffer :: int where
  "licenseSafetyBuffer = hour"

definition defaultExpiryWarningDays :: int where
  "defaultExpiryWarningDays = 30"

definition expiryWarning :: "KrakenDGateway \<Rightarrow> int" where
  "expiryWarning gw =
     (let days = (case gs_License (gw_Spec gw) of
                    Some lic \<Rightarrow> if lc_ExpiryWarningDays lic > 0 then lc_ExpiryWarningDays lic
                                else defaultExpiryWarningDays
                  | None \<Rightarrow> defaultExpiryWarningDays)
      in int64 (int64 (days * 24) * hour))"

definition nextLicenseCheck :: "Window \<Rightarrow> int \<Rightarrow> int \<Rightarrow> int" where
  "nextLicenseCheck w notAfter now =
     (let d = NextChange w notAfter now
      in if d > 0 \<and> d < licenseRecheckInterval then d else licenseRecheckInterval)"

text \<open>\<^verbatim>\<open>t.UTC().Format(time.RFC3339)\<close> for the years 0 to 9999.\<close>

definition pad :: "nat \<Rightarrow> int \<Rightarrow> string" where
  "pad n x = (let s = itoa x in replicate (n - length s) CHR ''0'' @ s)"

definition civil :: "int \<Rightarrow> int \<times> int \<times> int" where
  "civil days =
     (let z = days + 719468; era = z div 146097; doe = z mod 146097;
          yoe = (doe - doe div 1460 + doe div 36524 - doe div 146096) div 365;
          doy = doe - (365 * yoe + yoe div 4 - yoe div 100);
          mp = (5 * doy + 2) div 153;
          d = doy - (153 * mp + 2) div 5 + 1;
          mo = (if mp < 10 then mp + 3 else mp - 9)
      in (yoe + era * 400 + (if mo \<le> 2 then 1 else 0), mo, d))"

definition rfc3339 :: "int \<Rightarrow> string" where
  "rfc3339 t =
     (let s = t div 10 ^ 9; sod = s mod 86400
      in case civil (s div 86400) of (y, mo, d) \<Rightarrow>
           pad 4 y @ ''-'' @ pad 2 mo @ ''-'' @ pad 2 d @ ''T'' @ pad 2 (sod div 3600) @ '':'' @
           pad 2 (sod mod 3600 div 60) @ '':'' @ pad 2 (sod mod 60) @ ''Z'')"

lemma rfc3339_epoch: "rfc3339 (1700000000 * 10 ^ 9) = ''2023-11-14T22:13:20Z''"
  by code_simp

section \<open>The license Secret\<close>

definition licenseKey :: string where
  "licenseKey = ''LICENSE''"

definition ExternalSecretName :: "KrakenDGateway \<Rightarrow> string" where
  "ExternalSecretName gw = gw_Name gw @ ''-license''"

definition LicenseSecret :: "KrakenDGateway \<Rightarrow> (string \<times> string) option" where
  "LicenseSecret gw =
     (case gs_License (gw_Spec gw) of
        None \<Rightarrow> None
      | Some lic \<Rightarrow>
          (case lc_SecretRef lic of
             Some (name, key) \<Rightarrow>
               if name = [] then None else Some (name, if key = [] then licenseKey else key)
           | None \<Rightarrow> if lc_ExternalSecretEnabled lic then Some (ExternalSecretName gw, licenseKey) else None))"

record license_env =
  le_now :: int
  le_secret :: "string \<Rightarrow> string + (string, string) gomap"
  le_parse :: "string \<Rightarrow> string + int"
  le_crd :: "string + bool"

definition readLicenseSecret :: "license_env \<Rightarrow> KrakenDGateway \<Rightarrow> string + string" where
  "readLicenseSecret env gw =
     (case LicenseSecret gw of
        None \<Rightarrow> Inl ''no license configuration found''
      | Some (name, key) \<Rightarrow>
          (case le_secret env name of
             Inl e \<Rightarrow> Inl e
           | Inr secret \<Rightarrow>
               (case map_of secret key of
                  None \<Rightarrow> Inl ''license key not found in secret data''
                | Some content \<Rightarrow> Inr content)))"

definition readLicense :: "license_env \<Rightarrow> KrakenDGateway \<Rightarrow> string + string \<times> int" where
  "readLicense env gw =
     (case readLicenseSecret env gw of
        Inl e \<Rightarrow> Inl e
      | Inr content \<Rightarrow>
          (case le_parse env content of Inl e \<Rightarrow> Inl e | Inr notAfter \<Rightarrow> Inr (SHA256Hex content, notAfter)))"

section \<open>The license stage\<close>

record licenseVerdict =
  lv_ceFallback :: bool
  lv_requeueAfter :: int
  lv_licenseChecksum :: string
  lv_keepDeployedLicense :: bool

definition checksumFor :: "licenseVerdict \<Rightarrow> string \<Rightarrow> string" where
  "checksumFor v deployed = (if lv_keepDeployedLicense v then deployed else lv_licenseChecksum v)"

definition setLicenseValid :: "ConditionStatus \<Rightarrow> string \<Rightarrow> string \<Rightarrow> gw_events \<Rightarrow> gw_events" where
  "setLicenseValid status reason message = (\<lambda>(gw, events).
     (set_condition (gw_cond gw ''LicenseValid'' status reason message) gw, events))"

definition setLicenseValidUnknown :: "string \<Rightarrow> gw_events \<Rightarrow> gw_events" where
  "setLicenseValidUnknown readErr = setLicenseValid ConditionUnknown ''LicenseSecretMissing'' readErr"

definition license_conditions :: "string list" where
  "license_conditions = [''LicenseValid'', ''LicenseExpired'', ''LicenseDegraded'', ''LicenseSecretUnavailable'']"

definition forgetLicense :: "gw_events \<Rightarrow> gw_events" where
  "forgetLicense = (\<lambda>(gw, events).
     (let gw1 = with_conditions (filter (\<lambda>c. cond_Type c \<notin> set license_conditions)) gw
      in (gw1\<lparr>gw_Status := (gw_Status gw1)\<lparr>gst_LicenseExpiry := None\<rparr>\<rparr>, events)))"

definition expireLicense :: "string \<Rightarrow> string \<Rightarrow> bool \<Rightarrow> gw_events \<Rightarrow> gw_events" where
  "expireLicense reason message fallback = (\<lambda>(gw, events).
     (let wasExpired = IsStatusConditionTrue (gw_conditions gw) ''LicenseExpired'';
          wasFallingBack = IsStatusConditionTrue (gw_conditions gw) ''LicenseDegraded'';
          (gw1, ev1) = setLicenseValid ConditionFalse reason message (gw, events);
          gw2 = set_condition (gw_cond gw1 ''LicenseExpired'' ConditionTrue reason message) gw1;
          (gw3, ev3) =
            (if fallback
             then setProblemCondition
                    (gw_cond gw2 ''LicenseDegraded'' ConditionTrue ''LicenseFallbackCE''
                       ''license expired, falling back to CE edition'') (gw2, ev1)
             else if \<not> wasExpired \<or> wasFallingBack
             then (gw2, ev1 @ [warning ''LicenseExpiredNoFallback'' ''license expired and fallbackToCE is not enabled''])
             else (gw2, ev1))
      in if \<not> fallback \<and> FindStatusCondition (gw_conditions gw3) ''LicenseDegraded'' \<noteq> None
         then (set_condition
                 (gw_cond gw3 ''LicenseDegraded'' ConditionFalse ''LicenseExpiredNoFallback''
                    ''license expired and fallbackToCE is not enabled'') gw3, ev3)
         else (gw3, ev3)))"

definition recoverLicense :: "gw_events \<Rightarrow> gw_events" where
  "recoverLicense = (\<lambda>(gw, events).
     if \<not> IsStatusConditionTrue (gw_conditions gw) ''LicenseExpired'' \<and>
        \<not> IsStatusConditionTrue (gw_conditions gw) ''LicenseDegraded''
     then (gw, events)
     else (fold (\<lambda>t g. set_condition (gw_cond g t ConditionFalse ''LicenseRestored'' ''license is now valid'') g)
             [''LicenseDegraded'', ''LicenseExpired''] gw,
           events @ [normal ''LicenseRestored'' ''license restored, recovering from degraded state'']))"

definition applyLicenseStage :: "Stage \<Rightarrow> int \<Rightarrow> gw_events \<Rightarrow> bool \<times> gw_events" where
  "applyLicenseStage stage notAfter = (\<lambda>(gw, events).
     (let expiry = rfc3339 notAfter;
          fallback = (case gs_License (gw_Spec gw) of None \<Rightarrow> False | Some lic \<Rightarrow> lc_FallbackToCE lic)
      in case stage of
           StageValid \<Rightarrow>
             (False, setLicenseValid ConditionTrue ''LicenseOK'' (''license valid until '' @ expiry)
                       (recoverLicense (gw, events)))
         | StageExpiringSoon \<Rightarrow>
             (let (gw1, ev1) = recoverLicense (gw, events);
                  entering = (case FindStatusCondition (gw_conditions gw1) ''LicenseValid'' of
                                None \<Rightarrow> True | Some prev \<Rightarrow> cond_Reason prev \<noteq> ''LicenseExpiringSoon'');
                  message = ''license expires at '' @ expiry;
                  (gw2, ev2) = setLicenseValid ConditionTrue ''LicenseExpiringSoon'' message (gw1, ev1)
              in (False, gw2, ev2 @ (if entering then [warning ''LicenseExpiringSoon'' message] else [])))
         | StagePreExpiry \<Rightarrow>
             (fallback, expireLicense ''LicensePreExpiry''
                (''license expires at '' @ expiry @ '', inside the 1h0m0s safety buffer'') fallback (gw, events))
         | StageExpired \<Rightarrow>
             (fallback, expireLicense ''LicenseExpired'' (''license certificate expired at '' @ expiry) fallback
                (gw, events))))"

definition externalSecretCRDMissing :: "license_env \<Rightarrow> KrakenDGateway \<Rightarrow> bool" where
  "externalSecretCRDMissing env gw =
     (case gs_License (gw_Spec gw) of
        None \<Rightarrow> False
      | Some lic \<Rightarrow> lc_ExternalSecretEnabled lic \<and> le_crd env = Inr False)"

definition reconcileUnreadableLicense ::
  "license_env \<Rightarrow> string \<Rightarrow> Window \<Rightarrow> int \<Rightarrow> gw_events \<Rightarrow> licenseVerdict \<times> gw_events" where
  "reconcileUnreadableLicense env readErr window now = (\<lambda>(gw, events).
     (let (reason, message) =
            (if externalSecretCRDMissing env gw
             then (''CRDNotInstalled'',
                   ''spec.license.externalSecret is enabled but the external-secrets.io ExternalSecret CRD is not installed, so Secret ''
                   @ ExternalSecretName gw @ '' is never synced: '' @ readErr)
             else (''LicenseSecretMissing'', readErr));
          p1 = setProblemCondition (gw_cond gw ''LicenseSecretUnavailable'' ConditionTrue reason message) (gw, events);
          verdict = \<lparr>lv_ceFallback = IsStatusConditionTrue (gw_conditions (fst p1)) ''LicenseDegraded'',
                     lv_requeueAfter = licenseRecheckInterval, lv_licenseChecksum = [],
                     lv_keepDeployedLicense = False\<rparr>
      in case gst_LicenseExpiry (gw_Status (fst p1)) of
           None \<Rightarrow> (verdict, setLicenseValidUnknown readErr p1)
         | Some known \<Rightarrow>
             (let v1 = verdict\<lparr>lv_requeueAfter := nextLicenseCheck window known now\<rparr>;
                  stage = StageAt window known now
              in if stage = StagePreExpiry \<or> stage = StageExpired
                 then (case applyLicenseStage stage known p1 of (fallback, p2) \<Rightarrow> (v1\<lparr>lv_ceFallback := fallback\<rparr>, p2))
                 else (v1, setLicenseValidUnknown readErr p1))))"

definition reconcileLicense :: "license_env \<Rightarrow> gw_events \<Rightarrow> licenseVerdict \<times> gw_events" where
  "reconcileLicense env = (\<lambda>(gw, events).
     if gs_Edition (gw_Spec gw) \<noteq> EditionEE
     then (\<lparr>lv_ceFallback = False, lv_requeueAfter = 0, lv_licenseChecksum = [], lv_keepDeployedLicense = False\<rparr>,
           forgetLicense (gw, events))
     else (let window = \<lparr>w_Warning = expiryWarning gw, w_SafetyBuffer = licenseSafetyBuffer\<rparr>; now = le_now env
           in case readLicense env gw of
                Inl e \<Rightarrow>
                  (case reconcileUnreadableLicense env e window now (gw, events) of
                     (v, p) \<Rightarrow> (v\<lparr>lv_keepDeployedLicense := True\<rparr>, p))
              | Inr (checksum, notAfter) \<Rightarrow>
                  (let gw1 = gw\<lparr>gw_Status := (gw_Status gw)\<lparr>gst_LicenseExpiry := Some notAfter\<rparr>\<rparr>;
                       gw2 = set_condition
                               (gw_cond gw1 ''LicenseSecretUnavailable'' ConditionFalse ''SecretAvailable''
                                  ''license secret is available'') gw1
                   in case applyLicenseStage (StageAt window notAfter now) notAfter (gw2, events) of
                        (fallback, p) \<Rightarrow>
                          (\<lparr>lv_ceFallback = fallback, lv_requeueAfter = nextLicenseCheck window notAfter now,
                            lv_licenseChecksum = checksum, lv_keepDeployedLicense = False\<rparr>, p))))"

section \<open>No stage is missed\<close>

lemma NextChange_cases:
  assumes "0 < w_SafetyBuffer w" and "w_SafetyBuffer w < w_Warning w"
  shows "if NextChange w notAfter now = 0 then StageAt w notAfter now = StageExpired
         else NextChange w notAfter now > 0 \<and>
              (\<forall>t. 0 \<le> t \<and> t < NextChange w notAfter now \<longrightarrow> StageAt w notAfter (now + t) = StageAt w notAfter now) \<and>
              StageAt w notAfter (now + NextChange w notAfter now) \<noteq> StageAt w notAfter now"
  using assms by (auto simp: NextChange_def StageAt_def)

lemma StageExpired_stays: "StageAt w notAfter now = StageExpired \<Longrightarrow> 0 \<le> t \<Longrightarrow> StageAt w notAfter (now + t) = StageExpired"
  by (auto simp: StageAt_def split: if_splits)

text \<open>The window a reconcile uses, and the spec values for which its warning does not wrap.\<close>

definition gw_window :: "KrakenDGateway \<Rightarrow> Window" where
  "gw_window gw = \<lparr>w_Warning = expiryWarning gw, w_SafetyBuffer = licenseSafetyBuffer\<rparr>"

definition warning_days_ok :: "KrakenDGateway \<Rightarrow> bool" where
  "warning_days_ok gw \<longleftrightarrow>
     (case gs_License (gw_Spec gw) of None \<Rightarrow> True | Some lic \<Rightarrow> lc_ExpiryWarningDays lic \<le> 106751)"

lemma int64_id: "- (2 ^ 63) \<le> x \<Longrightarrow> x < 2 ^ 63 \<Longrightarrow> int64 x = x"
  by (simp add: int64_def)

lemma expiryWarning_days:
  assumes "warning_days_ok gw"
  shows "\<exists>days \<ge> 1. expiryWarning gw = days * 24 * hour"
proof -
  define days where "days = (case gs_License (gw_Spec gw) of
       Some lic \<Rightarrow> if lc_ExpiryWarningDays lic > 0 then lc_ExpiryWarningDays lic else defaultExpiryWarningDays
     | None \<Rightarrow> defaultExpiryWarningDays)"
  have d: "1 \<le> days" "days \<le> 106751"
    using assms by (auto simp: days_def warning_days_ok_def defaultExpiryWarningDays_def split: option.splits)
  then have "int64 (days * 24) = days * 24" by (intro int64_id) auto
  moreover have "int64 (days * 24 * hour) = days * 24 * hour"
    using d by (intro int64_id) (auto simp: hour_def)
  ultimately show ?thesis using d by (auto simp: expiryWarning_def days_def [symmetric] Let_def)
qed

lemma gw_window_ok:
  "warning_days_ok gw \<Longrightarrow> 0 < w_SafetyBuffer (gw_window gw) \<and> w_SafetyBuffer (gw_window gw) < w_Warning (gw_window gw)"
  by (drule expiryWarning_days) (auto simp: gw_window_def licenseSafetyBuffer_def hour_def)

text \<open>
  C30: the time a reconcile asks to be run again after is positive and at most five minutes, and
  the license is in one and the same stage until then: no stage change goes unseen longer than
  the reconcile takes. When the stage changes within five minutes, the next check is at the very
  instant it does.
\<close>

theorem nextLicenseCheck_misses_no_stage:
  assumes "warning_days_ok gw"
  shows "let d = nextLicenseCheck (gw_window gw) notAfter now in
    0 < d \<and> d \<le> licenseRecheckInterval \<and>
    (\<forall>t. 0 \<le> t \<and> t < d \<longrightarrow> StageAt (gw_window gw) notAfter (now + t) = StageAt (gw_window gw) notAfter now) \<and>
    (d < licenseRecheckInterval \<longrightarrow> StageAt (gw_window gw) notAfter (now + d) \<noteq> StageAt (gw_window gw) notAfter now)"
proof -
  let ?w = "gw_window gw"
  from gw_window_ok [OF assms] have w: "0 < w_SafetyBuffer ?w" "w_SafetyBuffer ?w < w_Warning ?w" by auto
  show ?thesis
  proof (cases "NextChange ?w notAfter now = 0")
    case True
    with NextChange_cases [OF w, of notAfter now] have "StageAt ?w notAfter now = StageExpired" by simp
    with True show ?thesis
      by (auto simp: nextLicenseCheck_def Let_def licenseRecheckInterval_def StageExpired_stays)
  next
    case False
    with NextChange_cases [OF w, of notAfter now] show ?thesis
      by (auto simp: nextLicenseCheck_def Let_def licenseRecheckInterval_def split: if_splits)
  qed
qed

text \<open>
  The hypothesis on the warning days matters: the field has no upper bound in the custom
  resource, and from 106752 days on the product wraps around to a negative duration. The license
  of such a gateway is never reported as expiring soon.
\<close>

lemma expiryWarning_wraps:
  assumes "gs_License (gw_Spec gw) = Some lic" and "lc_ExpiryWarningDays lic = 106752"
  shows "expiryWarning gw < 0 \<and> StageAt (gw_window gw) notAfter now \<noteq> StageExpiringSoon"
proof -
  have "expiryWarning gw < 0"
    using assms by (simp add: expiryWarning_def Let_def int64_def hour_def)
  then show ?thesis by (auto simp: StageAt_def gw_window_def licenseSafetyBuffer_def hour_def)
qed

section \<open>The recorded fallback decision\<close>

lemma recoverLicense_spec:
  "\<not> IsStatusConditionTrue (gw_conditions (fst (recoverLicense p))) ''LicenseDegraded''"
  "gw_Spec (fst (recoverLicense p)) = gw_Spec (fst p)"
  by (cases p; auto simp: recoverLicense_def)+

lemma setLicenseValid_spec:
  "IsStatusConditionTrue (gw_conditions (fst (setLicenseValid st r m p))) ''LicenseDegraded'' =
     IsStatusConditionTrue (gw_conditions (fst p)) ''LicenseDegraded''"
  "gw_Spec (fst (setLicenseValid st r m p)) = gw_Spec (fst p)"
  by (cases p; simp add: setLicenseValid_def)+

lemma expireLicense_spec:
  "IsStatusConditionTrue (gw_conditions (fst (expireLicense r m fallback p))) ''LicenseDegraded'' = fallback"
  "gw_Spec (fst (expireLicense r m fallback p)) = gw_Spec (fst p)"
  by (cases p; auto simp: expireLicense_def Let_def setLicenseValid_def IsStatusConditionTrue_def
      split: prod.splits option.splits)+

lemma applyLicenseStage_spec:
  "IsStatusConditionTrue (gw_conditions (fst (snd (applyLicenseStage stage t p)))) ''LicenseDegraded'' =
     fst (applyLicenseStage stage t p)"
  "gw_Spec (fst (snd (applyLicenseStage stage t p))) = gw_Spec (fst p)"
  by (cases p; cases stage; simp add: applyLicenseStage_def Let_def expireLicense_spec setLicenseValid_spec
      recoverLicense_spec split: prod.splits;
      metis fst_conv recoverLicense_spec setLicenseValid_spec)+

lemma applyLicenseStage_value:
  "fst (applyLicenseStage stage t (gw, events)) \<longleftrightarrow>
     stage \<in> {StagePreExpiry, StageExpired} \<and> (\<exists>lic. gs_License (gw_Spec gw) = Some lic \<and> lc_FallbackToCE lic)"
  by (cases stage) (auto simp: applyLicenseStage_def Let_def split: prod.splits option.splits)

lemma reconcileUnreadableLicense_spec:
  "IsStatusConditionTrue (gw_conditions (fst (snd (reconcileUnreadableLicense env e w now p)))) ''LicenseDegraded'' =
     lv_ceFallback (fst (reconcileUnreadableLicense env e w now p))"
  "gw_Spec (fst (snd (reconcileUnreadableLicense env e w now p))) = gw_Spec (fst p)"
proof -
  obtain gw events where p: "p = (gw, events)" by force
  obtain reason message where rm: "(if externalSecretCRDMissing env gw
     then (''CRDNotInstalled'',
           ''spec.license.externalSecret is enabled but the external-secrets.io ExternalSecret CRD is not installed, so Secret ''
           @ ExternalSecretName gw @ '' is never synced: '' @ e)
     else (''LicenseSecretMissing'', e)) = (reason, message)" by force
  define p1 where "p1 = setProblemCondition (gw_cond gw ''LicenseSecretUnavailable'' ConditionTrue reason message) (gw, events)"
  have spec: "gw_Spec (fst p1) = gw_Spec gw" by (simp add: p1_def)
  let ?r = "reconcileUnreadableLicense env e w now p"
  show "IsStatusConditionTrue (gw_conditions (fst (snd ?r))) ''LicenseDegraded'' = lv_ceFallback (fst ?r)"
    unfolding reconcileUnreadableLicense_def p prod.case rm Let_def p1_def [symmetric]
    by (simp add: case_prod_unfold applyLicenseStage_spec setLicenseValid_spec setLicenseValidUnknown_def
        split: option.split)
  show "gw_Spec (fst (snd ?r)) = gw_Spec (fst p)"
    unfolding reconcileUnreadableLicense_def p prod.case rm Let_def p1_def [symmetric]
    by (simp add: case_prod_unfold applyLicenseStage_spec setLicenseValid_spec setLicenseValidUnknown_def spec
        split: option.split)
qed

lemma reconcileLicense_degraded:
  assumes "reconcileLicense env (gw, events) = (v, gw', events')"
  shows "gw_Spec gw' = gw_Spec gw \<and>
    (lv_ceFallback v \<longleftrightarrow>
       gs_Edition (gw_Spec gw) = EditionEE \<and> IsStatusConditionTrue (gw_conditions gw') ''LicenseDegraded'')"
proof (cases "gs_Edition (gw_Spec gw) = EditionEE")
  case False
  with assms show ?thesis
    by (auto simp: reconcileLicense_def forgetLicense_def Let_def with_conditions_def)
next
  case True
  show ?thesis
  proof (cases "readLicense env gw")
    case (Inl e)
    let ?r = "reconcileUnreadableLicense env e
      \<lparr>w_Warning = expiryWarning gw, w_SafetyBuffer = licenseSafetyBuffer\<rparr> (le_now env) (gw, events)"
    from assms True Inl have "v = (fst ?r)\<lparr>lv_keepDeployedLicense := True\<rparr>" "gw' = fst (snd ?r)"
      by (auto simp: reconcileLicense_def Let_def split: prod.splits)
    then show ?thesis using True reconcileUnreadableLicense_spec by simp
  next
    case (Inr c)
    obtain checksum notAfter where c: "c = (checksum, notAfter)" by force
    define gw1 where "gw1 = gw\<lparr>gw_Status := (gw_Status gw)\<lparr>gst_LicenseExpiry := Some notAfter\<rparr>\<rparr>"
    let ?a = "applyLicenseStage (StageAt \<lparr>w_Warning = expiryWarning gw, w_SafetyBuffer = licenseSafetyBuffer\<rparr> notAfter (le_now env))
      notAfter (set_condition (gw_cond gw1 ''LicenseSecretUnavailable'' ConditionFalse ''SecretAvailable''
        ''license secret is available'') gw1, events)"
    from assms True Inr c have "lv_ceFallback v = fst ?a" "gw' = fst (snd ?a)"
      by (auto simp: reconcileLicense_def Let_def gw1_def split: prod.splits)
    then show ?thesis using True applyLicenseStage_spec [of _ notAfter] by (simp add: gw1_def)
  qed
qed


section \<open>Samples\<close>

text \<open>An Enterprise gateway with a license that expired, and the fallback allowed.\<close>

definition ex_license_gw :: KrakenDGateway where
  "ex_license_gw = ex_gw\<lparr>gw_Spec := (gw_Spec ex_gw)\<lparr>gs_License :=
     Some \<lparr>lc_ExternalSecretEnabled = False, lc_SecretRef = Some (''s'', []), lc_FallbackToCE = True,
           lc_ExpiryWarningDays = 14\<rparr>\<rparr>\<rparr>"

definition ex_license_env :: license_env where
  "ex_license_env = \<lparr>le_now = 100, le_secret = (\<lambda>_. Inr [(''LICENSE'', ''pem'')]), le_parse = (\<lambda>_. Inr 50),
                     le_crd = Inr True\<rparr>"

lemma ex_license_gw_simps:
  "gs_Edition (gw_Spec ex_license_gw) = EditionEE" "warning_days_ok ex_license_gw"
  "readLicense ex_license_env ex_license_gw = Inr (SHA256Hex ''pem'', 50)"
  by (simp_all add: ex_license_gw_def ex_gw_def warning_days_ok_def readLicense_def readLicenseSecret_def
      LicenseSecret_def licenseKey_def ex_license_env_def)

theorem nextLicenseCheck_misses_no_stage_witness:
  "0 < nextLicenseCheck (gw_window ex_license_gw) 1000 0 \<and>
   StageAt (gw_window ex_license_gw) 1000 (0 + 500) = StageAt (gw_window ex_license_gw) 1000 0"
proof -
  have "nextLicenseCheck (gw_window ex_license_gw) 1000 0 = 1000"
    by code_simp
  moreover from nextLicenseCheck_misses_no_stage [OF ex_license_gw_simps(2), of 1000 0]
  have "0 \<le> (500 :: int) \<and> 500 < nextLicenseCheck (gw_window ex_license_gw) 1000 0 \<longrightarrow>
      StageAt (gw_window ex_license_gw) 1000 (0 + 500) = StageAt (gw_window ex_license_gw) 1000 0"
    unfolding Let_def by blast
  ultimately show ?thesis by simp
qed


end
