(* ===== verification/Rollout.thy ===== *)
theory Rollout
  imports License
begin

text \<open>
  The rollout of a gateway's Deployment and the Ready condition derived from all conditions:
  \<^verbatim>\<open>controller/gateway_rollout.go\<close> and the status part of
  \<^verbatim>\<open>controller/krakendgateway_controller.go\<close>. A Deployment is the part of the object these
  functions read; the cached read of \<open>inspectDeploymentStatus\<close> is a parameter.
\<close>

section \<open>Readiness\<close>

record gatewayReadiness =
  gr_status :: ConditionStatus
  gr_reason :: string
  gr_message :: string
  gr_phase :: GatewayPhase

definition condFalse :: "Condition option \<Rightarrow> bool" where
  "condFalse c = (case c of None \<Rightarrow> False | Some x \<Rightarrow> cond_Status x = ConditionFalse)"

definition condTrue :: "Condition option \<Rightarrow> bool" where
  "condTrue c = (case c of None \<Rightarrow> False | Some x \<Rightarrow> cond_Status x = ConditionTrue)"

definition notReady :: "Condition option \<Rightarrow> GatewayPhase \<Rightarrow> gatewayReadiness" where
  "notReady cause phase =
     \<lparr>gr_status = ConditionFalse, gr_reason = (case cause of None \<Rightarrow> [] | Some c \<Rightarrow> cond_Reason c),
      gr_message = (case cause of None \<Rightarrow> [] | Some c \<Rightarrow> cond_Message c), gr_phase = phase\<rparr>"

definition servingPhase :: "Condition option \<Rightarrow> Condition option \<Rightarrow> GatewayPhase" where
  "servingPhase progressing available =
     (if progressing = None \<and> available = None then PhasePending
      else if condTrue progressing \<or> \<not> condTrue available then PhaseDeploying
      else PhaseRunning)"

definition gatewayReadinessFor :: "Condition list \<Rightarrow> gatewayReadiness" where
  "gatewayReadinessFor conds =
     (let configValid = FindStatusCondition conds ''ConfigValid'';
          available = FindStatusCondition conds ''Available'';
          progressing = FindStatusCondition conds ''Progressing'';
          degraded = FindStatusCondition conds ''LicenseDegraded'';
          expired = FindStatusCondition conds ''LicenseExpired'';
          ceFallback = FindStatusCondition conds ''CEFallbackApplied'';
          plugins = FindStatusCondition conds ''PluginsResolved'';
          controlled = FindStatusCondition conds ''ResourcesControlled''
      in if condFalse configValid then notReady configValid PhaseError
         else if condTrue expired \<and> \<not> condTrue degraded
         then (notReady expired PhaseError)\<lparr>gr_reason := ''LicenseExpiredNoFallback''\<rparr>
         else if condFalse plugins then notReady plugins PhaseError
         else if condFalse controlled then notReady controlled PhaseError
         else if condFalse available then notReady available PhaseError
         else if condTrue ceFallback then notReady ceFallback PhaseDegraded
         else if condTrue degraded then notReady degraded PhaseDegraded
         else (case configValid of
                 None \<Rightarrow>
                   \<lparr>gr_status = ConditionUnknown, gr_reason = ''Pending'',
                    gr_message = ''Waiting for the first configuration to be validated'', gr_phase = PhasePending\<rparr>
               | Some cv \<Rightarrow>
                   if cond_Status cv = ConditionUnknown
                   then \<lparr>gr_status = ConditionUnknown, gr_reason = cond_Reason cv, gr_message = cond_Message cv,
                         gr_phase = servingPhase progressing available\<rparr>
                   else if condTrue progressing then notReady progressing PhaseDeploying
                   else if \<not> condTrue available
                   then \<lparr>gr_status = ConditionFalse, gr_reason = ''AwaitingAvailability'',
                         gr_message = ''Waiting for the Deployment to report available replicas'',
                         gr_phase = PhaseDeploying\<rparr>
                   else \<lparr>gr_status = ConditionTrue, gr_reason = ''Ready'',
                         gr_message = ''Configuration applied and all replicas available'', gr_phase = PhaseRunning\<rparr>))"

definition setGatewayReadiness :: "int \<Rightarrow> KrakenDGateway \<Rightarrow> KrakenDGateway" where
  "setGatewayReadiness observed gw =
     (let rd = gatewayReadinessFor (gw_conditions gw);
          gw1 = with_conditions (\<lambda>cs. setReadyCondition cs observed (gr_status rd) (gr_reason rd) (gr_message rd)) gw
      in gw1\<lparr>gw_Status := (gw_Status gw1)\<lparr>gst_Phase := Some (gr_phase rd), gst_ObservedGeneration := observed\<rparr>\<rparr>)"

definition setConfigApplied :: "KrakenDGateway \<Rightarrow> KrakenDGateway" where
  "setConfigApplied gw =
     set_condition (gw_cond gw ''ConfigValid'' ConditionTrue ''ConfigApplied''
       ''Configuration passed validation and is applied'') gw"

section \<open>Deployments\<close>

record DeploymentCondition =
  dc_Type :: string
  dc_Status :: ConditionStatus
  dc_Reason :: string
  dc_Message :: string

record Deployment =
  dp_Generation :: int
  dp_Replicas :: "int option"
  dp_TemplateAnnotations :: "(string, string) gomap"
  dp_Volumes :: "(string \<times> string option) list"
  dp_ObservedGeneration :: int
  dp_StatusReplicas :: int
  dp_UpdatedReplicas :: int
  dp_ReadyReplicas :: int
  dp_AvailableReplicas :: int
  dp_Conditions :: "DeploymentCondition list"

record infraInputs =
  ii_appliedChecksum :: string
  ii_pluginChecksum :: string
  ii_licenseChecksum :: string
  ii_image :: string
  ii_ceRender :: bool
  ii_configMapName :: string
  ii_heldBecause :: "string option"
  ii_missingPlugins :: "string list"
  ii_mountedConfigMap :: string
  ii_deploymentForeign :: bool

record deploymentObservation =
  ob_dep :: "Deployment option"
  ob_failed :: bool
  ob_refused :: bool
  ob_unreconciled :: bool
  ob_created :: bool
  ob_templateChanged :: bool

text \<open>\<open>rolloutNote\<close>: reason and message.\<close>

type_synonym rolloutNote = "string \<times> string"

definition configRolloutNote :: rolloutNote where
  "configRolloutNote = (''ConfigDeployed'', ''Configuration updated, rolling deployment'')"

fun MountedConfigMapName :: "(string \<times> string option) list \<Rightarrow> string" where
  "MountedConfigMapName [] = []"
| "MountedConfigMapName ((name, cm) # vs) =
     (case cm of
        Some c \<Rightarrow> if name = ''config'' then c else MountedConfigMapName vs
      | None \<Rightarrow> MountedConfigMapName vs)"

text \<open>Reading a missing key of a Go string map gives the empty string.\<close>

definition annotation :: "Deployment \<Rightarrow> string \<Rightarrow> string" where
  "annotation dep k = (case map_of (dp_TemplateAnnotations dep) k of None \<Rightarrow> [] | Some v \<Rightarrow> v)"

definition templateRunsWant :: "Deployment \<Rightarrow> infraInputs \<Rightarrow> bool" where
  "templateRunsWant dep want \<longleftrightarrow>
     annotation dep ''krakend.io/checksum-config'' = ii_appliedChecksum want \<and>
     annotation dep ''krakend.io/checksum-plugins'' = ii_pluginChecksum want \<and>
     annotation dep ''krakend.io/image'' = ii_image want \<and>
     annotation dep ''krakend.io/checksum-license'' = ii_licenseChecksum want \<and>
     MountedConfigMapName (dp_Volumes dep) = ii_configMapName want"

definition rolloutInFlight :: "deploymentObservation \<Rightarrow> infraInputs \<Rightarrow> bool" where
  "rolloutInFlight obs want =
     (case ob_dep obs of
        None \<Rightarrow> False
      | Some dep \<Rightarrow> ob_created obs \<or> ob_templateChanged obs \<or> \<not> templateRunsWant dep want \<or>
                    dp_UpdatedReplicas dep < dp_StatusReplicas dep)"

definition deploymentConverged :: "Deployment \<Rightarrow> infraInputs \<Rightarrow> bool" where
  "deploymentConverged dep want =
     (if \<not> templateRunsWant dep want then False
      else (let desired = (case dp_Replicas dep of None \<Rightarrow> 1 | Some n \<Rightarrow> n)
            in dp_ObservedGeneration dep \<ge> dp_Generation dep \<and> dp_StatusReplicas dep = desired \<and>
               dp_UpdatedReplicas dep = desired \<and> dp_AvailableReplicas dep = desired))"

definition findDeploymentCondition :: "Deployment \<Rightarrow> string \<Rightarrow> DeploymentCondition option" where
  "findDeploymentCondition dep t = find (\<lambda>c. dc_Type c = t) (dp_Conditions dep)"

definition failedRolloutApplies :: "Deployment \<Rightarrow> bool" where
  "failedRolloutApplies dep =
     (case findDeploymentCondition dep ''Progressing'' of
        None \<Rightarrow> False
      | Some c \<Rightarrow> dc_Status c = ConditionFalse \<and> dc_Reason c = ''ProgressDeadlineExceeded'' \<and>
                  dp_ObservedGeneration dep \<ge> dp_Generation dep)"

definition raiseProgressing :: "rolloutNote option \<Rightarrow> KrakenDGateway \<Rightarrow> KrakenDGateway" where
  "raiseProgressing note gw =
     (let cur = FindStatusCondition (gw_conditions gw) ''Progressing'';
          base = (if condTrue cur
                  then (case cur of Some c \<Rightarrow> (cond_Reason c, cond_Message c) | None \<Rightarrow> ([], []))
                  else (''DeploymentUpdated'', ''Deployment is rolling out a changed pod template''));
          rm = (case note of None \<Rightarrow> base | Some n \<Rightarrow> n)
      in set_condition (gw_cond gw ''Progressing'' ConditionTrue (fst rm) (snd rm)) gw)"

definition resetRolloutFailedAvailability :: "Deployment \<Rightarrow> KrakenDGateway \<Rightarrow> KrakenDGateway" where
  "resetRolloutFailedAvailability dep gw =
     (case FindStatusCondition (gw_conditions gw) ''Available'' of
        None \<Rightarrow> gw
      | Some cur \<Rightarrow>
          if cond_Status cur \<noteq> ConditionFalse \<or> cond_Reason cur \<noteq> ''RolloutFailed'' then gw
          else (case findDeploymentCondition dep ''Available'' of
                  Some a \<Rightarrow>
                    if dc_Status a = ConditionTrue
                    then set_condition (gw_cond gw ''Available'' ConditionTrue ''DeploymentAvailable''
                           ''All replicas are available'') gw
                    else with_conditions (RemoveStatusCondition ''Available'') gw
                | None \<Rightarrow> with_conditions (RemoveStatusCondition ''Available'') gw))"

section \<open>Inspecting the Deployment\<close>

definition rollout_owed :: "deploymentObservation \<Rightarrow> infraInputs \<Rightarrow> bool" where
  "rollout_owed obs want \<longleftrightarrow>
     (ob_failed obs \<and> \<not> ob_refused obs \<or> ob_unreconciled obs) \<and> ii_configMapName want \<noteq> [] \<and>
     ii_missingPlugins want = [] \<and> ii_mountedConfigMap want \<noteq> ii_configMapName want"

definition raiseOwed :: "bool \<Rightarrow> rolloutNote option \<Rightarrow> KrakenDGateway \<Rightarrow> KrakenDGateway" where
  "raiseOwed owed note gw =
     (if owed then raiseProgressing (Some (case note of None \<Rightarrow> configRolloutNote | Some n \<Rightarrow> n)) gw else gw)"

text \<open>What follows once the Deployment \<open>dep\<close> is known and its step did not fail.\<close>

definition inspect_live ::
  "infraInputs \<Rightarrow> deploymentObservation \<Rightarrow> rolloutNote option \<Rightarrow> Deployment \<Rightarrow> gw_events \<Rightarrow> gw_events" where
  "inspect_live want obs note dep = (\<lambda>(gw, events).
     if failedRolloutApplies dep \<and> (ob_dep obs = None \<or> templateRunsWant dep want)
     then (case setConditionWithEvent
                  (gw_cond gw ''Progressing'' ConditionFalse ''RolloutFailed''
                     ''Deployment exceeded its progress deadline'') (gw, events) of
             (gw1, ev1) \<Rightarrow>
               (set_condition (gw_cond gw1 ''Available'' ConditionFalse ''RolloutFailed''
                  ''Deployment exceeded its progress deadline'') gw1, ev1))
     else (let gw1 = resetRolloutFailedAvailability dep gw;
               converged = deploymentConverged dep want;
               gw2 = (if converged
                      then set_condition (gw_cond gw1 ''Progressing'' ConditionFalse ''RolloutComplete''
                             ''Deployment rollout completed successfully'') gw1
                      else if rolloutInFlight obs want then raiseProgressing note gw1
                      else gw1);
               lost = (case findDeploymentCondition dep ''Available'' of
                         Some a \<Rightarrow>
                           if dc_Status a = ConditionFalse \<and>
                              (converged \<or> \<not> condTrue (FindStatusCondition (gw_conditions gw2) ''Progressing''))
                           then Some a else None
                       | None \<Rightarrow> None)
           in case lost of
                Some a \<Rightarrow>
                  (set_condition (gw_cond gw2 ''Available'' ConditionFalse (dc_Reason a) (dc_Message a)) gw2, events)
              | None \<Rightarrow>
                  (let gw3 = raiseOwed (rollout_owed obs want) note gw2
                   in (if converged
                       then set_condition (gw_cond gw3 ''Available'' ConditionTrue ''DeploymentAvailable''
                              ''All replicas are available'') gw3
                       else gw3, events))))"

text \<open>\<open>cached\<close> is the cached Deployment, \<^const>\<open>None\<close> when it is absent or the read fails.\<close>

definition inspectDeploymentStatus ::
  "Deployment option \<Rightarrow> infraInputs \<Rightarrow> deploymentObservation \<Rightarrow> rolloutNote option \<Rightarrow> gw_events \<Rightarrow> gw_events" where
  "inspectDeploymentStatus cached want obs note = (\<lambda>(gw, events).
     case (case ob_dep obs of Some dep \<Rightarrow> Some dep | None \<Rightarrow> cached) of
       None \<Rightarrow> (raiseOwed (rollout_owed obs want) note gw, events)
     | Some dep \<Rightarrow>
         (let gw1 = gw\<lparr>gw_Status := (gw_Status gw)\<lparr>gst_Replicas := dp_StatusReplicas dep,
                         gst_ReadyReplicas := dp_ReadyReplicas dep\<rparr>\<rparr>
          in if ob_failed obs then (raiseOwed (rollout_owed obs want) note gw1, events)
             else inspect_live want obs note dep (gw1, events)))"

section \<open>When a gateway is Ready\<close>

text \<open>
  A gateway is Ready exactly when its configuration is valid and its Deployment available and
  none of the problems is reported: an expired license, a CE fallback, missing plugins, an object
  it does not control, or a rollout in progress. Only a Ready gateway, or one whose newest
  configuration could not be judged, is in phase Running.
\<close>

lemma gatewayReadinessFor_ready_iff:
  "(gr_status (gatewayReadinessFor conds) = ConditionTrue \<longleftrightarrow>
      condTrue (FindStatusCondition conds ''ConfigValid'') \<and> condTrue (FindStatusCondition conds ''Available'') \<and>
      \<not> condTrue (FindStatusCondition conds ''Progressing'') \<and> \<not> condTrue (FindStatusCondition conds ''LicenseExpired'') \<and>
      \<not> condTrue (FindStatusCondition conds ''LicenseDegraded'') \<and> \<not> condTrue (FindStatusCondition conds ''CEFallbackApplied'') \<and>
      \<not> condFalse (FindStatusCondition conds ''PluginsResolved'') \<and> \<not> condFalse (FindStatusCondition conds ''ResourcesControlled'')) \<and>
   (gr_phase (gatewayReadinessFor conds) = PhaseRunning \<longrightarrow>
      gr_status (gatewayReadinessFor conds) = ConditionTrue \<or>
      gr_status (gatewayReadinessFor conds) = ConditionUnknown \<and> condTrue (FindStatusCondition conds ''Available''))"
proof -
  have excl: "condTrue c \<Longrightarrow> \<not> condFalse c" for c by (auto simp: condTrue_def condFalse_def split: option.splits)
  show ?thesis
  proof (cases "FindStatusCondition conds ''ConfigValid''")
    case None
    then show ?thesis
      by (simp add: gatewayReadinessFor_def Let_def notReady_def condTrue_def [of None] condFalse_def [of None])
  next
    case (Some cv)
    then show ?thesis
      using excl [of "FindStatusCondition conds ''Available''"]
      by (cases "cond_Status cv")
        (auto simp: gatewayReadinessFor_def Let_def notReady_def condTrue_def [of "Some _"] condFalse_def [of "Some _"]
          servingPhase_def)
  qed
qed

lemma ready_needs:
  "gr_status (gatewayReadinessFor conds) = ConditionTrue \<Longrightarrow>
   \<not> condTrue (FindStatusCondition conds ''Progressing'') \<and> \<not> condFalse (FindStatusCondition conds ''Available'')"
  by (auto simp: gatewayReadinessFor_def Let_def notReady_def split: if_splits option.splits)

text \<open>The readiness of a gateway depends on no condition it writes itself.\<close>

lemma setGatewayReadiness_idem:
  "setGatewayReadiness n (setGatewayReadiness n gw) = setGatewayReadiness n gw"
proof -
  have "gatewayReadinessFor (SetStatusCondition c cs) = gatewayReadinessFor cs" if "cond_Type c = ''Ready''" for c cs
    using that by (simp add: gatewayReadinessFor_def)
  moreover have "SetStatusCondition c (SetStatusCondition c cs) = SetStatusCondition c cs" for c cs
    by (induction c cs rule: SetStatusCondition.induct) auto
  ultimately show ?thesis
    by (simp add: setGatewayReadiness_def Let_def with_conditions_def gw_conditions_def setReadyCondition_def)
qed

section \<open>Ready means deployed\<close>

definition gw_ready :: "KrakenDGateway \<Rightarrow> bool" where
  "gw_ready gw \<longleftrightarrow> gr_status (gatewayReadinessFor (gw_conditions gw)) = ConditionTrue"

lemma progressing_not_ready: "IsStatusConditionTrue (gw_conditions gw) ''Progressing'' \<Longrightarrow> \<not> gw_ready gw"
  using ready_needs [of "gw_conditions gw"]
  by (auto simp: gw_ready_def IsStatusConditionTrue_def condTrue_def split: option.splits)

lemma unavailable_not_ready:
  "cond_Type c = ''Available'' \<Longrightarrow> cond_Status c = ConditionFalse \<Longrightarrow> \<not> gw_ready (set_condition c gw)"
  using ready_needs [of "gw_conditions (set_condition c gw)"] by (auto simp: gw_ready_def condFalse_def)

lemma raiseProgressing_true: "IsStatusConditionTrue (gw_conditions (raiseProgressing note gw)) ''Progressing''"
  by (simp add: raiseProgressing_def Let_def)

lemma deploymentConverged_template: "deploymentConverged dep want \<Longrightarrow> templateRunsWant dep want"
  by (simp add: deploymentConverged_def split: if_splits)

lemma inspect_live_not_ready:
  assumes "rollout_owed obs want \<or> rolloutInFlight obs want \<and> \<not> deploymentConverged dep want"
  shows "\<not> gw_ready (fst (inspect_live want obs note dep p))"
proof -
  obtain gw events where p: "p = (gw, events)" by force
  show ?thesis
    using assms
    by (auto simp: inspect_live_def p Let_def unavailable_not_ready raiseOwed_def raiseProgressing_true
        intro!: progressing_not_ready split: option.splits prod.splits)
qed


definition ex_want :: infraInputs where
  "ex_want = \<lparr>ii_appliedChecksum = ''c'', ii_pluginChecksum = [], ii_licenseChecksum = [], ii_image = ''i'',
              ii_ceRender = False, ii_configMapName = ''gw-config-c'', ii_heldBecause = None, ii_missingPlugins = [],
              ii_mountedConfigMap = ''gw-config-c'', ii_deploymentForeign = False\<rparr>"

definition ex_dep :: Deployment where
  "ex_dep = \<lparr>dp_Generation = 1, dp_Replicas = Some 2,
             dp_TemplateAnnotations = [(''krakend.io/checksum-config'', ''c''), (''krakend.io/image'', ''i'')],
             dp_Volumes = [(''config'', Some ''gw-config-c'')], dp_ObservedGeneration = 1, dp_StatusReplicas = 2,
             dp_UpdatedReplicas = 2, dp_ReadyReplicas = 2, dp_AvailableReplicas = 2, dp_Conditions = []\<rparr>"

definition ex_obs :: deploymentObservation where
  "ex_obs = \<lparr>ob_dep = Some ex_dep, ob_failed = False, ob_refused = False, ob_unreconciled = False,
             ob_created = False, ob_templateChanged = False\<rparr>"


end
