(* ===== verification/Acceptance.thy ===== *)
theory Acceptance
  imports Rollout ConfigCheck
begin

text \<open>
  What a gateway says about each endpoint: its Accepted condition and status.conflicts
  (\<open>endpointAccepted\<close>, \<open>recordExclusions\<close>, \<open>writeEndpointAccepted\<close>, \<open>reportExclusions\<close> of the
  gateway controller, \<^verbatim>\<open>controller/schema_conflicts.go\<close>). A read or patch of the API server is
  one entry of the list of attempts given to \<open>writeEndpointAccepted\<close>; client-go's backoff
  decides how many attempts there are.
\<close>

section \<open>Messages\<close>

definition exclusionDetailLimit :: nat where
  "exclusionDetailLimit = maxConditionMessageBytes - 256"

definition ep_cond :: "KrakenDEndpoint \<Rightarrow> ConditionStatus \<Rightarrow> string \<Rightarrow> string \<Rightarrow> Condition" where
  "ep_cond ep status reason message =
     \<lparr>cond_Type = ''Accepted'', cond_Status = status, cond_ObservedGeneration = ep_Generation ep,
      cond_Reason = reason, cond_Message = message\<rparr>"

definition gw_path :: "KrakenDGateway \<Rightarrow> string" where
  "gw_path gw = gw_Namespace gw @ ''/'' @ gw_Name gw"

definition exclusionCondition :: "KrakenDGateway \<Rightarrow> KrakenDEndpoint \<Rightarrow> EndpointVerdict \<Rightarrow> bool \<Rightarrow> Condition" where
  "exclusionCondition gw ep v applied =
     (let where' = (if applied
                    then ''Not served by gateway '' @ gw_path gw @ '', which serves its other endpoints''
                    else ''Will not be served when gateway '' @ gw_path gw @ '' next applies its config'')
      in ep_cond ep ConditionFalse (ev_Reason v)
           (truncateMessage (where' @ '': this endpoint '' @ EndpointVerdict_Message v exclusionDetailLimit)))"

definition isExclusion :: "Condition option \<Rightarrow> bool" where
  "isExclusion cond =
     (case cond of
        None \<Rightarrow> False
      | Some c \<Rightarrow> cond_Status c = ConditionFalse \<and>
                  (cond_Reason c = ''EndpointInvalid'' \<or> cond_Reason c = ''PolicyInvalid''))"

definition strippedByEndpoint :: "StrippedEEFeature list \<Rightarrow> (NamespacedName, StrippedEEFeature list) gomap" where
  "strippedByEndpoint features =
     madds (map (\<lambda>f. (sf_Source f, f)) (filter (\<lambda>f. sf_Source f \<noteq> NamespacedName [] []) features)) []"

definition strippedList :: "StrippedEEFeature list \<Rightarrow> string" where
  "strippedList features = Join (map StrippedEEFeature_String features) [CHR 0x0A]"

definition maxConditionListed :: nat where
  "maxConditionListed = 5"

definition listed :: "string list \<Rightarrow> string" where
  "listed items =
     (if length items \<le> maxConditionListed then Join items ''; ''
      else Join (take maxConditionListed items) ''; '' @ ''; and '' @
           itoa (int (length items) - int maxConditionListed) @ '' more'')"

text \<open>\<^verbatim>\<open>%q\<close> of a schema name: schema names hold no byte that Go would escape.\<close>

definition go_quote :: "string \<Rightarrow> string" where
  "go_quote s = [CHR 0x22] @ s @ [CHR 0x22]"

definition schema_less :: "SchemaConflict \<Rightarrow> SchemaConflict \<Rightarrow> bool" where
  "schema_less a b \<longleftrightarrow> sx_Schema a < sx_Schema b"

definition schemaConflictMessages :: "SchemaConflict list \<Rightarrow> (NamespacedName, string) gomap" where
  "schemaConflictMessages conflicts =
     (let byEndpoint = madds (map (\<lambda>c. (sx_Endpoint c,
            go_quote (sx_Schema c) @ '' (published from '' @ nn_String (sx_Winner c) @ '')''))
            (sort_by schema_less conflicts)) []
      in map (\<lambda>(nn, schemas). (nn, truncateMessage
           (''Served, but the gateway documentation shows another endpoint's definition of component schemas '' @
            listed schemas @ ''; rename them in the OpenAPI spec to publish both''))) byEndpoint)"

section \<open>Verdicts of a render\<close>

record renderVerdicts =
  rv_conflicted :: "NamespacedName list"
  rv_lost :: conflicts
  rv_unresolved :: "NamespacedName list"
  rv_stripped :: "(NamespacedName, StrippedEEFeature list) gomap"
  rv_excluded :: "(NamespacedName, EndpointVerdict) gomap"

definition newRenderVerdicts :: "RenderOutput \<Rightarrow> (NamespacedName, EndpointVerdict) gomap \<Rightarrow> renderVerdicts" where
  "newRenderVerdicts output excluded =
     \<lparr>rv_conflicted = out_ConflictedEndpoints output, rv_lost = out_EntryConflicts output,
      rv_unresolved = out_InvalidEndpoints output,
      rv_stripped = strippedByEndpoint (out_StrippedEEFeatures output), rv_excluded = excluded\<rparr>"

record acceptance =
  ac_condition :: "Condition option"
  ac_conflicts :: "EndpointConflict list"
  ac_keepConflicts :: bool

definition accept :: "Condition option \<Rightarrow> EndpointConflict list \<Rightarrow> acceptance" where
  "accept c cs = \<lparr>ac_condition = c, ac_conflicts = cs, ac_keepConflicts = False\<rparr>"

definition entryCount :: "KrakenDEndpoint \<Rightarrow> int" where
  "entryCount ep = int (length (remdups (map (\<lambda>e. (en_Endpoint e, en_Method e)) (es_Endpoints (ep_Spec ep)))))"

definition lostEntryCount :: "EntryConflict list \<Rightarrow> int" where
  "lostEntryCount lost = int (length (remdups (map (\<lambda>l. (ec_Endpoint l, ec_Method l)) lost)))"

definition wildcardCount :: "StrippedEEFeature list \<Rightarrow> int" where
  "wildcardCount features = int (length (filter (\<lambda>f. sf_Feature f = ''wildcard endpoint'') features))"

definition endpointConflicts :: "EntryConflict list \<Rightarrow> EndpointConflict list" where
  "endpointConflicts lost =
     map (\<lambda>l. \<lparr>cf_Endpoint = ec_Endpoint l, cf_Method = ec_Method l, cf_Winner = nn_String (ec_Winner l)\<rparr>) lost"

definition eeStripped :: "KrakenDEndpoint \<Rightarrow> StrippedEEFeature list \<Rightarrow> Condition \<Rightarrow> Condition" where
  "eeStripped ep stripped cond =
     (let c1 = (if wildcardCount stripped \<ge> entryCount ep then cond\<lparr>cond_Status := ConditionFalse\<rparr> else cond)
      in c1\<lparr>cond_Reason := ''EEFeaturesStripped'',
            cond_Message := truncateMessage
              (''The gateway runs KrakenD CE in license fallback, which removed these Enterprise-only features:'' @
               [CHR 0x0A] @ strippedList stripped)\<rparr>)"

definition noteStripped :: "StrippedEEFeature list \<Rightarrow> Condition \<Rightarrow> Condition" where
  "noteStripped stripped cond =
     (if stripped \<noteq> []
      then cond\<lparr>cond_Message := truncateMessage (cond_Message cond @ [CHR 0x0A] @ ''CE fallback also removed:'' @
             [CHR 0x0A] @ strippedList stripped)\<rparr>
      else cond)"

definition endpointAccepted :: "KrakenDGateway \<Rightarrow> KrakenDEndpoint \<Rightarrow> renderVerdicts \<Rightarrow> acceptance" where
  "endpointAccepted gw ep rv =
     (let key = ep_key ep; stripped = mlist (rv_stripped rv) key; lost = mlist (rv_lost rv) key;
          cond = ep_cond ep ConditionTrue ''Accepted'' (''Included in the configuration of gateway '' @ gw_path gw);
          served = entryCount ep - lostEntryCount lost - wildcardCount stripped
      in if key \<in> set (rv_unresolved rv) then accept None []
         else case map_of (rv_excluded rv) key of
           Some v \<Rightarrow> accept (Some (exclusionCondition gw ep v True)) []
         | None \<Rightarrow>
             if key \<notin> set (rv_conflicted rv)
             then accept (Some (if stripped \<noteq> [] then eeStripped ep stripped cond else cond)) []
             else if lost \<noteq> [] \<and> served > 0
             then accept (Some (noteStripped stripped (cond\<lparr>cond_Reason := ''PartiallyAccepted'',
                    cond_Message := itoa served @ '' of '' @ itoa (entryCount ep) @ '' entries are served on gateway '' @
                      gw_path gw @ ''; status.conflicts lists the entries an older KrakenDEndpoint, or an earlier entry of this one, serves''\<rparr>)))
                    (endpointConflicts lost)
             else accept (Some (noteStripped stripped (cond\<lparr>cond_Status := ConditionFalse, cond_Reason := ''EndpointConflict'',
                    cond_Message := ''Entries conflict with an older KrakenDEndpoint, or an earlier entry of this one, on gateway '' @
                      gw_path gw @ ''; the conflicting entries are not served''\<rparr>)))
                    (endpointConflicts lost))"

text \<open>One endpoint of \<open>reconcileEndpointAcceptance\<close>: a plain acceptance names schema conflicts.\<close>

definition acceptance_of ::
  "KrakenDGateway \<Rightarrow> renderVerdicts \<Rightarrow> (NamespacedName, string) gomap \<Rightarrow> KrakenDEndpoint \<Rightarrow> acceptance" where
  "acceptance_of gw rv schemaMsgs ep =
     (let a = endpointAccepted gw ep rv
      in case (map_of schemaMsgs (ep_key ep), ac_condition a) of
           (Some msg, Some c) \<Rightarrow>
             if cond_Reason c = ''Accepted''
             then a\<lparr>ac_condition := Some (c\<lparr>cond_Reason := ''SchemaNameConflict'', cond_Message := msg\<rparr>)\<rparr>
             else a
         | _ \<Rightarrow> a)"

section \<open>Writing a verdict\<close>

text \<open>An attempt of the retry loop: what the read returns, and the error of the patch if it is made.\<close>

datatype api_error = Conflict | NotFoundError | OtherApiError string

record attempt =
  at_live :: "api_error + KrakenDEndpoint"
  at_patch :: "api_error option"

definition recordAcceptedTransition :: "Condition option \<Rightarrow> Condition \<Rightarrow> Event list" where
  "recordAcceptedTransition prev next =
     (let wasPartial = (case prev of None \<Rightarrow> False | Some p \<Rightarrow> cond_Reason p = ''PartiallyAccepted'')
      in if cond_Reason next = ''PartiallyAccepted'' \<and> \<not> wasPartial
         then [warning (cond_Reason next) (cond_Message next)]
         else if cond_Reason next = ''Accepted'' \<and> wasPartial
         then [normal (cond_Reason next) (cond_Message next)]
         else recordConditionTransition prev next)"

text \<open>
  The new status of the live endpoint, or \<^const>\<open>None\<close> when there is nothing to write: another
  object, a condition that may not be removed, or no change.
\<close>

definition accepted_status ::
  "KrakenDEndpoint \<Rightarrow> acceptance \<Rightarrow> (Condition option \<Rightarrow> bool) option \<Rightarrow> KrakenDEndpoint \<Rightarrow> KrakenDEndpointStatus option" where
  "accepted_status rendered a removable live =
     (let base = ep_Status live; prev = FindStatusCondition (est_Conditions base) ''Accepted''
      in if ep_UID live \<noteq> ep_UID rendered then None
         else if ac_condition a = None \<and> (case removable of None \<Rightarrow> False | Some f \<Rightarrow> \<not> f prev) then None
         else (let conds = (case ac_condition a of
                              None \<Rightarrow> RemoveStatusCondition ''Accepted'' (est_Conditions base)
                            | Some c \<Rightarrow> SetStatusCondition c (est_Conditions base));
                   conflicts = (if ac_keepConflicts a then est_Conflicts base else ac_conflicts a)
               in if conditionsEqual (est_Conditions base) conds \<and> est_Conflicts base = conflicts then None
                  else Some (base\<lparr>est_Conditions := conds, est_Conflicts := conflicts\<rparr>)))"

datatype write_result = Wrote KrakenDEndpointStatus "Event list" | Unchanged | WriteFailed string

fun api_error_string :: "api_error \<Rightarrow> string" where
  "api_error_string Conflict = ''conflict''"
| "api_error_string NotFoundError = ''not found''"
| "api_error_string (OtherApiError e) = e"

fun retry_writes ::
  "KrakenDEndpoint \<Rightarrow> acceptance \<Rightarrow> (Condition option \<Rightarrow> bool) option \<Rightarrow> attempt list \<Rightarrow>
   api_error + (KrakenDEndpoint \<times> KrakenDEndpointStatus) option" where
  "retry_writes rendered a removable [] = Inl Conflict"
| "retry_writes rendered a removable (at # ats) =
     (case at_live at of
        Inl Conflict \<Rightarrow> retry_writes rendered a removable ats
      | Inl e \<Rightarrow> Inl e
      | Inr live \<Rightarrow>
          (case accepted_status rendered a removable live of
             None \<Rightarrow> Inr None
           | Some st \<Rightarrow>
               (case at_patch at of
                  None \<Rightarrow> Inr (Some (live, st))
                | Some Conflict \<Rightarrow> retry_writes rendered a removable ats
                | Some e \<Rightarrow> Inl e)))"

definition writeEndpointAccepted ::
  "KrakenDEndpoint \<Rightarrow> acceptance \<Rightarrow> (Condition option \<Rightarrow> bool) option \<Rightarrow> attempt list \<Rightarrow> write_result" where
  "writeEndpointAccepted rendered a removable attempts =
     (case retry_writes rendered a removable attempts of
        Inl NotFoundError \<Rightarrow> Unchanged
      | Inl e \<Rightarrow> WriteFailed (''writing Accepted on endpoint '' @ nn_String (ep_key rendered) @ '': '' @ api_error_string e)
      | Inr None \<Rightarrow> Unchanged
      | Inr (Some (live, st)) \<Rightarrow>
          Wrote st (case ac_condition a of
                      None \<Rightarrow> []
                    | Some c \<Rightarrow> recordAcceptedTransition (FindStatusCondition (est_Conditions (ep_Status live)) ''Accepted'') c))"

type_synonym decided = "(NamespacedName, Condition option) gomap"

type_synonym writes = "(NamespacedName \<times> write_result) list"

definition reconcileEndpointAcceptance ::
  "(NamespacedName \<Rightarrow> attempt list) \<Rightarrow> KrakenDGateway \<Rightarrow> KrakenDEndpoint list \<Rightarrow> RenderOutput \<Rightarrow>
   (NamespacedName, EndpointVerdict) gomap \<Rightarrow> decided \<times> writes" where
  "reconcileEndpointAcceptance api gw endpoints output excluded =
     (let rv = newRenderVerdicts output excluded; schemaMsgs = schemaConflictMessages (out_SchemaConflicts output);
          verdicts = map (\<lambda>ep. (ep, acceptance_of gw rv schemaMsgs ep)) endpoints
      in (fold (\<lambda>(ep, a). mput (ep_key ep) (ac_condition a)) verdicts [],
          map (\<lambda>(ep, a). (ep_key ep, writeEndpointAccepted ep a None (api (ep_key ep)))) verdicts))"

section \<open>Exclusions\<close>

text \<open>
  What \<open>recordExclusions\<close> decides about one endpoint on a pass that serves nothing new, with the
  guard on the live condition; \<^const>\<open>None\<close> leaves the endpoint alone.
\<close>

definition exclusion_of ::
  "KrakenDGateway \<Rightarrow> (NamespacedName, EndpointVerdict) gomap \<Rightarrow> bool \<Rightarrow> bool \<Rightarrow> KrakenDEndpoint \<Rightarrow>
   (acceptance \<times> (Condition option \<Rightarrow> bool) option) option" where
  "exclusion_of gw excluded allJudged neverApplied ep =
     (let cur = FindStatusCondition (est_Conditions (ep_Status ep)) ''Accepted''
      in case map_of excluded (ep_key ep) of
           Some v \<Rightarrow>
             Some (\<lparr>ac_condition = Some (exclusionCondition gw ep v False), ac_conflicts = [],
                    ac_keepConflicts = \<not> neverApplied\<rparr>, None)
         | None \<Rightarrow>
             if neverApplied \<and> cur \<noteq> None then Some (accept None [], None)
             else if allJudged \<and> isExclusion cur
             then Some (\<lparr>ac_condition = None, ac_conflicts = [], ac_keepConflicts = True\<rparr>, Some isExclusion)
             else None)"

definition recordExclusions ::
  "(NamespacedName \<Rightarrow> attempt list) \<Rightarrow> KrakenDGateway \<Rightarrow> KrakenDEndpoint list \<Rightarrow>
   (NamespacedName, EndpointVerdict) gomap \<Rightarrow> bool \<Rightarrow> bool \<Rightarrow> decided \<times> writes" where
  "recordExclusions api gw endpoints excluded allJudged neverApplied =
     (let acts = List.map_filter (\<lambda>ep. map_option (Pair ep) (exclusion_of gw excluded allJudged neverApplied ep)) endpoints
      in (fold (\<lambda>(ep, a, removable). mput (ep_key ep) (ac_condition a)) acts [],
          map (\<lambda>(ep, a, removable). (ep_key ep, writeEndpointAccepted ep a removable (api (ep_key ep)))) acts))"

definition maxExcludedNamed :: nat where
  "maxExcludedNamed = 10"

definition excluded_names :: "KrakenDEndpoint list \<Rightarrow> decided \<Rightarrow> string list" where
  "excluded_names endpoints decided' =
     map (nn_String \<circ> ep_key)
       (filter (\<lambda>ep. isExclusion (case map_of decided' (ep_key ep) of
                                    Some c \<Rightarrow> c
                                  | None \<Rightarrow> FindStatusCondition (est_Conditions (ep_Status ep)) ''Accepted'')) endpoints)"

definition reportExclusions :: "KrakenDEndpoint list \<Rightarrow> decided \<Rightarrow> bool \<Rightarrow> gw_events \<Rightarrow> gw_events" where
  "reportExclusions endpoints decided' applied = (\<lambda>(gw, events).
     (let names = sort (excluded_names endpoints decided')
      in if names = [] then (with_conditions (RemoveStatusCondition ''EndpointsExcluded'') gw, events)
         else (let names1 = (if length names > maxExcludedNamed then take maxExcludedNamed names else names);
                   rest = (if length names > maxExcludedNamed
                           then '' (+'' @ itoa (int (length names) - int maxExcludedNamed) @ '' more)'' else []);
                   served = (if applied then ''are not served''
                             else ''will not be served when the gateway next applies its config'');
                   cond = gw_cond gw ''EndpointsExcluded'' ConditionTrue ''InvalidEndpointsExcluded''
                            (itoa (int (length names)) @ '' KrakenDEndpoint(s) fail validation and '' @ served @ '': '' @
                             Join names1 '', '' @ rest);
                   changed = (case FindStatusCondition (gw_conditions gw) ''EndpointsExcluded'' of
                                None \<Rightarrow> True
                              | Some p \<Rightarrow> cond_Status p \<noteq> ConditionTrue \<or> cond_Message p \<noteq> cond_Message cond)
               in (set_condition cond gw,
                   events @ (if changed then [warning (cond_Reason cond) (cond_Message cond)] else [])))))"

section \<open>What the writes may change\<close>

lemma retry_writes_wrote:
  "retry_writes rendered a removable ats = Inr (Some (live, st)) \<Longrightarrow>
   accepted_status rendered a removable live = Some st \<and> Inr live \<in> at_live ` set ats"
  by (induction rendered a removable ats rule: retry_writes.induct)
    (auto split: sum.splits api_error.splits option.splits)

text \<open>Writing a verdict again right after writing it changes nothing.\<close>

lemma SetStatusCondition_idem: "SetStatusCondition c (SetStatusCondition c cs) = SetStatusCondition c cs"
  by (induction c cs rule: SetStatusCondition.induct) auto

lemma distinct_SetStatusCondition:
  "distinct (map cond_Type cs) \<Longrightarrow> distinct (map cond_Type (SetStatusCondition c cs))"
proof (induction c cs rule: SetStatusCondition.induct)
  case (2 c d ds)
  have "cond_Type ` set (SetStatusCondition c ds) \<subseteq> insert (cond_Type c) (cond_Type ` set ds)"
    by (induction c ds rule: SetStatusCondition.induct) auto
  with 2 show ?case by auto
qed simp

lemma conditionsEqual_refl: "distinct (map cond_Type cs) \<Longrightarrow> conditionsEqual cs cs"
  by (simp add: conditionsEqual_iff)

lemma accepted_status_settles:
  assumes "accepted_status rendered a removable live = Some st"
    and "distinct (map cond_Type (est_Conditions (ep_Status live)))"
  shows "accepted_status rendered a removable (live\<lparr>ep_Status := st\<rparr>) = None"
proof -
  let ?cs = "est_Conditions (ep_Status live)"
  have d: "distinct (map cond_Type (RemoveStatusCondition t ?cs))" for t
    using assms(2) by (simp add: RemoveStatusCondition_def distinct_map_filter)
  show ?thesis
  proof (cases "ac_condition a")
    case None
    have "RemoveStatusCondition t (RemoveStatusCondition t cs) = RemoveStatusCondition t cs" for t cs
      by (simp add: RemoveStatusCondition_def)
    with assms None d show ?thesis
      by (auto simp: accepted_status_def Let_def conditionsEqual_refl split: if_splits option.splits)
  next
    case (Some c)
    with assms show ?thesis
      by (auto simp: accepted_status_def Let_def conditionsEqual_refl SetStatusCondition_idem
          distinct_SetStatusCondition split: if_splits)
  qed
qed

text \<open>
  A pass that serves nothing new, of a gateway that has an applied config, never takes back a
  verdict of that config: whatever endpoint list it works from, it writes to an endpoint it does
  not exclude only when the live object carries an exclusion, and then only removes that. The
  recorded conflicts stay.
\<close>

lemma recordExclusions_keeps_verdicts:
  assumes "(key, Wrote st events) \<in> set (snd (recordExclusions api gw endpoints excluded allJudged False))"
    and "map_of excluded key = None"
  shows "\<exists>live. Inr live \<in> at_live ` set (api key) \<and> allJudged \<and>
     isExclusion (FindStatusCondition (est_Conditions (ep_Status live)) ''Accepted'') \<and>
     st = (ep_Status live)\<lparr>est_Conditions := RemoveStatusCondition ''Accepted'' (est_Conditions (ep_Status live))\<rparr> \<and> events = []"
proof -
  let ?a = "\<lparr>ac_condition = None, ac_conflicts = [], ac_keepConflicts = True\<rparr>"
  from assms(1,2) obtain ep where k: "ep_key ep = key" and j: "allJudged"
    and w: "writeEndpointAccepted ep ?a (Some isExclusion) (api key) = Wrote st events"
    by (auto simp: recordExclusions_def exclusion_of_def Let_def List.map_filter_def split: if_splits option.splits)
  then obtain live where r: "retry_writes ep ?a (Some isExclusion) (api key) = Inr (Some (live, st))" and e: "events = []"
    by (auto simp: writeEndpointAccepted_def split: sum.splits option.splits api_error.splits prod.splits)
  from retry_writes_wrote [OF r] j e show ?thesis
    by (auto simp: accepted_status_def Let_def split: if_splits)
qed

definition ex_excluded_ep :: KrakenDEndpoint where
  "ex_excluded_ep = (ex_ep ''a'' 1 [ex_entry ''/a'' ''GET''])\<lparr>ep_Status :=
     zero_endpoint_status\<lparr>est_Conditions := [\<lparr>cond_Type = ''Accepted'', cond_Status = ConditionFalse, cond_ObservedGeneration = 1,
        cond_Reason = ''EndpointInvalid'', cond_Message = ''m''\<rparr>]\<rparr>\<rparr>"

lemma ex_record:
  "recordExclusions (\<lambda>_. [\<lparr>at_live = Inr ex_excluded_ep, at_patch = None\<rparr>]) ex_gw [ex_excluded_ep] [] True False =
     ([(NamespacedName ''ns'' ''a'', None)],
      [(NamespacedName ''ns'' ''a'', Wrote zero_endpoint_status [])])"
  by code_simp

end
