(* ===== verification/GatewayDecide.thy ===== *)
theory GatewayDecide
  imports VerdictMemo Acceptance
begin

text \<open>
  Which render a gateway applies (\<open>decide\<close> and its helpers of
  \<^verbatim>\<open>controller/gateway_validation.go\<close>, the applied config of \<^verbatim>\<open>controller/gateway_config.go\<close>).
  The checks run on the pass memo of the gateway: the checks of one object on its own on
  \<open>countedPass\<close>, the checks of a whole render on the plain \<open>passMemo\<close> inside it. The log line
  of a combined failure is left out.
\<close>

section \<open>The applied config\<close>

text \<open>\<open>configKey\<close>: checksum and edition.\<close>

type_synonym configKey = "string \<times> Edition"

definition adoptedEdition :: "KrakenDGateway \<Rightarrow> Edition \<Rightarrow> Edition" where
  "adoptedEdition gw current =
     (if gs_Edition (gw_Spec gw) \<noteq> EditionEE then current
      else (let ee = ResolveImage gw False; ce = ResolveImage gw True; active = gst_ActiveImage (gw_Status gw)
            in if ee = ce then current
               else if active = ee then EditionEE
               else if active = ce then EditionCE
               else current))"

definition appliedKey :: "KrakenDGateway \<Rightarrow> Edition \<Rightarrow> configKey" where
  "appliedKey gw current =
     (gst_ConfigChecksum (gw_Status gw),
      case gst_ConfigEdition (gw_Status gw) of None \<Rightarrow> adoptedEdition gw current | Some e \<Rightarrow> e)"

definition isApplied :: "KrakenDGateway \<Rightarrow> RenderOutput \<Rightarrow> Edition \<Rightarrow> bool" where
  "isApplied gw output edition \<longleftrightarrow> appliedKey gw edition = (out_Checksum output, edition)"

definition appliedFallback :: "KrakenDGateway \<Rightarrow> Edition \<Rightarrow> bool" where
  "appliedFallback gw current \<longleftrightarrow>
     gs_Edition (gw_Spec gw) = EditionEE \<and> snd (appliedKey gw current) = EditionCE"

definition appliedImage :: "KrakenDGateway \<Rightarrow> Edition \<Rightarrow> string" where
  "appliedImage gw current =
     (if gst_ActiveImage (gw_Status gw) \<noteq> [] \<and> snd (appliedKey gw current) \<noteq> current
      then gst_ActiveImage (gw_Status gw)
      else ResolveImage gw (appliedFallback gw current))"

definition openAPIFallbackNote :: string where
  "openAPIFallbackNote = ''gateway: spec.openapi export and the openapi-serve sidecar (until EE returns)''"

definition reconcileCEFallbackCondition :: "RenderOutput \<Rightarrow> Edition \<Rightarrow> gw_events \<Rightarrow> gw_events" where
  "reconcileCEFallbackCondition output edition = (\<lambda>(gw, events).
     if \<not> appliedFallback gw edition then (with_conditions (RemoveStatusCondition ''CEFallbackApplied'') gw, events)
     else if isApplied gw output edition
     then (let list0 = strippedList (out_StrippedEEFeatures output); n0 = length (out_StrippedEEFeatures output);
               openapi = (case gs_OpenAPI (gw_Spec gw) of None \<Rightarrow> False | Some oe \<Rightarrow> oe_Enabled oe);
               lst = (if openapi then TrimSuffix (openAPIFallbackNote @ [CHR 0x0A] @ list0) [CHR 0x0A] else list0);
               n = (if openapi then n0 + 1 else n0);
               msg = (if n > 0
                      then ''Running KrakenD CE in license fallback; removed '' @ itoa (int n) @
                           '' Enterprise-only feature(s):'' @ [CHR 0x0A] @ lst
                      else ''Running KrakenD CE in license fallback; the config uses no Enterprise-only features'')
           in setProblemCondition (gw_cond gw ''CEFallbackApplied'' ConditionTrue ''EEFeaturesStripped''
                (truncateMessage msg)) (gw, events))
     else (gw, events))"

section \<open>Judging endpoints\<close>

type_synonym excluded = "(NamespacedName, EndpointVerdict) gomap"

definition suspectsOf :: "KrakenDEndpoint list \<Rightarrow> Verdict \<Rightarrow> KrakenDEndpoint list" where
  "suspectsOf endpoints verdict = filter (\<lambda>ep. Suspect verdict (ep_key ep)) endpoints"

definition without :: "KrakenDEndpoint list \<Rightarrow> excluded \<Rightarrow> KrakenDEndpoint list" where
  "without endpoints ex = filter (\<lambda>ep. map_of ex (ep_key ep) = None) endpoints"

definition unit_of :: "KrakenDGateway \<Rightarrow> RenderInput \<Rightarrow> KrakenDEndpoint \<Rightarrow> EndpointUnit" where
  "unit_of gw inp ep =
     \<lparr>eu_Gateway = gw, eu_Endpoint = ep, eu_Policies = Some (in_Policies inp), eu_Override = None,
      eu_CEFallback = in_CEFallback inp, eu_Dragonfly = in_Dragonfly inp\<rparr>"

fun judge_loop ::
  "Checker \<Rightarrow> 'm Memo option \<Rightarrow> KrakenDGateway \<Rightarrow> RenderInput \<Rightarrow> excluded \<Rightarrow> KrakenDEndpoint list \<Rightarrow>
   ('m check_state, excluded) action" where
  "judge_loop ck memo gw inp ex [] = returns ex"
| "judge_loop ck memo gw inp ex (ep # eps) =
     andThen (CheckEndpoint ck (unit_of gw inp ep) memo) (\<lambda>v.
       judge_loop ck memo gw inp (if \<not> ev_OK v then mput (ep_key ep) v ex else ex) eps)"

definition judgeEndpoints ::
  "Checker \<Rightarrow> 'm Memo option \<Rightarrow> KrakenDGateway \<Rightarrow> RenderInput \<Rightarrow> KrakenDEndpoint list \<Rightarrow>
   ('m check_state, excluded) action" where
  "judgeEndpoints ck memo gw inp suspects = judge_loop ck memo gw inp [] suspects"

section \<open>The decision\<close>

record gatewayFailure =
  gf_reason :: string
  gf_message :: string

record decision =
  de_output :: "RenderOutput option"
  de_excluded :: excluded
  de_judged :: bool
  de_failure :: "gatewayFailure option"

definition combinedFailureMessage :: string where
  "combinedFailureMessage =
     ''The endpoints that pass krakend check on their own fail it together, so the last '' @
     ''applied config keeps serving; any endpoint that fails on its own is excluded first. The check's output '' @
     ''quotes the endpoints' values and is only in the operator log '' @
     ''('' @ [CHR 0x22] @ ''the gateway's config fails krakend check only together'' @ [CHR 0x22] @ '').''"

definition rootFailure :: "Verdict \<Rightarrow> gatewayFailure" where
  "rootFailure v =
     \<lparr>gf_reason = ''GatewayRootInvalid'',
      gf_message = ''The gateway root (the gateway with no endpoint) fails krakend check, so no endpoint was '' @
        ''judged and the last applied config keeps serving:'' @ [CHR 0x0A] @ TrimSpace (v_Output v)\<rparr>"

definition combinedFailure :: gatewayFailure where
  "combinedFailure = \<lparr>gf_reason = ''CombinedConfigInvalid'', gf_message = combinedFailureMessage\<rparr>"

definition decide_output :: "RenderOutput \<Rightarrow> excluded \<Rightarrow> decision" where
  "decide_output out ex = \<lparr>de_output = Some out, de_excluded = ex, de_judged = True, de_failure = None\<rparr>"

definition decide_failure :: "gatewayFailure \<Rightarrow> excluded \<Rightarrow> bool \<Rightarrow> decision" where
  "decide_failure f ex allJudged = \<lparr>de_output = None, de_excluded = ex, de_judged = allJudged, de_failure = Some f\<rparr>"

definition rest_input :: "RenderInput \<Rightarrow> excluded \<Rightarrow> RenderInput" where
  "rest_input inp ex = inp\<lparr>in_Endpoints := without (in_Endpoints inp) ex\<rparr>"

text \<open>The last step: the render without the excluded endpoints.\<close>

definition decide_rest ::
  "Checker \<Rightarrow> KrakenDGateway \<Rightarrow> RenderInput \<Rightarrow> Edition \<Rightarrow> excluded \<Rightarrow>
   ('a countedPass_scheme check_state, decision) action" where
  "decide_rest ck gw inp edition ex =
     andThen (lift_sum (render ck (rest_input inp ex))) (\<lambda>out.
       if isApplied gw out edition then returns (decide_output out ex)
       else andThen (CheckRendered ck (rest_input inp ex) out (Some pass_memo)) (\<lambda>safety.
              if v_OK safety then returns (decide_output out ex)
              else returns (decide_failure combinedFailure ex True)))"

text \<open>From the root on: the second to fourth step of \<open>decide\<close>.\<close>

definition decide_checks ::
  "Checker \<Rightarrow> KrakenDGateway \<Rightarrow> RenderInput \<Rightarrow> RenderOutput \<Rightarrow> Edition \<Rightarrow>
   ('a countedPass_scheme check_state, decision) action" where
  "decide_checks ck gw inp full edition =
     andThen (CheckRoot ck \<lparr>rt_Gateway = gw, rt_CEFallback = in_CEFallback inp, rt_Dragonfly = in_Dragonfly inp\<rparr>
                (Some counted_memo)) (\<lambda>root.
       if \<not> v_OK root then returns (decide_failure (rootFailure root) [] False)
       else andThen (CheckRendered ck inp full (Some pass_memo)) (\<lambda>whole0.
         (let whole = whole0\<lparr>v_Masked := MaskedEndpoints full\<rparr>
          in andThen (judgeEndpoints ck (Some counted_memo) gw inp (suspectsOf (in_Endpoints inp) whole)) (\<lambda>ex.
               if ex = []
               then (if v_OK whole then returns (decide_output full [])
                     else returns (decide_failure combinedFailure [] True))
               else decide_rest ck gw inp edition ex))))"

definition decide_body ::
  "Checker \<Rightarrow> KrakenDGateway \<Rightarrow> RenderInput \<Rightarrow> RenderOutput \<Rightarrow> Edition \<Rightarrow>
   ('a countedPass_scheme check_state, decision) action" where
  "decide_body ck gw inp full edition =
     (let rendered = \<lparr>v_OK = True, v_Output = [], v_Masked = MaskedEndpoints full, v_Stage = StageUnknown\<rparr>;
          masked = suspectsOf (in_Endpoints inp) rendered
      in if isApplied gw full edition
         then andThen (judgeEndpoints ck (Some counted_memo) gw inp masked) (\<lambda>ex.
                if ex = [] then returns (decide_output full []) else decide_checks ck gw inp full edition)
         else decide_checks ck gw inp full edition)"

text \<open>
  \<open>decide\<close>: the pass begins with what the gateway's last pass kept and ends with what it used.
  The result is the decision or error, the memo of all owners after the pass, the number of
  rejections counted and of runs so far.
\<close>

definition gw_key :: "KrakenDGateway \<Rightarrow> NamespacedName" where
  "gw_key gw = NamespacedName (gw_Namespace gw) (gw_Name gw)"

definition begin_state :: "verdictMemo \<Rightarrow> NamespacedName \<Rightarrow> nat \<Rightarrow> countedPass check_state" where
  "begin_state m owner runs =
     \<lparr>cs_runs = runs,
      cs_memo = \<lparr>pm_kept = pm_kept (verdictMemo_begin m owner), pm_used = pm_used (verdictMemo_begin m owner),
                 cp_rejected = 0\<rparr>\<rparr>"

definition decide ::
  "Checker \<Rightarrow> KrakenDGateway \<Rightarrow> RenderInput \<Rightarrow> RenderOutput \<Rightarrow> Edition \<Rightarrow> verdictMemo \<Rightarrow> nat \<Rightarrow>
   (string + decision) \<times> verdictMemo \<times> nat \<times> nat" where
  "decide ck gw inp full edition m runs =
     (case decide_body ck gw inp full edition (begin_state m (gw_key gw) runs) of
        (r, st) \<Rightarrow>
          (r, verdictMemo_end m (gw_key gw) (cs_memo st) (case r of Inl _ \<Rightarrow> True | Inr _ \<Rightarrow> False),
           cp_rejected (cs_memo st), cs_runs st))"

section \<open>What is decided\<close>

text \<open>The decision as a function of the judgement of contents, without runs, slots and memo.\<close>

definition verdict_of :: "gin_router \<Rightarrow> judgement \<Rightarrow> KrakenDGateway \<Rightarrow> RenderInput \<Rightarrow> KrakenDEndpoint \<Rightarrow> EndpointVerdict" where
  "verdict_of gin orc gw inp ep = endpoint_spec gin orc (unit_of gw inp ep) (in_Policies inp)"

definition failing_of ::
  "gin_router \<Rightarrow> judgement \<Rightarrow> KrakenDGateway \<Rightarrow> RenderInput \<Rightarrow> excluded \<Rightarrow> KrakenDEndpoint list \<Rightarrow> excluded" where
  "failing_of gin orc gw inp ex suspects =
     fold (\<lambda>ep ex. if \<not> ev_OK (verdict_of gin orc gw inp ep) then mput (ep_key ep) (verdict_of gin orc gw inp ep) ex else ex)
       suspects ex"

definition whole_verdict :: "judgement \<Rightarrow> RenderInput \<Rightarrow> RenderOutput \<Rightarrow> Verdict" where
  "whole_verdict orc inp out = verdictFor (orc (contentKey out (in_edition inp) modeValidate))"

definition root_input :: "KrakenDGateway \<Rightarrow> RenderInput \<Rightarrow> RenderInput" where
  "root_input gw inp =
     \<lparr>in_Gateway = Some gw, in_Endpoints = [], in_Policies = [], in_CEFallback = in_CEFallback inp,
      in_Dragonfly = in_Dragonfly inp, in_PluginConfigMaps = []\<rparr>"

definition rest_spec ::
  "gin_router \<Rightarrow> judgement \<Rightarrow> KrakenDGateway \<Rightarrow> RenderInput \<Rightarrow> Edition \<Rightarrow> excluded \<Rightarrow> decision" where
  "rest_spec gin orc gw inp edition ex =
     (case Render gin (rest_input inp ex) of
        Inl _ \<Rightarrow> decide_failure combinedFailure ex True
      | Inr out \<Rightarrow>
          if isApplied gw out edition \<or> v_OK (whole_verdict orc inp out) then decide_output out ex
          else decide_failure combinedFailure ex True)"

definition checks_spec ::
  "gin_router \<Rightarrow> judgement \<Rightarrow> KrakenDGateway \<Rightarrow> RenderInput \<Rightarrow> RenderOutput \<Rightarrow> Edition \<Rightarrow> decision" where
  "checks_spec gin orc gw inp full edition =
     (let root = lint_spec gin orc (root_input gw inp);
          whole = (whole_verdict orc inp full)\<lparr>v_Masked := MaskedEndpoints full\<rparr>;
          ex = failing_of gin orc gw inp [] (suspectsOf (in_Endpoints inp) whole)
      in if \<not> v_OK root then decide_failure (rootFailure root) [] False
         else if ex = []
         then (if v_OK whole then decide_output full [] else decide_failure combinedFailure [] True)
         else rest_spec gin orc gw inp edition ex)"

definition decide_spec ::
  "gin_router \<Rightarrow> judgement \<Rightarrow> KrakenDGateway \<Rightarrow> RenderInput \<Rightarrow> RenderOutput \<Rightarrow> Edition \<Rightarrow> decision" where
  "decide_spec gin orc gw inp full edition =
     (if isApplied gw full edition \<and>
         failing_of gin orc gw inp [] (filter (\<lambda>ep. ep_key ep \<in> set (MaskedEndpoints full)) (in_Endpoints inp)) = []
      then decide_output full []
      else checks_spec gin orc gw inp full edition)"

lemma judge_loop_implements:
  assumes "consistent ck orc"
  shows "implements (memo_ok pass_holds orc) (\<not> reliable ck) (judge_loop ck (Some counted_memo) gw inp ex eps)
    (failing_of (ck_gin ck) orc gw inp ex eps)"
proof (induction eps arbitrary: ex)
  case Nil
  then show ?case by (simp add: failing_of_def implements_returns)
next
  case (Cons ep eps)
  have u: "unitPolicies ck (unit_of gw inp ep) = Inr (in_Policies inp)"
    by (simp add: unitPolicies_def unit_of_def)
  show ?case
    unfolding judge_loop.simps
    by (rule implements_andThen [OF counted.CheckEndpoint_implements [OF assms u]])
      (use Cons.IH in \<open>simp add: failing_of_def verdict_of_def\<close>)
qed

lemma rest_input_simps [simp]:
  "in_Gateway (rest_input inp ex) = in_Gateway inp" "in_edition (rest_input inp ex) = in_edition inp"
  by (simp_all add: rest_input_def in_edition_def split: option.splits)

lemma decide_rest_implements:
  assumes "consistent ck orc" and "in_Gateway inp = Some gw"
  shows "implements (memo_ok pass_holds orc) (\<not> reliable ck) (decide_rest ck gw inp edition ex)
    (rest_spec (ck_gin ck) orc gw inp edition ex)"
proof -
  obtain out where r: "Render (ck_gin ck) (rest_input inp ex) = Inr out"
    using Render_some [of "rest_input inp ex" gw] assms(2) by auto
  have l: "implements (memo_ok pass_holds orc) (\<not> reliable ck) (lift_sum (render ck (rest_input inp ex))) out"
    by (simp add: implements_def lift_sum_def render_def r)
  show ?thesis
    unfolding decide_rest_def rest_spec_def r sum.case
    by (rule implements_andThen [OF l])
      (auto simp: whole_verdict_def
        intro!: implI implements_andThen [OF pass.CheckRendered_implements [OF assms(1) Render_checksum [OF r]]])
qed

lemma decide_checks_implements:
  assumes "consistent ck orc" and "in_Gateway inp = Some gw" and "Render (ck_gin ck) inp = Inr full"
  shows "implements (memo_ok pass_holds orc) (\<not> reliable ck) (decide_checks ck gw inp full edition)
    (checks_spec (ck_gin ck) orc gw inp full edition)"
proof -
  note root = counted.CheckRoot_implements [OF assms(1),
      of "\<lparr>rt_Gateway = gw, rt_CEFallback = in_CEFallback inp, rt_Dragonfly = in_Dragonfly inp\<rparr>",
      unfolded Root.select_convs, folded root_input_def]
  note whole = pass.CheckRendered_implements [OF assms(1) Render_checksum [OF assms(3)], of inp]
  show ?thesis
    unfolding decide_checks_def checks_spec_def Let_def judgeEndpoints_def
    by (rule implements_andThen [OF root])
      (auto simp: whole_verdict_def intro!: implI decide_rest_implements [OF assms(1,2)]
        implements_andThen [OF whole] implements_andThen [OF judge_loop_implements [OF assms(1)]])
qed

lemma decide_body_implements:
  assumes "consistent ck orc" and "in_Gateway inp = Some gw" and "Render (ck_gin ck) inp = Inr full"
  shows "implements (memo_ok pass_holds orc) (\<not> reliable ck) (decide_body ck gw inp full edition)
    (decide_spec (ck_gin ck) orc gw inp full edition)"
proof -
  have m: "suspectsOf (in_Endpoints inp) \<lparr>v_OK = True, v_Output = [], v_Masked = MaskedEndpoints full, v_Stage = StageUnknown\<rparr> =
      filter (\<lambda>ep. ep_key ep \<in> set (MaskedEndpoints full)) (in_Endpoints inp)"
    by (simp add: suspectsOf_def Suspect_def)
  show ?thesis
    unfolding decide_body_def decide_spec_def Let_def judgeEndpoints_def m
    by (auto intro!: implI implements_andThen [OF judge_loop_implements [OF assms(1)]] decide_checks_implements [OF assms])
qed

text \<open>Every memo of the operator, whoever owns it, holds right verdicts only.\<close>

definition memo_sound :: "judgement \<Rightarrow> verdictMemo \<Rightarrow> bool" where
  "memo_sound orc m \<longleftrightarrow> (\<forall>owner kept k v. (owner, kept) \<in> set m \<longrightarrow> (k, v) \<in> set kept \<longrightarrow> v = verdictFor (orc k))"

lemma begin_state_ok: "memo_sound orc m \<Longrightarrow> memo_ok pass_holds orc (begin_state m owner runs)"
  unfolding memo_ok_def pass_holds_def memo_sound_def
  by (cases "map_of m owner") (auto simp: begin_state_def verdictMemo_begin_def dest: map_of_SomeD)

lemma set_mmerge: "set (mmerge dst src) \<subseteq> set dst \<union> set src"
proof (induction src arbitrary: dst)
  case (Cons p src)
  from Cons [of "mput (fst p) (snd p) dst"] set_mput_subset [of "fst p" "snd p" dst] show ?case
    by (auto simp: mmerge_def split: prod.splits)
qed (simp add: mmerge_def)

lemma end_sound:
  assumes "memo_sound orc m" and "memo_ok pass_holds orc st"
  shows "memo_sound orc (verdictMemo_end m owner (cs_memo st) failed)"
proof -
  let ?p = "cs_memo st"
  let ?keep = "if failed then mmerge (pm_kept ?p) (pm_used ?p) else pm_used ?p"
  have "(k, v) \<in> set ?keep \<Longrightarrow> v = verdictFor (orc k)" for k v
    using assms(2) set_mmerge [of "pm_kept ?p" "pm_used ?p"]
    by (auto simp: memo_ok_def pass_holds_def split: if_splits)
  then show ?thesis
    using assms(1) set_mput_subset [of owner ?keep m] unfolding memo_sound_def verdictMemo_end_def by blast
qed

text \<open>
  C5: the memo the gateway controller keeps between passes only ever holds verdicts a fresh run
  would give: a pass of \<open>decide\<close>, whether it decides or fails, for whichever gateway, keeps it so.
\<close>

theorem decide_keeps_memo_sound:
  assumes "consistent ck orc" and "in_Gateway inp = Some gw" and "Render (ck_gin ck) inp = Inr full"
    and "memo_sound orc m"
  shows "memo_sound orc (fst (snd (decide ck gw inp full edition m runs)))"
proof -
  obtain r st where b: "decide_body ck gw inp full edition (begin_state m (gw_key gw) runs) = (r, st)" by force
  from implementsD [OF decide_body_implements [OF assms(1-3)] begin_state_ok [OF assms(4)] b]
  have "memo_ok pass_holds orc st" by simp
  then show ?thesis using b end_sound [OF assms(4)] by (simp add: decide_def)
qed

lemma decide_value:
  assumes "consistent ck orc" and "in_Gateway inp = Some gw" and "Render (ck_gin ck) inp = Inr full"
    and "memo_sound orc m"
  shows "fst (decide ck gw inp full edition m runs) = Inr (decide_spec (ck_gin ck) orc gw inp full edition) \<or>
         (\<exists>e. fst (decide ck gw inp full edition m runs) = Inl e) \<and> \<not> reliable ck"
proof -
  obtain r st where b: "decide_body ck gw inp full edition (begin_state m (gw_key gw) runs) = (r, st)" by force
  from implementsD [OF decide_body_implements [OF assms(1-3)] begin_state_ok [OF assms(4)] b] b
  show ?thesis by (auto simp: decide_def)
qed

text \<open>
  C4: a gateway always gets a decision when every run gets a slot and judges, and it is the
  decision of the specification, whatever the memo holds; a pass fails only when a run did not.
  The decision names a render to apply or a failure, never both.
\<close>

theorem decide_refines:
  assumes "consistent ck orc" and "in_Gateway inp = Some gw" and "Render (ck_gin ck) inp = Inr full"
    and "memo_sound orc m"
  shows "let r = fst (decide ck gw inp full edition m runs); d = decide_spec (ck_gin ck) orc gw inp full edition in
    (r = Inr d \<or> (\<exists>e. r = Inl e) \<and> \<not> reliable ck) \<and> (de_output d = None) \<noteq> (de_failure d = None)"
  using decide_value [OF assms, of edition runs]
  by (auto simp: Let_def decide_spec_def checks_spec_def rest_spec_def decide_output_def decide_failure_def
      split: sum.splits)

lemma failing_of_lookup:
  "mwf ex \<Longrightarrow> mwf (failing_of gin orc gw inp ex eps) \<and>
   (map_of (failing_of gin orc gw inp ex eps) k = Some v \<longrightarrow>
      map_of ex k = Some v \<or> (\<exists>ep \<in> set eps. ep_key ep = k \<and> v = verdict_of gin orc gw inp ep \<and> \<not> ev_OK v))"
proof (induction eps arbitrary: ex)
  case (Cons ep eps)
  let ?ex = "if \<not> ev_OK (verdict_of gin orc gw inp ep) then mput (ep_key ep) (verdict_of gin orc gw inp ep) ex else ex"
  have f: "failing_of gin orc gw inp ex (ep # eps) = failing_of gin orc gw inp ?ex eps"
    by (simp add: failing_of_def)
  from Cons.prems have "mwf ?ex" by simp
  from Cons.IH [OF this] Cons.prems show ?case unfolding f by (auto split: if_splits)
qed (simp add: failing_of_def)

lemma whole_ok_iff: "v_OK (whole_verdict orc inp out) \<longleftrightarrow> orc (contentKey out (in_edition inp) modeValidate) = None"
  by (simp add: whole_verdict_def verdictFor_def split: option.splits)

lemma decide_spec_cases:
  fixes gin orc gw inp full edition
  defines "d \<equiv> decide_spec gin orc gw inp full edition"
  assumes "Render gin inp = Inr full" and "in_Gateway inp = Some gw"
  shows "(\<exists>eps. set eps \<subseteq> set (in_Endpoints inp) \<and> de_excluded d = failing_of gin orc gw inp [] eps) \<and>
    (\<forall>out. de_output d = Some out \<longrightarrow>
       Render gin (rest_input inp (de_excluded d)) = Inr out \<and>
       (isApplied gw out edition \<or>
        v_OK (lint_spec gin orc (root_input gw inp)) \<and> v_OK (whole_verdict orc inp out)))"
proof -
  have n: "rest_input inp [] = inp" by (simp add: rest_input_def without_def)
  have e: "\<exists>eps. set eps \<subseteq> set (in_Endpoints inp) \<and> [] = failing_of gin orc gw inp [] eps"
    by (rule exI [of _ "[]"]) (simp add: failing_of_def)
  have s: "set (suspectsOf (in_Endpoints inp) v) \<subseteq> set (in_Endpoints inp)" for v
    by (auto simp: suspectsOf_def)
  show ?thesis
    using e s assms(2) unfolding d_def
    by (auto simp: decide_spec_def checks_spec_def rest_spec_def decide_output_def decide_failure_def Let_def n
        split: sum.splits)
qed


section \<open>Samples\<close>

definition ex_full :: RenderOutput where
  "ex_full = projr (Render ex_tree ex_inp)"

lemma ex_render: "in_Gateway ex_inp = Some ex_gw" "Render (ck_gin ex_ck) ex_inp = Inr ex_full"
  using Render_some [of ex_inp ex_gw ex_tree] by (auto simp: ex_inp_def ex_full_def ex_ck_def)

lemma ex_memo_sound: "memo_sound orc []"
  by (simp add: memo_sound_def)

definition ex_decision :: decision where
  "ex_decision = decide_spec (ck_gin ex_ck) ex_orc ex_gw ex_inp ex_full EditionCE"

lemma ex_decide: "fst (decide ex_ck ex_gw ex_inp ex_full EditionCE [] 0) = Inr ex_decision"
  using decide_value [OF ex_consistent ex_render ex_memo_sound, of EditionCE 0] ex_reliable
  by (auto simp: ex_decision_def)

theorem decide_keeps_memo_sound_witness:
  "memo_sound ex_orc (fst (snd (decide ex_ck ex_gw ex_inp ex_full EditionCE [] 0)))"
  by (rule decide_keeps_memo_sound [OF ex_consistent ex_render ex_memo_sound])

theorem decide_refines_witness:
  "let r = fst (decide ex_ck ex_gw ex_inp ex_full EditionCE [] 0);
       d = decide_spec (ck_gin ex_ck) ex_orc ex_gw ex_inp ex_full EditionCE in
    (r = Inr d \<or> (\<exists>e. r = Inl e) \<and> \<not> reliable ex_ck) \<and> (de_output d = None) \<noteq> (de_failure d = None)"
  by (rule decide_refines [OF ex_consistent ex_render ex_memo_sound])


end
