(* ===== verification/ConfigMaps.thy ===== *)
theory ConfigMaps
  imports GatewayDecide
begin

text \<open>
  The content-addressed ConfigMaps a gateway config is published in: their names and contents
  (\<^verbatim>\<open>resources/configmap.go\<close>), the memo of verified payloads (\<^verbatim>\<open>controller/verified_configmaps.go\<close>),
  publishing and verifying (\<^verbatim>\<open>controller/gateway_config.go\<close>) and their collection, with the memo
  of absent kinds (\<^verbatim>\<open>controller/absent_kind_memo.go\<close>).

  The API server is the state \<open>kube\<close>: the ConfigMaps of the gateway's namespace by name. Its
  environment \<open>kube_env\<close> gives, per call, what others did before the call, whether the call
  fails, and the version a created object gets, which may depend on its payload. ConfigMaps are read live, never from a cache.
\<close>

section \<open>Names, labels, contents\<close>

record ConfigMapObj =
  cmo_Name :: string
  cmo_UID :: string
  cmo_ResourceVersion :: string
  cmo_Controller :: "string option"
  cmo_Labels :: "(string, string) gomap"
  cmo_Annotations :: "(string, string) gomap"
  cmo_Immutable :: bool
  cmo_CreationTimestamp :: int
  cmo_Data :: "(string, string) gomap"

definition str_at :: "(string, string) gomap \<Rightarrow> string \<Rightarrow> string" where
  "str_at m k = (case map_of m k of None \<Rightarrow> [] | Some v \<Rightarrow> v)"

definition StandardLabels :: "KrakenDGateway \<Rightarrow> (string, string) gomap" where
  "StandardLabels gw =
     fold (\<lambda>(k, v). mput k v)
       [(''app.kubernetes.io/name'', ''krakend''), (''app.kubernetes.io/instance'', gw_Name gw),
        (''app.kubernetes.io/version'', gs_Version (gw_Spec gw)), (''app.kubernetes.io/component'', ''gateway''),
        (''app.kubernetes.io/part-of'', ''krakend-operator''), (''app.kubernetes.io/managed-by'', ''krakend-operator'')] []"

definition SelectorLabels :: "KrakenDGateway \<Rightarrow> (string, string) gomap" where
  "SelectorLabels gw =
     fold (\<lambda>(k, v). mput k v)
       [(''app.kubernetes.io/instance'', gw_Name gw), (''app.kubernetes.io/managed-by'', ''krakend-operator'')] []"

definition configMapChecksumChars :: nat where
  "configMapChecksumChars = 10"

definition shortChecksum :: "string \<Rightarrow> string" where
  "shortChecksum checksum =
     (if length checksum > configMapChecksumChars then take configMapChecksumChars checksum else checksum)"

definition ConfigMapName :: "KrakenDGateway \<Rightarrow> string \<Rightarrow> string" where
  "ConfigMapName gw checksum = gw_Name gw @ ''-config-'' @ shortChecksum checksum"

definition BuildConfigMap :: "ConfigMapObj \<Rightarrow> KrakenDGateway \<Rightarrow> string \<Rightarrow> string \<Rightarrow> ConfigMapObj" where
  "BuildConfigMap cm gw jsonData checksum =
     cm\<lparr>cmo_Labels := mput ''krakend.io/config-revision'' (shortChecksum checksum) (StandardLabels gw),
        cmo_Annotations := [(''krakend.io/checksum-config'', checksum)], cmo_Immutable := True,
        cmo_Data := [(''krakend.json'', jsonData)]\<rparr>"

definition IsControlledBy :: "ConfigMapObj \<Rightarrow> KrakenDGateway \<Rightarrow> bool" where
  "IsControlledBy cm gw \<longleftrightarrow> cmo_Controller cm = Some (gw_UID gw)"

section \<open>Memos\<close>

text \<open>\<open>configMapVersion\<close>: UID and resource version.\<close>

type_synonym configMapVersion = "string \<times> string"

type_synonym verifiedConfigMaps = "(NamespacedName, (string, configMapVersion) gomap) gomap"

definition maxVerifiedPerGateway :: nat where
  "maxVerifiedPerGateway = 8"

definition gw_entries :: "verifiedConfigMaps \<Rightarrow> NamespacedName \<Rightarrow> (string, configMapVersion) gomap" where
  "gw_entries m gw = (case map_of m gw of None \<Rightarrow> [] | Some e \<Rightarrow> e)"

definition verified_has :: "verifiedConfigMaps \<Rightarrow> NamespacedName \<Rightarrow> string \<Rightarrow> configMapVersion \<Rightarrow> bool" where
  "verified_has m gw name version \<longleftrightarrow> map_of (gw_entries m gw) name = Some version"

definition verified_remember ::
  "NamespacedName \<Rightarrow> string \<Rightarrow> configMapVersion \<Rightarrow> verifiedConfigMaps \<Rightarrow> verifiedConfigMaps" where
  "verified_remember gw name version m =
     (let m1 = (if length (gw_entries m gw) \<ge> maxVerifiedPerGateway then mdel gw m else m)
      in mput gw (mput name version (gw_entries m1 gw)) m1)"

definition verified_forget :: "NamespacedName \<Rightarrow> string \<Rightarrow> verifiedConfigMaps \<Rightarrow> verifiedConfigMaps" where
  "verified_forget gw name m =
     (case map_of m gw of None \<Rightarrow> m | Some e \<Rightarrow> mput gw (mdel name e) m)"

definition verified_forgetGateway :: "NamespacedName \<Rightarrow> verifiedConfigMaps \<Rightarrow> verifiedConfigMaps" where
  "verified_forgetGateway gw m = mdel gw m"

text \<open>The kinds found absent, until when. Instants are nanoseconds.\<close>

type_synonym absentKindMemo = "(string, int) gomap"

definition absentKindWindow :: int where
  "absentKindWindow = 60 * 10 ^ 9"

definition kind_absent :: "absentKindMemo \<Rightarrow> string \<Rightarrow> int \<Rightarrow> bool" where
  "kind_absent m gvk now = (case map_of m gvk of None \<Rightarrow> False | Some until \<Rightarrow> now < until)"

definition absent_remember :: "string \<Rightarrow> int \<Rightarrow> absentKindMemo \<Rightarrow> absentKindMemo" where
  "absent_remember gvk now m = mput gvk (now + absentKindWindow) m"

definition absent_forget :: "string \<Rightarrow> absentKindMemo \<Rightarrow> absentKindMemo" where
  "absent_forget gvk m = mdel gvk m"

section \<open>The API server\<close>

type_synonym cmaps = "(string, ConfigMapObj) gomap"

record kube =
  kb_maps :: cmaps
  kb_verified :: verifiedConfigMaps
  kb_events :: "Event list"
  kb_calls :: nat

record kube_env =
  ke_others :: "nat \<Rightarrow> cmaps \<Rightarrow> cmaps"
  ke_fault :: "nat \<Rightarrow> string option"
  ke_version :: "nat \<Rightarrow> string \<Rightarrow> configMapVersion"
  ke_now :: int

definition version_of :: "ConfigMapObj \<Rightarrow> configMapVersion" where
  "version_of cm = (cmo_UID cm, cmo_ResourceVersion cm)"

text \<open>The start of a call: others act first, then the call may fail.\<close>

definition kube_call :: "kube_env \<Rightarrow> (kube, unit) action" where
  "kube_call env k =
     ((case ke_fault env (kb_calls k) of None \<Rightarrow> Inr () | Some e \<Rightarrow> Inl e),
      k\<lparr>kb_maps := ke_others env (kb_calls k) (kb_maps k), kb_calls := Suc (kb_calls k)\<rparr>)"

definition kube_get :: "kube_env \<Rightarrow> string \<Rightarrow> (kube, ConfigMapObj option) action" where
  "kube_get env name = andThen (kube_call env) (\<lambda>_ k. (Inr (map_of (kb_maps k) name), k))"

datatype create_result = Created ConfigMapObj | AlreadyExists

definition kube_create :: "kube_env \<Rightarrow> ConfigMapObj \<Rightarrow> (kube, create_result) action" where
  "kube_create env cm = andThen (kube_call env) (\<lambda>_ k.
     case map_of (kb_maps k) (cmo_Name cm) of
       Some _ \<Rightarrow> (Inr AlreadyExists, k)
     | None \<Rightarrow>
         (let v = ke_version env (kb_calls k - 1) (str_at (cmo_Data cm) ''krakend.json'');
              stored = cm\<lparr>cmo_UID := fst v, cmo_ResourceVersion := snd v, cmo_CreationTimestamp := ke_now env\<rparr>
          in (Inr (Created stored), k\<lparr>kb_maps := mput (cmo_Name cm) stored (kb_maps k)\<rparr>)))"

text \<open>A delete with a UID precondition; a missing object counts as deleted.\<close>

definition kube_delete :: "kube_env \<Rightarrow> string \<Rightarrow> string \<Rightarrow> (kube, unit) action" where
  "kube_delete env name uid = andThen (kube_call env) (\<lambda>_ k.
     case map_of (kb_maps k) name of
       None \<Rightarrow> (Inr (), k)
     | Some cm \<Rightarrow>
         if cmo_UID cm = uid then (Inr (), k\<lparr>kb_maps := mdel name (kb_maps k)\<rparr>)
         else (Inl ''the UID in the precondition does not match'', k))"

definition remember_verified :: "NamespacedName \<Rightarrow> string \<Rightarrow> configMapVersion \<Rightarrow> (kube, unit) action" where
  "remember_verified gw name v k = (Inr (), k\<lparr>kb_verified := verified_remember gw name v (kb_verified k)\<rparr>)"

section \<open>Verifying and publishing\<close>

definition verifyConfigMap :: "ConfigMapObj \<Rightarrow> KrakenDGateway \<Rightarrow> string \<Rightarrow> string option" where
  "verifyConfigMap cm gw checksum =
     (let name = gw_Namespace gw @ ''/'' @ cmo_Name cm; got = str_at (cmo_Annotations cm) ''krakend.io/checksum-config''
      in if \<not> IsControlledBy cm gw
         then Some (''configmap '' @ name @ '' exists but is not controlled by gateway '' @ gw_Name gw)
         else if got \<noteq> checksum
         then Some (''configmap '' @ name @ '' holds config '' @ got @ '', not '' @ checksum)
         else None)"

definition tampered_event :: "string \<Rightarrow> Event" where
  "tampered_event name =
     warning ''ConfigMapTampered'' (''Deleted configmap '' @ name @
       '': its krakend.json does not hash to the checksum its name addresses'')"

definition verifyPayload ::
  "kube_env \<Rightarrow> KrakenDGateway \<Rightarrow> string \<Rightarrow> string \<Rightarrow> (kube, bool) action" where
  "verifyPayload env gw name checksum =
     andThen (wrap_error (''getting configmap '' @ name @ '': '') (kube_get env name)) (\<lambda>full.
       case full of
         None \<Rightarrow> returns False
       | Some cm \<Rightarrow>
           if SHA256Hex (str_at (cmo_Data cm) ''krakend.json'') = checksum
           then andThen (remember_verified (gw_key gw) name (version_of cm)) (\<lambda>_. returns True)
           else (\<lambda>k.
             andThen (wrap_error (''deleting configmap '' @ name @ '' whose data does not match its checksum: '')
                        (kube_delete env name (cmo_UID cm)))
               (\<lambda>_ k. (Inr False, k\<lparr>kb_events := kb_events k @ [tampered_event name]\<rparr>))
               (k\<lparr>kb_verified := verified_forget (gw_key gw) name (kb_verified k)\<rparr>)))"

text \<open>The result says whether a ConfigMap was found, or the error.\<close>

definition verifyExistingConfigMap ::
  "kube_env \<Rightarrow> KrakenDGateway \<Rightarrow> string \<Rightarrow> (kube, bool) action" where
  "verifyExistingConfigMap env gw checksum =
     (let name = ConfigMapName gw checksum
      in andThen (wrap_error (''getting configmap '' @ name @ '': '') (kube_get env name)) (\<lambda>meta k.
           case meta of
             None \<Rightarrow> (Inr False, k)
           | Some cm \<Rightarrow>
               (let known = verified_has (kb_verified k) (gw_key gw) name (version_of cm)
                in case verifyConfigMap cm gw checksum of
                     Some err \<Rightarrow>
                       if known then (Inl err, k)
                       else andThen (verifyPayload env gw name checksum)
                              (\<lambda>found. if found then fails err else returns False) k
                   | None \<Rightarrow>
                       if known then (Inr True, k) else verifyPayload env gw name checksum k)))"

definition new_cm :: "string \<Rightarrow> KrakenDGateway \<Rightarrow> ConfigMapObj" where
  "new_cm name gw =
     \<lparr>cmo_Name = name, cmo_UID = [], cmo_ResourceVersion = [], cmo_Controller = Some (gw_UID gw), cmo_Labels = [],
      cmo_Annotations = [], cmo_Immutable = False, cmo_CreationTimestamp = 0, cmo_Data = []\<rparr>"

definition publishConfig ::
  "kube_env \<Rightarrow> KrakenDGateway \<Rightarrow> string \<Rightarrow> string \<Rightarrow> (kube, unit) action" where
  "publishConfig env gw jsonData checksum =
     (let name = ConfigMapName gw checksum
      in andThen (verifyExistingConfigMap env gw checksum) (\<lambda>found.
           if found then returns ()
           else andThen (wrap_error (''creating configmap '' @ name @ '': '')
                           (kube_create env (BuildConfigMap (new_cm name gw) gw jsonData checksum))) (\<lambda>res.
             case res of
               Created cm \<Rightarrow> remember_verified (gw_key gw) name (version_of cm)
             | AlreadyExists \<Rightarrow>
                 andThen (verifyExistingConfigMap env gw checksum) (\<lambda>found2.
                   if found2 then returns ()
                   else fails (''configmap '' @ name @ '' was deleted after a create found it existing'')))))"

section \<open>The verified memo\<close>

text \<open>The states the memo can be in: what its operations make of the empty memo.\<close>

inductive verified_reach :: "verifiedConfigMaps \<Rightarrow> bool" where
  reach_init: "verified_reach []"
| reach_remember: "verified_reach m \<Longrightarrow> verified_reach (verified_remember gw name v m)"
| reach_forget: "verified_reach m \<Longrightarrow> verified_reach (verified_forget gw name m)"
| reach_forgetGateway: "verified_reach m \<Longrightarrow> verified_reach (verified_forgetGateway gw m)"

definition verified_wf :: "verifiedConfigMaps \<Rightarrow> bool" where
  "verified_wf m \<longleftrightarrow> mwf m \<and> (\<forall>gw. mwf (gw_entries m gw))"

lemma gw_entries_put [simp]: "mwf m \<Longrightarrow> gw_entries (mput gw e m) gw' = (if gw' = gw then e else gw_entries m gw')"
  by (simp add: gw_entries_def)

lemma gw_entries_del [simp]: "mwf m \<Longrightarrow> gw_entries (mdel gw m) gw' = (if gw' = gw then [] else gw_entries m gw')"
  by (simp add: gw_entries_def)

lemma mwf_single [simp]: "mwf [(k, v)]"
  by (simp add: mwf_def)

lemma length_mput: "length (mput k v m) \<le> Suc (length m)"
  by (induction k v m rule: mput.induct) auto

lemma verified_wf_ops:
  assumes "verified_wf m"
  shows "verified_wf (verified_remember gw name v m)" and "verified_wf (verified_forget gw name m)"
    and "verified_wf (verified_forgetGateway gw m)"
  using assms
  by (auto simp: verified_wf_def verified_remember_def verified_forget_def verified_forgetGateway_def Let_def gw_entries_def
      split: option.splits if_splits)

lemma verified_remember_has:
  assumes "verified_wf m"
  shows "verified_has (verified_remember gw name v m) gw name v"
  using assms by (auto simp: verified_wf_def verified_has_def verified_remember_def Let_def)

lemma verified_remember_only:
  assumes "verified_wf m" and "verified_has (verified_remember gw name v m) gw' name' w"
  shows "gw' = gw \<and> name' = name \<and> w = v \<or> verified_has m gw' name' w"
  using assms
  by (auto simp: verified_wf_def verified_has_def verified_remember_def Let_def split: if_splits)

lemma verified_forget_only:
  assumes "verified_wf m" and "verified_has (verified_forget gw name m) gw' name' w"
  shows "verified_has m gw' name' w"
  using assms
  by (auto simp: verified_wf_def verified_has_def verified_forget_def gw_entries_def split: if_splits option.splits)

text \<open>
  In every state it can reach the memo keeps at most eight ConfigMaps per gateway, and it still
  remembers what was just recorded, even when it had to make room for it.
\<close>

lemma verified_reach_bounded:
  assumes "verified_reach m"
  shows "length (gw_entries m gw) \<le> maxVerifiedPerGateway \<and>
    verified_has (verified_remember gw name v m) gw name v"
proof -
  from assms have "verified_wf m \<and> (\<forall>gw. length (gw_entries m gw) \<le> maxVerifiedPerGateway)"
  proof (induction rule: verified_reach.induct)
    case reach_init
    show ?case by (simp add: verified_wf_def gw_entries_def)
  next
    case (reach_remember m gw name v)
    have "length (mput name v e) \<le> maxVerifiedPerGateway" if "length e < maxVerifiedPerGateway" for e
      using length_mput [of name v e] that by simp
    with reach_remember.IH show ?case
      by (auto simp: verified_wf_ops verified_remember_def verified_wf_def Let_def not_le maxVerifiedPerGateway_def)
  next
    case (reach_forget m gw name)
    have "length (mdel name e) \<le> length e" for e :: "(string, configMapVersion) gomap"
      by (simp add: mdel_def)
    then have "length (gw_entries (verified_forget gw name m) gw') \<le> length (gw_entries m gw')" for gw'
      using reach_forget.IH by (auto simp: verified_forget_def verified_wf_def gw_entries_def split: option.splits)
    with reach_forget.IH show ?case by (meson order_trans verified_wf_ops(2))
  next
    case (reach_forgetGateway m gw)
    then show ?case
      by (auto simp: verified_wf_ops verified_forgetGateway_def verified_wf_def)
  qed
  then show ?thesis using verified_remember_has by blast
qed

section \<open>A published config is there\<close>

text \<open>
  \<open>content\<close> is what the API server stores under a version (UID and resource version): a version
  never changes its payload. \<open>publish_inv\<close> says that every stored ConfigMap has the payload of its
  version, and that what the memo holds for the name of a checksum of \<open>C\<close> was hashed against it.
  \<open>C\<close> is a set of checksums with different names: names carry ten digits of the checksum.
\<close>

definition payload :: "ConfigMapObj \<Rightarrow> string" where
  "payload cm = str_at (cmo_Data cm) ''krakend.json''"

definition maps_ok :: "(configMapVersion \<Rightarrow> string) \<Rightarrow> cmaps \<Rightarrow> bool" where
  "maps_ok content m \<longleftrightarrow> mwf m \<and> (\<forall>name cm. map_of m name = Some cm \<longrightarrow> payload cm = content (version_of cm))"

definition publish_inv :: "(configMapVersion \<Rightarrow> string) \<Rightarrow> KrakenDGateway \<Rightarrow> string set \<Rightarrow> kube \<Rightarrow> bool" where
  "publish_inv content gw C k \<longleftrightarrow>
     maps_ok content (kb_maps k) \<and> verified_wf (kb_verified k) \<and>
     (\<forall>c\<in>C. \<forall>v. verified_has (kb_verified k) (gw_key gw) (ConfigMapName gw c) v \<longrightarrow> SHA256Hex (content v) = c)"

definition holds_config :: "KrakenDGateway \<Rightarrow> string \<Rightarrow> kube \<Rightarrow> bool" where
  "holds_config gw checksum k \<longleftrightarrow>
     (\<exists>cm. map_of (kb_maps k) (ConfigMapName gw checksum) = Some cm \<and> SHA256Hex (payload cm) = checksum)"

text \<open>The API server keeps versions and contents together, whoever writes.\<close>

definition env_ok :: "(configMapVersion \<Rightarrow> string) \<Rightarrow> kube_env \<Rightarrow> bool" where
  "env_ok content env \<longleftrightarrow>
     (\<forall>n m. maps_ok content m \<longrightarrow> maps_ok content (ke_others env n m)) \<and> (\<forall>n js. content (ke_version env n js) = js)"

definition no_collision :: "KrakenDGateway \<Rightarrow> string set \<Rightarrow> bool" where
  "no_collision gw C \<longleftrightarrow> inj_on (ConfigMapName gw) C"

abbreviation always :: "'s \<Rightarrow> bool" where
  "always \<equiv> \<lambda>_. True"

lemma kube_call_triple: "env_ok content env \<Longrightarrow> triple (publish_inv content gw C) P (kube_call env) (\<lambda>_. always)"
  by (auto simp: triple_def kube_call_def publish_inv_def env_ok_def)

lemma kube_get_triple:
  "env_ok content env \<Longrightarrow>
   triple (publish_inv content gw C) P (kube_get env name) (\<lambda>r k. r = map_of (kb_maps k) name)"
  unfolding kube_get_def
  by (rule triple_andThen [OF kube_call_triple]) (auto simp: triple_def)

lemma remember_triple:
  assumes "no_collision gw C" and "c \<in> C" and "SHA256Hex (content v) = c"
  shows "triple (publish_inv content gw C) (\<lambda>k. R (kb_maps k)) (remember_verified (gw_key gw) (ConfigMapName gw c) v)
     (\<lambda>_ k. R (kb_maps k))"
  using assms unfolding triple_def remember_verified_def publish_inv_def no_collision_def
  by (auto simp: verified_wf_ops inj_on_eq_iff dest!: verified_remember_only)

lemma kube_delete_triple:
  "env_ok content env \<Longrightarrow> triple (publish_inv content gw C) P (kube_delete env name uid) (\<lambda>_. always)"
  unfolding kube_delete_def
  by (rule triple_andThen [OF kube_call_triple])
    (auto simp: triple_def publish_inv_def maps_ok_def split: option.splits if_splits)

lemma kube_create_triple:
  "env_ok content env \<Longrightarrow> str_at (cmo_Data cm) ''krakend.json'' = js \<Longrightarrow>
   triple (publish_inv content gw C) P (kube_create env cm)
     (\<lambda>r k. \<forall>st. r = Created st \<longrightarrow> map_of (kb_maps k) (cmo_Name cm) = Some st \<and> payload st = js \<and> content (version_of st) = js)"
  unfolding kube_create_def
  by (rule triple_andThen [OF kube_call_triple])
    (auto simp: triple_def publish_inv_def maps_ok_def payload_def version_of_def env_ok_def Let_def
      split: option.splits if_splits)

lemma forget_inv: "publish_inv content gw C k \<Longrightarrow>
  publish_inv content gw C (k\<lparr>kb_verified := verified_forget (gw_key gw) name (kb_verified k)\<rparr>)"
  by (auto simp: publish_inv_def verified_wf_ops dest: verified_forget_only)

lemma verifyPayload_triple:
  assumes "env_ok content env" and "no_collision gw C" and "c \<in> C"
  shows "triple (publish_inv content gw C) P (verifyPayload env gw (ConfigMapName gw c) c)
    (\<lambda>found k. found \<longrightarrow> holds_config gw c k)"
proof -
  let ?I = "publish_inv content gw C" and ?n = "ConfigMapName gw c"
  let ?Q = "\<lambda>found k. found \<longrightarrow> holds_config gw c k"
  have bad: "triple ?I P' (\<lambda>k. andThen (wrap_error p (kube_delete env ?n uid))
       (\<lambda>_ k. (Inr False, k\<lparr>kb_events := kb_events k @ [tampered_event ?n]\<rparr>))
       (k\<lparr>kb_verified := verified_forget (gw_key gw) ?n (kb_verified k)\<rparr>)) ?Q" for p uid P'
  proof (rule triple_assign [where P = always])
    show "triple ?I always (andThen (wrap_error p (kube_delete env ?n uid))
       (\<lambda>_ k. (Inr False, k\<lparr>kb_events := kb_events k @ [tampered_event ?n]\<rparr>))) ?Q"
      by (rule triple_andThen [OF triple_wrap_error [OF kube_delete_triple [OF assms(1)]]])
        (simp add: triple_def publish_inv_def)
  qed (simp add: forget_inv)
  have good: "triple ?I (\<lambda>k. map_of (kb_maps k) ?n = Some cm)
      (andThen (remember_verified (gw_key gw) ?n (version_of cm)) (\<lambda>_. returns True)) ?Q"
    if h: "SHA256Hex (payload cm) = c" for cm
  proof (cases "payload cm = content (version_of cm)")
    case True
    show ?thesis
      by (rule triple_andThen [OF remember_triple [OF assms(2,3), of content _ "\<lambda>m. map_of m ?n = Some cm"]])
        (use h True in \<open>auto intro!: triple_returns simp: holds_config_def\<close>)
  next
    case False
    then show ?thesis by (auto simp: triple_def publish_inv_def maps_ok_def)
  qed
  show ?thesis
    unfolding verifyPayload_def payload_def [symmetric]
  proof (rule triple_andThen [OF triple_wrap_error [OF kube_get_triple [OF assms(1)]]])
    fix full :: "ConfigMapObj option"
    show "triple ?I (\<lambda>k. full = map_of (kb_maps k) ?n)
       (case full of None \<Rightarrow> returns False
        | Some cm \<Rightarrow>
            if SHA256Hex (payload cm) = c
            then andThen (remember_verified (gw_key gw) ?n (version_of cm)) (\<lambda>_. returns True)
            else (\<lambda>k. andThen (wrap_error (''deleting configmap '' @ ?n @ '' whose data does not match its checksum: '')
                        (kube_delete env ?n (cmo_UID cm)))
                 (\<lambda>_ k. (Inr False, k\<lparr>kb_events := kb_events k @ [tampered_event ?n]\<rparr>))
                 (k\<lparr>kb_verified := verified_forget (gw_key gw) ?n (kb_verified k)\<rparr>))) ?Q"
    proof (cases full)
      case None
      then show ?thesis by (auto intro: triple_returns)
    next
      case (Some cm)
      show ?thesis
      proof (cases "SHA256Hex (payload cm) = c")
        case True
        then show ?thesis unfolding Some by (simp add: eq_commute [of "Some cm"] good [OF True])
      next
        case False
        then show ?thesis unfolding Some by (simp add: bad)
      qed
    qed
  qed
qed

lemma verifyExistingConfigMap_triple:
  assumes "env_ok content env" and "no_collision gw C" and "c \<in> C"
  shows "triple (publish_inv content gw C) P (verifyExistingConfigMap env gw c)
    (\<lambda>found k. found \<longrightarrow> holds_config gw c k)"
proof -
  let ?I = "publish_inv content gw C" and ?n = "ConfigMapName gw c"
  let ?Q = "\<lambda>found k. found \<longrightarrow> holds_config gw c k"
  note vp = verifyPayload_triple [OF assms]
  have refused: "triple ?I P' (andThen (verifyPayload env gw ?n c) (\<lambda>found. if found then fails err else returns False)) ?Q" for err P'
    by (rule triple_andThen [OF vp]) (auto intro: triple_fails triple_returns)
  have known: "?I k \<Longrightarrow> map_of (kb_maps k) ?n = Some cm \<Longrightarrow> verified_has (kb_verified k) (gw_key gw) ?n (version_of cm) \<Longrightarrow>
      holds_config gw c k" for k cm
    using assms(3) unfolding publish_inv_def maps_ok_def holds_config_def by metis
  show ?thesis
    unfolding verifyExistingConfigMap_def Let_def
  proof (rule triple_andThen [OF triple_wrap_error [OF kube_get_triple [OF assms(1)]]])
    fix meta :: "ConfigMapObj option"
    let ?f = "\<lambda>k0 k. case meta of None \<Rightarrow> (Inr False, k)
        | Some cm \<Rightarrow>
            (case verifyConfigMap cm gw c of
               None \<Rightarrow> if verified_has (kb_verified k0) (gw_key gw) ?n (version_of cm) then (Inr True, k)
                       else verifyPayload env gw ?n c k
             | Some err \<Rightarrow> if verified_has (kb_verified k0) (gw_key gw) ?n (version_of cm) then (Inl err, k)
                           else andThen (verifyPayload env gw ?n c) (\<lambda>found. if found then fails err else returns False) k)"
    have "triple ?I (\<lambda>k. meta = map_of (kb_maps k) ?n \<and> k = k0) (?f k0) ?Q" for k0
    proof (cases meta)
      case None
      then show ?thesis by (simp add: triple_def)
    next
      case (Some cm)
      show ?thesis
      proof (cases "verified_has (kb_verified k0) (gw_key gw) ?n (version_of cm)")
        case True
        then show ?thesis
          using Some known [of k0 cm] by (cases "verifyConfigMap cm gw c") (auto simp: triple_def)
      next
        case False
        then show ?thesis
          using Some vp refused by (cases "verifyConfigMap cm gw c") simp_all
      qed
    qed
    then show "triple ?I (\<lambda>k. meta = map_of (kb_maps k) ?n) (\<lambda>k. ?f k k) ?Q" by (rule triple_state)
  qed
qed

lemma publishConfig_triple:
  assumes "env_ok content env" and "no_collision gw C" and "checksum \<in> C" and "SHA256Hex jsonData = checksum"
  shows "triple (publish_inv content gw C) P (publishConfig env gw jsonData checksum) (\<lambda>_. holds_config gw checksum)"
proof -
  let ?I = "publish_inv content gw C" and ?n = "ConfigMapName gw checksum"
  let ?Q = "\<lambda>_. holds_config gw checksum"
  let ?cm = "BuildConfigMap (new_cm ?n gw) gw jsonData checksum"
  have cm: "str_at (cmo_Data ?cm) ''krakend.json'' = jsonData" "cmo_Name ?cm = ?n"
    by (simp_all add: BuildConfigMap_def new_cm_def str_at_def)
  note ve = verifyExistingConfigMap_triple [OF assms(1-3)]
  have again: "triple ?I P' (andThen (verifyExistingConfigMap env gw checksum)
      (\<lambda>found. if found then returns () else fails e)) ?Q" for e P'
    by (rule triple_andThen [OF ve]) (auto intro: triple_fails triple_returns)
  have created: "triple ?I (\<lambda>k. map_of (kb_maps k) ?n = Some st \<and> payload st = jsonData \<and> content (version_of st) = jsonData)
      (remember_verified (gw_key gw) ?n (version_of st)) ?Q" for st
  proof (cases "content (version_of st) = jsonData")
    case True
    have "triple ?I (\<lambda>k. map_of (kb_maps k) ?n = Some st \<and> payload st = jsonData)
        (remember_verified (gw_key gw) ?n (version_of st)) (\<lambda>_ k. map_of (kb_maps k) ?n = Some st \<and> payload st = jsonData)"
      by (rule remember_triple [OF assms(2,3)]) (use True assms(4) in simp)
    then show ?thesis using assms(4) by (auto intro: triple_pre triple_post simp: holds_config_def)
  next
    case False
    then show ?thesis by (simp add: triple_def)
  qed
  have create: "triple ?I P' (andThen (wrap_error p (kube_create env ?cm)) (\<lambda>res.
           case res of
             Created cm \<Rightarrow> remember_verified (gw_key gw) ?n (version_of cm)
           | AlreadyExists \<Rightarrow>
               andThen (verifyExistingConfigMap env gw checksum) (\<lambda>found2.
                 if found2 then returns () else fails e))) ?Q" for p e P'
    by (rule triple_andThen [OF triple_wrap_error [OF kube_create_triple [OF assms(1) cm(1)]]])
      (auto simp: cm(2) intro: triple_pre [OF created] again split: create_result.split)
  show ?thesis
    unfolding publishConfig_def Let_def
    by (rule triple_andThen [OF ve]) (auto intro: triple_returns create)
qed

text \<open>
  C25: when \<open>publishConfig\<close> returns without an error, the ConfigMap at the address of the config
  exists and holds a payload with exactly that checksum, even though anyone may create, edit or
  delete ConfigMaps between any two calls, calls may fail, and earlier verifications are
  remembered. So the status never names a config that no ConfigMap held.
\<close>

theorem publishConfig_published:
  assumes "env_ok content env" and "SHA256Hex jsonData = checksum"
    and "publish_inv content gw {checksum} k" and "publishConfig env gw jsonData checksum k = (Inr (), k')"
  shows "\<exists>cm. map_of (kb_maps k') (ConfigMapName gw checksum) = Some cm \<and> SHA256Hex (payload cm) = checksum"
  using tripleD [OF publishConfig_triple [OF assms(1) _ _ assms(2), of gw "{checksum}" always] assms(3) _ assms(4)]
  by (simp add: holds_config_def no_collision_def)

definition ex_kube_env :: kube_env where
  "ex_kube_env = \<lparr>ke_others = (\<lambda>_ m. m), ke_fault = (\<lambda>_. None), ke_version = (\<lambda>_ js. (''u'', js)), ke_now = 0\<rparr>"

definition ex_kube :: kube where
  "ex_kube = \<lparr>kb_maps = [], kb_verified = [], kb_events = [], kb_calls = 0\<rparr>"

lemma ex_publish:
  "fst (publishConfig ex_kube_env gw js c ex_kube) = Inr ()"
  by (simp add: publishConfig_def verifyExistingConfigMap_def kube_get_def kube_create_def kube_call_def ex_kube_env_def ex_kube_def
      andThen_def wrap_error_def returns_def remember_verified_def Let_def BuildConfigMap_def new_cm_def)

definition ex_cm_gw :: KrakenDGateway where
  "ex_cm_gw = zero_gateway ''gw'' ''ns'' EditionCE"

theorem publishConfig_published_witness:
  "\<exists>cm. map_of (kb_maps (snd (publishConfig ex_kube_env ex_cm_gw ''{}'' (SHA256Hex ''{}'') ex_kube)))
      (ConfigMapName ex_cm_gw (SHA256Hex ''{}'')) = Some cm \<and> SHA256Hex (payload cm) = SHA256Hex ''{}''"
proof (rule publishConfig_published)
  show "env_ok snd ex_kube_env"
    by (simp add: env_ok_def ex_kube_env_def)
  show "publish_inv snd ex_cm_gw {SHA256Hex ''{}''} ex_kube"
    by (simp add: publish_inv_def maps_ok_def verified_wf_def verified_has_def gw_entries_def ex_kube_def)
  show "publishConfig ex_kube_env ex_cm_gw ''{}'' (SHA256Hex ''{}'') ex_kube =
      (Inr (), snd (publishConfig ex_kube_env ex_cm_gw ''{}'' (SHA256Hex ''{}'') ex_kube))"
    by (simp add: prod_eq_iff ex_publish)
qed simp

end
