(* ===== verification/ConfigGC.thy ===== *)
theory ConfigGC
  imports ConfigMaps
begin

text \<open>
  Collection of the config ConfigMaps nothing can mount any more: the last part of
  \<^verbatim>\<open>controller/gateway_config.go\<close>. The list of the gateway's ConfigMaps comes from a cache and
  the ReplicaSets from the API server; both are parameters, a list or an error.
\<close>

record ReplicaSet =
  rs_Labels :: "(string, string) gomap"
  rs_Controller :: "(string \<times> string) option"
  rs_Replicas :: "int option"
  rs_StatusReplicas :: int
  rs_Volumes :: "(string \<times> string option) list"

text \<open>\<^verbatim>\<open>client.MatchingLabels\<close>: the object carries every label of the selector.\<close>

definition matches_labels :: "(string, string) gomap \<Rightarrow> (string, string) gomap \<Rightarrow> bool" where
  "matches_labels sel labels \<longleftrightarrow> list_all (\<lambda>(k, v). map_of labels k = Some v) sel"

definition live_mount :: "KrakenDGateway \<Rightarrow> ReplicaSet \<Rightarrow> string list" where
  "live_mount gw rs =
     (case rs_Controller rs of
        None \<Rightarrow> []
      | Some (kind, name) \<Rightarrow>
          if kind \<noteq> ''Deployment'' \<or> name \<noteq> gw_Name gw then []
          else if (case rs_Replicas rs of None \<Rightarrow> 1 | Some n \<Rightarrow> n) = 0 \<and> rs_StatusReplicas rs = 0 then []
          else (let cm = MountedConfigMapName (rs_Volumes rs) in if cm \<noteq> [] then [cm] else []))"

definition liveReplicaSetConfigMaps ::
  "KrakenDGateway \<Rightarrow> string + ReplicaSet list \<Rightarrow> string + string list" where
  "liveReplicaSetConfigMaps gw rss =
     (case rss of
        Inl e \<Rightarrow> Inl (''listing replicasets: '' @ e)
      | Inr sets \<Rightarrow>
          Inr (concat (map (live_mount gw) (filter (\<lambda>rs. matches_labels (SelectorLabels gw) (rs_Labels rs)) sets))))"

definition configMapHistoryLimit :: nat where
  "configMapHistoryLimit = 3"

definition revision_label :: "ConfigMapObj \<Rightarrow> string" where
  "revision_label cm = str_at (cmo_Labels cm) ''krakend.io/config-revision''"

definition compareRevisions :: "ConfigMapObj \<Rightarrow> ConfigMapObj \<Rightarrow> int" where
  "compareRevisions a b =
     (let c = cmp_Compare (cmo_CreationTimestamp b) (cmo_CreationTimestamp a)
      in if c \<noteq> 0 then c else cmp_Compare (cmo_Name a) (cmo_Name b))"

definition revision_less :: "ConfigMapObj \<Rightarrow> ConfigMapObj \<Rightarrow> bool" where
  "revision_less a b \<longleftrightarrow> compareRevisions a b < 0"

fun beyond_history :: "string \<Rightarrow> nat \<Rightarrow> ConfigMapObj list \<Rightarrow> ConfigMapObj list" where
  "beyond_history inUse kept [] = []"
| "beyond_history inUse kept (r # rs) =
     (if cmo_Name r = inUse then beyond_history inUse kept rs
      else if kept < configMapHistoryLimit then beyond_history inUse (Suc kept) rs
      else r # beyond_history inUse kept rs)"

definition is_revision :: "KrakenDGateway \<Rightarrow> string \<Rightarrow> ConfigMapObj \<Rightarrow> bool" where
  "is_revision gw mounted cm \<longleftrightarrow> IsControlledBy cm gw \<and> cmo_Name cm \<noteq> mounted \<and> revision_label cm \<noteq> []"

definition is_legacy :: "KrakenDGateway \<Rightarrow> string \<Rightarrow> string \<Rightarrow> ConfigMapObj \<Rightarrow> bool" where
  "is_legacy gw inUse mounted cm \<longleftrightarrow>
     IsControlledBy cm gw \<and> cmo_Name cm \<noteq> mounted \<and> revision_label cm = [] \<and> cmo_Name cm = gw_Name gw \<and> cmo_Name cm \<noteq> inUse"

definition configMapGCCandidates ::
  "KrakenDGateway \<Rightarrow> ConfigMapObj list \<Rightarrow> string \<Rightarrow> string \<Rightarrow> ConfigMapObj list" where
  "configMapGCCandidates gw cms inUse mounted =
     filter (is_legacy gw inUse mounted) cms @
     beyond_history inUse 1 (sort_by revision_less (filter (is_revision gw mounted) cms))"

fun collect_loop :: "kube_env \<Rightarrow> string list \<Rightarrow> ConfigMapObj list \<Rightarrow> (kube, unit) action" where
  "collect_loop env live [] = returns ()"
| "collect_loop env live (cm # cms) =
     (if cmo_Name cm \<in> set live then collect_loop env live cms
      else andThen (wrap_error (''deleting configmap '' @ cmo_Name cm @ '': '') (kube_delete env (cmo_Name cm) (cmo_UID cm)))
             (\<lambda>_. collect_loop env live cms))"

definition collectConfigMaps ::
  "kube_env \<Rightarrow> string + ConfigMapObj list \<Rightarrow> string + ReplicaSet list \<Rightarrow> KrakenDGateway \<Rightarrow> string \<Rightarrow> string \<Rightarrow>
   (kube, unit) action" where
  "collectConfigMaps env cached rss gw inUse mounted =
     (case cached of
        Inl e \<Rightarrow> fails (''listing config configmaps: '' @ e)
      | Inr items \<Rightarrow>
          (let candidates = configMapGCCandidates gw
                 (filter (\<lambda>cm. matches_labels (SelectorLabels gw) (cmo_Labels cm)) items) inUse mounted
           in if candidates = [] then returns ()
              else (case liveReplicaSetConfigMaps gw rss of
                      Inl e \<Rightarrow> fails e
                    | Inr live \<Rightarrow> collect_loop env live candidates)))"

section \<open>What is collected\<close>

definition revision_key :: "ConfigMapObj \<Rightarrow> int \<times> string" where
  "revision_key cm = (- cmo_CreationTimestamp cm, cmo_Name cm)"

interpretation revisions: keyed_less revision_less revision_key "\<lambda>_. True"
  by unfold_locales
    (auto simp: revision_less_def compareRevisions_def revision_key_def cmp_Compare_def Let_def)

lemma beyond_history_drop:
  "beyond_history inUse kept rs = drop (configMapHistoryLimit - kept) (filter (\<lambda>r. cmo_Name r \<noteq> inUse) rs)"
  by (induction rs arbitrary: kept) (auto simp: Suc_diff_Suc drop_Cons' split: nat.splits)

text \<open>In a strictly ascending list the elements after the first \<open>n\<close> are those above at least \<open>n\<close> others.\<close>

lemma set_drop_sorted:
  assumes "sorted (map key xs)" and "distinct (map key xs)"
  shows "set (drop n xs) = {x \<in> set xs. n \<le> card {y \<in> set xs. key y < (key x :: 'k::linorder)}}"
proof -
  have below: "card {y \<in> set xs. key y < key (xs ! i)} = i" if "i < length xs" for i
  proof -
    have lt: "key (xs ! j) < key (xs ! i) \<longleftrightarrow> j < i" if "j < length xs" for j
      using assms that \<open>i < length xs\<close> by (metis length_map linorder_neqE_nat nth_map order_less_asym sorted_wrt_nth_less
          strict_sorted_iff)
    have "{y \<in> set xs. key y < key (xs ! i)} = (!) xs ` {..<i}"
    proof (intro equalityI subsetI)
      fix y assume "y \<in> {y \<in> set xs. key y < key (xs ! i)}"
      then obtain j where "j < length xs" "y = xs ! j" "key (xs ! j) < key (xs ! i)" by (auto simp: in_set_conv_nth)
      with lt show "y \<in> (!) xs ` {..<i}" by simp
    next
      fix y assume "y \<in> (!) xs ` {..<i}"
      then obtain j where "j < i" "y = xs ! j" by auto
      with lt [of j] that show "y \<in> {y \<in> set xs. key y < key (xs ! i)}" by simp
    qed
    moreover have "inj_on ((!) xs) {..<i}"
      using assms(2) that by (auto simp: inj_on_def nth_eq_iff_index_eq distinct_map)
    ultimately show ?thesis by (simp add: card_image)
  qed
  show ?thesis
  proof (intro equalityI subsetI)
    fix x assume "x \<in> set (drop n xs)"
    then obtain j where "j < length xs - n" "x = xs ! (n + j)" by (auto simp: in_set_conv_nth)
    with below [of "n + j"] show "x \<in> {x \<in> set xs. n \<le> card {y \<in> set xs. key y < key x}}" by simp
  next
    fix x assume "x \<in> {x \<in> set xs. n \<le> card {y \<in> set xs. key y < key x}}"
    then obtain i where "i < length xs" "x = xs ! i" "n \<le> i" using below by (auto simp: in_set_conv_nth)
    then have "x = drop n xs ! (i - n)" "i - n < length (drop n xs)" by simp_all
    then show "x \<in> set (drop n xs)" by (metis nth_mem)
  qed
qed

text \<open>The other revisions of the gateway that are ahead of \<open>cm\<close>, newest first.\<close>

definition newer_revisions ::
  "KrakenDGateway \<Rightarrow> ConfigMapObj list \<Rightarrow> string \<Rightarrow> string \<Rightarrow> ConfigMapObj \<Rightarrow> ConfigMapObj set" where
  "newer_revisions gw cms inUse mounted cm =
     {r \<in> set cms. is_revision gw mounted r \<and> cmo_Name r \<noteq> inUse \<and> revision_less r cm}"

lemma configMapGCCandidates_exact:
  assumes "distinct (map cmo_Name cms)"
  shows "cm \<in> set (configMapGCCandidates gw cms inUse mounted) \<longleftrightarrow>
    cm \<in> set cms \<and> (is_legacy gw inUse mounted cm \<or>
      is_revision gw mounted cm \<and> cmo_Name cm \<noteq> inUse \<and>
      configMapHistoryLimit - 1 \<le> card (newer_revisions gw cms inUse mounted cm))"
proof -
  let ?revs = "filter (is_revision gw mounted) cms" and ?P = "\<lambda>r. cmo_Name r \<noteq> inUse"
  let ?rest = "filter ?P (sort_by revision_less ?revs)"
  have "sorted (map revision_key ?rest)"
    using revisions.sorted_keys [of ?revs] by (simp add: sorted_filter)
  moreover have "distinct (map revision_key ?rest)"
  proof -
    have "distinct cms" and "inj_on cmo_Name (set cms)"
      using assms by (simp_all add: distinct_map)
    then show ?thesis
      by (auto simp: distinct_map inj_on_def revision_key_def)
  qed
  ultimately have "set (drop n ?rest) = {x \<in> set ?rest. n \<le> card {y \<in> set ?rest. revision_key y < revision_key x}}" for n
    by (rule set_drop_sorted)
  moreover have "{y \<in> set ?rest. revision_key y < revision_key cm} = newer_revisions gw cms inUse mounted cm"
    by (auto simp: newer_revisions_def revisions.less_key)
  ultimately show ?thesis
    by (auto simp: configMapGCCandidates_def beyond_history_drop)
qed

section \<open>What is kept\<close>

text \<open>Whoever else writes leaves the ConfigMap \<open>name\<close> as it is.\<close>

definition leaves_alone :: "kube_env \<Rightarrow> string \<Rightarrow> bool" where
  "leaves_alone env name \<longleftrightarrow>
     (\<forall>n m. mwf m \<longrightarrow> mwf (ke_others env n m) \<and> map_of (ke_others env n m) name = map_of m name)"

definition stays :: "string \<Rightarrow> ConfigMapObj \<Rightarrow> kube \<Rightarrow> bool" where
  "stays name cm k \<longleftrightarrow> mwf (kb_maps k) \<and> map_of (kb_maps k) name = Some cm"

lemma kube_delete_stays:
  assumes "leaves_alone env name" and "name' \<noteq> name \<or> cmo_UID cm \<noteq> uid"
  shows "triple (stays name cm) P (kube_delete env name' uid) (\<lambda>_. always)"
  using assms unfolding kube_delete_def leaves_alone_def stays_def
  by (intro triple_andThen [where Q = "\<lambda>_. always"])
    (auto simp: triple_def kube_call_def split: option.splits if_splits)

lemma collect_loop_stays:
  assumes "leaves_alone env name"
    and "\<And>c. c \<in> set cands \<Longrightarrow> cmo_Name c \<in> set live \<or> cmo_Name c \<noteq> name \<or> cmo_UID c \<noteq> cmo_UID cm"
  shows "triple (stays name cm) P (collect_loop env live cands) (\<lambda>_. always)"
  using assms(2)
proof (induction cands arbitrary: P)
  case Nil
  show ?case by (auto intro: triple_returns)
next
  case (Cons c cands)
  have rest: "triple (stays name cm) P' (collect_loop env live cands) (\<lambda>_. always)" for P'
    by (rule Cons.IH) (use Cons.prems in auto)
  have "triple (stays name cm) P' (kube_delete env (cmo_Name c) (cmo_UID c)) (\<lambda>_. always)"
    if "cmo_Name c \<notin> set live" for P'
    by (rule kube_delete_stays [OF assms(1)]) (use Cons.prems [of c] that in auto)
  then show ?case by (auto intro!: rest triple_andThen triple_wrap_error)
qed

lemma candidates_other:
  "c \<in> set (configMapGCCandidates gw cms inUse mounted) \<Longrightarrow>
   c \<in> set cms \<and> cmo_Name c \<noteq> inUse \<and> cmo_Name c \<noteq> mounted \<and> IsControlledBy c gw"
  by (auto simp: configMapGCCandidates_def beyond_history_drop is_legacy_def is_revision_def dest!: in_set_dropD)


section \<open>How much is kept\<close>

definition shrinks :: "cmaps \<Rightarrow> kube \<Rightarrow> bool" where
  "shrinks m k \<longleftrightarrow> mwf (kb_maps k) \<and> map_of (kb_maps k) \<subseteq>\<^sub>m map_of m"

definition gone :: "string set \<Rightarrow> kube \<Rightarrow> bool" where
  "gone names k \<longleftrightarrow> (\<forall>n\<in>names. map_of (kb_maps k) n = None)"

lemma kube_delete_gone:
  assumes "ke_others env = (\<lambda>_ m. m)"
  shows "triple (shrinks m) (gone names) (kube_delete env name uid) (\<lambda>_. gone (insert name names))"
  unfolding kube_delete_def
proof (rule triple_andThen [where Q = "\<lambda>_. gone names"])
  show "triple (shrinks m) (gone names) (kube_call env) (\<lambda>_. gone names)"
    using assms by (simp add: triple_def kube_call_def shrinks_def gone_def)
qed (auto simp: triple_def shrinks_def gone_def map_le_def split: option.splits if_splits)

lemma collect_loop_gone:
  assumes "ke_others env = (\<lambda>_ m. m)"
  shows "triple (shrinks m) (gone names) (collect_loop env live cands)
    (\<lambda>_. gone (names \<union> (cmo_Name ` set cands - set live)))"
proof (induction cands arbitrary: names)
  case Nil
  show ?case by (auto intro: triple_returns)
next
  case (Cons c cands)
  have "triple (shrinks m) (gone (insert (cmo_Name c) names)) (collect_loop env live cands)
      (\<lambda>_. gone (insert (cmo_Name c) (names \<union> (cmo_Name ` set cands - set live))))"
    by (rule triple_post [OF Cons.IH]) (simp add: gone_def)
  then show ?case
    using Cons.IH [of names] by (auto simp: insert_Diff_if intro: triple_andThen triple_wrap_error kube_delete_gone [OF assms])
qed

text \<open>The revisions of the gateway that nothing needs: not applied, not mounted, not live.\<close>

definition unneeded :: "KrakenDGateway \<Rightarrow> string + ReplicaSet list \<Rightarrow> string \<Rightarrow> string \<Rightarrow> kube \<Rightarrow> ConfigMapObj set" where
  "unneeded gw rss inUse mounted k =
     {r \<in> snd ` set (kb_maps k). matches_labels (SelectorLabels gw) (cmo_Labels r) \<and> is_revision gw mounted r \<and>
        cmo_Name r \<noteq> inUse \<and> cmo_Name r \<notin> (case liveReplicaSetConfigMaps gw rss of Inr live \<Rightarrow> set live | Inl _ \<Rightarrow> {})}"

lemma collectConfigMaps_gone:
  assumes "ke_others env = (\<lambda>_ m. m)" and "mwf (kb_maps k)"
    and "collectConfigMaps env (Inr items) rss gw inUse mounted k = (Inr (), k')"
    and "c \<in> set (configMapGCCandidates gw (filter (\<lambda>cm. matches_labels (SelectorLabels gw) (cmo_Labels cm)) items) inUse mounted)"
    and "cmo_Name c \<notin> (case liveReplicaSetConfigMaps gw rss of Inr live \<Rightarrow> set live | Inl _ \<Rightarrow> {})"
  shows "map_of (kb_maps k') (cmo_Name c) = None"
proof -
  let ?cands = "configMapGCCandidates gw (filter (\<lambda>cm. matches_labels (SelectorLabels gw) (cmo_Labels cm)) items) inUse mounted"
  obtain live where l: "liveReplicaSetConfigMaps gw rss = Inr live" and r: "collect_loop env live ?cands k = (Inr (), k')"
    using assms(3,4) by (auto simp: collectConfigMaps_def Let_def fails_def split: if_splits sum.splits)
  have "shrinks (kb_maps k) k" and "gone {} k" using assms(2) by (simp_all add: shrinks_def gone_def)
  from tripleD [OF collect_loop_gone [OF assms(1)] this r] show ?thesis
    using assms(4,5) l by (auto simp: gone_def)
qed

lemma collectConfigMaps_shrinks:
  assumes "ke_others env = (\<lambda>_ m. m)" and "mwf (kb_maps k)"
  shows "shrinks (kb_maps k) (snd (collectConfigMaps env cached rss gw inUse mounted k))"
proof -
  have s: "shrinks (kb_maps k) k" and "gone {} k" using assms(2) by (simp_all add: shrinks_def gone_def)
  then have "shrinks (kb_maps k) (snd (collect_loop env live cands k))" for live cands
    using collect_loop_gone [OF assms(1), of "kb_maps k" "{}" live cands] by (simp add: triple_def)
  with s show ?thesis
    by (auto simp: collectConfigMaps_def Let_def fails_def returns_def split: sum.splits)
qed

text \<open>
  C27: a collection that succeeds on an up-to-date list, with nobody else writing, leaves at most
  two revisions besides the applied one that no Deployment template and no live ReplicaSet mounts.
\<close>

theorem collectConfigMaps_bounded:
  assumes "ke_others env = (\<lambda>_ m. m)" and "mwf (kb_maps k)"
    and "\<And>n cm. map_of (kb_maps k) n = Some cm \<Longrightarrow> cmo_Name cm = n"
    and "collectConfigMaps env (Inr (map snd (kb_maps k))) rss gw inUse mounted k = (Inr (), k')"
  shows "card (unneeded gw rss inUse mounted k') \<le> configMapHistoryLimit - 1"
proof -
  let ?cms = "filter (\<lambda>cm. matches_labels (SelectorLabels gw) (cmo_Labels cm)) (map snd (kb_maps k))"
  let ?rest = "filter (\<lambda>r. cmo_Name r \<noteq> inUse) (sort_by revision_less (filter (is_revision gw mounted) ?cms))"
  have sh: "shrinks (kb_maps k) k'"
    using collectConfigMaps_shrinks [OF assms(1,2), of "Inr (map snd (kb_maps k))" rss gw inUse mounted] assms(4) by simp
  have "r \<in> set (take (configMapHistoryLimit - 1) ?rest)" if "r \<in> unneeded gw rss inUse mounted k'" for r
  proof -
    from that obtain n where n: "(n, r) \<in> set (kb_maps k')" by (auto simp: unneeded_def)
    then have m': "map_of (kb_maps k') n = Some r"
      using sh map_of_is_SomeI [OF mwf_distinct] by (auto simp: shrinks_def)
    then have m: "map_of (kb_maps k) n = Some r" using sh by (auto simp: shrinks_def map_le_def dom_def)
    with assms(3) have "cmo_Name r = n" by simp
    with m' have "r \<notin> set (configMapGCCandidates gw ?cms inUse mounted)"
      using collectConfigMaps_gone [OF assms(1,2,4)] that by (auto simp: unneeded_def)
    then have "r \<notin> set (drop (configMapHistoryLimit - 1) ?rest)"
      by (simp add: configMapGCCandidates_def beyond_history_drop)
    moreover have "r \<in> set ?rest"
      using that map_of_SomeD [OF m] by (force simp: unneeded_def)
    ultimately show ?thesis by (metis Un_iff append_take_drop_id set_append)
  qed
  then have "card (unneeded gw rss inUse mounted k') \<le> card (set (take (configMapHistoryLimit - 1) ?rest))"
    by (intro card_mono) auto
  also have "\<dots> \<le> configMapHistoryLimit - 1"
    by (rule order_trans [OF card_length]) simp
  finally show ?thesis .
qed

text \<open>Four revisions, of which the first is applied.\<close>

definition ex_revision :: "string \<Rightarrow> int \<Rightarrow> ConfigMapObj" where
  "ex_revision n t =
     (new_cm n ex_cm_gw)\<lparr>cmo_UID := n, cmo_CreationTimestamp := t,
        cmo_Labels := mput ''krakend.io/config-revision'' n (StandardLabels ex_cm_gw)\<rparr>"

definition ex_revisions :: kube where
  "ex_revisions = ex_kube\<lparr>kb_maps := [(''a'', ex_revision ''a'' 1), (''b'', ex_revision ''b'' 2),
     (''c'', ex_revision ''c'' 3), (''d'', ex_revision ''d'' 4)]\<rparr>"

lemmas ex_gc_defs = ex_revisions_def ex_revision_def ex_kube_def ex_kube_env_def ex_cm_gw_def new_cm_def

lemma ex_collect:
  "collectConfigMaps ex_kube_env (Inr (map snd (kb_maps ex_revisions))) (Inr []) ex_cm_gw ''a'' ''a'' ex_revisions =
   (Inr (), ex_revisions\<lparr>kb_maps := [(''a'', ex_revision ''a'' 1), (''c'', ex_revision ''c'' 3), (''d'', ex_revision ''d'' 4)],
      kb_calls := 1\<rparr>)"
  by code_simp


theorem collectConfigMaps_bounded_witness:
  "card (unneeded ex_cm_gw (Inr []) ''a'' ''a'' (snd (collectConfigMaps ex_kube_env (Inr (map snd (kb_maps ex_revisions)))
     (Inr []) ex_cm_gw ''a'' ''a'' ex_revisions))) \<le> configMapHistoryLimit - 1"
proof (rule collectConfigMaps_bounded)
  show "ke_others ex_kube_env = (\<lambda>_ m. m)" by (simp add: ex_kube_env_def)
  show "mwf (kb_maps ex_revisions)" by (simp add: ex_revisions_def mwf_def)
  show "collectConfigMaps ex_kube_env (Inr (map snd (kb_maps ex_revisions))) (Inr []) ex_cm_gw ''a'' ''a'' ex_revisions =
      (Inr (), snd (collectConfigMaps ex_kube_env (Inr (map snd (kb_maps ex_revisions))) (Inr []) ex_cm_gw ''a'' ''a''
        ex_revisions))"
    by (simp add: ex_collect)
  show "cmo_Name cm = n" if "map_of (kb_maps ex_revisions) n = Some cm" for n cm
    using that by (auto simp: ex_gc_defs split: if_splits)
qed

end
