(* ===== verification/ConfigApply.thy ===== *)
theory ConfigApply
  imports ConfigGC
begin

text \<open>
  The config stage of a gateway pass: which render becomes the applied config, when the status
  records it and which ConfigMap the Deployment mounts
  (\<^verbatim>\<open>controller/krakendgateway_controller.go\<close> and \<^verbatim>\<open>controller/gateway_config.go\<close>).

  A pass works on its own copy \<open>pa_gw\<close> of the gateway, read from a cache at resource version
  \<open>pa_version\<close>; the stored status and its version are \<open>pa_stored\<close> and \<open>pa_storedVersion\<close>. A status
  update fails when the versions differ or when \<open>ae_update\<close> says so.
\<close>

section \<open>The state of a pass\<close>

record pass_state =
  pa_gw :: KrakenDGateway
  pa_version :: nat
  pa_kube :: kube
  pa_verdicts :: verdictMemo
  pa_runs :: nat
  pa_rejected :: nat
  pa_stored :: KrakenDGatewayStatus
  pa_storedVersion :: nat

record api_env =
  ae_kube :: kube_env
  ae_update :: "string option"
  ae_live :: "string option"

record configResult =
  cr_appliedConfigMap :: string
  cr_heldBecause :: "string option"
  cr_output :: "RenderOutput option"
  cr_served :: bool
  cr_excluded :: excluded
  cr_judged :: bool

definition no_result :: configResult where
  "no_result = \<lparr>cr_appliedConfigMap = [], cr_heldBecause = None, cr_output = None, cr_served = False,
     cr_excluded = [], cr_judged = False\<rparr>"

type_synonym 'a outcome = "('a \<times> string option) \<times> pass_state"

text \<open>Calls that touch ConfigMaps, and changes of the gateway with the events they record.\<close>

definition in_kube :: "(kube, 'a) action \<Rightarrow> pass_state \<Rightarrow> (string + 'a) \<times> pass_state" where
  "in_kube act p = (case act (pa_kube p) of (r, k) \<Rightarrow> (r, p\<lparr>pa_kube := k\<rparr>))"

definition on_gw :: "(gw_events \<Rightarrow> gw_events) \<Rightarrow> pass_state \<Rightarrow> pass_state" where
  "on_gw f p =
     (case f (pa_gw p, kb_events (pa_kube p)) of
        (gw, events) \<Rightarrow> p\<lparr>pa_gw := gw, pa_kube := (pa_kube p)\<lparr>kb_events := events\<rparr>\<rparr>)"

text \<open>\<^verbatim>\<open>errors.Join\<close>\<close>

definition join_errors :: "string option list \<Rightarrow> string option" where
  "join_errors errs = (let es = map the (filter (\<lambda>e. e \<noteq> None) errs) in if es = [] then None else Some (Join es [CHR 0x0A]))"

section \<open>Verdicts in the status\<close>

definition handleValidationError ::
  "KrakenDGatewayStatus \<Rightarrow> string \<Rightarrow> string \<Rightarrow> gw_events \<Rightarrow> gw_events" where
  "handleValidationError prior reason message0 = (\<lambda>(gw, events).
     (let message = truncateMessage message0; prev = FindStatusCondition (gst_Conditions prior) ''ConfigValid''
      in (set_condition (gw_cond gw ''ConfigValid'' ConditionFalse reason message) gw,
          events @ (case prev of
                      None \<Rightarrow> [warning reason message]
                    | Some c \<Rightarrow>
                        if cond_Status c \<noteq> ConditionFalse \<or> cond_Reason c \<noteq> reason \<or> cond_Message c \<noteq> message
                        then [warning reason message] else []))))"

definition recordConfigUnjudged ::
  "KrakenDGatewayStatus \<Rightarrow> string \<Rightarrow> string \<Rightarrow> gw_events \<Rightarrow> gw_events" where
  "recordConfigUnjudged prior reason message0 = (\<lambda>(gw, events).
     (let message = truncateMessage message0; prev = FindStatusCondition (gst_Conditions prior) ''ConfigValid''
      in (set_condition (gw_cond gw ''ConfigValid'' ConditionUnknown reason message) gw,
          events @ (case prev of
                      None \<Rightarrow> [warning reason message]
                    | Some c \<Rightarrow> if cond_Reason c \<noteq> reason then [warning reason message] else []))))"

definition handleValidatorUnavailable ::
  "KrakenDGatewayStatus \<Rightarrow> string \<Rightarrow> pass_state \<Rightarrow> string \<times> pass_state" where
  "handleValidatorUnavailable prior cause p =
     (''validating config: '' @ cause,
      on_gw (recordConfigUnjudged prior ''ValidatorUnavailable''
        (''config validator unavailable, retrying: '' @ cause)) p)"

definition handleConfigPublishFailed ::
  "KrakenDGatewayStatus \<Rightarrow> string \<Rightarrow> pass_state \<Rightarrow> string \<times> pass_state" where
  "handleConfigPublishFailed prior cause p =
     (''publishing config: '' @ cause,
      on_gw (recordConfigUnjudged prior ''ConfigPublishFailed''
        (''the newest config passed validation but its ConfigMap could not be published, retrying: '' @ cause)) p)"

section \<open>The applied config\<close>

definition publishApplied :: "api_env \<Rightarrow> RenderOutput \<Rightarrow> pass_state \<Rightarrow> configResult outcome" where
  "publishApplied env output p =
     (case in_kube (publishConfig (ae_kube env) (pa_gw p) (out_JSON output) (out_Checksum output)) p of
        (Inl e, p') \<Rightarrow> ((no_result\<lparr>cr_heldBecause := Some e\<rparr>, Some e), p')
      | (Inr _, p') \<Rightarrow>
          ((no_result\<lparr>cr_appliedConfigMap := ConfigMapName (pa_gw p) (out_Checksum output)\<rparr>, None), p'))"

definition legacyConfig :: "kube_env \<Rightarrow> KrakenDGateway \<Rightarrow> (kube, string option) action" where
  "legacyConfig env gw =
     andThen (kube_get env (gw_Name gw)) (\<lambda>found.
       case found of
         None \<Rightarrow> returns None
       | Some cm \<Rightarrow>
           if \<not> IsControlledBy cm gw then returns None
           else returns (Some (str_at (cmo_Data cm) ''krakend.json'')))"

definition appliedConfigMapName :: "kube_env \<Rightarrow> KrakenDGateway \<Rightarrow> (kube, string) action" where
  "appliedConfigMapName env gw =
     (let applied = gst_ConfigChecksum (gw_Status gw); name = ConfigMapName gw applied
      in if applied = [] then returns []
         else andThen (verifyExistingConfigMap env gw applied) (\<lambda>found.
           if found then returns name
           else andThen (legacyConfig env gw) (\<lambda>legacy.
             case legacy of
               None \<Rightarrow> returns []
             | Some js \<Rightarrow>
                 if SHA256Hex js \<noteq> applied then returns []
                 else andThen (publishConfig env gw js applied) (\<lambda>_. returns name))))"

definition keepApplied :: "api_env \<Rightarrow> string option \<Rightarrow> pass_state \<Rightarrow> configResult outcome" where
  "keepApplied env verdictErr p =
     (case in_kube (appliedConfigMapName (ae_kube env) (pa_gw p)) p of
        (Inl e, p') \<Rightarrow> ((no_result\<lparr>cr_heldBecause := Some e\<rparr>, join_errors [verdictErr, Some e]), p')
      | (Inr name, p') \<Rightarrow> ((no_result\<lparr>cr_appliedConfigMap := name\<rparr>, join_errors [verdictErr]), p'))"

definition markConfigApplied :: "string \<Rightarrow> Edition \<Rightarrow> KrakenDGateway \<Rightarrow> KrakenDGateway" where
  "markConfigApplied checksum edition gw =
     setConfigApplied (gw\<lparr>gw_Status := (gw_Status gw)\<lparr>gst_ConfigChecksum := checksum, gst_ConfigEdition := Some edition\<rparr>\<rparr>)"

definition restoreCondition :: "KrakenDGatewayStatus \<Rightarrow> string \<Rightarrow> KrakenDGateway \<Rightarrow> KrakenDGateway" where
  "restoreCondition prior condType gw =
     (case FindStatusCondition (gst_Conditions prior) condType of
        Some c \<Rightarrow> set_condition c gw
      | None \<Rightarrow> with_conditions (RemoveStatusCondition condType) gw)"

text \<open>\<^verbatim>\<open>r.Status().Update\<close> of a copy of the gateway: the error, or the stored status and its version.\<close>

definition status_update :: "api_env \<Rightarrow> KrakenDGatewayStatus \<Rightarrow> pass_state \<Rightarrow> string option \<times> pass_state" where
  "status_update env st p =
     (case ae_update env of
        Some e \<Rightarrow> (Some e, p)
      | None \<Rightarrow>
          if pa_version p \<noteq> pa_storedVersion p
          then (Some ''the object has been modified; please apply your changes to the latest version and try again'', p)
          else (None, p\<lparr>pa_stored := st, pa_storedVersion := Suc (pa_storedVersion p),
                       pa_version := Suc (pa_storedVersion p)\<rparr>))"

definition recordApplied ::
  "api_env \<Rightarrow> KrakenDGatewayStatus \<Rightarrow> string \<Rightarrow> Edition \<Rightarrow> pass_state \<Rightarrow> string option \<times> pass_state" where
  "recordApplied env before checksum edition p =
     (let prior = gw_Status (pa_gw p); gw1 = markConfigApplied checksum edition (pa_gw p);
          stored = setGatewayReadiness (gst_ObservedGeneration before) (raiseProgressing (Some configRolloutNote) gw1)
      in case status_update env (gw_Status stored) p of
           (Some e, p') \<Rightarrow>
             (let gw2 = gw1\<lparr>gw_Status := (gw_Status gw1)\<lparr>gst_ConfigChecksum := gst_ConfigChecksum prior,
                                gst_ConfigEdition := gst_ConfigEdition prior\<rparr>\<rparr>
              in (Some (''recording applied config '' @ checksum @ '': '' @ e),
                  p'\<lparr>pa_gw := restoreCondition prior ''ConfigValid'' gw2\<rparr>))
         | (None, p') \<Rightarrow> (None, p'\<lparr>pa_gw := gw1\<rparr>))"

definition serveApplied ::
  "api_env \<Rightarrow> KrakenDGatewayStatus \<Rightarrow> RenderOutput \<Rightarrow> Edition \<Rightarrow> excluded \<Rightarrow> pass_state \<Rightarrow> configResult outcome" where
  "serveApplied env before output edition ex p =
     (let gw1 = (pa_gw p)\<lparr>gw_Status := (gw_Status (pa_gw p))\<lparr>gst_ConfigEdition := Some edition\<rparr>\<rparr>
      in case publishApplied env output (p\<lparr>pa_gw := gw1\<rparr>) of
           ((res0, err), p1) \<Rightarrow>
             (let res = res0\<lparr>cr_output := Some output, cr_excluded := ex, cr_judged := True, cr_served := True\<rparr>
              in case err of
                   Some e \<Rightarrow> (case handleConfigPublishFailed before e p1 of (err2, p2) \<Rightarrow> ((res, Some err2), p2))
                 | None \<Rightarrow> ((res, None), p1\<lparr>pa_gw := setConfigApplied (pa_gw p1)\<rparr>)))"

definition run_decide ::
  "Checker \<Rightarrow> RenderInput \<Rightarrow> RenderOutput \<Rightarrow> Edition \<Rightarrow> pass_state \<Rightarrow> (string + decision) \<times> pass_state" where
  "run_decide ck inp full edition p =
     (case decide ck (pa_gw p) inp full edition (pa_verdicts p) (pa_runs p) of
        (r, m, rejected, runs) \<Rightarrow>
          (r, p\<lparr>pa_verdicts := m, pa_rejected := pa_rejected p + rejected, pa_runs := runs\<rparr>))"

definition with_decision :: "RenderOutput \<Rightarrow> decision \<Rightarrow> configResult outcome \<Rightarrow> configResult outcome" where
  "with_decision output d = (\<lambda>((res, err), p).
     ((res\<lparr>cr_output := Some output, cr_excluded := de_excluded d, cr_judged := de_judged d\<rparr>, err), p))"

definition apply_new ::
  "api_env \<Rightarrow> KrakenDGatewayStatus \<Rightarrow> RenderOutput \<Rightarrow> Edition \<Rightarrow> decision \<Rightarrow> RenderOutput \<Rightarrow> pass_state \<Rightarrow>
   configResult outcome" where
  "apply_new env before full edition d out p =
     (case in_kube (publishConfig (ae_kube env) (pa_gw p) (out_JSON out) (out_Checksum out)) p of
        (Inl e, p1) \<Rightarrow>
          (case handleConfigPublishFailed before e p1 of
             (err, p2) \<Rightarrow> with_decision full d (keepApplied env (Some err) p2))
      | (Inr _, p1) \<Rightarrow>
          (case recordApplied env before (out_Checksum out) edition p1 of
             (Some e, p2) \<Rightarrow> with_decision full d (keepApplied env (Some e) p2)
           | (None, p2) \<Rightarrow>
               ((\<lparr>cr_appliedConfigMap = ConfigMapName (pa_gw p2) (out_Checksum out), cr_heldBecause = None,
                  cr_output = Some out, cr_served = True, cr_excluded = de_excluded d, cr_judged = de_judged d\<rparr>, None), p2)))"

definition reconcileConfig ::
  "Checker \<Rightarrow> api_env \<Rightarrow> KrakenDGatewayStatus \<Rightarrow> RenderInput \<Rightarrow> RenderOutput \<Rightarrow> Edition \<Rightarrow> pass_state \<Rightarrow>
   configResult outcome" where
  "reconcileConfig ck env before inp output edition p =
     (case run_decide ck inp output edition p of
        (Inl cause, p1) \<Rightarrow>
          (case handleValidatorUnavailable before cause p1 of
             (err, p2) \<Rightarrow>
               (case keepApplied env (Some err) p2 of ((res, e), p3) \<Rightarrow> ((res\<lparr>cr_output := Some output\<rparr>, e), p3)))
      | (Inr d, p1) \<Rightarrow>
          (case de_failure d of
             Some f \<Rightarrow>
               with_decision output d
                 (keepApplied env None (on_gw (handleValidationError before (gf_reason f) (gf_message f)) p1))
           | None \<Rightarrow>
               (case de_output d of
                  None \<Rightarrow> ((no_result, Some ''nil pointer dereference''), p1)
                | Some out \<Rightarrow>
                    if isApplied (pa_gw p1) out edition
                    then serveApplied env before out edition (de_excluded d) p1
                    else apply_new env before output edition d out p1)))"

text \<open>The guard of a pass that applies nothing against a cached gateway behind the stored one.\<close>

record deployedChecksums =
  dc_config :: string
  dc_license :: string
  dc_configMap :: string
  dc_foreign :: bool

definition confirmStoredConfig ::
  "api_env \<Rightarrow> deployedChecksums \<Rightarrow> configResult \<Rightarrow> pass_state \<Rightarrow> string option" where
  "confirmStoredConfig env deployed cfg p =
     (let cached = gst_ConfigChecksum (gw_Status (pa_gw p)); key = nn_String (gw_key (pa_gw p))
      in if cr_served cfg \<or> cr_appliedConfigMap cfg = [] then None
         else if dc_config deployed = [] \<or> dc_config deployed = cached then None
         else (case ae_live env of
                 Some e \<Rightarrow> Some (''confirming the applied config of gateway '' @ key @ '': '' @ e)
               | None \<Rightarrow>
                   if gst_ConfigChecksum (pa_stored p) \<noteq> cached
                   then Some (''the cached gateway is behind its stored status: gateway '' @ key)
                   else None))"

definition neverApplied :: "api_env \<Rightarrow> pass_state \<Rightarrow> bool \<times> string option" where
  "neverApplied env p =
     (if gst_ConfigChecksum (gw_Status (pa_gw p)) \<noteq> [] then (False, None)
      else (case ae_live env of
              Some e \<Rightarrow>
                (False, Some (''confirming gateway '' @ nn_String (gw_key (pa_gw p)) @ '' has no applied config: '' @ e))
            | None \<Rightarrow> (gst_ConfigChecksum (pa_stored p) = [], None)))"

section \<open>Notes and status writes\<close>

definition reportConfigRollout :: "gw_events \<Rightarrow> rolloutNote \<times> gw_events" where
  "reportConfigRollout = (\<lambda>(gw, events).
     (configRolloutNote,
      (gw, events @ [normal ''ConfigDeployed'' (''Configuration updated, checksum: '' @ gst_ConfigChecksum (gw_Status gw))])))"

definition markDeploymentUpdate :: "KrakenDGateway \<Rightarrow> string \<Rightarrow> string \<Rightarrow> bool \<Rightarrow> rolloutNote option" where
  "markDeploymentUpdate gw img pluginChecksum licenseChanged =
     (if gst_ConfigChecksum (gw_Status gw) = [] then None
      else (let imageChanged = (img \<noteq> gst_ActiveImage (gw_Status gw));
                pluginChanged = (pluginChecksum \<noteq> [] \<and> pluginChecksum \<noteq> gst_PluginChecksum (gw_Status gw))
            in if \<not> imageChanged \<and> \<not> pluginChanged \<and> \<not> licenseChanged then None
               else Some (''DeploymentUpdated'', ''Deployment updated for image, plugin or license change'')))"

definition noteRollout ::
  "infraInputs \<Rightarrow> deployedChecksums \<Rightarrow> bool \<Rightarrow> bool \<Rightarrow> gw_events \<Rightarrow> rolloutNote option \<times> gw_events" where
  "noteRollout inp deployed configChanged saControlled = (\<lambda>(gw, events).
     if \<not> saControlled \<or> ii_missingPlugins inp \<noteq> [] then (None, (gw, events))
     else if configChanged then (case reportConfigRollout (gw, events) of (n, ge) \<Rightarrow> (Some n, ge))
     else if ii_configMapName inp \<noteq> []
     then (markDeploymentUpdate gw (ii_image inp) (ii_pluginChecksum inp) (ii_licenseChecksum inp \<noteq> dc_license deployed),
           (gw, events))
     else (None, (gw, events)))"

definition setPluginsResolved :: "string list \<Rightarrow> gw_events \<Rightarrow> gw_events" where
  "setPluginsResolved missing = (\<lambda>(gw, events).
     (let sources = (case gs_Plugins (gw_Spec gw) of None \<Rightarrow> [] | Some s \<Rightarrow> s);
          hasConfigMapSources = list_ex (\<lambda>src. ps_ConfigMapRef src \<noteq> None) sources
      in if \<not> hasConfigMapSources then (with_conditions (RemoveStatusCondition ''PluginsResolved'') gw, events)
         else if missing \<noteq> []
         then setConditionWithEvent (gw_cond gw ''PluginsResolved'' ConditionFalse ''ConfigMapNotFound''
                (''plugin ConfigMap(s) '' @ Join missing '', '' @ '' not found in namespace '' @ gw_Namespace gw @
                 ''; the Deployment is held until they exist'')) (gw, events)
         else setConditionWithEvent (gw_cond gw ''PluginsResolved'' ConditionTrue ''ConfigMapsFound''
                ''every plugin ConfigMap exists'') (gw, events)))"

definition gatewayStatusChanged :: "KrakenDGatewayStatus \<Rightarrow> KrakenDGatewayStatus \<Rightarrow> bool" where
  "gatewayStatusChanged before after \<longleftrightarrow>
     (if \<not> conditionsEqual (gst_Conditions before) (gst_Conditions after) then True
      else before\<lparr>gst_Conditions := []\<rparr> \<noteq> after\<lparr>gst_Conditions := []\<rparr>)"

definition updateStatusIfChanged :: "api_env \<Rightarrow> KrakenDGatewayStatus \<Rightarrow> pass_state \<Rightarrow> string option \<times> pass_state" where
  "updateStatusIfChanged env before p =
     (if \<not> gatewayStatusChanged before (gw_Status (pa_gw p)) then (None, p)
      else status_update env (gw_Status (pa_gw p)) p)"

section \<open>What the stage does to the status\<close>

abbreviation applied_of :: "pass_state \<Rightarrow> string" where
  "applied_of p \<equiv> gst_ConfigChecksum (gw_Status (pa_gw p))"

text \<open>Only the status of a gateway changes in a pass, and nothing about its ConfigMaps depends on it.\<close>

lemma status_irrelevant [simp]:
  "ConfigMapName (gw\<lparr>gw_Status := s\<rparr>) c = ConfigMapName gw c" "gw_key (gw\<lparr>gw_Status := s\<rparr>) = gw_key gw"
  "holds_config (gw\<lparr>gw_Status := s\<rparr>) c k = holds_config gw c k"
  "publish_inv content (gw\<lparr>gw_Status := s\<rparr>) C k = publish_inv content gw C k"
  "no_collision (gw\<lparr>gw_Status := s\<rparr>) C = no_collision gw C"
  by (simp_all add: ConfigMapName_def gw_key_def holds_config_def publish_inv_def no_collision_def inj_on_def)

lemma publish_inv_events [simp]: "publish_inv content gw C (k\<lparr>kb_events := e\<rparr>) = publish_inv content gw C k"
  by (simp add: publish_inv_def)

lemma holds_config_events [simp]: "holds_config gw c (k\<lparr>kb_events := e\<rparr>) = holds_config gw c k"
  by (simp add: holds_config_def)

text \<open>
  \<open>on_object gw C p\<close>: the pass works on \<open>gw\<close> with some status, its applied config is one of \<open>C\<close> and
  the ConfigMaps and the memo are consistent.
\<close>

definition on_object :: "(configMapVersion \<Rightarrow> string) \<Rightarrow> KrakenDGateway \<Rightarrow> string set \<Rightarrow> pass_state \<Rightarrow> bool" where
  "on_object content gw C p \<longleftrightarrow>
     (\<exists>s. pa_gw p = gw\<lparr>gw_Status := s\<rparr>) \<and> applied_of p \<in> C \<and> publish_inv content gw C (pa_kube p)"

definition deployable :: "KrakenDGateway \<Rightarrow> configResult \<Rightarrow> pass_state \<Rightarrow> bool" where
  "deployable gw res p \<longleftrightarrow>
     (cr_appliedConfigMap res \<noteq> [] \<longrightarrow>
        cr_appliedConfigMap res = ConfigMapName gw (applied_of p) \<and> holds_config gw (applied_of p) (pa_kube p))"

text \<open>\<open>unrecorded p p'\<close>: no other config became the applied one, in memory or stored.\<close>

definition unrecorded :: "pass_state \<Rightarrow> pass_state \<Rightarrow> bool" where
  "unrecorded p p' \<longleftrightarrow>
     applied_of p' = applied_of p \<and> pa_stored p' = pa_stored p \<and> pa_version p' = pa_version p \<and>
     pa_storedVersion p' = pa_storedVersion p"

lemma unrecorded_trans: "unrecorded p p' \<Longrightarrow> unrecorded p' p'' \<Longrightarrow> unrecorded p p''"
  by (simp add: unrecorded_def)

lemma legacyConfig_triple:
  "env_ok content env \<Longrightarrow> triple (publish_inv content gw C) P (legacyConfig env gw') (\<lambda>_. always)"
  unfolding legacyConfig_def
  by (rule triple_andThen [OF kube_get_triple]) (auto intro: triple_returns split: option.split)

lemma appliedConfigMapName_triple:
  assumes "env_ok content env" and "no_collision gw C" and "gst_ConfigChecksum (gw_Status gw) \<in> C"
  shows "triple (publish_inv content gw C) P (appliedConfigMapName env gw)
    (\<lambda>name k. name \<noteq> [] \<longrightarrow>
       name = ConfigMapName gw (gst_ConfigChecksum (gw_Status gw)) \<and> holds_config gw (gst_ConfigChecksum (gw_Status gw)) k)"
  unfolding appliedConfigMapName_def Let_def
  by (auto intro!: triple_returns triple_andThen [OF verifyExistingConfigMap_triple [OF assms]]
      triple_andThen [OF legacyConfig_triple [OF assms(1)]] triple_andThen [OF publishConfig_triple [OF assms]]
      split: option.split)

lemma keepApplied_post:
  assumes "env_ok content (ae_kube env)" and "no_collision gw C" and "on_object content gw C p"
    and "keepApplied env e p = ((res, err), p')"
  shows "deployable gw res p' \<and> on_object content gw C p' \<and> unrecorded p p' \<and> \<not> cr_served res"
proof -
  from assms(3) obtain s where g: "pa_gw p = gw\<lparr>gw_Status := s\<rparr>" and c: "applied_of p \<in> C"
    and i: "publish_inv content (pa_gw p) C (pa_kube p)"
    by (auto simp: on_object_def)
  have n: "no_collision (pa_gw p) C" using assms(2) g by simp
  note t = appliedConfigMapName_triple [OF assms(1) n c, of always]
  obtain r k where k: "appliedConfigMapName (ae_kube env) (pa_gw p) (pa_kube p) = (r, k)" by force
  have inv: "publish_inv content gw C k" using triple_keeps [OF t i _ k] g by simp
  show ?thesis
  proof (cases r)
    case (Inl x)
    with assms(4) k inv g c show ?thesis
      by (auto simp: keepApplied_def in_kube_def no_result_def deployable_def on_object_def unrecorded_def)
  next
    case (Inr name)
    with tripleD [OF t i] k have "name \<noteq> [] \<longrightarrow> name = ConfigMapName (pa_gw p) (applied_of p) \<and> holds_config (pa_gw p) (applied_of p) k"
      by simp
    with assms(4) k inv g c Inr show ?thesis
      by (auto simp: keepApplied_def in_kube_def no_result_def deployable_def on_object_def unrecorded_def)
  qed
qed

text \<open>Steps that only set a condition.\<close>

lemma set_condition_object: "\<exists>s. set_condition c (gw\<lparr>gw_Status := s0\<rparr>) = gw\<lparr>gw_Status := s\<rparr>"
  by (auto simp: set_condition_def with_conditions_def)

lemma set_condition_checksum [simp]:
  "gst_ConfigChecksum (gw_Status (set_condition c gw)) = gst_ConfigChecksum (gw_Status gw)"
  by (simp add: set_condition_def with_conditions_def)

lemma condition_step:
  assumes "\<And>gw events. \<exists>c events'. f (gw, events) = (set_condition c gw, events')" and "on_object content gw C p"
  shows "on_object content gw C (on_gw f p) \<and> unrecorded p (on_gw f p)"
proof -
  obtain c events where f: "f (pa_gw p, kb_events (pa_kube p)) = (set_condition c (pa_gw p), events)"
    using assms(1) by blast
  with assms(2) show ?thesis
    using set_condition_object by (auto simp: on_object_def on_gw_def unrecorded_def)
qed

lemma verdict_steps:
  "\<exists>c ev'. handleValidationError prior reason msg (gw, ev) = (set_condition c gw, ev')"
  "\<exists>c ev'. recordConfigUnjudged prior reason msg (gw, ev) = (set_condition c gw, ev')"
  by (auto simp: handleValidationError_def recordConfigUnjudged_def Let_def)

lemma publishFailed_step:
  assumes "handleConfigPublishFailed prior e p = (err, p')" and "on_object content gw C p"
  shows "on_object content gw C p' \<and> unrecorded p p'"
  using condition_step [of "recordConfigUnjudged prior _ _", OF verdict_steps(2) assms(2)] assms(1)
  by (auto simp: handleConfigPublishFailed_def)

lemma unavailable_step:
  assumes "handleValidatorUnavailable prior e p = (err, p')" and "on_object content gw C p"
  shows "on_object content gw C p' \<and> unrecorded p p'"
  using condition_step [of "recordConfigUnjudged prior _ _", OF verdict_steps(2) assms(2)] assms(1)
  by (auto simp: handleValidatorUnavailable_def)

lemma publish_step:
  assumes "env_ok content (ae_kube env)" and "no_collision gw C" and "on_object content gw C p"
    and "c \<in> C" and "SHA256Hex js = c" and "in_kube (publishConfig (ae_kube env) (pa_gw p) js c) p = (r, p')"
  shows "on_object content gw C p' \<and> unrecorded p p' \<and> pa_gw p' = pa_gw p \<and> (r = Inr () \<longrightarrow> holds_config gw c (pa_kube p'))"
proof -
  from assms(3) obtain s where g: "pa_gw p = gw\<lparr>gw_Status := s\<rparr>" and a: "applied_of p \<in> C"
    and i: "publish_inv content (pa_gw p) C (pa_kube p)"
    by (auto simp: on_object_def)
  have n: "no_collision (pa_gw p) C" using assms(2) g by simp
  note t = publishConfig_triple [OF assms(1) n assms(4,5), of always]
  obtain r' k where k: "publishConfig (ae_kube env) (pa_gw p) js c (pa_kube p) = (r', k)" by force
  have "publish_inv content gw C k" using triple_keeps [OF t i _ k] g by simp
  moreover have "holds_config gw c k" if "r' = Inr ()" using tripleD [OF t i] k that g by simp
  ultimately show ?thesis
    using assms(6) k g a by (auto simp: in_kube_def on_object_def unrecorded_def)
qed

definition stored_ready :: "pass_state \<Rightarrow> bool" where
  "stored_ready p \<longleftrightarrow> condTrue (FindStatusCondition (gst_Conditions (pa_stored p)) ''Ready'')"

lemma restoreCondition_object: "\<exists>s. restoreCondition prior t (gw\<lparr>gw_Status := s0\<rparr>) = gw\<lparr>gw_Status := s\<rparr>"
  by (auto simp: restoreCondition_def set_condition_def with_conditions_def split: option.splits)

lemma restoreCondition_checksum [simp]:
  "gst_ConfigChecksum (gw_Status (restoreCondition prior t gw)) = gst_ConfigChecksum (gw_Status gw)"
  by (simp add: restoreCondition_def with_conditions_def split: option.splits)

lemma markConfigApplied_object: "\<exists>s. markConfigApplied c e (gw\<lparr>gw_Status := s0\<rparr>) = gw\<lparr>gw_Status := s\<rparr>"
  by (auto simp: markConfigApplied_def setConfigApplied_def set_condition_def with_conditions_def)

lemma markConfigApplied_checksum [simp]: "gst_ConfigChecksum (gw_Status (markConfigApplied c e gw)) = c"
  by (simp add: markConfigApplied_def setConfigApplied_def)

text \<open>The status written when a rollout begins is not Ready.\<close>

lemma rollout_status:
  fixes gw n rn
  defines "st \<equiv> gw_Status (setGatewayReadiness n (raiseProgressing (Some rn) gw))"
  shows "gst_ConfigChecksum st = gst_ConfigChecksum (gw_Status gw) \<and>
    \<not> condTrue (FindStatusCondition (gst_Conditions st) ''Ready'')"
proof -
  let ?gw = "raiseProgressing (Some rn) gw"
  have "condTrue (FindStatusCondition (gw_conditions ?gw) ''Progressing'')"
    by (simp add: raiseProgressing_def Let_def set_condition_def with_conditions_def gw_conditions_def condTrue_def gw_cond_def)
  then have "gr_status (gatewayReadinessFor (gw_conditions ?gw)) \<noteq> ConditionTrue"
    using ready_needs by blast
  then show ?thesis
    unfolding st_def
    by (simp add: setGatewayReadiness_def Let_def with_conditions_def gw_conditions_def setReadyCondition_def condTrue_def
        raiseProgressing_def)
qed

lemma recordApplied_failed:
  assumes "recordApplied env before c ed p = (Some e, p')" and "on_object content gw C p"
  shows "on_object content gw C p' \<and> unrecorded p p'"
proof -
  from assms(2) obtain s where g: "pa_gw p = gw\<lparr>gw_Status := s\<rparr>" by (auto simp: on_object_def)
  obtain s' where m: "markConfigApplied c ed (pa_gw p) = gw\<lparr>gw_Status := s'\<rparr>"
    using markConfigApplied_object [of c ed s gw] g by auto
  show ?thesis
    using assms m restoreCondition_object [of "gw_Status (pa_gw p)" "''ConfigValid''" _ gw]
    by (auto simp: recordApplied_def Let_def status_update_def on_object_def unrecorded_def split: option.splits if_splits)
qed

lemma recordApplied_done:
  assumes "recordApplied env before c ed p = (None, p')" and "on_object content gw C p" and "c \<in> C"
  shows "on_object content gw C p' \<and> applied_of p' = c \<and> gst_ConfigChecksum (pa_stored p') = c \<and>
    \<not> stored_ready p' \<and> pa_kube p' = pa_kube p \<and> pa_version p = pa_storedVersion p"
proof -
  from assms(2) obtain s where g: "pa_gw p = gw\<lparr>gw_Status := s\<rparr>" by (auto simp: on_object_def)
  obtain s' where m: "markConfigApplied c ed (pa_gw p) = gw\<lparr>gw_Status := s'\<rparr>"
    using markConfigApplied_object [of c ed s gw] g by auto
  have c: "gst_ConfigChecksum s' = c" using markConfigApplied_checksum [of c ed "pa_gw p"] m by simp
  show ?thesis
    using assms m c rollout_status [of "gst_ObservedGeneration before" configRolloutNote "markConfigApplied c ed (pa_gw p)"]
    by (auto simp: recordApplied_def Let_def status_update_def on_object_def stored_ready_def split: option.splits if_splits)
qed

lemma serveApplied_post:
  assumes "env_ok content (ae_kube env)" and "no_collision gw C" and "on_object content gw C p"
    and "isApplied (pa_gw p) out edition" and "out_Checksum out = SHA256Hex (out_JSON out)"
    and "serveApplied env before out edition ex p = ((res, err), p')"
  shows "deployable gw res p' \<and> on_object content gw C p' \<and> unrecorded p p' \<and> cr_output res = Some out \<and>
    out_Checksum out = applied_of p'"
proof -
  let ?p = "p\<lparr>pa_gw := (pa_gw p)\<lparr>gw_Status := (gw_Status (pa_gw p))\<lparr>gst_ConfigEdition := Some edition\<rparr>\<rparr>\<rparr>"
  have o: "on_object content gw C ?p" and u: "unrecorded p ?p" and c: "out_Checksum out = applied_of ?p"
    using assms(3,4) by (auto simp: on_object_def unrecorded_def isApplied_def appliedKey_def)
  then have cC: "out_Checksum out \<in> C" by (simp add: on_object_def)
  obtain r p1 where r: "in_kube (publishConfig (ae_kube env) (pa_gw ?p) (out_JSON out) (out_Checksum out)) ?p = (r, p1)" by force
  from publish_step [OF assms(1,2) o cC assms(5) [symmetric] r]
  have 1: "on_object content gw C p1" "unrecorded ?p p1" "pa_gw p1 = pa_gw ?p"
    "r = Inr () \<Longrightarrow> holds_config gw (out_Checksum out) (pa_kube p1)" by auto
  obtain s where g: "pa_gw ?p = gw\<lparr>gw_Status := s\<rparr>" using o by (auto simp: on_object_def)
  show ?thesis
  proof (cases r)
    case (Inl e)
    obtain err2 p2 where f: "handleConfigPublishFailed before e p1 = (err2, p2)" by force
    from publishFailed_step [OF f 1(1)] 1(2) u c have "on_object content gw C p2" "unrecorded p p2" "out_Checksum out = applied_of p2"
      by (auto simp: unrecorded_def)
    then show ?thesis
      using assms(6) r Inl f by (auto simp: serveApplied_def publishApplied_def Let_def no_result_def deployable_def)
  next
    case (Inr x)
    have "applied_of (p1\<lparr>pa_gw := setConfigApplied (pa_gw p1)\<rparr>) = applied_of p1"
      by (simp add: setConfigApplied_def)
    moreover have "\<exists>s. setConfigApplied (pa_gw p1) = gw\<lparr>gw_Status := s\<rparr>"
      using g 1(3) by (auto simp: setConfigApplied_def set_condition_def with_conditions_def)
    ultimately show ?thesis
      using assms(6) r Inr 1 u c g
      by (auto simp: serveApplied_def publishApplied_def Let_def no_result_def deployable_def on_object_def unrecorded_def)
  qed
qed

text \<open>
  What a pass may do: leave the applied config alone, or record a new one whose ConfigMap holds
  it, in memory and in the stored status together, the stored gateway not Ready.
\<close>

definition recorded :: "KrakenDGateway \<Rightarrow> string \<Rightarrow> pass_state \<Rightarrow> pass_state \<Rightarrow> bool" where
  "recorded gw c p p' \<longleftrightarrow>
     applied_of p' = c \<and> gst_ConfigChecksum (pa_stored p') = c \<and> \<not> stored_ready p' \<and> holds_config gw c (pa_kube p') \<and>
     pa_version p = pa_storedVersion p"

lemma with_decision_eq:
  "with_decision out d ((res0, err0), p0) = ((res, err), p) \<Longrightarrow>
   p0 = p \<and> err0 = err \<and> cr_appliedConfigMap res = cr_appliedConfigMap res0 \<and> cr_served res = cr_served res0"
  by (auto simp: with_decision_def)

lemma keep_with_decision:
  assumes "env_ok content (ae_kube env)" and "no_collision gw C" and "on_object content gw C p"
    and "with_decision out d (keepApplied env e p) = ((res, err), p')"
  shows "deployable gw res p' \<and> on_object content gw C p' \<and> unrecorded p p' \<and> \<not> cr_served res"
proof -
  obtain res0 err0 p0 where k: "keepApplied env e p = ((res0, err0), p0)" by (metis prod.collapse)
  from keepApplied_post [OF assms(1-3) k] with_decision_eq [OF assms(4) [unfolded k]] show ?thesis
    by (auto simp: deployable_def)
qed

lemma apply_new_post:
  assumes "env_ok content (ae_kube env)" and "no_collision gw C" and "on_object content gw C p"
    and "out_Checksum out \<in> C" and "out_Checksum out = SHA256Hex (out_JSON out)"
    and "apply_new env before full edition d out p = ((res, err), p')"
  shows "deployable gw res p' \<and> on_object content gw C p' \<and>
    (unrecorded p p' \<and> \<not> cr_served res \<or> recorded gw (out_Checksum out) p p' \<and> cr_output res = Some out)"
proof -
  obtain r p1 where r: "in_kube (publishConfig (ae_kube env) (pa_gw p) (out_JSON out) (out_Checksum out)) p = (r, p1)" by force
  from publish_step [OF assms(1-4) assms(5) [symmetric] r]
  have 1: "on_object content gw C p1" "unrecorded p p1" "r = Inr () \<Longrightarrow> holds_config gw (out_Checksum out) (pa_kube p1)" by auto
  show ?thesis
  proof (cases r)
    case (Inl e)
    obtain err2 p2 where f: "handleConfigPublishFailed before e p1 = (err2, p2)" by force
    from publishFailed_step [OF f 1(1)] have 2: "on_object content gw C p2" "unrecorded p1 p2" by auto
    have "with_decision full d (keepApplied env (Some err2) p2) = ((res, err), p')"
      using assms(6) r Inl f by (simp add: apply_new_def)
    from keep_with_decision [OF assms(1,2) 2(1) this] 2 1(2) show ?thesis by (meson unrecorded_trans)
  next
    case (Inr x)
    obtain e p2 where rec: "recordApplied env before (out_Checksum out) edition p1 = (e, p2)" by force
    show ?thesis
    proof (cases e)
      case (Some e')
      from recordApplied_failed [OF rec [unfolded Some] 1(1)]
      have 2: "on_object content gw C p2" "unrecorded p1 p2" by auto
      have "with_decision full d (keepApplied env (Some e') p2) = ((res, err), p')"
        using assms(6) r Inr rec Some by (simp add: apply_new_def)
      from keep_with_decision [OF assms(1,2) 2(1) this] 2 1(2) show ?thesis by (meson unrecorded_trans)
    next
      case None
      from recordApplied_done [OF rec [unfolded None] 1(1) assms(4)]
      have 2: "on_object content gw C p2" "recorded gw (out_Checksum out) p p2"
        using 1(2,3) Inr by (auto simp: recorded_def unrecorded_def)
      have *: "p' = p2" "cr_output res = Some out" "cr_appliedConfigMap res = ConfigMapName (pa_gw p2) (out_Checksum out)"
        using assms(6) r Inr rec None by (auto simp: apply_new_def)
      from 2 * show ?thesis by (auto simp: recorded_def deployable_def on_object_def)
    qed
  qed
qed

section \<open>What the stage guarantees\<close>

text \<open>The config the pass decides on, if any, has a checksum of \<open>C\<close>.\<close>

definition decides_in ::
  "string set \<Rightarrow> Checker \<Rightarrow> RenderInput \<Rightarrow> RenderOutput \<Rightarrow> Edition \<Rightarrow> pass_state \<Rightarrow> bool" where
  "decides_in C ck inp full edition p \<longleftrightarrow>
     (\<forall>d out. fst (decide ck (pa_gw p) inp full edition (pa_verdicts p) (pa_runs p)) = Inr d \<longrightarrow>
        de_output d = Some out \<longrightarrow> out_Checksum out \<in> C)"

lemma run_decide_frame:
  "run_decide ck inp full edition p = (r, p1) \<Longrightarrow>
   r = fst (decide ck (pa_gw p) inp full edition (pa_verdicts p) (pa_runs p)) \<and> unrecorded p p1 \<and> pa_gw p1 = pa_gw p \<and>
   (on_object content gw C p \<longrightarrow> on_object content gw C p1)"
  by (auto simp: run_decide_def unrecorded_def on_object_def split: prod.splits)

lemma reconcileConfig_post:
  assumes "env_ok content (ae_kube env)" and "no_collision gw C" and "on_object content gw C p"
    and "decides_in C ck inp full edition p"
    and "reconcileConfig ck env before inp full edition p = ((res, err), p')"
    and "\<And>d out. fst (decide ck (pa_gw p) inp full edition (pa_verdicts p) (pa_runs p)) = Inr d \<Longrightarrow> de_output d = Some out \<Longrightarrow>
           out_Checksum out = SHA256Hex (out_JSON out)"
  shows "deployable gw res p' \<and>
    (unrecorded p p' \<and> (cr_served res \<longrightarrow> (\<exists>out. cr_output res = Some out \<and> out_Checksum out = applied_of p')) \<or>
     (\<exists>d out. fst (decide ck (pa_gw p) inp full edition (pa_verdicts p) (pa_runs p)) = Inr d \<and> de_output d = Some out \<and>
        \<not> isApplied (pa_gw p) out edition \<and> recorded gw (out_Checksum out) p p' \<and> cr_output res = Some out))"
proof -
  obtain r p1 where r: "run_decide ck inp full edition p = (r, p1)" by force
  from run_decide_frame [OF r, of content gw C] assms(3)
  have fr: "r = fst (decide ck (pa_gw p) inp full edition (pa_verdicts p) (pa_runs p))"
    and 1: "unrecorded p p1" "pa_gw p1 = pa_gw p" "on_object content gw C p1" by auto
  show ?thesis
  proof (cases r)
    case (Inl cause)
    obtain err2 p2 where f: "handleValidatorUnavailable before cause p1 = (err2, p2)" by force
    from unavailable_step [OF f 1(3)] have 2: "on_object content gw C p2" "unrecorded p1 p2" by auto
    obtain res0 err0 p0 where k: "keepApplied env (Some err2) p2 = ((res0, err0), p0)" by (metis prod.collapse)
    have "p' = p0" "res = res0\<lparr>cr_output := Some full\<rparr>"
      using assms(5) r Inl f k by (simp_all add: reconcileConfig_def)
    with keepApplied_post [OF assms(1,2) 2(1) k] 1(1) 2(2) show ?thesis
      by (auto simp: deployable_def intro: unrecorded_trans)
  next
    case (Inr d)
    show ?thesis
    proof (cases "de_failure d")
      case (Some f)
      let ?p2 = "on_gw (handleValidationError before (gf_reason f) (gf_message f)) p1"
      from condition_step [OF verdict_steps(1) 1(3)] have 2: "on_object content gw C ?p2" "unrecorded p1 ?p2" by auto
      have "with_decision full d (keepApplied env None ?p2) = ((res, err), p')"
        using assms(5) r Inr Some by (simp add: reconcileConfig_def)
      from keep_with_decision [OF assms(1,2) 2(1) this] 1(1) 2(2) show ?thesis by (auto intro: unrecorded_trans)
    next
      case None
      show ?thesis
      proof (cases "de_output d")
        case None
        with assms(5) r Inr \<open>de_failure d = None\<close> 1 show ?thesis
          by (auto simp: reconcileConfig_def deployable_def no_result_def)
      next
        case (Some out)
        from assms(4,6) fr Inr Some have c: "out_Checksum out \<in> C" "out_Checksum out = SHA256Hex (out_JSON out)"
          unfolding decides_in_def by metis+
        show ?thesis
        proof (cases "isApplied (pa_gw p1) out edition")
          case True
          have "serveApplied env before out edition (de_excluded d) p1 = ((res, err), p')"
            using assms(5) r Inr None Some True by (simp add: reconcileConfig_def)
          from serveApplied_post [OF assms(1,2) 1(3) True c(2) this] 1(1) show ?thesis
            by (auto intro: unrecorded_trans)
        next
          case False
          have "apply_new env before full edition d out p1 = ((res, err), p')"
            using assms(5) r Inr None Some False by (simp add: reconcileConfig_def)
          from apply_new_post [OF assms(1,2) 1(3) c this] 1 False fr Inr Some show ?thesis
            by (auto simp: recorded_def unrecorded_def)
        qed
      qed
    qed
  qed
qed

lemma decided_output:
  assumes "consistent ck orc" and "in_Gateway inp = Some gw" and "Render (ck_gin ck) inp = Inr full" and "memo_sound orc m"
    and "fst (decide ck gw inp full edition m runs) = Inr d" and "de_output d = Some out"
  shows "out_Checksum out = SHA256Hex (out_JSON out) \<and>
    (\<exists>ex. Render (ck_gin ck) (rest_input inp ex) = Inr out) \<and>
    (isApplied gw out edition \<or> orc (contentKey out (in_edition inp) modeValidate) = None)"
proof -
  have d: "d = decide_spec (ck_gin ck) orc gw inp full edition"
    using decide_value [OF assms(1-4), of edition runs] assms(5) by auto
  from decide_spec_cases [OF assms(3,2), of orc edition, folded d] assms(6)
  have "Render (ck_gin ck) (rest_input inp (de_excluded d)) = Inr out"
    and "isApplied gw out edition \<or> v_OK (whole_verdict orc inp out)" by auto
  then show ?thesis using Render_checksum by (auto simp: whole_ok_iff)
qed

lemma reconcileConfig_cases:
  assumes "consistent ck orc" and "in_Gateway inp = Some (pa_gw p)" and "Render (ck_gin ck) inp = Inr full"
    and "memo_sound orc (pa_verdicts p)" and "env_ok content (ae_kube env)" and "no_collision (pa_gw p) C"
    and "on_object content (pa_gw p) C p"
    and "decides_in C ck inp full edition p"
    and "reconcileConfig ck env before inp full edition p = ((res, err), p')"
  shows "deployable (pa_gw p) res p' \<and>
    (unrecorded p p' \<and> (cr_served res \<longrightarrow> (\<exists>out. cr_output res = Some out \<and> out_Checksum out = applied_of p')) \<or>
     (\<exists>out ex. Render (ck_gin ck) (rest_input inp ex) = Inr out \<and>
        orc (contentKey out (in_edition inp) modeValidate) = None \<and> recorded (pa_gw p) (out_Checksum out) p p'))"
proof -
  note dec = decided_output [OF assms(1-4)]
  have "out_Checksum out = SHA256Hex (out_JSON out)"
    if "fst (decide ck (pa_gw p) inp full edition (pa_verdicts p) (pa_runs p)) = Inr d" "de_output d = Some out" for d out
    using dec [OF that] by simp
  with reconcileConfig_post [OF assms(5-9)] show ?thesis using dec by blast
qed

text \<open>
  C1: a gateway's status only ever names a config that passed validation and is published. A
  pass of the config stage leaves the applied checksum and the stored status alone, or it
  records the checksum of a render of the gateway's endpoints, less some, that the full check
  accepts for this edition. The checksum is then recorded in the stored status at once, not
  Ready, and only from an up-to-date copy of the gateway, and its ConfigMap holds the config.
\<close>

theorem reconcileConfig_records_validated:
  assumes "consistent ck orc" and "in_Gateway inp = Some (pa_gw p)" and "Render (ck_gin ck) inp = Inr full"
    and "memo_sound orc (pa_verdicts p)" and "env_ok content (ae_kube env)" and "no_collision (pa_gw p) C"
    and "on_object content (pa_gw p) C p"
    and "decides_in C ck inp full edition p"
    and "reconcileConfig ck env before inp full edition p = ((res, err), p')"
  shows "unrecorded p p' \<or>
    (\<exists>out ex. Render (ck_gin ck) (rest_input inp ex) = Inr out \<and>
       orc (contentKey out (in_edition inp) modeValidate) = None \<and> recorded (pa_gw p) (out_Checksum out) p p')"
  using reconcileConfig_cases [OF assms] by blast

text \<open>
  C2: the ConfigMap the config stage hands to the Deployment step is the one of the config the
  status names, and it holds exactly that config, on every path of the stage: a new config, the
  applied one, a rejected one, an unavailable validator, failed calls and failed status writes.
\<close>

theorem reconcileConfig_deployable:
  assumes "consistent ck orc" and "in_Gateway inp = Some (pa_gw p)" and "Render (ck_gin ck) inp = Inr full"
    and "memo_sound orc (pa_verdicts p)" and "env_ok content (ae_kube env)" and "no_collision (pa_gw p) C"
    and "on_object content (pa_gw p) C p"
    and "decides_in C ck inp full edition p"
    and "reconcileConfig ck env before inp full edition p = ((res, err), p')"
    and "cr_appliedConfigMap res \<noteq> []"
  shows "cr_appliedConfigMap res = ConfigMapName (pa_gw p) (applied_of p') \<and>
    (\<exists>cm. map_of (kb_maps (pa_kube p')) (cr_appliedConfigMap res) = Some cm \<and> SHA256Hex (payload cm) = applied_of p')"
  using reconcileConfig_cases [OF assms(1-9)] assms(10) by (auto simp: deployable_def holds_config_def)


section \<open>Samples\<close>

text \<open>
  A pass without a validation slot: the applied config stays, the ConfigMap that holds it exists
  and the Deployment runs another one.
\<close>

definition ex_busy_ck :: Checker where
  "ex_busy_ck = ex_ck\<lparr>ck_slot := (\<lambda>_. Some ''busy'')\<rparr>"

definition ex_kept_gw :: KrakenDGateway where
  "ex_kept_gw = ex_gw\<lparr>gw_Status := zero_gateway_status\<lparr>gst_ConfigChecksum := SHA256Hex ''{}'',
     gst_ConfigEdition := Some EditionEE\<rparr>\<rparr>"

definition ex_kept_inp :: RenderInput where
  "ex_kept_inp = ex_inp\<lparr>in_Gateway := Some ex_kept_gw\<rparr>"

definition ex_kept_full :: RenderOutput where
  "ex_kept_full = projr (Render (ck_gin ex_busy_ck) ex_kept_inp)"

definition ex_kept_cm :: ConfigMapObj where
  "ex_kept_cm = (BuildConfigMap (new_cm (ConfigMapName ex_kept_gw (SHA256Hex ''{}'')) ex_kept_gw) ex_kept_gw ''{}''
     (SHA256Hex ''{}''))\<lparr>cmo_UID := ''u'', cmo_ResourceVersion := ''{}''\<rparr>"

definition ex_kept :: pass_state where
  "ex_kept = \<lparr>pa_gw = ex_kept_gw, pa_version = 0,
     pa_kube = ex_kube\<lparr>kb_maps := [(ConfigMapName ex_kept_gw (SHA256Hex ''{}''), ex_kept_cm)]\<rparr>, pa_verdicts = [], pa_runs = 0,
     pa_rejected = 0, pa_stored = gw_Status ex_kept_gw, pa_storedVersion = 0\<rparr>"

definition ex_api :: api_env where
  "ex_api = \<lparr>ae_kube = ex_kube_env, ae_update = None, ae_live = None\<rparr>"

lemma ex_busy_consistent: "consistent ex_busy_ck ex_orc"
  using ex_consistent by (simp add: consistent_def ex_busy_ck_def)

lemma ex_kept_render:
  "in_Gateway ex_kept_inp = Some (pa_gw ex_kept)" "Render (ck_gin ex_busy_ck) ex_kept_inp = Inr ex_kept_full"
  using Render_some [of ex_kept_inp ex_kept_gw "ck_gin ex_busy_ck"]
  by (auto simp: ex_kept_inp_def ex_kept_def ex_kept_full_def)

lemma ex_kept_memo: "memo_sound ex_orc (pa_verdicts ex_kept)"
  by (simp add: ex_kept_def memo_sound_def)

lemma ex_kept_env: "env_ok snd (ae_kube ex_api)"
  by (simp add: env_ok_def ex_api_def ex_kube_env_def)

lemma ex_kept_names: "no_collision (pa_gw ex_kept) {SHA256Hex ''{}''}"
  by (simp add: no_collision_def)

lemma ex_kept_object: "on_object snd (pa_gw ex_kept) {SHA256Hex ''{}''} ex_kept"
proof -
  have "\<exists>s. ex_kept_gw = ex_kept_gw\<lparr>gw_Status := s\<rparr>" by (rule exI [of _ "gw_Status ex_kept_gw"]) simp
  then show ?thesis
    by (simp add: on_object_def ex_kept_def publish_inv_def maps_ok_def verified_wf_def verified_has_def gw_entries_def ex_kube_def
        ex_kept_cm_def BuildConfigMap_def new_cm_def payload_def version_of_def str_at_def)
      (simp add: ex_kept_gw_def)
qed

lemma ex_busy_decide: "fst (decide ex_busy_ck ex_kept_gw ex_kept_inp ex_kept_full EditionCE [] 0) = Inl ''waiting for a validation slot: busy''"
proof -
  obtain out where r: "Render (ck_gin ex_busy_ck)
      \<lparr>in_Gateway = Some ex_kept_gw, in_Endpoints = [], in_Policies = [], in_CEFallback = in_CEFallback ex_kept_inp,
       in_Dragonfly = in_Dragonfly ex_kept_inp, in_PluginConfigMaps = []\<rparr> = Inr out"
    using Render_some by fastforce
  have b: "ck_slot ex_busy_ck = (\<lambda>_. Some ''busy'')" by (simp add: ex_busy_ck_def)
  have "\<not> isApplied ex_kept_gw ex_kept_full EditionCE"
    by (simp add: isApplied_def appliedKey_def ex_kept_gw_def)
  then show ?thesis
    by (simp add: decide_def decide_body_def decide_checks_def CheckRoot_def lintInput_def render_def r lift_sum_def andThen_def
        remembered_def memo_lookup_def counted_memo_def run_def acquire_def begin_state_def b Let_def
        passMemo_Lookup_def verdictMemo_begin_def)
qed

lemma ex_kept_decides: "decides_in C ex_busy_ck ex_kept_inp ex_kept_full EditionCE ex_kept"
  using ex_busy_decide by (simp add: decides_in_def ex_kept_def)

lemma ex_kept_applied: "gst_ConfigChecksum (gw_Status ex_kept_gw) = SHA256Hex ''{}''"
  by (simp add: ex_kept_gw_def)

lemma ex_kept_name [simp]: "ConfigMapName (set_condition c gw) = ConfigMapName gw" "gw_UID (set_condition c gw) = gw_UID gw"
  "gw_key (set_condition c gw) = gw_key gw"
  by (auto simp: set_condition_def with_conditions_def fun_eq_iff)

lemma ex_kept_cm_ok:
  "verifyConfigMap ex_kept_cm (set_condition c ex_kept_gw) (SHA256Hex ''{}'') = None \<and> payload ex_kept_cm = ''{}''"
  by (simp add: verifyConfigMap_def Let_def IsControlledBy_def ex_kept_cm_def BuildConfigMap_def new_cm_def str_at_def payload_def)

lemma ex_kept_verify:
  assumes "map_of (kb_maps k) (ConfigMapName ex_kept_gw (SHA256Hex ''{}'')) = Some ex_kept_cm" and "kb_verified k = []"
  shows "fst (appliedConfigMapName ex_kube_env (set_condition c ex_kept_gw) k) = Inr (ConfigMapName ex_kept_gw (SHA256Hex ''{}''))"
  using assms ex_kept_cm_ok [of c]
  by (simp add: appliedConfigMapName_def verifyExistingConfigMap_def verifyPayload_def kube_get_def kube_call_def
      ex_kube_env_def andThen_def wrap_error_def ex_kept_applied Let_def verified_has_def gw_entries_def returns_def
      remember_verified_def payload_def)

definition ex_kept_run :: "configResult outcome" where
  "ex_kept_run = reconcileConfig ex_busy_ck ex_api zero_gateway_status ex_kept_inp ex_kept_full EditionCE ex_kept"

lemma ex_kept_result:
  "cr_appliedConfigMap (fst (fst ex_kept_run)) = ConfigMapName ex_kept_gw (SHA256Hex ''{}'') \<and>
   \<not> cr_served (fst (fst ex_kept_run)) \<and> applied_of (snd ex_kept_run) = SHA256Hex ''{}'' \<and>
   gst_ConfigChecksum (pa_stored (snd ex_kept_run)) = SHA256Hex ''{}''"
proof -
  let ?cause = "''waiting for a validation slot: busy''"
  obtain m rej runs where d: "decide ex_busy_ck ex_kept_gw ex_kept_inp ex_kept_full EditionCE [] 0 = (Inl ?cause, m, rej, runs)"
    using ex_busy_decide by (metis prod.collapse)
  define p1 where "p1 = ex_kept\<lparr>pa_verdicts := m, pa_rejected := rej, pa_runs := runs\<rparr>"
  have r: "run_decide ex_busy_ck ex_kept_inp ex_kept_full EditionCE ex_kept = (Inl ?cause, p1)"
    using d by (simp add: run_decide_def ex_kept_def p1_def)
  obtain err p2 where h: "handleValidatorUnavailable zero_gateway_status ?cause p1 = (err, p2)" by force
  then obtain c ev where p2: "p2 = p1\<lparr>pa_gw := set_condition c ex_kept_gw, pa_kube := (pa_kube p1)\<lparr>kb_events := ev\<rparr>\<rparr>"
    by (auto simp: handleValidatorUnavailable_def on_gw_def recordConfigUnjudged_def Let_def p1_def ex_kept_def)
  have "fst (appliedConfigMapName (ae_kube ex_api) (pa_gw p2) (pa_kube p2)) = Inr (ConfigMapName ex_kept_gw (SHA256Hex ''{}''))"
    unfolding p2 using ex_kept_verify [of "(pa_kube p1)\<lparr>kb_events := ev\<rparr>" c]
    by (simp add: ex_api_def p1_def ex_kept_def ex_kube_def)
  then obtain k where k: "appliedConfigMapName (ae_kube ex_api) (pa_gw p2) (pa_kube p2) =
      (Inr (ConfigMapName ex_kept_gw (SHA256Hex ''{}'')), k)" by (metis prod.collapse)
  show ?thesis
    unfolding ex_kept_run_def reconcileConfig_def r
    using h k by (simp add: keepApplied_def in_kube_def no_result_def p2 ex_kept_applied p1_def ex_kept_def)
qed

lemma ex_kept_eq:
  "reconcileConfig ex_busy_ck ex_api zero_gateway_status ex_kept_inp ex_kept_full EditionCE ex_kept =
   ((fst (fst ex_kept_run), snd (fst ex_kept_run)), snd ex_kept_run)"
  by (simp add: ex_kept_run_def)

lemma ex_kept_name_not_Nil: "cr_appliedConfigMap (fst (fst ex_kept_run)) \<noteq> []"
  using ex_kept_result by (simp add: ConfigMapName_def)

lemmas ex_kept_facts = ex_busy_consistent ex_kept_render ex_kept_memo ex_kept_env ex_kept_names ex_kept_object
  ex_kept_decides ex_kept_eq

theorem reconcileConfig_records_validated_witness:
  "unrecorded ex_kept (snd ex_kept_run) \<or>
   (\<exists>out ex. Render (ck_gin ex_busy_ck) (rest_input ex_kept_inp ex) = Inr out \<and>
       ex_orc (contentKey out (in_edition ex_kept_inp) modeValidate) = None \<and>
       recorded (pa_gw ex_kept) (out_Checksum out) ex_kept (snd ex_kept_run))"
  by (rule reconcileConfig_records_validated [OF ex_kept_facts])

theorem reconcileConfig_deployable_witness:
  "cr_appliedConfigMap (fst (fst ex_kept_run)) = ConfigMapName (pa_gw ex_kept) (applied_of (snd ex_kept_run)) \<and>
   (\<exists>cm. map_of (kb_maps (pa_kube (snd ex_kept_run))) (cr_appliedConfigMap (fst (fst ex_kept_run))) = Some cm \<and>
      SHA256Hex (payload cm) = applied_of (snd ex_kept_run))"
  by (rule reconcileConfig_deployable [OF ex_kept_facts ex_kept_name_not_Nil])

definition ex_deployed :: deployedChecksums where
  "ex_deployed = \<lparr>dc_config = ''old'', dc_license = [], dc_configMap = [], dc_foreign = False\<rparr>"


end
