(* ===== verification/SpecWalk.thy ===== *)
theory SpecWalk
  imports Api
begin

text \<open>
  Walking OpenAPI documents (\<^verbatim>\<open>internal/autoconfig/jsonwalk.go\<close>), JSON pointers, the component
  schemas an endpoint's documentation needs (\<^verbatim>\<open>schemas.go\<close>) and the removal of \<^verbatim>\<open>servers\<close>
  (\<^verbatim>\<open>preprocessor.go\<close>).

  A document is its decoded JSON value; objects list their members by name, so the sorted walks of
  the code are the order of the list. A visitor that appends to a slice returns what it appends,
  and whether the walk descends.
\<close>

section \<open>Walking\<close>

definition nameKeyedMaps :: "string list" where
  "nameKeyedMaps =
     [''properties'', ''patternProperties'', ''$defs'', ''definitions'', ''dependentSchemas'', ''dependencies'',
      ''paths'', ''webhooks'', ''schemas'', ''responses'', ''parameters'', ''requestBodies'',
      ''headers'', ''securitySchemes'', ''links'', ''callbacks'', ''pathItems'', ''content'', ''encoding'']"

definition nameKeyedMembers :: "string \<Rightarrow> json \<Rightarrow> json list option" where
  "nameKeyedMembers key value =
     (case value of
        JObj byName \<Rightarrow> if key \<in> set nameKeyedMaps then Some (map snd byName) else None
      | _ \<Rightarrow> None)"

text \<open>The type assertion \<^verbatim>\<open>m[k].(string)\<close>.\<close>

definition get_str :: "jmap \<Rightarrow> string \<Rightarrow> string option" where
  "get_str m k = (case map_of m k of Some (JStr s) \<Rightarrow> Some s | _ \<Rightarrow> None)"

definition ref_of :: "json \<Rightarrow> string option" where
  "ref_of v = (case v of JObj m \<Rightarrow> get_str m ''$ref'' | _ \<Rightarrow> None)"

definition examplePayload :: "string \<Rightarrow> json \<Rightarrow> jmap list option" where
  "examplePayload key value =
     (if key = ''example'' then Some []
      else if key = ''examples''
      then Some (case value of
                   JObj entries \<Rightarrow>
                     List.map_filter (\<lambda>e. case e of JObj m \<Rightarrow> (if get_str m ''$ref'' \<noteq> None then Some m else None) | _ \<Rightarrow> None)
                       (map snd entries)
                 | _ \<Rightarrow> [])
      else None)"

lemma size_member [termination_simp]: "p \<in> set m \<Longrightarrow> size (snd p) < size (JObj m)"
  by (induction m) (auto simp: size_prod_def split: prod.splits)

lemma size_element [termination_simp]: "x \<in> set xs \<Longrightarrow> size x < size (JArr xs)"
  by (induction xs) auto

lemma size_nameKeyedMembers:
  assumes "nameKeyedMembers k v = Some ms" and "x \<in> set ms"
  shows "size x < size v"
  using assms by (auto simp: nameKeyedMembers_def simp del: json.size split: json.splits if_splits intro: size_member)

text \<open>What is walked below a field: the members of a name-keyed map, or the value.\<close>

definition walk_next :: "string \<Rightarrow> json \<Rightarrow> json list" where
  "walk_next k v = (case nameKeyedMembers k v of Some members \<Rightarrow> members | None \<Rightarrow> [v])"

lemma size_walk_next: "x \<in> set (walk_next k v) \<Longrightarrow> size x \<le> size v"
  using size_nameKeyedMembers [of k v] by (auto simp: walk_next_def intro: less_imp_le split: option.splits)

function (sequential) walkJSON :: "(string \<Rightarrow> json \<Rightarrow> 'a list \<times> bool) \<Rightarrow> json \<Rightarrow> 'a list" where
  "walkJSON visit (JObj m) =
     concat (map (\<lambda>p. fst (visit (fst p) (snd p)) @
       (if snd (visit (fst p) (snd p)) then concat (map (walkJSON visit) (walk_next (fst p) (snd p))) else [])) m)"
| "walkJSON visit (JArr xs) = concat (map (walkJSON visit) xs)"
| "walkJSON visit _ = []"
  by pat_completeness auto

termination
proof (relation "measure (\<lambda>(visit, j). size j)", goal_cases)
  case (2 visit m p x)
  then have "size x \<le> size (snd p)" by (intro size_walk_next)
  also have "\<dots> < size (JObj m)" using 2 by (intro size_member)
  finally show ?case by simp
next
  case (3 visit xs x)
  then show ?case using size_element [of x xs] by simp
qed simp

section \<open>JSON pointers\<close>

text \<open>\<^verbatim>\<open>strconv.Atoi\<close>: an optional sign and digits, within 64 bits.\<close>

definition Atoi :: "string \<Rightarrow> int option" where
  "Atoi s =
     (let neg = HasPrefix s ''-''; ds = (if neg \<or> HasPrefix s ''+'' then tl s else s);
          n = (if neg then - int (str_nat ds) else int (str_nat ds))
      in if ds \<noteq> [] \<and> list_all is_digit ds \<and> - (2 ^ 63) \<le> n \<and> n < 2 ^ 63 then Some n else None)"

text \<open>\<^verbatim>\<open>%q\<close>; bytes of multi-byte characters are copied.\<close>

definition quote_char :: "char \<Rightarrow> string" where
  "quote_char c =
     (if c = CHR 0x22 then [CHR 0x5C, CHR 0x22] else if c = CHR 0x5C then [CHR 0x5C, CHR 0x5C]
      else if c = CHR 0x07 then [CHR 0x5C, CHR ''a''] else if c = CHR 0x08 then [CHR 0x5C, CHR ''b'']
      else if c = CHR 0x0C then [CHR 0x5C, CHR ''f''] else if c = CHR 0x0A then [CHR 0x5C, CHR ''n'']
      else if c = CHR 0x0D then [CHR 0x5C, CHR ''r''] else if c = CHR 0x09 then [CHR 0x5C, CHR ''t'']
      else if c = CHR 0x0B then [CHR 0x5C, CHR ''v'']
      else if (of_char c :: nat) < 32 \<or> c = CHR 0x7F
      then [CHR 0x5C, CHR ''x'', hex_digit (of_char c div 16), hex_digit (of_char c mod 16)]
      else [c])"

definition Quote :: "string \<Rightarrow> string" where
  "Quote s = [CHR 0x22] @ concat (map quote_char s) @ [CHR 0x22]"

definition unescape :: "string \<Rightarrow> string" where
  "unescape part = ReplaceAll (ReplaceAll part ''~1'' ''/'') ''~0'' ''~''"

definition pointer_step :: "string \<Rightarrow> json \<Rightarrow> string + json" where
  "pointer_step decoded current =
     (case current of
        JObj m \<Rightarrow>
          (case map_of m decoded of
             None \<Rightarrow> Inl (''pointer segment '' @ Quote decoded @ '' not found'')
           | Some v \<Rightarrow> Inr v)
      | JArr xs \<Rightarrow>
          (case Atoi decoded of
             None \<Rightarrow> Inl (''non-numeric array index '' @ Quote decoded)
           | Some i \<Rightarrow>
               if i < 0 \<or> i \<ge> int (length xs)
               then Inl (''array index '' @ itoa i @ '' out of range (len '' @ nat_str (length xs) @ '')'')
               else Inr (xs ! nat i))
      | _ \<Rightarrow> Inl (''pointer segment '' @ Quote decoded @ '' applied to scalar''))"

fun pointer_walk :: "string list \<Rightarrow> json \<Rightarrow> string + json" where
  "pointer_walk [] current = Inr current"
| "pointer_walk (part # parts) current =
     (case pointer_step (unescape part) current of Inl e \<Rightarrow> Inl e | Inr v \<Rightarrow> pointer_walk parts v)"

definition pointerLookup :: "jmap \<Rightarrow> string \<Rightarrow> string + json" where
  "pointerLookup doc pointer =
     (if pointer = [] then Inr (JObj doc)
      else pointer_walk (SplitChar (CHR ''/'') (TrimPrefix pointer ''/'')) (JObj doc))"

section \<open>Encoding\<close>

text \<open>\<^verbatim>\<open>json.Marshal\<close> without indentation.\<close>

fun marshal :: "json \<Rightarrow> string" where
  "marshal JNull = ''null''"
| "marshal (JBool b) = (if b then ''true'' else ''false'')"
| "marshal (JNum t) = t"
| "marshal (JStr s) = json_string s"
| "marshal (JArr xs) = ''['' @ Join (map marshal xs) '','' @ '']''"
| "marshal (JObj m) = ''{'' @ Join (map (\<lambda>p. json_string (fst p) @ '':'' @ marshal (snd p)) m) '','' @ ''}''"

section \<open>Component schemas\<close>

definition componentSchemaPrefix :: string where
  "componentSchemaPrefix = ''#/components/schemas/''"

definition schemaName :: "string \<Rightarrow> string option" where
  "schemaName ref =
     (if \<not> HasPrefix ref ''#'' then Some ref
      else (let name = fst (CutChar (TrimPrefix ref componentSchemaPrefix) (CHR ''/''))
            in if \<not> HasPrefix ref componentSchemaPrefix \<or> name = [] then None else Some (unescape name)))"

definition mappingTargets :: "jmap \<Rightarrow> string list" where
  "mappingTargets discriminator =
     (case get_obj discriminator ''mapping'' of
        None \<Rightarrow> []
      | Some mapping \<Rightarrow> List.map_filter (\<lambda>p. case snd p of JStr target \<Rightarrow> Some target | _ \<Rightarrow> None) mapping)"

definition schema_visit :: "string \<Rightarrow> json \<Rightarrow> string list \<times> bool" where
  "schema_visit key value =
     (if examplePayload key value \<noteq> None then ([], False)
      else ((case value of JStr s \<Rightarrow> (if key = ''$ref'' \<and> HasPrefix s ''#'' then [s] else []) | _ \<Rightarrow> []) @
            (case value of JObj d \<Rightarrow> (if key = ''discriminator'' then mappingTargets d else []) | _ \<Rightarrow> []), True))"

definition schemaRefs :: "json \<Rightarrow> string list" where
  "schemaRefs schema = walkJSON schema_visit schema"

text \<open>\<open>decode64\<close>: a string that is the base64 encoding of a JSON text, as the value of that text.\<close>

definition documentation_visit :: "(string \<Rightarrow> json option) \<Rightarrow> string \<Rightarrow> json \<Rightarrow> string list \<times> bool" where
  "documentation_visit decode64 key value =
     (if examplePayload key value \<noteq> None then ([], False)
      else (case value of
              JStr s \<Rightarrow>
                (if key = ''ref'' then ([s], True)
                 else if key = ''example_schema''
                 then (case decode64 s of None \<Rightarrow> [] | Some schema \<Rightarrow> schemaRefs schema, True)
                 else ([], True))
            | _ \<Rightarrow> if key = ''example_schema'' then (schemaRefs value, False) else ([], True)))"

definition documentationRefs :: "(string \<Rightarrow> json option) \<Rightarrow> EndpointEntry \<Rightarrow> string list" where
  "documentationRefs decode64 entry =
     (case en_ExtraConfig entry of
        None \<Rightarrow> []
      | Some raw \<Rightarrow>
          (case raw_map raw of
             None \<Rightarrow> []
           | Some ec \<Rightarrow>
               (case map_of ec ''documentation/openapi'' of
                  None \<Rightarrow> []
                | Some doc \<Rightarrow> walkJSON (documentation_visit decode64) doc)))"

definition body_refs :: "RawExtension \<Rightarrow> string list" where
  "body_refs body = (case body of RawJSON node \<Rightarrow> schemaRefs node | _ \<Rightarrow> [])"

text \<open>The loop over the pending references; sets of strings are maps to unit.\<close>

type_synonym schemas = "(string, RawExtension) gomap"

function (sequential) closure_loop ::
  "schemas \<Rightarrow> string list \<Rightarrow> schemas \<Rightarrow> (string, unit) gomap \<Rightarrow> schemas \<times> (string, unit) gomap" where
  "closure_loop components [] closure missing = (closure, missing)"
| "closure_loop components (p # ps) closure missing =
     (let pending = butlast (p # ps); ref = last (p # ps)
      in case schemaName ref of
           None \<Rightarrow> closure_loop components pending closure (mput ref () missing)
         | Some name \<Rightarrow>
             if name \<in> fst ` set closure then closure_loop components pending closure missing
             else (case map_of components name of
                     None \<Rightarrow> closure_loop components pending closure (mput name () missing)
                   | Some body \<Rightarrow> closure_loop components (pending @ body_refs body) (mput name body closure) missing))"
  by pat_completeness auto

termination
proof (relation "measures [\<lambda>(components, pending, closure, missing). card (fst ` set components - fst ` set closure),
    \<lambda>(components, pending, closure, missing). length pending]", goal_cases)
  case (5 components p ps closure missing x xa name body)
  then have "name \<in> fst ` set components - fst ` set closure" by (auto dest: map_of_SomeD simp: rev_image_eqI)
  then have "card (fst ` set components - insert name (fst ` set closure)) < card (fst ` set components - fst ` set closure)"
    by (intro psubset_card_mono) auto
  then show ?case by (simp add: set_keys_mput)
qed auto

definition SchemaClosure ::
  "(string \<Rightarrow> json option) \<Rightarrow> EndpointEntry \<Rightarrow> schemas \<Rightarrow> schemas \<times> string list" where
  "SchemaClosure decode64 entry components =
     (case closure_loop components (documentationRefs decode64 entry) [] [] of
        (closure, missing) \<Rightarrow> (closure, mkeys missing))"

section \<open>The closure is exact\<close>

text \<open>The references an entry needs: those of its documentation and those of the schemas they name.\<close>

inductive needs :: "(string \<Rightarrow> json option) \<Rightarrow> EndpointEntry \<Rightarrow> schemas \<Rightarrow> string \<Rightarrow> bool"
  for decode64 entry components where
  direct: "ref \<in> set (documentationRefs decode64 entry) \<Longrightarrow> needs decode64 entry components ref"
| through: "needs decode64 entry components ref \<Longrightarrow> schemaName ref = Some name \<Longrightarrow> map_of components name = Some body \<Longrightarrow>
     ref' \<in> set (body_refs body) \<Longrightarrow> needs decode64 entry components ref'"

definition settled :: "schemas \<Rightarrow> schemas \<Rightarrow> (string, unit) gomap \<Rightarrow> string \<Rightarrow> bool" where
  "settled components closure missing ref \<longleftrightarrow>
     (case schemaName ref of
        None \<Rightarrow> ref \<in> fst ` set missing
      | Some name \<Rightarrow> name \<in> fst ` set closure \<or> map_of components name = None \<and> name \<in> fst ` set missing)"

definition unsatisfied :: "(string \<Rightarrow> bool) \<Rightarrow> schemas \<Rightarrow> string \<Rightarrow> bool" where
  "unsatisfied needed components x \<longleftrightarrow>
     needed x \<and> schemaName x = None \<or> (\<exists>ref. needed ref \<and> schemaName ref = Some x \<and> map_of components x = None)"

definition closure_inv ::
  "(string \<Rightarrow> bool) \<Rightarrow> string list \<Rightarrow> schemas \<Rightarrow> string list \<Rightarrow> schemas \<Rightarrow> (string, unit) gomap \<Rightarrow> bool" where
  "closure_inv needed start components pending closure missing \<longleftrightarrow>
     mwf closure \<and> mwf missing \<and> (\<forall>ref \<in> set pending. needed ref) \<and>
     (\<forall>p \<in> set closure. map_of components (fst p) = Some (snd p) \<and> (\<exists>ref. needed ref \<and> schemaName ref = Some (fst p))) \<and>
     (\<forall>x \<in> fst ` set missing. unsatisfied needed components x) \<and>
     (\<forall>ref \<in> set start \<union> (\<Union>p \<in> set closure. set (body_refs (snd p))). ref \<in> set pending \<or> settled components closure missing ref)"

lemma set_mput_new: "k \<notin> fst ` set m \<Longrightarrow> set (mput k v m) = insert (k, v) (set m)"
  by (induction k v m rule: mput.induct) auto

lemma last_pending: "set (p # ps) = insert (last (p # ps)) (set (butlast (p # ps)))"
  by (metis Un_insert_right append_butlast_last_id list.distinct(1) list.simps(15) set_append sup_bot_right list.set(1))

lemma settled_mono:
  "settled components closure missing ref \<Longrightarrow> fst ` set closure \<subseteq> fst ` set closure' \<Longrightarrow> fst ` set missing \<subseteq> fst ` set missing' \<Longrightarrow>
   settled components closure' missing' ref"
  by (auto simp: settled_def split: option.splits)

text \<open>One reference taken off: it is settled, and nothing settled is lost.\<close>

lemma pending_step:
  assumes "\<forall>ref \<in> R. ref \<in> set (p # ps) \<or> settled components closure missing ref"
    and "fst ` set closure \<subseteq> fst ` set closure'" and "fst ` set missing \<subseteq> fst ` set missing'"
    and "settled components closure' missing' (last (p # ps))"
  shows "\<forall>ref \<in> R. ref \<in> set (butlast (p # ps)) \<or> settled components closure' missing' ref"
proof
  fix ref assume "ref \<in> R"
  with assms(1) last_pending [of p ps] consider "ref = last (p # ps)" | "ref \<in> set (butlast (p # ps))" | "settled components closure missing ref"
    by (metis insert_iff)
  then show "ref \<in> set (butlast (p # ps)) \<or> settled components closure' missing' ref"
    by cases (use assms(2-4) settled_mono in auto)
qed

lemma closure_inv_pending:
  "closure_inv needed start components pending closure missing \<Longrightarrow>
   \<forall>ref \<in> set start \<union> (\<Union>p \<in> set closure. set (body_refs (snd p))). ref \<in> set pending \<or> settled components closure missing ref"
  by (simp add: closure_inv_def)

lemma closure_inv_missing:
  assumes i: "closure_inv needed start components (p # ps) closure missing" and u: "unsatisfied needed components x"
    and s: "settled components closure (mput x () missing) (last (p # ps))"
  shows "closure_inv needed start components (butlast (p # ps)) closure (mput x () missing)"
proof -
  have "\<forall>ref \<in> set start \<union> (\<Union>p \<in> set closure. set (body_refs (snd p))).
      ref \<in> set (butlast (p # ps)) \<or> settled components closure (mput x () missing) ref"
    by (rule pending_step [OF closure_inv_pending [OF i] _ _ s]) (simp_all add: set_keys_mput subset_insertI)
  moreover have "\<forall>ref \<in> set (butlast (p # ps)). needed ref" using i by (auto simp: closure_inv_def dest: in_set_butlastD)
  moreover have "\<forall>y \<in> fst ` set (mput x () missing). unsatisfied needed components y"
    using i u by (simp add: closure_inv_def set_keys_mput)
  ultimately show ?thesis using i unfolding closure_inv_def by (simp add: mwf_mput_raw)
qed

lemma closure_inv_known:
  assumes i: "closure_inv needed start components (p # ps) closure missing"
    and s: "settled components closure missing (last (p # ps))"
  shows "closure_inv needed start components (butlast (p # ps)) closure missing"
proof -
  have "\<forall>ref \<in> set start \<union> (\<Union>p \<in> set closure. set (body_refs (snd p))).
      ref \<in> set (butlast (p # ps)) \<or> settled components closure missing ref"
    by (rule pending_step [OF closure_inv_pending [OF i] _ _ s]) simp_all
  moreover have "\<forall>ref \<in> set (butlast (p # ps)). needed ref" using i by (auto simp: closure_inv_def dest: in_set_butlastD)
  ultimately show ?thesis using i unfolding closure_inv_def by simp
qed

lemma closure_inv_add:
  assumes i: "closure_inv needed start components (p # ps) closure missing" and n: "schemaName (last (p # ps)) = Some name"
    and new: "name \<notin> fst ` set closure" and b: "map_of components name = Some body"
    and step: "\<And>ref. ref \<in> set (body_refs body) \<Longrightarrow> needed ref"
  shows "closure_inv needed start components (butlast (p # ps) @ body_refs body) (mput name body closure) missing"
proof -
  let ?c = "mput name body closure"
  have s: "settled components ?c missing (last (p # ps))" using n by (simp add: settled_def set_keys_mput)
  have old: "\<forall>ref \<in> set start \<union> (\<Union>p \<in> set closure. set (body_refs (snd p))).
      ref \<in> set (butlast (p # ps)) \<or> settled components ?c missing ref"
    by (rule pending_step [OF closure_inv_pending [OF i] _ _ s]) (simp_all add: set_keys_mput subset_insertI)
  have "\<forall>ref \<in> set start \<union> (\<Union>p \<in> set ?c. set (body_refs (snd p))).
      ref \<in> set (butlast (p # ps) @ body_refs body) \<or> settled components ?c missing ref"
  proof
    fix ref assume "ref \<in> set start \<union> (\<Union>p \<in> set ?c. set (body_refs (snd p)))"
    then have "ref \<in> set start \<union> (\<Union>p \<in> set closure. set (body_refs (snd p))) \<or> ref \<in> set (body_refs body)"
      unfolding set_mput_new [OF new] by auto
    with old show "ref \<in> set (butlast (p # ps) @ body_refs body) \<or> settled components ?c missing ref"
      unfolding set_append by (metis UnCI)
  qed
  moreover have "\<forall>ref \<in> set (butlast (p # ps) @ body_refs body). needed ref"
    using i step by (auto simp: closure_inv_def dest: in_set_butlastD)
  moreover have "\<forall>p \<in> set ?c. map_of components (fst p) = Some (snd p) \<and> (\<exists>ref. needed ref \<and> schemaName ref = Some (fst p))"
    using i n b unfolding set_mput_new [OF new] closure_inv_def by (auto intro!: exI [of _ "last (p # ps)"])
  ultimately show ?thesis using i unfolding closure_inv_def by (simp add: mwf_mput_raw)
qed

lemma closure_loop_inv:
  assumes "closure_loop components pending closure missing = (closure', missing')"
    and "closure_inv (needs decode64 entry components) start components pending closure missing"
  shows "closure_inv (needs decode64 entry components) start components [] closure' missing'"
  using assms
proof (induction components pending closure missing rule: closure_loop.induct)
  case (2 components p ps closure missing)
  let ?n = "needs decode64 entry components"
  let ?ref = "last (p # ps)"
  have need: "?n ?ref" using "2.prems"(2) last_in_set [of "p # ps"] by (simp add: closure_inv_def)
  show ?case
  proof (cases "schemaName ?ref")
    case None
    then have "unsatisfied ?n components ?ref" "settled components closure (mput ?ref () missing) ?ref"
      using need by (auto simp: unsatisfied_def settled_def set_keys_mput)
    from closure_inv_missing [OF "2.prems"(2) this] "2.IH"(1) [OF refl refl None] "2.prems"(1) None show ?thesis by (simp add: Let_def)
  next
    case (Some name)
    show ?thesis
    proof (cases "name \<in> fst ` set closure")
      case True
      then have "settled components closure missing ?ref" using Some by (simp add: settled_def)
      from closure_inv_known [OF "2.prems"(2) this] "2.IH"(2) [OF refl refl Some True] "2.prems"(1) Some True show ?thesis by (simp add: Let_def)
    next
      case False
      show ?thesis
      proof (cases "map_of components name")
        case None
        then have "unsatisfied ?n components name" "settled components closure (mput name () missing) ?ref"
          using need Some by (auto simp: unsatisfied_def settled_def set_keys_mput)
        from closure_inv_missing [OF "2.prems"(2) this] "2.IH"(3) [OF refl refl Some False None] "2.prems"(1) Some False None
        show ?thesis by (simp add: Let_def)
      next
        case body: (Some body)
        have "?n r" if "r \<in> set (body_refs body)" for r using needs.through [OF need Some body that] .
        from closure_inv_add [OF "2.prems"(2) Some False body this] "2.IH"(4) [OF refl refl Some False body] "2.prems"(1) Some False body
        show ?thesis by (simp add: Let_def)
      qed
    qed
  qed
qed simp

text \<open>
  C36: the schema closure is exact. For every set of component schemas, however they refer to each
  other, the loop ends; the result holds exactly the schemas that the entry's documentation
  references, directly or through other schemas, with their bodies, and lists in order exactly
  the references that no schema satisfies.
\<close>

theorem SchemaClosure_exact:
  assumes "SchemaClosure decode64 entry components = (closure, unresolved)"
  shows "mwf closure \<and> sorted_wrt (<) unresolved \<and>
    (\<forall>n b. map_of closure n = Some b \<longleftrightarrow>
       map_of components n = Some b \<and> (\<exists>ref. needs decode64 entry components ref \<and> schemaName ref = Some n)) \<and>
    (\<forall>x. x \<in> set unresolved \<longleftrightarrow> unsatisfied (needs decode64 entry components) components x)"
proof -
  let ?n = "needs decode64 entry components"
  let ?start = "documentationRefs decode64 entry"
  obtain missing where l: "closure_loop components ?start [] [] = (closure, missing)" and u: "unresolved = mkeys missing"
    using assms by (auto simp: SchemaClosure_def split: prod.splits)
  have "closure_inv ?n ?start components ?start [] []" by (simp add: closure_inv_def needs.direct)
  from closure_loop_inv [OF l this] have i: "closure_inv ?n ?start components [] closure missing" .
  have settled: "settled components closure missing ref" if "?n ref" for ref
    using that
  proof (induction rule: needs.induct)
    case (direct ref)
    with i show ?case by (auto simp: closure_inv_def)
  next
    case (through ref name body ref')
    from through.IH through.hyps(2,3) obtain b where "(name, b) \<in> set closure" by (auto simp: settled_def)
    moreover from this i have "map_of components name = Some b" by (auto simp: closure_inv_def)
    ultimately show ?case using through.hyps(3,4) i unfolding closure_inv_def by force
  qed
  have wf: "mwf closure" "mwf missing" using i by (simp_all add: closure_inv_def)
  have set: "map_of closure n = Some b \<longleftrightarrow> (n, b) \<in> set closure" for n b
    using wf(1) by (simp add: mwf_distinct)
  have "map_of closure n = Some b \<longleftrightarrow> map_of components n = Some b \<and> (\<exists>ref. ?n ref \<and> schemaName ref = Some n)" for n b
  proof
    assume "map_of components n = Some b \<and> (\<exists>ref. ?n ref \<and> schemaName ref = Some n)"
    then obtain b' where "(n, b') \<in> set closure" and "map_of components n = Some b" using settled by (force simp: settled_def)
    with i set show "map_of closure n = Some b" unfolding closure_inv_def by force
  next
    assume "map_of closure n = Some b"
    then have "(n, b) \<in> set closure" by (simp add: set)
    with i show "map_of components n = Some b \<and> (\<exists>ref. ?n ref \<and> schemaName ref = Some n)"
      unfolding closure_inv_def by (metis fst_conv snd_conv)
  qed
  moreover have "x \<in> fst ` set missing \<longleftrightarrow> unsatisfied ?n components x" for x
  proof
    assume "x \<in> fst ` set missing"
    with i show "unsatisfied ?n components x" unfolding closure_inv_def by blast
  next
    assume "unsatisfied ?n components x"
    then consider "?n x" "schemaName x = None" | ref where "?n ref" "schemaName ref = Some x" "map_of components x = None"
      by (auto simp: unsatisfied_def)
    then show "x \<in> fst ` set missing"
    proof cases
      case 1
      with settled [of x] show ?thesis by (simp add: settled_def)
    next
      case 2
      then have "x \<notin> fst ` set closure" using i by (auto simp: closure_inv_def)
      with 2 settled [of ref] show ?thesis by (simp add: settled_def)
    qed
  qed
  ultimately show ?thesis using wf u by (simp add: mkeys_def mwf_def)
qed

definition ex_schema :: "string list \<Rightarrow> RawExtension" where
  "ex_schema refs = RawJSON (JObj [(''allOf'', JArr (map (\<lambda>r. JObj [(''$ref'', JStr (componentSchemaPrefix @ r))]) refs))])"

definition ex_components :: schemas where
  "ex_components = [(''A'', ex_schema [''B'']), (''B'', ex_schema [''A'', ''C'']), (''D'', ex_schema [])]"

definition ex_documented :: EndpointEntry where
  "ex_documented = \<lparr>en_Endpoint = ''/a'', en_Method = ''GET'', en_Backends = [], en_Timeout = None, en_CacheTTL = None,
     en_InputHeaders = None, en_InputQueryStrings = None, en_OutputEncoding = [], en_ConcurrentCalls = None,
     en_ExtraConfig = Some (RawJSON (JObj [(''documentation/openapi'', JObj [(''ref'', JStr ''A'')])]))\<rparr>"

lemma ex_closure:
  "SchemaClosure (\<lambda>_. None) ex_documented ex_components = ([(''A'', ex_schema [''B'']), (''B'', ex_schema [''A'', ''C''])], [''C''])"
  by code_simp

theorem SchemaClosure_exact_witness:
  "mwf [(''A'', ex_schema [''B'']), (''B'', ex_schema [''A'', ''C''])] \<and> sorted_wrt (<) [''C''] \<and>
    (\<forall>n b. map_of [(''A'', ex_schema [''B'']), (''B'', ex_schema [''A'', ''C''])] n = Some b \<longleftrightarrow>
       map_of ex_components n = Some b \<and> (\<exists>ref. needs (\<lambda>_. None) ex_documented ex_components ref \<and> schemaName ref = Some n)) \<and>
    (\<forall>x. x \<in> set [''C''] \<longleftrightarrow> unsatisfied (needs (\<lambda>_. None) ex_documented ex_components) ex_components x)"
  by (rule SchemaClosure_exact [OF ex_closure])

end
