(* ===== verification/PostRestart.thy ===== *)
theory PostRestart
  imports ConfigApply SpecWalk
begin

text \<open>
  The post-restart Job of a gateway: its identity and construction
  (\<^verbatim>\<open>resources/job.go\<close>) and the step of a pass that creates, adopts, skips or re-creates it
  (\<^verbatim>\<open>controller/krakendgateway_controller.go\<close>).

  The field \<^verbatim>\<open>spec.postRestartJob\<close> is an argument of the step. Values of Kubernetes types that are
  only hashed or copied are their JSON encoding (\<^const>\<open>JNull\<close> for nil); a \<open>Quantity\<close> is its value
  and its printed form. The Jobs of the namespace and the stored status are the API server;
  \<open>po_history\<close> lists its states after each write of the pass, so a crash of the operator is a
  state of that list. \<open>job_env\<close> says which calls fail, and whether a deleted Job lingers.
\<close>

section \<open>Data\<close>

type_synonym Quantity = "int \<times> string"

text \<open>Security contexts are their JSON encoding, in which an unset field is absent.\<close>

type_synonym SecurityContext = jmap

record PostRestartJobSpec =
  pj_Enabled :: bool
  pj_Script :: string
  pj_Command :: "string list"
  pj_Image :: string
  pj_WorkingDir :: string
  pj_Env :: json
  pj_EnvFrom :: json
  pj_ServiceAccountName :: string
  pj_Resources :: json
  pj_SecurityContext :: "SecurityContext option"
  pj_PodSecurityContext :: "SecurityContext option"
  pj_PodLabels :: "(string, string) gomap"
  pj_PodAnnotations :: "(string, string) gomap"
  pj_BackoffLimit :: "int option"
  pj_ActiveDeadlineSeconds :: "int option"
  pj_TTLSecondsAfterFinished :: "int option"
  pj_TmpSizeLimit :: "Quantity option"

record JobContainer =
  jc_Name :: string
  jc_Image :: string
  jc_Command :: "string list"
  jc_WorkingDir :: string
  jc_Env :: json
  jc_EnvFrom :: json
  jc_SecurityContext :: "SecurityContext option"
  jc_Resources :: json
  jc_VolumeMounts :: "(string \<times> string) list"

record Job =
  jb_Name :: string
  jb_Labels :: "(string, string) gomap"
  jb_Annotations :: "(string, string) gomap"
  jb_BackoffLimit :: "int option"
  jb_ActiveDeadlineSeconds :: "int option"
  jb_TTLSecondsAfterFinished :: "int option"
  jb_PodLabels :: "(string, string) gomap"
  jb_PodAnnotations :: "(string, string) gomap"
  jb_RestartPolicy :: string
  jb_ServiceAccountName :: string
  jb_PodSecurityContext :: SecurityContext
  jb_Containers :: "JobContainer list"
  jb_Volumes :: "(string \<times> Quantity option option) list"
  jb_Succeeded :: int
  jb_Conditions :: "(string \<times> ConditionStatus) list"

section \<open>Identity\<close>

definition DefaultPostRestartJobImage :: string where
  "DefaultPostRestartJobImage = ''bash:5.2''"

definition postRestartWorkingDir :: string where
  "postRestartWorkingDir = ''/tmp''"

definition effectivePostRestartCommand :: "PostRestartJobSpec \<Rightarrow> string list" where
  "effectivePostRestartCommand spec = (if pj_Command spec = [] then [''bash'', ''-c''] else pj_Command spec)"

definition effectivePostRestartWorkingDir :: "PostRestartJobSpec \<Rightarrow> string" where
  "effectivePostRestartWorkingDir spec =
     (if pj_WorkingDir spec \<noteq> [] then pj_WorkingDir spec else postRestartWorkingDir)"

definition effectivePostRestartImage :: "PostRestartJobSpec \<Rightarrow> string" where
  "effectivePostRestartImage spec =
     (if pj_Image spec \<noteq> [] then pj_Image spec else DefaultPostRestartJobImage)"

definition effectivePostRestartServiceAccountName :: "PostRestartJobSpec \<Rightarrow> KrakenDGateway \<Rightarrow> string" where
  "effectivePostRestartServiceAccountName spec gw =
     (if pj_ServiceAccountName spec \<noteq> [] then pj_ServiceAccountName spec else gw_Name gw)"

definition postRestartJobProjection :: "PostRestartJobSpec \<Rightarrow> KrakenDGateway \<Rightarrow> json" where
  "postRestartJobProjection spec gw =
     JObj [(''script'', JStr (pj_Script spec)), (''command'', jstrs (effectivePostRestartCommand spec)),
           (''image'', JStr (effectivePostRestartImage spec)), (''workingDir'', JStr (effectivePostRestartWorkingDir spec)),
           (''env'', pj_Env spec), (''envFrom'', pj_EnvFrom spec),
           (''securityContext'', case pj_SecurityContext spec of None \<Rightarrow> JNull | Some sc \<Rightarrow> JObj sc),
           (''podSecurityContext'', case pj_PodSecurityContext spec of None \<Rightarrow> JNull | Some sc \<Rightarrow> JObj sc),
           (''serviceAccountName'', JStr (effectivePostRestartServiceAccountName spec gw)), (''resources'', pj_Resources spec)]"

definition PostRestartJobChecksum :: "PostRestartJobSpec \<Rightarrow> KrakenDGateway \<Rightarrow> string \<Rightarrow> string" where
  "PostRestartJobChecksum spec gw configChecksum =
     CombineHex [configChecksum, SHA256Hex (marshal (postRestartJobProjection spec gw))]"

definition PostRestartJobName :: "KrakenDGateway \<Rightarrow> string \<Rightarrow> string" where
  "PostRestartJobName gw checksum =
     (let short = (if length checksum > 12 then take 12 checksum else checksum);
          maxPrefix = 63 - 13 - 12;
          prefix = (if length (gw_Name gw) > maxPrefix then take maxPrefix (gw_Name gw) else gw_Name gw)
      in prefix @ ''-postrestart-'' @ short)"

section \<open>Construction\<close>

definition defaultPostRestartBackoffLimit :: int where
  "defaultPostRestartBackoffLimit = 2"

definition defaultPostRestartActiveDeadlineSeconds :: int where
  "defaultPostRestartActiveDeadlineSeconds = 600"

definition defaultPostRestartTTLSecondsAfterFinished :: int where
  "defaultPostRestartTTLSecondsAfterFinished = 86400"

definition defaultPostRestartTmpSizeLimit :: Quantity where
  "defaultPostRestartTmpSizeLimit = (256 * 1024 * 1024, ''256Mi'')"

text \<open>
  The strategic merge patch of Kubernetes is a parameter \<open>smp\<close>: the base, then the patch.
\<close>

type_synonym merge_patch = "SecurityContext \<Rightarrow> SecurityContext \<Rightarrow> SecurityContext"

definition strategicMergeSecurityContext :: "merge_patch \<Rightarrow> SecurityContext \<Rightarrow> SecurityContext option \<Rightarrow> SecurityContext" where
  "strategicMergeSecurityContext smp base user = (case user of None \<Rightarrow> base | Some u \<Rightarrow> smp base u)"

definition userRequestsRootWithoutOptingOut :: "json option \<Rightarrow> json option \<Rightarrow> bool" where
  "userRequestsRootWithoutOptingOut runAsUser runAsNonRoot \<longleftrightarrow> runAsUser = Some (JNum ''0'') \<and> runAsNonRoot = None"

definition defaultPostRestartContainerSecurityContext :: SecurityContext where
  "defaultPostRestartContainerSecurityContext =
     [(''allowPrivilegeEscalation'', JBool False), (''capabilities'', JObj [(''drop'', JArr [JStr ''ALL''])]),
      (''readOnlyRootFilesystem'', JBool True)]"

definition mergeContainerSecurityContext :: "merge_patch \<Rightarrow> SecurityContext option \<Rightarrow> SecurityContext" where
  "mergeContainerSecurityContext smp user = strategicMergeSecurityContext smp defaultPostRestartContainerSecurityContext user"

definition defaultPostRestartPodSecurityContext :: SecurityContext where
  "defaultPostRestartPodSecurityContext =
     [(''runAsGroup'', JNum ''1000''), (''runAsNonRoot'', JBool True), (''runAsUser'', JNum ''1000''),
      (''seccompProfile'', JObj [(''type'', JStr ''RuntimeDefault'')])]"

definition mergePodSecurityContext :: "merge_patch \<Rightarrow> SecurityContext option \<Rightarrow> SecurityContext" where
  "mergePodSecurityContext smp user =
     (let merged = strategicMergeSecurityContext smp defaultPostRestartPodSecurityContext user
      in case user of
           None \<Rightarrow> merged
         | Some u \<Rightarrow>
             if userRequestsRootWithoutOptingOut (map_of u ''runAsUser'') (map_of u ''runAsNonRoot'')
             then mdel ''runAsNonRoot'' merged else merged)"

definition podLabels :: "(string, string) gomap \<Rightarrow> PostRestartJobSpec \<Rightarrow> (string, string) gomap" where
  "podLabels base spec = (if pj_PodLabels spec = [] then base else mmerge base (pj_PodLabels spec))"

definition BuildPostRestartJob ::
  "merge_patch \<Rightarrow> string \<Rightarrow> KrakenDGateway \<Rightarrow> PostRestartJobSpec \<Rightarrow> string \<Rightarrow> string \<Rightarrow> Job" where
  "BuildPostRestartJob smp name gw spec configChecksum checksum =
     (let labels = mput ''app.kubernetes.io/component'' ''post-restart-job'' (StandardLabels gw);
          checksums = (\<lambda>m. mput ''krakend.io/checksum-postrestart'' checksum (mput ''krakend.io/checksum-config'' configChecksum m))
      in \<lparr>jb_Name = name, jb_Labels = labels, jb_Annotations = checksums [],
          jb_BackoffLimit = Some (case pj_BackoffLimit spec of None \<Rightarrow> defaultPostRestartBackoffLimit | Some n \<Rightarrow> n),
          jb_ActiveDeadlineSeconds =
            Some (case pj_ActiveDeadlineSeconds spec of None \<Rightarrow> defaultPostRestartActiveDeadlineSeconds | Some n \<Rightarrow> n),
          jb_TTLSecondsAfterFinished =
            Some (case pj_TTLSecondsAfterFinished spec of None \<Rightarrow> defaultPostRestartTTLSecondsAfterFinished | Some n \<Rightarrow> n),
          jb_PodLabels = podLabels labels spec, jb_PodAnnotations = checksums (pj_PodAnnotations spec),
          jb_RestartPolicy = ''OnFailure'', jb_ServiceAccountName = effectivePostRestartServiceAccountName spec gw,
          jb_PodSecurityContext = mergePodSecurityContext smp (pj_PodSecurityContext spec),
          jb_Containers =
            [\<lparr>jc_Name = ''post-restart'', jc_Image = effectivePostRestartImage spec,
              jc_Command = effectivePostRestartCommand spec @ [pj_Script spec],
              jc_WorkingDir = effectivePostRestartWorkingDir spec,
              jc_Env = pj_Env spec, jc_EnvFrom = pj_EnvFrom spec,
              jc_SecurityContext = Some (mergeContainerSecurityContext smp (pj_SecurityContext spec)),
              jc_Resources = pj_Resources spec, jc_VolumeMounts = [(''tmp'', postRestartWorkingDir)]\<rparr>],
          jb_Volumes =
            [(''tmp'', Some (Some (case pj_TmpSizeLimit spec of None \<Rightarrow> defaultPostRestartTmpSizeLimit | Some q \<Rightarrow> q)))],
          jb_Succeeded = 0, jb_Conditions = []\<rparr>)"

section \<open>Reading Jobs\<close>

definition postRestartJobSucceeded :: "Job \<Rightarrow> bool" where
  "postRestartJobSucceeded job \<longleftrightarrow>
     jb_Succeeded job > 0 \<or> list_ex (\<lambda>(t, s). t = ''Complete'' \<and> s = ConditionTrue) (jb_Conditions job)"

definition postRestartJobFailed :: "Job \<Rightarrow> bool" where
  "postRestartJobFailed job \<longleftrightarrow> list_ex (\<lambda>(t, s). t = ''Failed'' \<and> s = ConditionTrue) (jb_Conditions job)"

definition postRestartJobContainerSecurityContext :: "Job \<Rightarrow> SecurityContext option" where
  "postRestartJobContainerSecurityContext job =
     (case find (\<lambda>c. jc_Name c = ''post-restart'') (jb_Containers job) of
        None \<Rightarrow> None
      | Some c \<Rightarrow> jc_SecurityContext c)"

definition postRestartJobTmpSizeLimit :: "Job \<Rightarrow> Quantity option" where
  "postRestartJobTmpSizeLimit job =
     (case find (\<lambda>(name, emptyDir). name = ''tmp'' \<and> emptyDir \<noteq> None) (jb_Volumes job) of
        None \<Rightarrow> None
      | Some (_, emptyDir) \<Rightarrow> (case emptyDir of None \<Rightarrow> None | Some limit \<Rightarrow> limit))"

definition postRestartJobExecutionKnobsChanged :: "PostRestartJobSpec \<Rightarrow> Job \<Rightarrow> bool" where
  "postRestartJobExecutionKnobsChanged spec existing \<longleftrightarrow>
     (if pj_BackoffLimit spec \<noteq> None \<and> pj_BackoffLimit spec \<noteq> jb_BackoffLimit existing then True
      else if pj_ActiveDeadlineSeconds spec \<noteq> None \<and> pj_ActiveDeadlineSeconds spec \<noteq> jb_ActiveDeadlineSeconds existing
      then True
      else (case pj_TmpSizeLimit spec of
              None \<Rightarrow> False
            | Some q \<Rightarrow>
                (case postRestartJobTmpSizeLimit existing of None \<Rightarrow> True | Some q' \<Rightarrow> fst q \<noteq> fst q')))"

section \<open>Conditions\<close>

definition setPostRestartJobSkippedCondition :: "ConditionStatus \<Rightarrow> string \<Rightarrow> string \<Rightarrow> KrakenDGateway \<Rightarrow> KrakenDGateway" where
  "setPostRestartJobSkippedCondition status reason message gw =
     set_condition (gw_cond gw ''PostRestartJobSkipped'' status reason message) gw"

definition recordPostRestartJobROFSCondition :: "Job \<Rightarrow> KrakenDGateway \<Rightarrow> KrakenDGateway" where
  "recordPostRestartJobROFSCondition job gw =
     (let effectiveROFS = (case postRestartJobContainerSecurityContext job of
                             None \<Rightarrow> True
                           | Some sc \<Rightarrow> (case map_of sc ''readOnlyRootFilesystem'' of Some (JBool b) \<Rightarrow> b | _ \<Rightarrow> True));
          sizeLimit = (case postRestartJobTmpSizeLimit job of
                         None \<Rightarrow> ''unbounded''
                       | Some q \<Rightarrow> if fst q \<noteq> 0 then snd q else ''unbounded'')
      in if \<not> effectiveROFS
         then set_condition (gw_cond gw ''PostRestartJobReadOnlyRootFilesystem'' ConditionFalse ''ReadOnlyRootFilesystemDisabled''
                (''post-restart Job container runs with readOnlyRootFilesystem=false '' @
                 ''(explicit override); the entire container filesystem is writable.'')) gw
         else set_condition (gw_cond gw ''PostRestartJobReadOnlyRootFilesystem'' ConditionTrue ''ReadOnlyRootFilesystemEnabled''
                (''post-restart Job runs with readOnlyRootFilesystem=true; only '' @ postRestartWorkingDir @ '' (emptyDir, '' @
                 sizeLimit @ '') is writable'')) gw)"

section \<open>The step\<close>

record job_env =
  je_get :: "string option"
  je_deployment :: "string + Deployment option"
  je_delete :: "string option"
  je_lingers :: bool
  je_create :: "string option"
  je_merge :: merge_patch
  je_api :: api_env

type_synonym jobs = "(string, Job) gomap"

record post_state =
  po_pass :: pass_state
  po_jobs :: jobs
  po_history :: "(KrakenDGatewayStatus \<times> jobs) list"

definition po_gw :: "post_state \<Rightarrow> KrakenDGateway" where
  "po_gw p = pa_gw (po_pass p)"

definition on_post_gw :: "(KrakenDGateway \<Rightarrow> KrakenDGateway) \<Rightarrow> post_state \<Rightarrow> post_state" where
  "on_post_gw f p = p\<lparr>po_pass := (po_pass p)\<lparr>pa_gw := f (pa_gw (po_pass p))\<rparr>\<rparr>"

definition server_of :: "post_state \<Rightarrow> KrakenDGatewayStatus \<times> jobs" where
  "server_of p = (pa_stored (po_pass p), po_jobs p)"

text \<open>A write reached the API server.\<close>

definition noted :: "post_state \<Rightarrow> post_state" where
  "noted p = p\<lparr>po_history := po_history p @ [server_of p]\<rparr>"

definition set_last :: "string \<Rightarrow> KrakenDGateway \<Rightarrow> KrakenDGateway" where
  "set_last c gw = gw\<lparr>gw_Status := (gw_Status gw)\<lparr>gst_LastPostRestartJobChecksum := c\<rparr>\<rparr>"

definition job_event :: "string \<Rightarrow> post_state \<Rightarrow> post_state" where
  "job_event message p =
     p\<lparr>po_pass := on_gw (\<lambda>(gw, events). (gw, events @ [normal ''PostRestartJobCreated'' message])) (po_pass p)\<rparr>"

definition postRestartRolloutDone :: "job_env \<Rightarrow> infraInputs \<Rightarrow> string + bool" where
  "postRestartRolloutDone env want =
     (case je_deployment env of
        Inl e \<Rightarrow> Inl (''getting deployment for post-restart check: '' @ e)
      | Inr None \<Rightarrow> Inr False
      | Inr (Some dep) \<Rightarrow> if dp_Replicas dep = Some 0 then Inr False else Inr (deploymentConverged dep want))"

datatype create_outcome = CreateDone | CreateExists | CreateFailed string

definition create_job :: "job_env \<Rightarrow> Job \<Rightarrow> post_state \<Rightarrow> create_outcome \<times> post_state" where
  "create_job env job p =
     (case je_create env of
        Some e \<Rightarrow> (CreateFailed e, p)
      | None \<Rightarrow>
          if map_of (po_jobs p) (jb_Name job) \<noteq> None then (CreateExists, p)
          else (CreateDone, noted (p\<lparr>po_jobs := mput (jb_Name job) job (po_jobs p)\<rparr>)))"

text \<open>A background delete is accepted before the object is gone; a missing Job counts as deleted.\<close>

definition delete_job :: "job_env \<Rightarrow> string \<Rightarrow> post_state \<Rightarrow> string option \<times> post_state" where
  "delete_job env name p =
     (case je_delete env of
        Some e \<Rightarrow> (Some e, p)
      | None \<Rightarrow> (None, if je_lingers env then p else noted (p\<lparr>po_jobs := mdel name (po_jobs p)\<rparr>)))"

definition flush_status :: "job_env \<Rightarrow> post_state \<Rightarrow> string option \<times> post_state" where
  "flush_status env p =
     (case status_update (je_api env) (gw_Status (po_gw p)) (po_pass p) of
        (Some e, q) \<Rightarrow> (Some e, p\<lparr>po_pass := q\<rparr>)
      | (None, q) \<Rightarrow> (None, noted (p\<lparr>po_pass := q\<rparr>)))"

definition em_dash :: string where
  "em_dash = [CHR 0xE2, CHR 0x80, CHR 0x94]"

definition skipped_gw :: "string \<Rightarrow> Job \<Rightarrow> KrakenDGateway \<Rightarrow> KrakenDGateway" where
  "skipped_gw message job gw =
     recordPostRestartJobROFSCondition job
       (setPostRestartJobSkippedCondition ConditionTrue ''PostRestartJobAlreadyRun'' message gw)"

text \<open>The end of the re-create path: clear and store the checksum, delete, create.\<close>

definition recreate_job ::
  "job_env \<Rightarrow> PostRestartJobSpec \<Rightarrow> string \<Rightarrow> string \<Rightarrow> string \<Rightarrow> post_state \<Rightarrow> string option \<times> post_state" where
  "recreate_job env spec jobName jobChecksum configChecksum p =
     (let desired = BuildPostRestartJob (je_merge env) jobName (po_gw p) spec configChecksum jobChecksum
      in case flush_status env (on_post_gw (set_last []) p) of
           (Some e, p1) \<Rightarrow> (Some (''clearing post-restart job checksum before re-create: '' @ e), p1)
         | (None, p1) \<Rightarrow>
             (case delete_job env jobName p1 of
                (Some e, p2) \<Rightarrow> (Some (''deleting failed post-restart job '' @ jobName @ '' for re-create: '' @ e), p2)
              | (None, p2) \<Rightarrow>
                  (case create_job env desired p2 of
                     (CreateExists, p3) \<Rightarrow> (None, p3)
                   | (CreateFailed e, p3) \<Rightarrow> (Some (''re-creating failed post-restart job '' @ jobName @ '': '' @ e), p3)
                   | (CreateDone, p3) \<Rightarrow>
                       (None, job_event (''Re-created post-restart Job '' @ jobName @ '' after a failed run and an operator knob change'')
                         (on_post_gw (\<lambda>gw. recordPostRestartJobROFSCondition desired
                            (setPostRestartJobSkippedCondition ConditionFalse ''PostRestartJobCreated''
                               (''post-restart Job '' @ jobName @ '' re-created after a failed run and an operator knob change '' @
                                ''(activeDeadlineSeconds/backoffLimit/tmpSizeLimit)'') (set_last jobChecksum gw))) p3)))))"

definition reconcileExistingPostRestartRevision ::
  "job_env \<Rightarrow> PostRestartJobSpec \<Rightarrow> string \<Rightarrow> string \<Rightarrow> infraInputs \<Rightarrow> post_state \<Rightarrow> string option \<times> post_state" where
  "reconcileExistingPostRestartRevision env spec jobName jobChecksum want p =
     (let configChecksum = ii_appliedChecksum want;
          triggered = ''post-restart Job already triggered for checksum '' @ jobChecksum
      in case je_get env of
           Some e \<Rightarrow> (Some (''getting existing post-restart job '' @ jobName @ '': '' @ e), p)
         | None \<Rightarrow>
             (case map_of (po_jobs p) jobName of
                None \<Rightarrow>
                  (None, on_post_gw (skipped_gw (triggered @ '' (Job object no longer observable '' @ em_dash @
                      '' TTL-GC'd or deleted, outcome unknown); skipping (once per revision '' @ em_dash @
                      '' see status.lastPostRestartJobChecksum to force a re-run)'')
                      (BuildPostRestartJob (je_merge env) jobName (po_gw p) spec configChecksum jobChecksum)) p)
              | Some existing \<Rightarrow>
                  if postRestartJobSucceeded existing
                  then (None, on_post_gw (skipped_gw (triggered @ '' and succeeded; skipping (once per revision '' @ em_dash @
                          '' see status.lastPostRestartJobChecksum to force a re-run)'') existing) p)
                  else if \<not> postRestartJobFailed existing
                  then (None, on_post_gw (skipped_gw (triggered @ '' and is still running; skipping'') existing) p)
                  else if \<not> postRestartJobExecutionKnobsChanged spec existing
                  then (None, on_post_gw (skipped_gw (triggered @ '' and failed; no explicitly-set '' @
                          ''activeDeadlineSeconds/backoffLimit/tmpSizeLimit differs from the existing Job, NOT '' @
                          ''re-creating (would retry every reconcile) '' @ em_dash @ '' set one of those knobs to a new explicit '' @
                          ''value to retry (removing an override is not detected as a change), or edit the '' @
                          ''script/image/etc. (changes the revision checksum)'') existing) p)
                  else (case postRestartRolloutDone env want of
                          Inl e \<Rightarrow> (Some e, p)
                        | Inr rolledOut \<Rightarrow>
                            if \<not> rolledOut then (None, p)
                            else recreate_job env spec jobName jobChecksum configChecksum p)))"

definition adopt_job :: "string \<Rightarrow> string \<Rightarrow> Job \<Rightarrow> KrakenDGateway \<Rightarrow> KrakenDGateway" where
  "adopt_job jobName jobChecksum existing gw =
     (let there = ''post-restart Job '' @ jobName @ '' already exists for checksum '' @ jobChecksum;
          message = (if postRestartJobFailed existing
                     then there @ '' and is FAILED '' @ em_dash @ '' adopting it as recorded for this revision; '' @
                          ''it will be evaluated for re-create on the next reconcile''
                     else there)
      in recordPostRestartJobROFSCondition existing
           (setPostRestartJobSkippedCondition ConditionFalse ''PostRestartJobAdopted'' message (set_last jobChecksum gw)))"

definition create_first ::
  "job_env \<Rightarrow> PostRestartJobSpec \<Rightarrow> string \<Rightarrow> string \<Rightarrow> string \<Rightarrow> post_state \<Rightarrow> string option \<times> post_state" where
  "create_first env spec jobName jobChecksum configChecksum p =
     (let job = BuildPostRestartJob (je_merge env) jobName (po_gw p) spec configChecksum jobChecksum
      in case create_job env job p of
           (CreateExists, p1) \<Rightarrow> (None, p1)
         | (CreateFailed e, p1) \<Rightarrow> (Some (''creating post-restart job: '' @ e), p1)
         | (CreateDone, p1) \<Rightarrow>
             (None, job_event (''Created post-restart Job '' @ jobName @ '' for config checksum '' @ configChecksum)
               (on_post_gw (\<lambda>gw. recordPostRestartJobROFSCondition job
                  (setPostRestartJobSkippedCondition ConditionFalse ''PostRestartJobCreated''
                     (''post-restart Job '' @ jobName @ '' created for config checksum '' @ configChecksum)
                     (set_last jobChecksum gw))) p1)))"

definition reconcilePostRestartJob ::
  "job_env \<Rightarrow> PostRestartJobSpec option \<Rightarrow> infraInputs \<Rightarrow> post_state \<Rightarrow> string option \<times> post_state" where
  "reconcilePostRestartJob env jobSpec want p =
     (let configChecksum = ii_appliedChecksum want
      in case (case jobSpec of
                 None \<Rightarrow> None
               | Some spec \<Rightarrow> if \<not> pj_Enabled spec \<or> pj_Script spec = [] then None else Some spec) of
           None \<Rightarrow>
             (None, on_post_gw (\<lambda>gw. with_conditions (RemoveStatusCondition ''PostRestartJobReadOnlyRootFilesystem'')
                (with_conditions (RemoveStatusCondition ''PostRestartJobSkipped'') gw)) p)
         | Some spec \<Rightarrow>
             if configChecksum = [] then (None, p)
             else (let jobChecksum = PostRestartJobChecksum spec (po_gw p) configChecksum;
                       jobName = PostRestartJobName (po_gw p) jobChecksum
                   in if gst_LastPostRestartJobChecksum (gw_Status (po_gw p)) = jobChecksum
                      then reconcileExistingPostRestartRevision env spec jobName jobChecksum want p
                      else (case postRestartRolloutDone env want of
                              Inl e \<Rightarrow> (Some e, p)
                            | Inr rolledOut \<Rightarrow>
                                if \<not> rolledOut then (None, p)
                                else (case je_get env of
                                        Some e \<Rightarrow> (Some (''checking existing post-restart job: '' @ e), p)
                                      | None \<Rightarrow>
                                          (case map_of (po_jobs p) jobName of
                                             Some existing \<Rightarrow> (None, on_post_gw (adopt_job jobName jobChecksum existing) p)
                                           | None \<Rightarrow> create_first env spec jobName jobChecksum configChecksum p)))))"

text \<open>A whole pass: the step, then the status write at its end.\<close>

definition post_pass ::
  "job_env \<Rightarrow> PostRestartJobSpec option \<Rightarrow> infraInputs \<Rightarrow> KrakenDGatewayStatus \<Rightarrow> post_state \<Rightarrow> string option \<times> post_state" where
  "post_pass env jobSpec want before p =
     (case reconcilePostRestartJob env jobSpec want p of
        (err, p1) \<Rightarrow>
          (case updateStatusIfChanged (je_api env) before (po_pass p1) of
             (Some e, q) \<Rightarrow> (Some (''updating gateway status: '' @ e), p1\<lparr>po_pass := q\<rparr>)
           | (None, q) \<Rightarrow> (err, noted (p1\<lparr>po_pass := q\<rparr>))))"

section \<open>The identity of a Job\<close>

text \<open>Job names fit the 63 bytes of a label value.\<close>

lemma PostRestartJobName_bounded: "length (PostRestartJobName gw checksum) \<le> 63"
  by (simp add: PostRestartJobName_def Let_def)

lemma PostRestartJobChecksum_not_Nil [simp]: "PostRestartJobChecksum spec gw c \<noteq> []"
  by (simp add: PostRestartJobChecksum_def CombineHex_def)

text \<open>
  Spelling a default out changes neither the identity of the Job nor the Job, and an edit of
  labels, annotations, the time to live or the execution knobs does not change the identity.
\<close>

lemma PostRestartJobChecksum_effective:
  "PostRestartJobChecksum (spec\<lparr>pj_Command := effectivePostRestartCommand spec, pj_Image := effectivePostRestartImage spec,
      pj_WorkingDir := effectivePostRestartWorkingDir spec,
      pj_ServiceAccountName := effectivePostRestartServiceAccountName spec gw, pj_PodLabels := ls, pj_PodAnnotations := as,
      pj_TTLSecondsAfterFinished := ttl, pj_BackoffLimit := b, pj_ActiveDeadlineSeconds := a, pj_TmpSizeLimit := q\<rparr>) gw c =
   PostRestartJobChecksum spec gw c"
  by (simp add: PostRestartJobChecksum_def postRestartJobProjection_def effectivePostRestartCommand_def effectivePostRestartImage_def
      effectivePostRestartWorkingDir_def effectivePostRestartServiceAccountName_def DefaultPostRestartJobImage_def
      postRestartWorkingDir_def)

section \<open>When a Job is started\<close>

lemma on_post_gw_simps [simp]:
  "po_jobs (on_post_gw f p) = po_jobs p" "po_history (on_post_gw f p) = po_history p" "server_of (on_post_gw f p) = server_of p"
  "po_gw (on_post_gw f p) = f (po_gw p)"
  by (simp_all add: on_post_gw_def server_of_def po_gw_def)

lemma job_event_simps [simp]:
  "po_jobs (job_event m p) = po_jobs p" "po_history (job_event m p) = po_history p" "server_of (job_event m p) = server_of p"
  "po_gw (job_event m p) = po_gw p"
  by (simp_all add: job_event_def server_of_def po_gw_def on_gw_def)

lemma noted_simps [simp]:
  "po_jobs (noted p) = po_jobs p" "server_of (noted p) = server_of p" "po_history (noted p) = po_history p @ [server_of p]"
  "po_gw (noted p) = po_gw p" "po_pass (noted p) = po_pass p"
  by (simp_all add: noted_def server_of_def po_gw_def)

lemma flush_jobs [simp]: "flush_status env p = (r, p') \<Longrightarrow> po_jobs p' = po_jobs p"
  by (auto simp: flush_status_def split: prod.splits option.splits)

lemma create_job_jobs:
  "create_job env job p = (r, p') \<Longrightarrow>
   po_jobs p' = (if r = CreateDone then mput (jb_Name job) job (po_jobs p) else po_jobs p) \<and>
   (r = CreateDone \<longrightarrow> map_of (po_jobs p) (jb_Name job) = None)"
  by (auto simp: create_job_def split: option.splits if_splits)

lemma Build_name [simp]: "jb_Name (BuildPostRestartJob smp n gw spec c c') = n"
  by (simp add: BuildPostRestartJob_def Let_def)

text \<open>\<open>starts p p' n job\<close>: the step from \<open>p\<close> to \<open>p'\<close> left the Job \<open>job\<close> at a name that had none, or another.\<close>

definition starts :: "post_state \<Rightarrow> post_state \<Rightarrow> string \<Rightarrow> Job \<Rightarrow> bool" where
  "starts p p' n job \<longleftrightarrow> map_of (po_jobs p') n = Some job \<and> map_of (po_jobs p) n \<noteq> Some job"

lemma create_first_starts:
  assumes "create_first env spec jn jc cc p = (err, p')" and "starts p p' n job" and "mwf (po_jobs p)"
  shows "n = jn \<and> map_of (po_jobs p) jn = None \<and> job = BuildPostRestartJob (je_merge env) jn (po_gw p) spec cc jc"
proof -
  obtain r p1 where c: "create_job env (BuildPostRestartJob (je_merge env) jn (po_gw p) spec cc jc) p = (r, p1)" by force
  have "po_jobs p' = po_jobs p1" using assms(1) c by (auto simp: create_first_def Let_def split: create_outcome.splits)
  with create_job_jobs [OF c] assms(2,3) show ?thesis by (auto simp: starts_def split: if_splits)
qed

lemma recreate_job_starts:
  assumes "recreate_job env spec jn jc cc p = (err, p')" and "starts p p' n job" and "mwf (po_jobs p)"
    and "map_of (po_jobs p) jn = Some old"
  shows "n = jn \<and> \<not> je_lingers env \<and> job = BuildPostRestartJob (je_merge env) jn (po_gw p) spec cc jc"
proof -
  let ?job = "BuildPostRestartJob (je_merge env) jn (po_gw p) spec cc jc"
  obtain r1 p1 where f: "flush_status env (on_post_gw (set_last []) p) = (r1, p1)" by force
  then have j1: "po_jobs p1 = po_jobs p" using flush_jobs by fastforce
  show ?thesis
  proof (cases r1)
    case (Some e)
    with assms(1,2) f j1 show ?thesis by (auto simp: recreate_job_def Let_def starts_def)
  next
    case None
    obtain r2 p2 where d: "delete_job env jn p1 = (r2, p2)" by force
    have j2: "po_jobs p2 = po_jobs p \<or> \<not> je_lingers env \<and> po_jobs p2 = mdel jn (po_jobs p)"
      using d j1 by (auto simp: delete_job_def split: option.splits if_splits)
    obtain r3 p3 where c: "create_job env ?job p2 = (r3, p3)" by force
    have "po_jobs p' = po_jobs p2 \<or> r3 = CreateDone \<and> po_jobs p' = po_jobs p3"
      using assms(1) f d c None create_job_jobs [OF c]
      by (auto simp: recreate_job_def Let_def split: option.splits create_outcome.splits)
    with create_job_jobs [OF c] j2 assms(2-4) show ?thesis by (auto simp: starts_def split: if_splits)
  qed
qed

lemma existing_starts:
  assumes "reconcileExistingPostRestartRevision env spec jn jc want p = (err, p')" and "starts p p' n job" and "mwf (po_jobs p)"
  shows "n = jn \<and> \<not> je_lingers env \<and> job = BuildPostRestartJob (je_merge env) jn (po_gw p) spec (ii_appliedChecksum want) jc \<and>
    postRestartRolloutDone env want = Inr True \<and>
    (\<exists>old. map_of (po_jobs p) jn = Some old \<and> postRestartJobFailed old \<and> \<not> postRestartJobSucceeded old \<and>
       postRestartJobExecutionKnobsChanged spec old)"
proof -
  have ns: "\<not> starts p (on_post_gw f p) n job" "\<not> starts p p n job" for f by (auto simp: starts_def)
  from assms(1,2) ns obtain old where
    o: "map_of (po_jobs p) jn = Some old" "\<not> postRestartJobSucceeded old" "postRestartJobFailed old"
      "postRestartJobExecutionKnobsChanged spec old" "postRestartRolloutDone env want = Inr True"
      "recreate_job env spec jn jc (ii_appliedChecksum want) p = (err, p')"
    by (auto simp: reconcileExistingPostRestartRevision_def Let_def split: option.splits if_splits sum.splits)
  from recreate_job_starts [OF o(6) assms(2,3) o(1)] o show ?thesis by auto
qed



definition ex_post_spec :: PostRestartJobSpec where
  "ex_post_spec = \<lparr>pj_Enabled = True, pj_Script = ''echo ok'', pj_Command = [], pj_Image = [], pj_WorkingDir = [],
     pj_Env = JNull, pj_EnvFrom = JNull, pj_ServiceAccountName = [], pj_Resources = JNull, pj_SecurityContext = None,
     pj_PodSecurityContext = None, pj_PodLabels = [], pj_PodAnnotations = [], pj_BackoffLimit = Some 5,
     pj_ActiveDeadlineSeconds = None, pj_TTLSecondsAfterFinished = None, pj_TmpSizeLimit = None\<rparr>"

definition ex_job_env :: job_env where
  "ex_job_env = \<lparr>je_get = None, je_deployment = Inr (Some ex_dep), je_delete = None, je_lingers = False, je_create = None,
     je_merge = mmerge, je_api = ex_api\<rparr>"

definition ex_post :: post_state where
  "ex_post = \<lparr>po_pass = ex_kept, po_jobs = [], po_history = []\<rparr>"

definition ex_job_checksum :: string where
  "ex_job_checksum = PostRestartJobChecksum ex_post_spec (po_gw ex_post) ''c''"

definition ex_job_name :: string where
  "ex_job_name = PostRestartJobName (po_gw ex_post) ex_job_checksum"

definition ex_job :: Job where
  "ex_job = BuildPostRestartJob (je_merge ex_job_env) ex_job_name (po_gw ex_post) ex_post_spec ''c'' ex_job_checksum"

lemma ex_dep_converged: "deploymentConverged ex_dep ex_want" "dp_Replicas ex_dep = Some 2"
  by code_simp+

lemma ex_post_last: "gst_LastPostRestartJobChecksum (gw_Status (po_gw ex_post)) = []"
  by (simp add: po_gw_def ex_post_def ex_kept_def ex_kept_gw_def ex_gw_def zero_gateway_status_def)

text \<open>A revision that is not recorded and has no Job gets one as soon as the rollout is done.\<close>

definition wants_job :: "job_env \<Rightarrow> PostRestartJobSpec \<Rightarrow> infraInputs \<Rightarrow> bool" where
  "wants_job env spec want \<longleftrightarrow> pj_Enabled spec \<and> pj_Script spec \<noteq> [] \<and> ii_appliedChecksum want \<noteq> [] \<and>
     postRestartRolloutDone env want = Inr True \<and> je_get env = None \<and> je_create env = None \<and> je_delete env = None \<and>
     ae_update (je_api env) = None"

lemma create_path:
  assumes "wants_job env spec want" and c: "c = PostRestartJobChecksum spec (po_gw p) (ii_appliedChecksum want)"
    and n: "n = PostRestartJobName (po_gw p) c" and job: "job = BuildPostRestartJob (je_merge env) n (po_gw p) spec (ii_appliedChecksum want) c"
    and "gst_LastPostRestartJobChecksum (gw_Status (po_gw p)) \<noteq> c" and "map_of (po_jobs p) n = None"
  shows "\<exists>m a b m'. reconcilePostRestartJob env (Some spec) want p =
    (None, job_event m (on_post_gw (\<lambda>g. recordPostRestartJobROFSCondition job
       (setPostRestartJobSkippedCondition a b m' (set_last c g))) (noted (p\<lparr>po_jobs := mput n job (po_jobs p)\<rparr>))))"
proof -
  have "reconcilePostRestartJob env (Some spec) want p = create_first env spec n c (ii_appliedChecksum want) p"
    using assms by (simp add: reconcilePostRestartJob_def wants_job_def Let_def)
  moreover have "create_job env job p = (CreateDone, noted (p\<lparr>po_jobs := mput n job (po_jobs p)\<rparr>))"
    using assms by (simp add: create_job_def wants_job_def)
  ultimately show ?thesis
    unfolding create_first_def job [symmetric] Let_def by auto
qed

lemma ex_wants: "wants_job ex_job_env ex_post_spec ex_want"
proof -
  have "postRestartRolloutDone ex_job_env ex_want = Inr True"
    using ex_dep_converged by (simp add: postRestartRolloutDone_def ex_job_env_def)
  then show ?thesis by (simp add: wants_job_def ex_post_spec_def ex_want_def ex_job_env_def ex_api_def)
qed

lemma ex_post_step:
  "\<exists>m a b m'. reconcilePostRestartJob ex_job_env (Some ex_post_spec) ex_want ex_post =
    (None, job_event m (on_post_gw (\<lambda>g. recordPostRestartJobROFSCondition ex_job
       (setPostRestartJobSkippedCondition a b m' (set_last ex_job_checksum g)))
       (noted (ex_post\<lparr>po_jobs := mput ex_job_name ex_job (po_jobs ex_post)\<rparr>))))"
proof (rule create_path [OF ex_wants])
  have "ii_appliedChecksum ex_want = ''c''" by (simp add: ex_want_def)
  then show "ex_job_checksum = PostRestartJobChecksum ex_post_spec (po_gw ex_post) (ii_appliedChecksum ex_want)"
    "ex_job = BuildPostRestartJob (je_merge ex_job_env) ex_job_name (po_gw ex_post) ex_post_spec (ii_appliedChecksum ex_want) ex_job_checksum"
    by (simp_all add: ex_job_checksum_def ex_job_def)
  show "gst_LastPostRestartJobChecksum (gw_Status (po_gw ex_post)) \<noteq> ex_job_checksum"
    unfolding ex_post_last ex_job_checksum_def by (metis PostRestartJobChecksum_not_Nil)
qed (simp_all add: ex_job_name_def ex_post_def)

lemma ex_post_run:
  "\<exists>err p'. reconcilePostRestartJob ex_job_env (Some ex_post_spec) ex_want ex_post = (err, p') \<and> starts ex_post p' ex_job_name ex_job"
  using ex_post_step by (auto simp: starts_def ex_post_def)


section \<open>Crashes\<close>

text \<open>
  What the server holds of a gateway named like \<open>gw\<close>: the stored status, the Jobs, and the names
  whose Job something else than a pass has removed (a user, the time to live, the end of a
  background deletion). A pass of the step starts from a read of that state; when its read is
  stale its versions differ and its writes fail. Every state of its history is a state a crash of
  the operator may leave.
\<close>

definition recorded_ok :: "KrakenDGateway \<Rightarrow> string set \<Rightarrow> string \<Rightarrow> jobs \<Rightarrow> bool" where
  "recorded_ok gw lost c jobs \<longleftrightarrow>
     c = [] \<or> map_of jobs (PostRestartJobName gw c) \<noteq> None \<or> PostRestartJobName gw c \<in> lost"

abbreviation last_of :: "KrakenDGatewayStatus \<Rightarrow> string" where
  "last_of \<equiv> gst_LastPostRestartJobChecksum"

definition reads :: "KrakenDGateway \<Rightarrow> KrakenDGatewayStatus \<times> jobs \<Rightarrow> post_state \<Rightarrow> bool" where
  "reads gw srv p \<longleftrightarrow> server_of p = srv \<and> po_history p = [] \<and> gw_Name (po_gw p) = gw_Name gw \<and>
     (pa_version (po_pass p) = pa_storedVersion (po_pass p) \<longrightarrow> last_of (gw_Status (po_gw p)) = last_of (fst srv))"

inductive job_reach :: "KrakenDGateway \<Rightarrow> KrakenDGatewayStatus \<Rightarrow> jobs \<Rightarrow> string set \<Rightarrow> bool" for gw where
  fresh: "last_of st = [] \<Longrightarrow> mwf jobs \<Longrightarrow> job_reach gw st jobs {}"
| pass: "job_reach gw st jobs lost \<Longrightarrow> reads gw (st, jobs) p \<Longrightarrow> post_pass env jobSpec want before p = (err, p') \<Longrightarrow>
     srv \<in> set (po_history p') \<Longrightarrow> job_reach gw (fst srv) (snd srv) lost"
| other_write: "job_reach gw st jobs lost \<Longrightarrow> last_of st' = last_of st \<Longrightarrow> job_reach gw st' jobs lost"
| reset: "job_reach gw st jobs lost \<Longrightarrow> last_of st' = [] \<Longrightarrow> job_reach gw st' jobs lost"
| ran: "job_reach gw st jobs lost \<Longrightarrow> mwf jobs' \<Longrightarrow> fst ` set jobs' = fst ` set jobs \<Longrightarrow> job_reach gw st jobs' lost"
| removed: "job_reach gw st jobs lost \<Longrightarrow> job_reach gw st (mdel n jobs) (insert n lost)"

definition crash_inv :: "KrakenDGateway \<Rightarrow> string set \<Rightarrow> KrakenDGatewayStatus \<times> jobs \<Rightarrow> bool" where
  "crash_inv gw lost srv \<longleftrightarrow> mwf (snd srv) \<and> recorded_ok gw lost (last_of (fst srv)) (snd srv)"

text \<open>The same of a pass under way: of the server, of its history and of the memory of a pass that may still write.\<close>

definition pass_inv :: "KrakenDGateway \<Rightarrow> string set \<Rightarrow> post_state \<Rightarrow> bool" where
  "pass_inv gw lost p \<longleftrightarrow> (\<forall>srv \<in> set (server_of p # po_history p). crash_inv gw lost srv) \<and> gw_Name (po_gw p) = gw_Name gw \<and>
     (pa_version (po_pass p) = pa_storedVersion (po_pass p) \<longrightarrow> recorded_ok gw lost (last_of (gw_Status (po_gw p))) (po_jobs p))"

lemma recorded_ok_Nil [simp]: "recorded_ok gw lost [] jobs"
  by (simp add: recorded_ok_def)

lemma PostRestartJobName_cong: "gw_Name gw = gw_Name gw' \<Longrightarrow> PostRestartJobName gw c = PostRestartJobName gw' c"
  by (simp add: PostRestartJobName_def)

lemma pass_inv_gw:
  assumes "pass_inv gw lost p" and "gw_Name (f (po_gw p)) = gw_Name (po_gw p)"
    and "last_of (gw_Status (f (po_gw p))) = last_of (gw_Status (po_gw p)) \<or> recorded_ok gw lost (last_of (gw_Status (f (po_gw p)))) (po_jobs p)"
  shows "pass_inv gw lost (on_post_gw f p)"
proof -
  have "pa_version (po_pass (on_post_gw f p)) = pa_version (po_pass p)"
    "pa_storedVersion (po_pass (on_post_gw f p)) = pa_storedVersion (po_pass p)" by (simp_all add: on_post_gw_def)
  with assms show ?thesis by (auto simp: pass_inv_def)
qed

lemma pass_inv_event: "pass_inv gw lost p \<Longrightarrow> pass_inv gw lost (job_event m p)"
  by (simp add: pass_inv_def) (simp add: job_event_def on_gw_def split: prod.splits)

lemma condition_status [simp]:
  "gw_Name (with_conditions h g) = gw_Name g" "last_of (gw_Status (with_conditions h g)) = last_of (gw_Status g)"
  "gw_Name (set_condition c g) = gw_Name g" "last_of (gw_Status (set_condition c g)) = last_of (gw_Status g)"
  by (simp_all add: set_condition_def with_conditions_def)

lemma set_last_status [simp]:
  "gw_Name (set_last c g) = gw_Name g" "last_of (gw_Status (set_last c g)) = c"
  by (simp_all add: set_last_def)

lemma skipped_status [simp]:
  "gw_Name (setPostRestartJobSkippedCondition a b m g) = gw_Name g"
  "last_of (gw_Status (setPostRestartJobSkippedCondition a b m g)) = last_of (gw_Status g)"
  by (simp_all only: setPostRestartJobSkippedCondition_def condition_status)

lemma rofs_status [simp]:
  "gw_Name (recordPostRestartJobROFSCondition job g) = gw_Name g"
  "last_of (gw_Status (recordPostRestartJobROFSCondition job g)) = last_of (gw_Status g)"
  by (simp_all only: recordPostRestartJobROFSCondition_def Let_def condition_status if_distrib [of gw_Name]
      if_distrib [of gw_Status] if_distrib [of last_of] if_cancel)

lemma pass_inv_noted:
  assumes "pass_inv gw lost p" and "po_history q = po_history p" and "po_gw q = po_gw p"
    and "crash_inv gw lost (server_of q)" and "recorded_ok gw lost (last_of (gw_Status (po_gw p))) (po_jobs q)"
  shows "pass_inv gw lost (noted q)"
  using assms by (simp add: pass_inv_def)

lemma pass_invD:
  assumes "pass_inv gw lost p"
  shows "mwf (po_jobs p)" "recorded_ok gw lost (last_of (pa_stored (po_pass p))) (po_jobs p)" "gw_Name (po_gw p) = gw_Name gw"
    "pa_version (po_pass p) = pa_storedVersion (po_pass p) \<Longrightarrow> recorded_ok gw lost (last_of (gw_Status (po_gw p))) (po_jobs p)"
  using assms by (simp_all add: pass_inv_def crash_inv_def server_of_def)

lemma status_write_inv:
  assumes i: "pass_inv gw lost p" and u: "status_update env (gw_Status (po_gw p)) (po_pass p) = (None, q)"
  shows "pass_inv gw lost (noted (p\<lparr>po_pass := q\<rparr>)) \<and> po_gw (p\<lparr>po_pass := q\<rparr>) = po_gw p \<and> pa_stored q = gw_Status (po_gw p)"
proof -
  from u have v: "pa_version (po_pass p) = pa_storedVersion (po_pass p)" and s: "pa_stored q = gw_Status (po_gw p)"
    and g: "pa_gw q = pa_gw (po_pass p)"
    by (auto simp: status_update_def split: option.splits if_splits)
  have r: "recorded_ok gw lost (last_of (gw_Status (po_gw p))) (po_jobs p)" using pass_invD(4) [OF i v] .
  have "pass_inv gw lost (noted (p\<lparr>po_pass := q\<rparr>))"
  proof (rule pass_inv_noted [OF i])
    show "crash_inv gw lost (server_of (p\<lparr>po_pass := q\<rparr>))"
      using r pass_invD(1) [OF i] s by (simp add: crash_inv_def server_of_def)
  qed (use g r in \<open>simp_all add: po_gw_def\<close>)
  then show ?thesis using s g by (simp add: po_gw_def)
qed

lemma status_update_fails: "status_update env st p = (Some e, q) \<Longrightarrow> q = p"
  by (auto simp: status_update_def split: option.splits if_splits)

lemma pass_inv_flush:
  assumes i: "pass_inv gw lost p" and f: "flush_status env p = (r, p')"
  shows "pass_inv gw lost p' \<and> po_gw p' = po_gw p \<and> (r = None \<longrightarrow> pa_stored (po_pass p') = gw_Status (po_gw p))"
proof -
  obtain r' q where u: "status_update (je_api env) (gw_Status (po_gw p)) (po_pass p) = (r', q)" by force
  show ?thesis
  proof (cases r')
    case None
    with u f have "r = None" "p' = noted (p\<lparr>po_pass := q\<rparr>)" by (simp_all add: flush_status_def)
    with status_write_inv [OF i u [unfolded None]] show ?thesis by simp
  next
    case (Some e)
    with u f status_update_fails [OF u [unfolded Some]] have "r = Some e" "p' = p" by (simp_all add: flush_status_def)
    with i show ?thesis by simp
  qed
qed

lemma recorded_ok_mput:
  "mwf jobs \<Longrightarrow> recorded_ok gw lost c jobs \<Longrightarrow> recorded_ok gw lost c (mput n j jobs)"
  by (auto simp: recorded_ok_def)

lemma pass_inv_create:
  assumes i: "pass_inv gw lost p" and c: "create_job env job p = (r, p')"
  shows "pass_inv gw lost p' \<and> po_gw p' = po_gw p \<and> (r = CreateDone \<longrightarrow> map_of (po_jobs p') (jb_Name job) \<noteq> None)"
proof (cases "r = CreateDone")
  case True
  let ?q = "p\<lparr>po_jobs := mput (jb_Name job) job (po_jobs p)\<rparr>"
  from True c have p': "p' = noted ?q" by (auto simp: create_job_def split: option.splits if_splits)
  note d = pass_invD [OF i]
  have cr: "crash_inv gw lost (server_of ?q)" using d(1,2) by (simp add: crash_inv_def server_of_def recorded_ok_mput)
  have "pass_inv gw lost p'"
    using i d recorded_ok_mput [OF d(1)] cr unfolding p' pass_inv_def
    by (simp add: po_gw_def server_of_def)
  with d(1) p' show ?thesis by (simp add: po_gw_def)
next
  case False
  with c have "p' = p" by (auto simp: create_job_def split: option.splits if_splits)
  with i False show ?thesis by simp
qed

lemma pass_inv_delete:
  assumes i: "pass_inv gw lost p" and d: "delete_job env n p = (r, p')"
    and "last_of (gw_Status (po_gw p)) = []" and "last_of (pa_stored (po_pass p)) = []"
  shows "pass_inv gw lost p' \<and> po_gw p' = po_gw p"
proof -
  let ?q = "p\<lparr>po_jobs := mdel n (po_jobs p)\<rparr>"
  have "pass_inv gw lost (noted ?q)"
    by (rule pass_inv_noted [OF i]) (use assms pass_invD(1) [OF i] in \<open>simp_all add: po_gw_def crash_inv_def server_of_def\<close>)
  moreover from d have "p' = p \<or> p' = noted ?q" by (auto simp: delete_job_def split: option.splits if_splits)
  ultimately show ?thesis using i by (auto simp: po_gw_def)
qed

lemma pass_inv_keep: "pass_inv gw lost p \<Longrightarrow> pass_inv gw lost (on_post_gw (skipped_gw m job) p)"
  by (rule pass_inv_gw) (simp_all only: skipped_gw_def skipped_status rofs_status simp_thms)

text \<open>Recording a revision whose Job is there.\<close>

lemma pass_inv_record:
  assumes i: "pass_inv gw lost p" and j: "map_of (po_jobs p) (PostRestartJobName (po_gw p) c) \<noteq> None"
  shows "pass_inv gw lost (on_post_gw (\<lambda>g. recordPostRestartJobROFSCondition job
           (setPostRestartJobSkippedCondition a b m (set_last c g))) p)"
proof (rule pass_inv_gw [OF i])
  have "recorded_ok gw lost c (po_jobs p)"
    using j PostRestartJobName_cong [OF pass_invD(3) [OF i], of c] by (simp add: recorded_ok_def)
  then show "last_of (gw_Status (recordPostRestartJobROFSCondition job (setPostRestartJobSkippedCondition a b m
      (set_last c (po_gw p))))) = last_of (gw_Status (po_gw p)) \<or> recorded_ok gw lost (last_of (gw_Status
      (recordPostRestartJobROFSCondition job (setPostRestartJobSkippedCondition a b m (set_last c (po_gw p)))))) (po_jobs p)"
    by (simp only: rofs_status skipped_status set_last_status simp_thms)
qed (simp only: rofs_status skipped_status set_last_status)

lemma pass_inv_create_first:
  assumes i: "pass_inv gw lost p" and n: "jn = PostRestartJobName (po_gw p) jc"
    and r: "create_first env spec jn jc cc p = (err, p')"
  shows "pass_inv gw lost p'"
proof -
  let ?job = "BuildPostRestartJob (je_merge env) jn (po_gw p) spec cc jc"
  obtain out p1 where c: "create_job env ?job p = (out, p1)" by force
  note k = pass_inv_create [OF i c]
  show ?thesis
  proof (cases out)
    case CreateDone
    with k n have "map_of (po_jobs p1) (PostRestartJobName (po_gw p1) jc) \<noteq> None" by simp
    with k have "pass_inv gw lost (on_post_gw (\<lambda>g. recordPostRestartJobROFSCondition job
           (setPostRestartJobSkippedCondition a b m (set_last jc g))) p1)" for job a b m by (blast intro: pass_inv_record)
    with r c CreateDone show ?thesis by (auto simp: create_first_def Let_def intro!: pass_inv_event)
  qed (use k r c in \<open>simp_all add: create_first_def Let_def\<close>)
qed

lemma pass_inv_recreate:
  assumes i: "pass_inv gw lost p" and n: "jn = PostRestartJobName (po_gw p) jc"
    and r: "recreate_job env spec jn jc cc p = (err, p')"
  shows "pass_inv gw lost p'"
proof -
  let ?job = "BuildPostRestartJob (je_merge env) jn (po_gw p) spec cc jc"
  have i0: "pass_inv gw lost (on_post_gw (set_last []) p)" by (rule pass_inv_gw [OF i]) simp_all
  obtain r1 p1 where f: "flush_status env (on_post_gw (set_last []) p) = (r1, p1)" by force
  note k1 = pass_inv_flush [OF i0 f]
  show ?thesis
  proof (cases r1)
    case (Some e)
    with k1 r f show ?thesis by (simp add: recreate_job_def Let_def)
  next
    case None
    obtain r2 p2 where d: "delete_job env jn p1 = (r2, p2)" by force
    have k2: "pass_inv gw lost p2 \<and> po_gw p2 = set_last [] (po_gw p)"
      using pass_inv_delete [OF _ d, of gw lost] k1 None by simp
    obtain r3 p3 where c: "create_job env ?job p2 = (r3, p3)" by force
    have k3: "pass_inv gw lost p3 \<and> po_gw p3 = set_last [] (po_gw p) \<and> (r3 = CreateDone \<longrightarrow> map_of (po_jobs p3) jn \<noteq> None)"
      using pass_inv_create [OF _ c, of gw lost] k2 by simp
    have "jn = PostRestartJobName (po_gw p3) jc" using k3 n PostRestartJobName_cong [of "po_gw p3" "po_gw p" jc] by simp
    with k3 have rec: "pass_inv gw lost (on_post_gw (\<lambda>g. recordPostRestartJobROFSCondition job
           (setPostRestartJobSkippedCondition a b m (set_last jc g))) p3)" if "r3 = CreateDone" for job a b m
      using that by (blast intro: pass_inv_record)
    show ?thesis
    proof (cases r2)
      case (Some e)
      with k2 r f None d show ?thesis by (simp add: recreate_job_def Let_def)
    next
      case no_error: None
      with r f None d c k3 rec show ?thesis
        by (cases r3) (auto simp: recreate_job_def Let_def intro!: pass_inv_event)
    qed
  qed
qed

lemma pass_inv_existing:
  assumes "pass_inv gw lost p" and "jn = PostRestartJobName (po_gw p) jc"
    and r: "reconcileExistingPostRestartRevision env spec jn jc want p = (err, p')"
  shows "pass_inv gw lost p'"
proof -
  from r consider m job where "p' = on_post_gw (skipped_gw m job) p" | "p' = p"
    | "recreate_job env spec jn jc (ii_appliedChecksum want) p = (err, p')"
    unfolding reconcileExistingPostRestartRevision_def Let_def
    by (auto split: option.splits if_splits sum.splits)
  then show ?thesis using pass_inv_keep [OF assms(1)] pass_inv_recreate [OF assms(1,2)] assms(1) by cases auto
qed

lemma pass_inv_step:
  assumes i: "pass_inv gw lost p" and r: "reconcilePostRestartJob env jobSpec want p = (err, p')"
  shows "pass_inv gw lost p'"
proof -
  have off: "pass_inv gw lost (on_post_gw (\<lambda>g. with_conditions f (with_conditions h g)) p)" for f h
    by (rule pass_inv_gw [OF i]) simp_all
  from r consider f h where "p' = on_post_gw (\<lambda>g. with_conditions f (with_conditions h g)) p" | "p' = p"
    | spec c where "reconcileExistingPostRestartRevision env spec (PostRestartJobName (po_gw p) c) c want p = (err, p')"
    | c job where "p' = on_post_gw (adopt_job (PostRestartJobName (po_gw p) c) c job) p"
        "map_of (po_jobs p) (PostRestartJobName (po_gw p) c) \<noteq> None"
    | spec c where "create_first env spec (PostRestartJobName (po_gw p) c) c (ii_appliedChecksum want) p = (err, p')"
    unfolding reconcilePostRestartJob_def Let_def
    by (auto split: option.splits if_splits sum.splits)
  then show ?thesis
  proof cases
    case 4
    then show ?thesis using pass_inv_record [OF i] by (simp add: adopt_job_def [abs_def] Let_def)
  qed (use off i pass_inv_existing [OF i refl] pass_inv_create_first [OF i refl] in auto)
qed

lemma pass_inv_post_pass:
  assumes i: "pass_inv gw lost p" and r: "post_pass env jobSpec want before p = (err, p')"
  shows "pass_inv gw lost p'"
proof -
  obtain e p1 where s: "reconcilePostRestartJob env jobSpec want p = (e, p1)" by force
  note k = pass_inv_step [OF i s]
  obtain u q where w: "updateStatusIfChanged (je_api env) before (po_pass p1) = (u, q)" by force
  have "pass_inv gw lost (noted p1)" using k by (auto simp: pass_inv_def)
  with w r s k status_write_inv [OF k, of "je_api env"] show ?thesis
    by (cases u) (auto simp: post_pass_def updateStatusIfChanged_def po_gw_def dest: status_update_fails split: if_splits)
qed

lemma job_reach_inv: "job_reach gw st jobs lost \<Longrightarrow> crash_inv gw lost (st, jobs)"
proof (induction rule: job_reach.induct)
  case (pass st jobs lost p env jobSpec want before err p' srv)
  have "pass_inv gw lost p"
    using pass.IH pass.hyps(2) by (auto simp: pass_inv_def reads_def server_of_def crash_inv_def)
  from pass_inv_post_pass [OF this pass.hyps(3)] pass.hyps(4) show ?case by (simp add: pass_inv_def)
next
  case (ran st jobs lost jobs')
  then have "map_of jobs' n = None \<longleftrightarrow> map_of jobs n = None" for n by (simp add: map_of_eq_None_iff)
  with ran show ?case by (auto simp: crash_inv_def recorded_ok_def)
next
  case (removed st jobs lost n)
  then show ?case by (auto simp: crash_inv_def recorded_ok_def)
qed (auto simp: crash_inv_def)

text \<open>
  C33: recording a revision is crash-safe. Whatever sequence of passes, user edits, Job runs and
  removals led here, and wherever a crash cut a pass short, a stored checksum names a revision
  whose Job exists or was removed by something else than a pass: the operator never records a
  revision before its Job is created, and clears the record before it deletes a Job.
\<close>

theorem job_reach_recorded:
  assumes "job_reach gw st jobs lost" and "gst_LastPostRestartJobChecksum st = c" and "c \<noteq> []"
  shows "map_of jobs (PostRestartJobName gw c) \<noteq> None \<or> PostRestartJobName gw c \<in> lost"
  using job_reach_inv [OF assms(1)] assms(2,3) by (simp add: crash_inv_def recorded_ok_def)

lemma ex_post_reads: "reads (po_gw ex_post) (pa_stored (po_pass ex_post), []) ex_post"
  by (simp add: reads_def server_of_def ex_post_def po_gw_def ex_kept_def)

lemma status_changed_last: "last_of before \<noteq> last_of after \<Longrightarrow> gatewayStatusChanged before after"
  unfolding gatewayStatusChanged_def by (metis KrakenDGatewayStatus.ext_inject KrakenDGatewayStatus.surjective KrakenDGatewayStatus.update_convs)

lemma ex_post_pass:
  "\<exists>err p' srv. post_pass ex_job_env (Some ex_post_spec) ex_want zero_gateway_status ex_post = (err, p') \<and>
     srv \<in> set (po_history p') \<and> last_of (fst srv) = ex_job_checksum"
proof -
  from ex_post_step obtain p1 where s: "reconcilePostRestartJob ex_job_env (Some ex_post_spec) ex_want ex_post = (None, p1)"
    and l: "last_of (gw_Status (po_gw p1)) = ex_job_checksum"
    and v: "pa_version (po_pass p1) = 0" "pa_storedVersion (po_pass p1) = 0"
    by (fastforce simp: job_event_def on_post_gw_def on_gw_def po_gw_def ex_post_def ex_kept_def)
  have "last_of zero_gateway_status \<noteq> last_of (gw_Status (po_gw p1))"
    unfolding l ex_job_checksum_def by (simp add: zero_gateway_status_def) (metis PostRestartJobChecksum_not_Nil)
  with v have "\<exists>q. updateStatusIfChanged (je_api ex_job_env) zero_gateway_status (po_pass p1) = (None, q) \<and>
      pa_stored q = gw_Status (po_gw p1)"
    by (simp add: updateStatusIfChanged_def status_changed_last po_gw_def status_update_def ex_job_env_def ex_api_def)
  then obtain q where q: "updateStatusIfChanged (je_api ex_job_env) zero_gateway_status (po_pass p1) = (None, q)"
    "pa_stored q = gw_Status (po_gw p1)" by blast
  let ?p' = "noted (p1\<lparr>po_pass := q\<rparr>)"
  have "post_pass ex_job_env (Some ex_post_spec) ex_want zero_gateway_status ex_post = (None, ?p')"
    using s q(1) by (simp add: post_pass_def)
  moreover have "(gw_Status (po_gw p1), po_jobs p1) \<in> set (po_history ?p')" using q(2) by (simp add: server_of_def)
  ultimately show ?thesis using l by (metis fst_conv)
qed

theorem job_reach_recorded_witness:
  "\<exists>st jobs. job_reach (po_gw ex_post) st jobs {} \<and> gst_LastPostRestartJobChecksum st = ex_job_checksum \<and>
     (map_of jobs (PostRestartJobName (po_gw ex_post) ex_job_checksum) \<noteq> None \<or>
      PostRestartJobName (po_gw ex_post) ex_job_checksum \<in> {})"
proof -
  from ex_post_pass obtain err p' srv where
    pass: "post_pass ex_job_env (Some ex_post_spec) ex_want zero_gateway_status ex_post = (err, p')"
    "srv \<in> set (po_history p')" and l: "last_of (fst srv) = ex_job_checksum" by blast
  have "last_of (pa_stored (po_pass ex_post)) = []"
    by (simp add: ex_post_def ex_kept_def ex_kept_gw_def zero_gateway_status_def)
  then have "job_reach (po_gw ex_post) (pa_stored (po_pass ex_post)) [] {}" by (rule job_reach.fresh) simp
  from job_reach.pass [OF this ex_post_reads pass]
  have r: "job_reach (po_gw ex_post) (fst srv) (snd srv) {}" .
  have "ex_job_checksum \<noteq> []" unfolding ex_job_checksum_def by (metis PostRestartJobChecksum_not_Nil)
  from job_reach_recorded [OF r l this] r l show ?thesis by blast
qed

section \<open>A retry that is lost\<close>

lemma checksum_name_cong:
  assumes "gw_Name gw = gw_Name gw'"
  shows "PostRestartJobChecksum spec gw c = PostRestartJobChecksum spec gw' c"
  using assms by (simp add: PostRestartJobChecksum_def postRestartJobProjection_def effectivePostRestartServiceAccountName_def)

text \<open>A step on a recorded revision without a Job changes neither.\<close>

lemma stranded_step:
  assumes "gst_LastPostRestartJobChecksum (gw_Status (po_gw p)) = PostRestartJobChecksum spec (po_gw p) (ii_appliedChecksum want)"
    and "map_of (po_jobs p) (PostRestartJobName (po_gw p) (gst_LastPostRestartJobChecksum (gw_Status (po_gw p)))) = None"
    and "reconcilePostRestartJob env (Some spec) want p = (err, p')"
  shows "po_jobs p' = po_jobs p \<and> gw_Name (po_gw p') = gw_Name (po_gw p) \<and>
    last_of (gw_Status (po_gw p')) = last_of (gw_Status (po_gw p))"
proof -
  from assms consider f h where "p' = on_post_gw (\<lambda>g. with_conditions f (with_conditions h g)) p" | "p' = p"
    | m job where "p' = on_post_gw (skipped_gw m job) p"
    unfolding reconcilePostRestartJob_def reconcileExistingPostRestartRevision_def Let_def
    by (auto split: option.splits if_splits)
  then show ?thesis by cases (simp_all add: skipped_gw_def)
qed

lemma stranded_forever:
  assumes "gst_LastPostRestartJobChecksum (gw_Status (po_gw p)) = PostRestartJobChecksum spec (po_gw p) (ii_appliedChecksum want)"
    and "map_of (po_jobs p) (PostRestartJobName (po_gw p) (gst_LastPostRestartJobChecksum (gw_Status (po_gw p)))) = None"
  shows "po_jobs (fold (\<lambda>env q. snd (reconcilePostRestartJob env (Some spec) want q)) envs p) = po_jobs p"
  using assms
proof (induction envs arbitrary: p)
  case (Cons env envs)
  obtain err p' where r: "reconcilePostRestartJob env (Some spec) want p = (err, p')" by force
  note k = stranded_step [OF Cons.prems r]
  have "po_jobs (fold (\<lambda>env q. snd (reconcilePostRestartJob env (Some spec) want q)) envs p') = po_jobs p'"
    by (rule Cons.IH) (use Cons.prems k checksum_name_cong [of "po_gw p'" "po_gw p"]
      PostRestartJobName_cong [of "po_gw p'" "po_gw p"] in simp_all)
  with r k show ?case by simp
qed simp

lemma recreate_lingers:
  assumes "wants_job env spec want" and "je_lingers env" and "pa_version (po_pass p) = pa_storedVersion (po_pass p)"
    and "map_of (po_jobs p) n = Some old"
  shows "\<exists>p'. recreate_job env spec n c cc p = (None, p') \<and> po_jobs p' = po_jobs p \<and> po_gw p' = set_last [] (po_gw p)"
proof -
  let ?p0 = "on_post_gw (set_last []) p"
  have v: "pa_version (po_pass ?p0) = pa_storedVersion (po_pass ?p0)" "pa_gw (po_pass ?p0) = set_last [] (po_gw p)"
    using assms(3) by (simp_all add: on_post_gw_def po_gw_def)
  with assms(1) obtain p1 where f: "flush_status env ?p0 = (None, p1)" "po_jobs p1 = po_jobs p" "po_gw p1 = set_last [] (po_gw p)"
    by (auto simp: flush_status_def status_update_def wants_job_def po_gw_def on_post_gw_def)
  with assms have "delete_job env n p1 = (None, p1)" by (simp add: delete_job_def wants_job_def)
  moreover have "create_job env (BuildPostRestartJob (je_merge env) n (po_gw p) spec cc c) p1 = (CreateExists, p1)"
    using assms f by (simp add: create_job_def wants_job_def)
  ultimately show ?thesis using f by (simp add: recreate_job_def Let_def)
qed

text \<open>
  C34: a retry can be lost. A failed Job is to be re-created after a knob edit, and the deletion,
  accepted in the background, is not complete when the pass creates the new Job. That pass clears
  the record and takes the name conflict for a race that a later pass settles; the next pass
  adopts the terminating Job and records the revision again. Once that Job is gone, no later
  pass, whatever it observes, creates a Job for this revision.
\<close>

theorem recreate_race_loses_retry:
  assumes w: "wants_job env spec want" and l: "je_lingers env"
    and v: "pa_version (po_pass p) = pa_storedVersion (po_pass p)"
    and c: "c = PostRestartJobChecksum spec (po_gw p) (ii_appliedChecksum want)" and n: "n = PostRestartJobName (po_gw p) c"
    and last: "gst_LastPostRestartJobChecksum (gw_Status (po_gw p)) = c"
    and old: "map_of (po_jobs p) n = Some old" "postRestartJobFailed old" "\<not> postRestartJobSucceeded old"
      "postRestartJobExecutionKnobsChanged spec old"
  shows "\<exists>p1 p2. reconcilePostRestartJob env (Some spec) want p = (None, p1) \<and>
      gst_LastPostRestartJobChecksum (gw_Status (po_gw p1)) = [] \<and>
    reconcilePostRestartJob env (Some spec) want p1 = (None, p2) \<and>
      gst_LastPostRestartJobChecksum (gw_Status (po_gw p2)) = c \<and>
    (let gone = p2\<lparr>po_jobs := mdel n (po_jobs p2)\<rparr>
     in \<forall>envs. map_of (po_jobs (fold (\<lambda>env q. snd (reconcilePostRestartJob env (Some spec) want q)) envs gone)) n = None)"
proof -
  from recreate_lingers [OF w l v old(1)] obtain p1 where
    r: "recreate_job env spec n c (ii_appliedChecksum want) p = (None, p1)" "po_jobs p1 = po_jobs p" "po_gw p1 = set_last [] (po_gw p)"
    by blast
  have s1: "reconcilePostRestartJob env (Some spec) want p = (None, p1)"
    using w c n last old r(1)
    by (simp add: reconcilePostRestartJob_def reconcileExistingPostRestartRevision_def wants_job_def Let_def)
  have names: "PostRestartJobChecksum spec (po_gw p1) (ii_appliedChecksum want) = c" "PostRestartJobName (po_gw p1) c = n"
    using c n r(3) checksum_name_cong [of "po_gw p1" "po_gw p"] PostRestartJobName_cong [of "po_gw p1" "po_gw p"] by simp_all
  have ne: "c \<noteq> []" using c by simp
  let ?p2 = "on_post_gw (adopt_job n c old) p1"
  have s2: "reconcilePostRestartJob env (Some spec) want p1 = (None, ?p2)"
    using w names ne r old by (simp add: reconcilePostRestartJob_def wants_job_def Let_def)
  have g2: "last_of (gw_Status (po_gw ?p2)) = c" "gw_Name (po_gw ?p2) = gw_Name (po_gw p1)"
    by (simp_all only: on_post_gw_simps adopt_job_def Let_def rofs_status skipped_status set_last_status)
  let ?q = "?p2\<lparr>po_jobs := mdel n (po_jobs ?p2)\<rparr>"
  have q: "po_gw ?q = po_gw ?p2" by (simp add: po_gw_def)
  have "po_jobs (fold (\<lambda>env q. snd (reconcilePostRestartJob env (Some spec) want q)) envs ?q) = po_jobs ?q" for envs
    by (rule stranded_forever; unfold q g2(1))
      (use names checksum_name_cong [OF g2(2)] PostRestartJobName_cong [OF g2(2)] in \<open>simp_all add: map_of_mdel_raw\<close>)
  then have "\<forall>envs. map_of (po_jobs (fold (\<lambda>env q. snd (reconcilePostRestartJob env (Some spec) want q)) envs ?q)) n = None"
    by (simp add: map_of_mdel_raw)
  with s1 s2 g2(1) r(3) show ?thesis unfolding Let_def by (metis set_last_status(2))
qed

definition ex_failed :: Job where
  "ex_failed = ex_job\<lparr>jb_BackoffLimit := Some 2, jb_Conditions := [(''Failed'', ConditionTrue)]\<rparr>"

definition ex_retry :: post_state where
  "ex_retry = (on_post_gw (set_last ex_job_checksum) ex_post)\<lparr>po_jobs := [(ex_job_name, ex_failed)]\<rparr>"

theorem recreate_race_loses_retry_witness:
  "\<exists>p1 p2. reconcilePostRestartJob (ex_job_env\<lparr>je_lingers := True\<rparr>) (Some ex_post_spec) ex_want ex_retry = (None, p1) \<and>
      gst_LastPostRestartJobChecksum (gw_Status (po_gw p1)) = [] \<and>
    reconcilePostRestartJob (ex_job_env\<lparr>je_lingers := True\<rparr>) (Some ex_post_spec) ex_want p1 = (None, p2) \<and>
      gst_LastPostRestartJobChecksum (gw_Status (po_gw p2)) = ex_job_checksum \<and>
    (let gone = p2\<lparr>po_jobs := mdel ex_job_name (po_jobs p2)\<rparr>
     in \<forall>envs. map_of (po_jobs (fold (\<lambda>env q. snd (reconcilePostRestartJob env (Some ex_post_spec) ex_want q)) envs gone))
          ex_job_name = None)"
proof (rule recreate_race_loses_retry)
  have g: "po_gw ex_retry = set_last ex_job_checksum (po_gw ex_post)" by (simp add: ex_retry_def po_gw_def on_post_gw_def)
  have c: "ii_appliedChecksum ex_want = ''c''" by (simp add: ex_want_def)
  show "wants_job (ex_job_env\<lparr>je_lingers := True\<rparr>) ex_post_spec ex_want"
    using ex_wants by (simp add: wants_job_def postRestartRolloutDone_def)
  show "pa_version (po_pass ex_retry) = pa_storedVersion (po_pass ex_retry)"
    by (simp add: ex_retry_def on_post_gw_def ex_post_def ex_kept_def)
  show "ex_job_checksum = PostRestartJobChecksum ex_post_spec (po_gw ex_retry) (ii_appliedChecksum ex_want)"
    using checksum_name_cong [of "po_gw ex_retry" "po_gw ex_post"] by (simp add: g c ex_job_checksum_def)
  show "ex_job_name = PostRestartJobName (po_gw ex_retry) ex_job_checksum"
    using PostRestartJobName_cong [of "po_gw ex_retry" "po_gw ex_post"] by (simp add: g ex_job_name_def)
  show "map_of (po_jobs ex_retry) ex_job_name = Some ex_failed" by (simp add: ex_retry_def)
  show "postRestartJobFailed ex_failed" "\<not> postRestartJobSucceeded ex_failed"
    by (simp_all add: postRestartJobFailed_def postRestartJobSucceeded_def ex_failed_def ex_job_def BuildPostRestartJob_def Let_def)
  show "postRestartJobExecutionKnobsChanged ex_post_spec ex_failed"
    by (simp add: postRestartJobExecutionKnobsChanged_def ex_failed_def ex_post_spec_def)
  show "gst_LastPostRestartJobChecksum (gw_Status (po_gw ex_retry)) = ex_job_checksum" by (simp add: g)
qed simp

end
