(* ===== verification/SpecPrepare.thy ===== *)
theory SpecPrepare
  imports SpecWalk Effects
begin

text \<open>
  Preparing a fetched OpenAPI document: servers are removed (\<^verbatim>\<open>internal/autoconfig/preprocessor.go\<close>)
  and references to parameters are replaced by the parameters (\<^verbatim>\<open>parameters.go\<close>).

  \<^verbatim>\<open>decodeSpec\<close>, JSON or YAML through a library, is the parameter \<open>decode\<close>; \<^const>\<open>None\<close> is the
  nil map that the text \<^verbatim>\<open>null\<close> decodes to. Code that changes a decoded document through a
  reference returns the changed document.
\<close>

type_synonym decoder = "string \<Rightarrow> string + jmap option"

definition marshal_map :: "jmap option \<Rightarrow> string" where
  "marshal_map m = (case m of None \<Rightarrow> ''null'' | Some root \<Rightarrow> marshal (JObj root))"

text \<open>Changing the value a key holds.\<close>

fun upd :: "string \<Rightarrow> (json \<Rightarrow> json) \<Rightarrow> jmap \<Rightarrow> jmap" where
  "upd k f [] = []"
| "upd k f (p # m) = (if fst p = k then (fst p, f (snd p)) # m else p # upd k f m)"

definition on_object :: "(jmap \<Rightarrow> jmap) \<Rightarrow> json \<Rightarrow> json" where
  "on_object f v = (case v of JObj m \<Rightarrow> JObj (f m) | v \<Rightarrow> v)"

section \<open>Servers\<close>

definition httpMethods :: "string list" where
  "httpMethods = [''get'', ''put'', ''post'', ''delete'', ''options'', ''head'', ''patch'', ''trace'']"

definition strip_item :: "jmap \<Rightarrow> jmap" where
  "strip_item pathItem =
     fold (\<lambda>verb. upd verb (on_object (mdel ''servers''))) httpMethods (mdel ''servers'' pathItem)"

definition strip_root :: "jmap \<Rightarrow> jmap" where
  "strip_root root =
     upd ''paths'' (on_object (map (\<lambda>p. (fst p, on_object strip_item (snd p))))) (mdel ''servers'' root)"

definition StripServers :: "decoder \<Rightarrow> string \<Rightarrow> string \<times> string option" where
  "StripServers decode specData =
     (case decode specData of
        Inl e \<Rightarrow> (specData, Some (''decoding spec: '' @ e))
      | Inr root \<Rightarrow> (marshal_map (map_option strip_root root), None))"

section \<open>Parameters\<close>

definition maxBodyBytes :: int where
  "maxBodyBytes = 10 * 1024 * 1024"

definition maxParameterRefDepth :: nat where
  "maxParameterRefDepth = 8"

definition ErrParameterRefsTooLarge :: string where
  "ErrParameterRefsTooLarge = ''dereferenced parameters exceed the spec size limit''"

record dereferencer =
  de_warnings :: "string list"
  de_changed :: bool
  de_remaining :: int
  de_sizes :: "(string, nat) gomap"

definition localRef :: "json \<Rightarrow> string option" where
  "localRef node =
     (case ref_of node of Some ref \<Rightarrow> (if HasPrefix ref ''#'' then Some ref else None) | None \<Rightarrow> None)"

definition parameter_object :: "json \<Rightarrow> string + jmap" where
  "parameter_object target =
     (case target of
        JObj obj \<Rightarrow>
          (if get_str obj ''name'' = None \<or> get_str obj ''in'' = None then Inl ''target is not a parameter object'' else Inr obj)
      | _ \<Rightarrow> Inl ''target is not a parameter object'')"

fun follow_parameter :: "nat \<Rightarrow> jmap \<Rightarrow> string \<Rightarrow> string + jmap" where
  "follow_parameter 0 root ref = Inl (''more than '' @ nat_str maxParameterRefDepth @ '' chained $refs'')"
| "follow_parameter (Suc n) root ref =
     (if \<not> HasPrefix ref ''#/components/'' then Inl ''only local #/components/ targets are dereferenced''
      else (case pointerLookup root (TrimPrefix ref ''#'') of
              Inl e \<Rightarrow> Inl e
            | Inr target \<Rightarrow>
                (case ref_of target of
                   Some next_ref \<Rightarrow> follow_parameter n root next_ref
                 | None \<Rightarrow> parameter_object target)))"

definition resolveParameter :: "jmap \<Rightarrow> string \<Rightarrow> string + jmap" where
  "resolveParameter root ref = follow_parameter maxParameterRefDepth root ref"

text \<open>
  The lookups read \<^verbatim>\<open>components\<close> only and the changes are below \<^verbatim>\<open>paths\<close>, so a lookup in the
  document under change is one in the decoded document.
\<close>

definition inline_parameter :: "string \<Rightarrow> jmap \<Rightarrow> (dereferencer, json) action" where
  "inline_parameter ref target d =
     (let size = (case map_of (de_sizes d) ref of Some n \<Rightarrow> n | None \<Rightarrow> length (marshal (JObj target)));
          d1 = d\<lparr>de_sizes := mput ref size (de_sizes d), de_remaining := de_remaining d - int size\<rparr>
      in if de_remaining d1 < 0 then (Inl ErrParameterRefsTooLarge, d1)
         else (Inr (JObj target), d1\<lparr>de_changed := True\<rparr>))"

definition deref_one :: "jmap \<Rightarrow> string \<Rightarrow> json \<Rightarrow> (dereferencer, json) action" where
  "deref_one root loc p =
     (case localRef p of
        None \<Rightarrow> returns p
      | Some ref \<Rightarrow>
          (case resolveParameter root ref of
             Inl e \<Rightarrow>
               (\<lambda>d. (Inr p, d\<lparr>de_warnings := de_warnings d @
                  [''parameter $ref '' @ Quote ref @ '' in '' @ loc @ '' cannot be resolved: '' @ e]\<rparr>))
           | Inr target \<Rightarrow> inline_parameter ref target))"

fun each :: "('a \<Rightarrow> ('s, 'b) action) \<Rightarrow> 'a list \<Rightarrow> ('s, 'b list) action" where
  "each act [] = returns []"
| "each act (x # xs) = andThen (act x) (\<lambda>y. andThen (each act xs) (\<lambda>ys. returns (y # ys)))"

definition deref_list :: "jmap \<Rightarrow> string \<Rightarrow> jmap \<Rightarrow> (dereferencer, jmap) action" where
  "deref_list root loc holder =
     (case map_of holder ''parameters'' of
        Some (JArr params) \<Rightarrow>
          andThen (each (deref_one root loc) params) (\<lambda>params'. returns (upd ''parameters'' (\<lambda>_. JArr params') holder))
      | _ \<Rightarrow> returns holder)"

fun deref_ops :: "jmap \<Rightarrow> string \<Rightarrow> string list \<Rightarrow> jmap \<Rightarrow> (dereferencer, jmap) action" where
  "deref_ops root path [] item = returns item"
| "deref_ops root path (verb # verbs) item =
     (case get_obj item verb of
        Some op \<Rightarrow>
          andThen (deref_list root (ToUpper verb @ '' '' @ path) op)
            (\<lambda>op'. deref_ops root path verbs (upd verb (\<lambda>_. JObj op') item))
      | None \<Rightarrow> deref_ops root path verbs item)"

definition deref_item :: "jmap \<Rightarrow> string \<times> json \<Rightarrow> (dereferencer, string \<times> json) action" where
  "deref_item root p =
     (case snd p of
        JObj item \<Rightarrow>
          andThen (deref_list root (fst p @ '' (used by every operation on '' @ fst p @ '')'') item)
            (\<lambda>item1. andThen (deref_ops root (fst p) httpMethods item1) (\<lambda>item2. returns (fst p, JObj item2)))
      | _ \<Rightarrow> returns p)"

definition DereferenceParameters :: "decoder \<Rightarrow> string \<Rightarrow> string \<times> string list \<times> string option" where
  "DereferenceParameters decode specData =
     (case decode specData of
        Inl e \<Rightarrow> (specData, [], Some (''decoding spec: '' @ e))
      | Inr m \<Rightarrow>
          (let root = (case m of None \<Rightarrow> [] | Some r \<Rightarrow> r)
           in case get_obj root ''paths'' of
                None \<Rightarrow> (specData, [], None)
              | Some paths \<Rightarrow>
                  (case each (deref_item root) paths
                          \<lparr>de_warnings = [], de_changed = False, de_remaining = maxBodyBytes - int (length specData), de_sizes = []\<rparr> of
                     (Inl e, d) \<Rightarrow> (specData, [], Some e)
                   | (Inr paths', d) \<Rightarrow>
                       if \<not> de_changed d then (specData, de_warnings d, None)
                       else (marshal (JObj (upd ''paths'' (\<lambda>_. JObj paths') root)), de_warnings d, None))))"

section \<open>Servers are gone\<close>

lemma on_object_JObj: "on_object f v = JObj m \<longleftrightarrow> (\<exists>m'. v = JObj m' \<and> m = f m')"
  by (cases v) (auto simp: on_object_def)

lemma map_of_upd: "map_of (upd k f m) x = (if x = k then map_option f (map_of m x) else map_of m x)"
  by (induction m) auto

lemma strip_item_lookup:
  "map_of (strip_item item) k =
     (if k = ''servers'' then None
      else if k \<in> set httpMethods then map_option (on_object (mdel ''servers'')) (map_of item k) else map_of item k)"
proof -
  have "map_of (fold (\<lambda>verb. upd verb (on_object (mdel ''servers''))) ms m) k =
      (if k \<in> set ms then map_option (on_object (mdel ''servers'')) (map_of m k) else map_of m k)" if "distinct ms" for ms m
    using that by (induction ms arbitrary: m) (auto simp: map_of_upd)
  from this [of httpMethods] show ?thesis
    by (simp add: strip_item_def httpMethods_def map_of_mdel_raw)
qed

definition servers_free :: "jmap \<Rightarrow> bool" where
  "servers_free root \<longleftrightarrow> map_of root ''servers'' = None \<and>
     (case get_obj root ''paths'' of
        None \<Rightarrow> True
      | Some paths \<Rightarrow>
          list_all (\<lambda>p. case snd p of
             JObj item \<Rightarrow> map_of item ''servers'' = None \<and>
               list_all (\<lambda>verb. case get_obj item verb of Some op \<Rightarrow> map_of op ''servers'' = None | None \<Rightarrow> True) httpMethods
           | _ \<Rightarrow> True) paths)"

text \<open>No \<^verbatim>\<open>servers\<close> is left at the root, in a path item or in an operation.\<close>

lemma strip_root_servers_free: "servers_free (strip_root root)"
proof -
  have item: "map_of (strip_item m) ''servers'' = None" for m by (simp add: strip_item_lookup)
  have op: "map_of op ''servers'' = None" if "verb \<in> set httpMethods" "map_of (strip_item m) verb = Some (JObj op)" for m verb op
    using that by (auto simp: strip_item_lookup on_object_JObj map_of_mdel_raw split: if_splits)
  show ?thesis
    using item op unfolding servers_free_def strip_root_def get_obj_def
    by (auto simp: map_of_upd map_of_mdel_raw on_object_def list_all_iff split: option.splits json.splits)
qed

section \<open>Dereferencing against a specification\<close>

text \<open>The specification: each parameter on its own, what it costs and what it warns of.\<close>

definition spec_one :: "jmap \<Rightarrow> json \<Rightarrow> json" where
  "spec_one root p =
     (case localRef p of
        None \<Rightarrow> p
      | Some ref \<Rightarrow> (case resolveParameter root ref of Inl e \<Rightarrow> p | Inr target \<Rightarrow> JObj target))"

definition cost_one :: "jmap \<Rightarrow> json \<Rightarrow> nat" where
  "cost_one root p =
     (case localRef p of
        None \<Rightarrow> 0
      | Some ref \<Rightarrow> (case resolveParameter root ref of Inl e \<Rightarrow> 0 | Inr target \<Rightarrow> length (marshal (JObj target))))"

definition warn_one :: "jmap \<Rightarrow> string \<Rightarrow> json \<Rightarrow> string list" where
  "warn_one root loc p =
     (case localRef p of
        None \<Rightarrow> []
      | Some ref \<Rightarrow>
          (case resolveParameter root ref of
             Inl e \<Rightarrow> [''parameter $ref '' @ Quote ref @ '' in '' @ loc @ '' cannot be resolved: '' @ e]
           | Inr target \<Rightarrow> []))"

definition params_of :: "jmap \<Rightarrow> json list" where
  "params_of holder = get_arr holder ''parameters''"

definition spec_list :: "jmap \<Rightarrow> jmap \<Rightarrow> jmap" where
  "spec_list root holder =
     upd ''parameters'' (\<lambda>v. case v of JArr params \<Rightarrow> JArr (map (spec_one root) params) | v \<Rightarrow> v) holder"

definition ops_of :: "jmap \<Rightarrow> (string \<times> jmap) list" where
  "ops_of item = List.map_filter (\<lambda>verb. map_option (Pair verb) (get_obj item verb)) httpMethods"

definition spec_item :: "jmap \<Rightarrow> jmap \<Rightarrow> jmap" where
  "spec_item root item = fold (\<lambda>verb. upd verb (on_object (spec_list root))) httpMethods (spec_list root item)"

definition item_params :: "jmap \<Rightarrow> json list" where
  "item_params item = params_of item @ concat (map (params_of \<circ> snd) (ops_of item))"

definition item_warnings :: "jmap \<Rightarrow> string \<Rightarrow> jmap \<Rightarrow> string list" where
  "item_warnings root path item =
     concat (map (warn_one root (path @ '' (used by every operation on '' @ path @ '')'')) (params_of item)) @
     concat (map (\<lambda>(verb, op). concat (map (warn_one root (ToUpper verb @ '' '' @ path)) (params_of op))) (ops_of item))"

definition total_cost :: "jmap \<Rightarrow> json list \<Rightarrow> nat" where
  "total_cost root ps = sum_list (map (cost_one root) ps)"

definition sizes_ok :: "jmap \<Rightarrow> dereferencer \<Rightarrow> bool" where
  "sizes_ok root d \<longleftrightarrow> mwf (de_sizes d) \<and>
     (\<forall>ref n. map_of (de_sizes d) ref = Some n \<longrightarrow>
        (\<exists>target. resolveParameter root ref = Inr target \<and> n = length (marshal (JObj target))))"

text \<open>\<open>charges root act y c ws\<close>: \<open>act\<close> returns \<open>y\<close>, takes \<open>c\<close> bytes and warns \<open>ws\<close>, or the bytes are not there.\<close>

definition charges :: "jmap \<Rightarrow> (dereferencer, 'a) action \<Rightarrow> 'a \<Rightarrow> nat \<Rightarrow> string list \<Rightarrow> bool" where
  "charges root act y c ws \<longleftrightarrow>
     (\<forall>d. sizes_ok root d \<longrightarrow>
        (if c > 0 \<and> int c > de_remaining d then fst (act d) = Inl ErrParameterRefsTooLarge
         else fst (act d) = Inr y \<and> sizes_ok root (snd (act d)) \<and> de_remaining (snd (act d)) = de_remaining d - int c \<and>
              de_changed (snd (act d)) = (de_changed d \<or> c > 0) \<and> de_warnings (snd (act d)) = de_warnings d @ ws))"

lemma charges_returns: "charges root (returns y) y 0 []"
  by (simp add: charges_def returns_def)

lemma charges_andThen:
  assumes a: "charges root act y c ws" and f: "charges root (f y) z c' ws'"
  shows "charges root (andThen act f) z (c + c') (ws @ ws')"
  unfolding charges_def
proof (intro allI impI)
  fix d assume ok: "sizes_ok root d"
  obtain r d1 where act: "act d = (r, d1)" by force
  show "if c + c' > 0 \<and> int (c + c') > de_remaining d then fst (andThen act f d) = Inl ErrParameterRefsTooLarge
    else fst (andThen act f d) = Inr z \<and> sizes_ok root (snd (andThen act f d)) \<and>
      de_remaining (snd (andThen act f d)) = de_remaining d - int (c + c') \<and>
      de_changed (snd (andThen act f d)) = (de_changed d \<or> c + c' > 0) \<and> de_warnings (snd (andThen act f d)) = de_warnings d @ ws @ ws'"
  proof (cases "c > 0 \<and> int c > de_remaining d")
    case True
    with a ok act have "r = Inl ErrParameterRefsTooLarge" by (auto simp: charges_def)
    with True act show ?thesis by (simp add: andThen_def)
  next
    case False
    with a ok act have r: "r = Inr y" "sizes_ok root d1" "de_remaining d1 = de_remaining d - int c"
      "de_changed d1 = (de_changed d \<or> c > 0)" "de_warnings d1 = de_warnings d @ ws"
      by (auto simp: charges_def dest!: spec [of _ d] split: if_splits)
    then have e: "andThen act f d = f y d1" using act by (simp add: andThen_def)
    show ?thesis
    proof (cases "c' > 0 \<and> int c' > de_remaining d1")
      case True
      with f r(2) have "fst (f y d1) = Inl ErrParameterRefsTooLarge" by (simp add: charges_def)
      with True r(3) e show ?thesis by simp
    next
      case no: False
      have "fst (f y d1) = Inr z \<and> sizes_ok root (snd (f y d1)) \<and>
        de_remaining (snd (f y d1)) = de_remaining d1 - int c' \<and> de_changed (snd (f y d1)) = (de_changed d1 \<or> c' > 0) \<and>
        de_warnings (snd (f y d1)) = de_warnings d1 @ ws'"
        using f [unfolded charges_def, rule_format, OF r(2)] unfolding if_not_P [OF no] .
      with no False r e show ?thesis by auto
    qed
  qed
qed

lemma charges_each:
  assumes "\<And>x. x \<in> set xs \<Longrightarrow> charges root (act x) (g x) (c x) (w x)"
  shows "charges root (each act xs) (map g xs) (sum_list (map c xs)) (concat (map w xs))"
  using assms
proof (induction xs)
  case (Cons x xs)
  have "charges root (andThen (each act xs) (\<lambda>ys. returns (g x # ys))) (g x # map g xs)
      (sum_list (map c xs) + 0) (concat (map w xs) @ [])"
    by (rule charges_andThen [OF Cons.IH charges_returns]) (use Cons.prems in simp)
  with charges_andThen [where f = "\<lambda>y. andThen (each act xs) (\<lambda>ys. returns (y # ys))", OF Cons.prems [of x]] show ?case by simp
qed (simp add: charges_returns)

lemma marshal_obj_length: "length (marshal (JObj m)) > 0"
  by simp

lemma charges_one: "charges root (deref_one root loc p) (spec_one root p) (cost_one root p) (warn_one root loc p)"
proof (cases "localRef p")
  case None
  then show ?thesis by (simp add: deref_one_def spec_one_def cost_one_def warn_one_def charges_returns)
next
  case (Some ref)
  show ?thesis
  proof (cases "resolveParameter root ref")
    case (Inl e)
    with Some show ?thesis
      by (simp add: deref_one_def spec_one_def cost_one_def warn_one_def charges_def sizes_ok_def)
  next
    case (Inr target)
    let ?n = "length (marshal (JObj target))"
    have "charges root (inline_parameter ref target) (JObj target) ?n []"
      unfolding charges_def
    proof (intro allI impI)
      fix d assume ok: "sizes_ok root d"
      then have size: "(case map_of (de_sizes d) ref of Some n \<Rightarrow> n | None \<Rightarrow> ?n) = ?n"
        using Inr unfolding sizes_ok_def by (cases "map_of (de_sizes d) ref") (simp_all del: marshal.simps, metis sum.inject(2))
      have "sizes_ok root (d\<lparr>de_sizes := mput ref ?n (de_sizes d), de_remaining := x, de_changed := True\<rparr>)" for x
        using ok Inr by (auto simp: sizes_ok_def map_of_mput_raw mwf_mput_raw simp del: marshal.simps split: if_splits)
      then show "if ?n > 0 \<and> int ?n > de_remaining d then fst (inline_parameter ref target d) = Inl ErrParameterRefsTooLarge
        else fst (inline_parameter ref target d) = Inr (JObj target) \<and> sizes_ok root (snd (inline_parameter ref target d)) \<and>
          de_remaining (snd (inline_parameter ref target d)) = de_remaining d - int ?n \<and>
          de_changed (snd (inline_parameter ref target d)) = (de_changed d \<or> ?n > 0) \<and>
          de_warnings (snd (inline_parameter ref target d)) = de_warnings d @ []"
        using marshal_obj_length [of target] unfolding inline_parameter_def size Let_def by (simp del: marshal.simps)
    qed
    with Some Inr show ?thesis by (simp add: deref_one_def spec_one_def cost_one_def warn_one_def del: marshal.simps)
  qed
qed

lemma upd_cong: "(\<And>v. map_of m k = Some v \<Longrightarrow> f v = g v) \<Longrightarrow> upd k f m = upd k g m"
  by (induction m) (auto split: if_splits)

lemma upd_id: "(\<And>v. map_of m k = Some v \<Longrightarrow> f v = v) \<Longrightarrow> upd k f m = m"
  by (induction m) (auto split: if_splits)

lemma spec_list_same: "(\<And>params. map_of holder ''parameters'' \<noteq> Some (JArr params)) \<Longrightarrow> spec_list root holder = holder"
  unfolding spec_list_def by (rule upd_id) (auto split: json.splits)

lemma charges_list:
  "charges root (deref_list root loc holder) (spec_list root holder) (total_cost root (params_of holder))
     (concat (map (warn_one root loc) (params_of holder)))"
proof (cases "\<exists>params. map_of holder ''parameters'' = Some (JArr params)")
  case True
  then obtain params where p: "map_of holder ''parameters'' = Some (JArr params)" by blast
  have u: "upd ''parameters'' (\<lambda>_. JArr (map (spec_one root) params)) holder = spec_list root holder"
    unfolding spec_list_def by (rule upd_cong) (simp add: p)
  have "charges root (each (deref_one root loc) params) (map (spec_one root) params) (total_cost root params)
      (concat (map (warn_one root loc) params))"
    unfolding total_cost_def by (rule charges_each) (rule charges_one)
  from charges_andThen [where f = "\<lambda>params'. returns (upd ''parameters'' (\<lambda>_. JArr params') holder)", OF this charges_returns]
  show ?thesis using p u by (simp add: deref_list_def params_of_def get_arr_def)
next
  case False
  then have "deref_list root loc holder = returns holder" "params_of holder = []"
    by (auto simp: deref_list_def params_of_def get_arr_def split: option.splits json.splits)
  with False spec_list_same [of holder root] show ?thesis by (simp add: charges_returns total_cost_def)
qed

lemma total_cost_append [simp]: "total_cost root (xs @ ys) = total_cost root xs + total_cost root ys"
  by (simp add: total_cost_def)

lemma charges_eq: "charges root act y c ws \<Longrightarrow> y = y' \<Longrightarrow> c = c' \<Longrightarrow> ws = ws' \<Longrightarrow> charges root act y' c' ws'"
  by simp

definition ops_in :: "string list \<Rightarrow> jmap \<Rightarrow> (string \<times> jmap) list" where
  "ops_in verbs item = List.map_filter (\<lambda>verb. map_option (Pair verb) (get_obj item verb)) verbs"

lemma get_obj_upd: "verb' \<noteq> verb \<Longrightarrow> get_obj (upd verb f item) verb' = get_obj item verb'"
  by (simp add: get_obj_def map_of_upd)

lemma ops_in_upd: "verb \<notin> set verbs \<Longrightarrow> ops_in verbs (upd verb f item) = ops_in verbs item"
  unfolding ops_in_def by (induction verbs) (auto simp: map_filter_simps get_obj_upd split: option.splits)

lemma charges_ops:
  assumes "distinct verbs"
  shows "charges root (deref_ops root path verbs item)
    (fold (\<lambda>verb. upd verb (on_object (spec_list root))) verbs item)
    (total_cost root (concat (map (params_of \<circ> snd) (ops_in verbs item))))
    (concat (map (\<lambda>(verb, op). concat (map (warn_one root (ToUpper verb @ '' '' @ path)) (params_of op))) (ops_in verbs item)))"
  using assms
proof (induction verbs arbitrary: item)
  case Nil
  then show ?case by (simp add: charges_returns ops_in_def map_filter_simps total_cost_def)
next
  case (Cons verb verbs)
  show ?case
  proof (cases "get_obj item verb")
    case None
    then have "upd verb (on_object (spec_list root)) item = item"
      by (intro upd_id) (auto simp: get_obj_def on_object_def split: json.splits)
    with None Cons show ?thesis by (simp add: ops_in_def map_filter_simps)
  next
    case (Some op)
    then have u: "upd verb (\<lambda>_. JObj (spec_list root op)) item = upd verb (on_object (spec_list root)) item"
      by (intro upd_cong) (auto simp: get_obj_def on_object_def split: option.splits json.splits)
    from Cons.prems have "verb \<notin> set verbs" "distinct verbs" by simp_all
    note IH = Cons.IH [OF this(2), of "upd verb (\<lambda>_. JObj (spec_list root op)) item", unfolded ops_in_upd [OF this(1)]]
    from charges_andThen [where f = "\<lambda>op'. deref_ops root path verbs (upd verb (\<lambda>_. JObj op') item)", OF charges_list IH]
    show ?thesis using Some u by (simp add: ops_in_def map_filter_simps)
  qed
qed

definition spec_path :: "jmap \<Rightarrow> string \<times> json \<Rightarrow> string \<times> json" where
  "spec_path root p = (fst p, on_object (spec_item root) (snd p))"

definition path_params :: "string \<times> json \<Rightarrow> json list" where
  "path_params p = (case snd p of JObj item \<Rightarrow> item_params item | _ \<Rightarrow> [])"

definition path_warnings :: "jmap \<Rightarrow> string \<times> json \<Rightarrow> string list" where
  "path_warnings root p = (case snd p of JObj item \<Rightarrow> item_warnings root (fst p) item | _ \<Rightarrow> [])"

lemma charges_path_pair:
  "charges root (deref_item root (path, v)) (spec_path root (path, v)) (total_cost root (path_params (path, v)))
     (path_warnings root (path, v))"
proof (cases v)
  case (JObj item)
  have m: "distinct httpMethods" "''parameters'' \<notin> set httpMethods" by (simp_all add: httpMethods_def)
  have o: "ops_in httpMethods (spec_list root item) = ops_of item"
    using ops_in_upd [OF m(2)] by (simp add: ops_of_def ops_in_def spec_list_def)
  note ops = charges_andThen [where f = "\<lambda>item2. returns (path, JObj item2)",
      OF charges_ops [OF m(1), of root path "spec_list root item"] charges_returns]
  from charges_andThen [where f = "\<lambda>item1. andThen (deref_ops root path httpMethods item1) (\<lambda>item2. returns (path, JObj item2))",
      OF charges_list ops]
  show ?thesis
    unfolding o using JObj
    by (simp add: deref_item_def spec_path_def path_params_def path_warnings_def item_params_def item_warnings_def on_object_def
        spec_item_def)
qed (simp_all add: deref_item_def spec_path_def path_params_def path_warnings_def on_object_def charges_returns total_cost_def)

lemma charges_path:
  "charges root (deref_item root p) (spec_path root p) (total_cost root (path_params p)) (path_warnings root p)"
  using charges_path_pair by (cases p) simp

definition spec_root :: "jmap \<Rightarrow> jmap" where
  "spec_root root = upd ''paths'' (on_object (map (spec_path root))) root"

lemma DereferenceParameters_spec:
  assumes "decode specData = Inr (Some root)" and "get_obj root ''paths'' = Some paths"
  shows "DereferenceParameters decode specData =
    (let cost = total_cost root (concat (map path_params paths));
         warnings = concat (map (path_warnings root) paths)
     in if cost = 0 then (specData, warnings, None)
        else if int cost > maxBodyBytes - int (length specData) then (specData, [], Some ErrParameterRefsTooLarge)
        else (marshal (JObj (spec_root root)), warnings, None))"
proof -
  let ?d = "\<lparr>de_warnings = [], de_changed = False, de_remaining = maxBodyBytes - int (length specData), de_sizes = []\<rparr>"
  let ?c = "total_cost root (concat (map path_params paths))"
  have c: "sum_list (map (\<lambda>p. total_cost root (path_params p)) paths) = ?c"
    by (induction paths) (simp_all add: total_cost_def)
  have "charges root (each (deref_item root) paths) (map (spec_path root) paths) ?c (concat (map (path_warnings root) paths))"
    unfolding c [symmetric] by (rule charges_each) (rule charges_path)
  moreover have "sizes_ok root ?d" by (simp add: sizes_ok_def)
  ultimately have run: "if ?c > 0 \<and> int ?c > de_remaining ?d then fst (each (deref_item root) paths ?d) = Inl ErrParameterRefsTooLarge
    else fst (each (deref_item root) paths ?d) = Inr (map (spec_path root) paths) \<and>
      de_changed (snd (each (deref_item root) paths ?d)) = (?c > 0) \<and>
      de_warnings (snd (each (deref_item root) paths ?d)) = concat (map (path_warnings root) paths)"
    unfolding charges_def by (auto split: if_splits)
  have u: "upd ''paths'' (\<lambda>_. JObj (map (spec_path root) paths)) root = spec_root root"
    unfolding spec_root_def by (rule upd_cong) (use assms(2) in \<open>auto simp: get_obj_def on_object_def split: json.splits\<close>)
  obtain r d where e: "each (deref_item root) paths ?d = (r, d)" by force
  from run assms u show ?thesis unfolding e DereferenceParameters_def
    by (auto simp: Let_def e split: if_splits simp del: marshal.simps)
qed

text \<open>
  C37: parameters are dereferenced one by one, whatever the caches and the shared budget. For a
  document that decodes and has paths, the bytes of all parameters to inline are compared with
  what the body limit leaves: if they fit, the result is the document in which exactly the
  parameters whose reference resolves are replaced by their targets, and the warnings are those
  of the others in path and method order; otherwise the text is returned unchanged with an error.
\<close>

theorem DereferenceParameters_exact:
  assumes "decode specData = Inr (Some root)" and "get_obj root ''paths'' = Some paths"
  shows "DereferenceParameters decode specData =
    (let cost = total_cost root (concat (map path_params paths));
         warnings = concat (map (path_warnings root) paths)
     in if cost = 0 then (specData, warnings, None)
        else if int cost > maxBodyBytes - int (length specData) then (specData, [], Some ErrParameterRefsTooLarge)
        else (marshal (JObj (spec_root root)), warnings, None))"
  by (rule DereferenceParameters_spec; fact)

definition ex_param :: jmap where
  "ex_param = [(''in'', JStr ''query''), (''name'', JStr ''q'')]"

definition ex_param_root :: jmap where
  "ex_param_root =
     [(''components'', JObj [(''parameters'', JObj [(''P'', JObj ex_param)])]),
      (''paths'', JObj [(''/a'', JObj [(''get'', JObj [(''parameters'',
         JArr [JObj [(''$ref'', JStr ''#/components/parameters/P'')], JObj [(''$ref'', JStr ''#/x'')]])])])])]"

definition ex_decode :: decoder where
  "ex_decode text = Inr (Some ex_param_root)"

theorem DereferenceParameters_exact_witness:
  "DereferenceParameters ex_decode ''{}'' =
    (marshal (JObj (spec_root ex_param_root)),
     [''parameter $ref '' @ Quote ''#/x'' @ '' in GET /a cannot be resolved: only local #/components/ targets are dereferenced''], None)"
proof -
  have p: "get_obj ex_param_root ''paths'' = Some [(''/a'', JObj [(''get'', JObj [(''parameters'',
         JArr [JObj [(''$ref'', JStr ''#/components/parameters/P'')], JObj [(''$ref'', JStr ''#/x'')]])])])]"
    by code_simp
  have d: "ex_decode ''{}'' = Inr (Some ex_param_root)" by (simp add: ex_decode_def)
  show ?thesis unfolding DereferenceParameters_exact [of ex_decode "''{}''", OF d p] by code_simp
qed

section \<open>Dereferencing keeps the body limit\<close>

abbreviation mlen :: "json \<Rightarrow> nat" where
  "mlen j \<equiv> length (marshal j)"

lemma length_Join: "length (Join xs '','') = sum_list (map length xs) + (length xs - 1)"
  by (induction xs "'',''" rule: Join.induct) auto

lemma mlen_JObj: "mlen (JObj m) = 2 + sum_list (map (\<lambda>p. length (json_string (fst p)) + 1 + mlen (snd p)) m) + (length m - 1)"
  by (simp add: length_Join comp_def)

lemma mlen_JArr: "mlen (JArr xs) = 2 + sum_list (map mlen xs) + (length xs - 1)"
  by (simp add: length_Join comp_def)

lemma length_upd [simp]: "length (upd k f m) = length m"
  by (induction m) auto

lemma mlen_upd:
  assumes "\<And>v. map_of m k = Some v \<Longrightarrow> mlen (f v) \<le> mlen v + c"
  shows "mlen (JObj (upd k f m)) \<le> mlen (JObj m) + c"
proof -
  have "sum_list (map (\<lambda>p. length (json_string (fst p)) + 1 + mlen (snd p)) (upd k f m)) \<le>
      sum_list (map (\<lambda>p. length (json_string (fst p)) + 1 + mlen (snd p)) m) + c"
    using assms by (induction m) (auto split: if_splits)
  then show ?thesis unfolding mlen_JObj by simp
qed

lemma mlen_values:
  assumes "\<And>p. p \<in> set m \<Longrightarrow> mlen (snd (g p)) \<le> mlen (snd p) + c p" and "\<And>p. fst (g p) = fst p"
  shows "mlen (JObj (map g m)) \<le> mlen (JObj m) + sum_list (map c m)"
proof -
  have "sum_list (map (\<lambda>p. length (json_string (fst p)) + 1 + mlen (snd p)) (map g m)) \<le>
      sum_list (map (\<lambda>p. length (json_string (fst p)) + 1 + mlen (snd p)) m) + sum_list (map c m)"
    using assms(1)
  proof (induction m)
    case (Cons p m)
    have "mlen (snd (g p)) \<le> mlen (snd p) + c p" by (rule Cons.prems) simp
    moreover note Cons.IH [OF Cons.prems]
    ultimately show ?case by (simp add: assms(2) del: map_map)
  qed simp
  then show ?thesis unfolding mlen_JObj by simp
qed

lemma mlen_elements:
  assumes "\<And>x. mlen (g x) \<le> mlen x + c x"
  shows "mlen (JArr (map g xs)) \<le> mlen (JArr xs) + sum_list (map c xs)"
proof -
  have "sum_list (map mlen (map g xs)) \<le> sum_list (map mlen xs) + sum_list (map c xs)"
    by (induction xs) (use assms in \<open>auto intro: order_trans [OF add_mono]\<close>)
  then show ?thesis unfolding mlen_JArr by simp
qed

lemma mlen_one: "mlen (spec_one root p) \<le> mlen p + cost_one root p"
  by (simp add: spec_one_def cost_one_def del: marshal.simps split: option.splits sum.splits)

lemma mlen_list: "mlen (JObj (spec_list root holder)) \<le> mlen (JObj holder) + total_cost root (params_of holder)"
  unfolding spec_list_def
proof (rule mlen_upd)
  fix v assume "map_of holder ''parameters'' = Some v"
  then show "mlen (case v of JArr params \<Rightarrow> JArr (map (spec_one root) params) | v \<Rightarrow> v) \<le> mlen v + total_cost root (params_of holder)"
    using mlen_elements [of "spec_one root" "cost_one root", OF mlen_one]
    by (cases v) (simp_all add: params_of_def get_arr_def total_cost_def del: marshal.simps)
qed

lemma mlen_ops:
  assumes "distinct verbs"
  shows "mlen (JObj (fold (\<lambda>verb. upd verb (on_object (spec_list root))) verbs item)) \<le>
    mlen (JObj item) + total_cost root (concat (map (params_of \<circ> snd) (ops_in verbs item)))"
  using assms
proof (induction verbs arbitrary: item)
  case (Cons verb verbs)
  let ?item = "upd verb (on_object (spec_list root)) item"
  let ?c = "case get_obj item verb of None \<Rightarrow> 0 | Some op \<Rightarrow> total_cost root (params_of op)"
  have "mlen (JObj ?item) \<le> mlen (JObj item) + ?c"
    by (rule mlen_upd) (use mlen_list in \<open>auto simp: on_object_def get_obj_def simp del: marshal.simps split: json.splits\<close>)
  moreover have "ops_in verbs ?item = ops_in verbs item" using Cons.prems by (simp add: ops_in_upd)
  ultimately show ?case
    using Cons.IH [of ?item] Cons.prems
    by (simp add: ops_in_def map_filter_simps del: marshal.simps split: option.splits)
qed (simp add: ops_in_def map_filter_simps total_cost_def)

lemma mlen_path: "mlen (snd (spec_path root p)) \<le> mlen (snd p) + total_cost root (path_params p)"
proof (cases "snd p")
  case (JObj item)
  have m: "distinct httpMethods" "''parameters'' \<notin> set httpMethods" by (simp_all add: httpMethods_def)
  have "ops_in httpMethods (spec_list root item) = ops_of item"
    using ops_in_upd [OF m(2)] by (simp add: ops_of_def ops_in_def spec_list_def)
  with JObj mlen_ops [OF m(1), of root "spec_list root item"] mlen_list [of root item] show ?thesis
    by (simp add: spec_path_def path_params_def item_params_def spec_item_def on_object_def del: marshal.simps)
qed (simp_all add: spec_path_def path_params_def on_object_def total_cost_def)

text \<open>
  A dereferenced document keeps the body limit. Whenever parameters were inlined into a
  document that was encoded as the operator encodes it, and whatever parameters share, repeat or
  contain, the text that is returned has at most the size a fetched body may have.
\<close>

lemma DereferenceParameters_bounded:
  assumes "decode specData = Inr (Some root)" and "specData = marshal (JObj root)"
    and "DereferenceParameters decode specData = (out, warnings, err)" and "out \<noteq> specData"
  shows "int (length out) \<le> maxBodyBytes"
proof (cases "get_obj root ''paths''")
  case None
  with assms show ?thesis by (simp add: DereferenceParameters_def Let_def)
next
  case (Some paths)
  let ?c = "total_cost root (concat (map path_params paths))"
  have c: "sum_list (map (\<lambda>p. total_cost root (path_params p)) paths) = ?c"
    by (induction paths) (simp_all add: total_cost_def)
  have "mlen (JObj (map (spec_path root) paths)) \<le> mlen (JObj paths) + ?c"
    unfolding c [symmetric] by (rule mlen_values, rule mlen_path, simp add: spec_path_def)
  then have "mlen (JObj (spec_root root)) \<le> mlen (JObj root) + ?c"
    unfolding spec_root_def
    by (intro mlen_upd) (use Some in \<open>auto simp: get_obj_def on_object_def simp del: marshal.simps split: json.splits\<close>)
  moreover from DereferenceParameters_spec [of decode specData, OF assms(1) Some] assms(3,4)
  have "out = marshal (JObj (spec_root root))" "int ?c \<le> maxBodyBytes - int (length specData)"
    by (auto simp: Let_def simp del: marshal.simps split: if_splits)
  ultimately show ?thesis using assms(2) by (simp del: marshal.simps)
qed

end
