(* ===== verification/RefResolve.thy ===== *)
theory RefResolve
  imports SpecPrepare
begin

text \<open>
  Resolving the references of an OpenAPI document to other documents
  (\<^verbatim>\<open>internal/autoconfig/refresolver.go\<close>).

  Parameters of the model are what the resolver calls: the fetcher, \<^verbatim>\<open>decodeSpec\<close>, the resolution
  of a URL against a base and the path of a URL (\<^verbatim>\<open>net/url\<close>), and the redaction of a URL. A
  document that is changed through references is returned changed. The resolver calls itself
  through the documents it fetches, which may go on forever, so the nesting of references is
  bounded by fuel: \<^const>\<open>None\<close> is a resolution that needs more.
\<close>

section \<open>The resolver\<close>

datatype refRole = schemaRole | exampleRole

definition componentsPath :: "refRole \<Rightarrow> string" where
  "componentsPath role = (if role = exampleRole then ''#/components/examples/'' else ''#/components/schemas/'')"

record ref_env =
  rv_baseURL :: string
  rv_hasFetcher :: bool
  rv_fetch :: "string \<Rightarrow> string + string"
  rv_decode :: decoder
  rv_resolve :: "string \<Rightarrow> string \<Rightarrow> string + string"
  rv_urlPath :: "string \<Rightarrow> string option"
  rv_redact :: "string \<Rightarrow> string"
  rv_redactRef :: "string \<Rightarrow> string"

record refResolver =
  rs_docs :: "(string, jmap) gomap"
  rs_inlined :: jmap
  rs_inlinedExamples :: jmap
  rs_takenExamples :: "(string, unit) gomap"
  rs_resolving :: "(string, string) gomap"
  rs_resolved :: "(string, string) gomap"
  rs_warnings :: "string list"
  rs_warned :: "(string, unit) gomap"
  rs_fatalErr :: "string option"

text \<open>An error that aborts the resolution, or one that becomes a warning.\<close>

datatype ref_error = FatalRef string | PlainRef string

text \<open>The names that freeExampleName has still to try and finds taken: they become fewer.\<close>

definition taken_ahead :: "(string, unit) gomap \<Rightarrow> string \<Rightarrow> nat \<Rightarrow> nat set" where
  "taken_ahead taken name n = {k. k \<ge> n \<and> name @ ''_'' @ nat_str k \<in> fst ` set taken}"

lemma finite_taken_ahead: "finite (taken_ahead taken name n)"
proof -
  have "inj (\<lambda>k. name @ ''_'' @ nat_str k)" by (auto intro!: injI simp: nat_str_inj)
  then have "finite ((\<lambda>k. name @ ''_'' @ nat_str k) -` (fst ` set taken))" by (intro finite_vimageI) simp_all
  then show ?thesis by (rule finite_subset [rotated]) (auto simp: taken_ahead_def)
qed

function free_example :: "(string, unit) gomap \<Rightarrow> string \<Rightarrow> string \<Rightarrow> nat \<Rightarrow> string" where
  "free_example taken name free n =
     (if free \<in> fst ` set taken then free_example taken name (name @ ''_'' @ nat_str n) (Suc n) else free)"
  by pat_completeness auto

termination
proof (relation "measures [\<lambda>(taken, name, free, n). card (taken_ahead taken name n) + (if free \<in> fst ` set taken then 1 else 0)]", simp)
  fix taken name free n assume t: "free \<in> fst ` set (taken :: (string, unit) gomap)"
  let ?next = "name @ ''_'' @ nat_str n"
  have split: "taken_ahead taken name n = (if ?next \<in> fst ` set taken then insert n (taken_ahead taken name (Suc n)) else taken_ahead taken name (Suc n))"
    by (auto simp: taken_ahead_def Suc_le_eq le_eq_less_or_eq)
  have "n \<notin> taken_ahead taken name (Suc n)" by (simp add: taken_ahead_def)
  with split finite_taken_ahead [of taken name "Suc n"] t
  show "((taken, name, ?next, Suc n), taken, name, free, n) \<in>
    measures [\<lambda>(taken, name, free, n). card (taken_ahead taken name n) + (if free \<in> fst ` set taken then 1 else 0)]"
    by (auto split: if_splits)
qed

declare free_example.simps [simp del]

definition freeExampleName :: "string \<Rightarrow> refResolver \<Rightarrow> string \<times> refResolver" where
  "freeExampleName name r =
     (let free = free_example (rs_takenExamples r) name name 2
      in (free, r\<lparr>rs_takenExamples := mput free () (rs_takenExamples r)\<rparr>))"

definition warn :: "string \<Rightarrow> refResolver \<Rightarrow> refResolver" where
  "warn msg r = r\<lparr>rs_warnings := rs_warnings r @ [msg]\<rparr>"

definition warnOnce :: "string \<Rightarrow> refResolver \<Rightarrow> refResolver" where
  "warnOnce msg r =
     (if map_of (rs_warned r) msg \<noteq> None then r else (warn msg r)\<lparr>rs_warned := mput msg () (rs_warned r)\<rparr>)"

definition warnLocalRef :: "ref_env \<Rightarrow> string \<Rightarrow> string \<Rightarrow> refResolver \<Rightarrow> refResolver" where
  "warnLocalRef env ref base r =
     (if HasPrefix ref ''#'' \<and> base \<noteq> rv_baseURL env
      then (let shown = rv_redact env base
            in warnOnce (''$ref '' @ Quote ref @ '' in '' @ shown @
                 '' is resolved against the main spec after inlining, not against '' @ shown) r)
      else r)"

definition resolvesExternally :: "ref_env \<Rightarrow> string \<Rightarrow> string \<Rightarrow> bool" where
  "resolvesExternally env ref base \<longleftrightarrow>
     (if HasPrefix ref ''#'' then base \<noteq> rv_baseURL env \<and> HasPrefix ref ''#/'' else ref \<noteq> [])"

text \<open>\<^verbatim>\<open>%v\<close> of an error.\<close>

fun error_text :: "ref_error \<Rightarrow> string" where
  "error_text (FatalRef e) = e"
| "error_text (PlainRef e) = e"

definition keepsLocalRef :: "ref_env \<Rightarrow> string \<Rightarrow> string \<Rightarrow> ref_error \<Rightarrow> refResolver \<Rightarrow> bool \<times> refResolver" where
  "keepsLocalRef env ref base err r =
     (case err of
        FatalRef _ \<Rightarrow> (False, r)
      | PlainRef e \<Rightarrow>
          if \<not> HasPrefix ref ''#'' then (False, r)
          else (True, warnOnce (''$ref '' @ Quote ref @ '' is not in '' @ rv_redact env base @
                  '': it is resolved against the main spec after inlining ('' @ e @ '')'') r))"

definition record_error :: "ref_env \<Rightarrow> string \<Rightarrow> ref_error \<Rightarrow> refResolver \<Rightarrow> refResolver" where
  "record_error env ref err r =
     (case err of
        FatalRef e \<Rightarrow> r\<lparr>rs_fatalErr := Some e\<rparr>
      | PlainRef e \<Rightarrow> warn (''failed to resolve external $ref '' @ Quote (rv_redactRef env ref) @ '': '' @ e) r)"

type_synonym resolve = "string \<Rightarrow> string \<Rightarrow> refRole \<Rightarrow> refResolver \<Rightarrow> ((ref_error + string) \<times> refResolver) option"

text \<open>\<open>R\<close> is the call of \<^verbatim>\<open>resolveExternal\<close>.\<close>

definition resolveExampleRef :: "ref_env \<Rightarrow> resolve \<Rightarrow> string \<Rightarrow> jmap \<Rightarrow> refResolver \<Rightarrow> (jmap \<times> refResolver) option" where
  "resolveExampleRef env R base entry r =
     (if rs_fatalErr r \<noteq> None then Some (entry, r)
      else (let found = get_str entry ''$ref''; ref = (case found of None \<Rightarrow> [] | Some s \<Rightarrow> s);
                r1 = warnLocalRef env ref base r
            in if ref = [] \<or> HasPrefix ref ''#'' then Some (entry, r1)
               else (case R ref base exampleRole r1 of
                       None \<Rightarrow> None
                     | Some (Inr localName, r2) \<Rightarrow>
                         Some (upd ''$ref'' (\<lambda>_. JStr (componentsPath exampleRole @ localName)) entry, r2)
                     | Some (Inl err, r2) \<Rightarrow> Some (entry, record_error env ref err r2))))"

fun example_entries :: "ref_env \<Rightarrow> resolve \<Rightarrow> string \<Rightarrow> jmap \<Rightarrow> refResolver \<Rightarrow> (jmap \<times> refResolver) option" where
  "example_entries env R base [] r = Some ([], r)"
| "example_entries env R base (p # entries) r =
     (case (case snd p of
              JObj entry \<Rightarrow>
                (if get_str entry ''$ref'' = None then Some (snd p, r)
                 else (case resolveExampleRef env R base entry r of None \<Rightarrow> None | Some (e, r1) \<Rightarrow> Some (JObj e, r1)))
            | v \<Rightarrow> Some (v, r)) of
        None \<Rightarrow> None
      | Some (v, r1) \<Rightarrow>
          (case example_entries env R base entries r1 of
             None \<Rightarrow> None
           | Some (rest, r2) \<Rightarrow> Some ((fst p, v) # rest, r2)))"

definition walk_examples :: "ref_env \<Rightarrow> resolve \<Rightarrow> string \<Rightarrow> string \<Rightarrow> json \<Rightarrow> refResolver \<Rightarrow> (json \<times> refResolver) option" where
  "walk_examples env R base key value r =
     (case value of
        JObj entries \<Rightarrow>
          (if key = ''examples''
           then (case example_entries env R base entries r of None \<Rightarrow> None | Some (e, r1) \<Rightarrow> Some (JObj e, r1))
           else Some (value, r))
      | _ \<Rightarrow> Some (value, r))"

text \<open>The \<^verbatim>\<open>$ref\<close> of an object: its new members, and whether it is the whole node.\<close>

definition walk_ref :: "ref_env \<Rightarrow> resolve \<Rightarrow> string \<Rightarrow> jmap \<Rightarrow> refResolver \<Rightarrow> ((string option \<times> bool) \<times> refResolver) option" where
  "walk_ref env R base m r =
     (case get_str m ''$ref'' of
        None \<Rightarrow> Some ((None, False), r)
      | Some ref \<Rightarrow>
          if \<not> resolvesExternally env ref base then Some ((None, False), warnLocalRef env ref base r)
          else (let whole = (\<not> HasPrefix ref ''#'')
                in case R ref base schemaRole r of
                     None \<Rightarrow> None
                   | Some (Inr localName, r1) \<Rightarrow> Some ((Some (componentsPath schemaRole @ localName), whole), r1)
                   | Some (Inl err, r1) \<Rightarrow>
                       (case keepsLocalRef env ref base err r1 of
                          (keeps, r2) \<Rightarrow> Some ((None, whole), if keeps then r2 else record_error env ref err r2))))"

definition set_ref :: "string option \<Rightarrow> jmap \<Rightarrow> jmap" where
  "set_ref new m = (case new of None \<Rightarrow> m | Some s \<Rightarrow> upd ''$ref'' (\<lambda>_. JStr s) m)"

text \<open>
  Walking the members leaves the string at \<^verbatim>\<open>$ref\<close> alone, so it is replaced after them. Once a
  fatal error is recorded every further call returns at once.
\<close>

function (sequential) walk :: "ref_env \<Rightarrow> resolve \<Rightarrow> string \<Rightarrow> json \<Rightarrow> refResolver \<Rightarrow> (json \<times> refResolver) option"
  and walk_fields :: "ref_env \<Rightarrow> resolve \<Rightarrow> string \<Rightarrow> jmap \<Rightarrow> refResolver \<Rightarrow> (jmap \<times> refResolver) option"
  and walk_values :: "ref_env \<Rightarrow> resolve \<Rightarrow> string \<Rightarrow> jmap \<Rightarrow> refResolver \<Rightarrow> (jmap \<times> refResolver) option"
  and walk_elements :: "ref_env \<Rightarrow> resolve \<Rightarrow> string \<Rightarrow> json list \<Rightarrow> refResolver \<Rightarrow> (json list \<times> refResolver) option" where
  "walk env R base (JObj m) r =
     (if rs_fatalErr r \<noteq> None then Some (JObj m, r)
      else (case walk_ref env R base m r of
              None \<Rightarrow> None
            | Some ((new, whole), r1) \<Rightarrow>
                if whole then Some (JObj (set_ref new m), r1)
                else (case walk_fields env R base m r1 of
                        None \<Rightarrow> None
                      | Some (m', r2) \<Rightarrow> Some (JObj (set_ref new m'), r2))))"
| "walk env R base (JArr xs) r =
     (case walk_elements env R base xs r of None \<Rightarrow> None | Some (xs', r1) \<Rightarrow> Some (JArr xs', r1))"
| "walk env R base v r = Some (v, r)"
| "walk_fields env R base [] r = Some ([], r)"
| "walk_fields env R base ((k, v) # m) r =
     (case (case (v, k \<in> set nameKeyedMaps) of
              (JObj byName, True) \<Rightarrow>
                (case walk_values env R base byName r of None \<Rightarrow> None | Some (ms, r1) \<Rightarrow> Some (JObj ms, r1))
            | _ \<Rightarrow>
                if examplePayload k v \<noteq> None then walk_examples env R base k v r else walk env R base v r) of
        None \<Rightarrow> None
      | Some (v', r1) \<Rightarrow>
          (case walk_fields env R base m r1 of None \<Rightarrow> None | Some (m', r2) \<Rightarrow> Some ((k, v') # m', r2)))"
| "walk_values env R base [] r = Some ([], r)"
| "walk_values env R base ((k, v) # m) r =
     (case walk env R base v r of
        None \<Rightarrow> None
      | Some (v', r1) \<Rightarrow>
          (case walk_values env R base m r1 of None \<Rightarrow> None | Some (m', r2) \<Rightarrow> Some ((k, v') # m', r2)))"
| "walk_elements env R base [] r = Some ([], r)"
| "walk_elements env R base (x # xs) r =
     (case walk env R base x r of
        None \<Rightarrow> None
      | Some (x', r1) \<Rightarrow>
          (case walk_elements env R base xs r1 of None \<Rightarrow> None | Some (xs', r2) \<Rightarrow> Some (x' # xs', r2)))"
  by pat_completeness auto

termination
  by (relation "measure (\<lambda>c. case c of
        Inl (Inl (env, R, base, j, r)) \<Rightarrow> 2 * size j + 1
      | Inl (Inr (env, R, base, m, r)) \<Rightarrow> 2 * size (JObj m)
      | Inr (Inl (env, R, base, m, r)) \<Rightarrow> 2 * size (JObj m)
      | Inr (Inr (env, R, base, xs, r)) \<Rightarrow> 2 * size (JArr xs))") auto

section \<open>References to documents\<close>

definition splitRef :: "string \<Rightarrow> string \<times> string" where
  "splitRef ref = (case CutChar ref (CHR ''#'') of (docURL, fragment, found) \<Rightarrow> (docURL, fragment))"

definition absolutize :: "ref_env \<Rightarrow> string \<Rightarrow> string \<Rightarrow> string + string" where
  "absolutize env docURL base = (if docURL = [] then Inr base else rv_resolve env docURL base)"

definition name_char :: "char \<Rightarrow> bool" where
  "name_char c \<longleftrightarrow> (CHR ''A'' \<le> c \<and> c \<le> CHR ''Z'') \<or> (CHR ''a'' \<le> c \<and> c \<le> CHR ''z'') \<or> is_digit c \<or> c = CHR ''_''"

text \<open>Each run of other characters becomes one underscore.\<close>

fun sanitize :: "bool \<Rightarrow> string \<Rightarrow> string" where
  "sanitize in_run [] = []"
| "sanitize in_run (c # cs) =
     (if name_char c then c # sanitize False cs else if in_run then sanitize True cs else CHR ''_'' # sanitize True cs)"

text \<open>The part before the last dot, unless the dot comes first.\<close>

definition cut_extension :: "string \<Rightarrow> string" where
  "cut_extension base =
     (let stem = rev (tl (dropWhile (\<lambda>c. c \<noteq> CHR ''.'') (rev base)))
      in if CHR ''.'' \<in> set base \<and> stem \<noteq> [] then stem else base)"

definition sanitizeRefName :: "ref_env \<Rightarrow> string \<Rightarrow> string \<Rightarrow> string" where
  "sanitizeRefName env absoluteURL fragment =
     (let fragPart = (if fragment = [] then []
                      else Join (filter (\<lambda>p. p \<noteq> []) (SplitChar (CHR ''/'') (TrimPrefix fragment ''/''))) ''_'');
          docBase = (case rv_urlPath env absoluteURL of
                       None \<Rightarrow> []
                     | Some path \<Rightarrow> cut_extension (last (SplitChar (CHR ''/'') (TrimSuffix path ''/''))));
          name = trim_both (\<lambda>c. c = CHR ''_'') (docBase @ ''_'' @ fragPart)
      in sanitize False (if name = [] then ''external_ref'' else name))"

definition role_number :: "refRole \<Rightarrow> nat" where
  "role_number role = (case role of schemaRole \<Rightarrow> 0 | exampleRole \<Rightarrow> 1)"

definition cache_key :: "refRole \<Rightarrow> string \<Rightarrow> string \<Rightarrow> string" where
  "cache_key role absolute fragment = nat_str (role_number role) @ '' '' @ absolute @ ''#'' @ fragment"

definition fetch_doc :: "ref_env \<Rightarrow> string \<Rightarrow> ref_error + jmap" where
  "fetch_doc env absolute =
     (if \<not> rv_hasFetcher env \<or> rv_baseURL env = [] then Inl (PlainRef ''external refs require an http(s) source'')
      else (case rv_fetch env absolute of
              Inl e \<Rightarrow> Inl (FatalRef e)
            | Inr data \<Rightarrow>
                (case rv_decode env data of
                   Inl e \<Rightarrow> Inl (FatalRef (''decoding '' @ rv_redact env absolute @ '': '' @ e))
                 | Inr doc \<Rightarrow> Inr (case doc of None \<Rightarrow> [] | Some m \<Rightarrow> m))))"

definition load_doc :: "ref_env \<Rightarrow> string \<Rightarrow> refResolver \<Rightarrow> (ref_error + jmap) \<times> refResolver" where
  "load_doc env absolute r =
     (case map_of (rs_docs r) absolute of
        Some doc \<Rightarrow> (Inr doc, r)
      | None \<Rightarrow>
          (case fetch_doc env absolute of
             Inl e \<Rightarrow> (Inl e, r)
           | Inr doc \<Rightarrow> (Inr doc, r\<lparr>rs_docs := mput absolute doc (rs_docs r)\<rparr>)))"

definition store_target :: "refRole \<Rightarrow> string \<Rightarrow> json \<Rightarrow> refResolver \<Rightarrow> refResolver" where
  "store_target role name target r =
     (if role = exampleRole then r\<lparr>rs_inlinedExamples := mput name target (rs_inlinedExamples r)\<rparr>
      else if map_of (rs_inlined r) name \<noteq> None
      then warn (''external ref name collision: '' @ Quote name @ '' produced by multiple sources; keeping first'') r
      else r\<lparr>rs_inlined := mput name target (rs_inlined r)\<rparr>)"

definition finish_target :: "refRole \<Rightarrow> string \<Rightarrow> string \<Rightarrow> json \<Rightarrow> refResolver \<Rightarrow> refResolver" where
  "finish_target role key name target r =
     (let r1 = store_target role name target r
      in r1\<lparr>rs_resolved := mput key name (rs_resolved r1), rs_resolving := mdel key (rs_resolving r1)\<rparr>)"

text \<open>The walk of a target, its storage, and the end of its resolution.\<close>

definition resolve_target ::
  "ref_env \<Rightarrow> resolve \<Rightarrow> string \<Rightarrow> refRole \<Rightarrow> string \<Rightarrow> string \<Rightarrow> json \<Rightarrow> refResolver \<Rightarrow>
   ((ref_error + string) \<times> refResolver) option" where
  "resolve_target env R absolute role key name target r =
     (let r1 = r\<lparr>rs_resolving := mput key name (rs_resolving r)\<rparr>
      in case (if role = schemaRole then walk env R absolute target r1
               else (case target of
                       JObj m \<Rightarrow> (case resolveExampleRef env R absolute m r1 of None \<Rightarrow> None | Some (m', r2) \<Rightarrow> Some (JObj m', r2))
                     | _ \<Rightarrow> Some (target, r1))) of
           None \<Rightarrow> None
         | Some (target', r2) \<Rightarrow> Some (Inr name, finish_target role key name target' r2))"

fun resolveExternal :: "nat \<Rightarrow> ref_env \<Rightarrow> resolve" where
  "resolveExternal 0 env ref base role r = None"
| "resolveExternal (Suc n) env ref base role r =
     (case splitRef ref of
        (docURL, fragment) \<Rightarrow>
          (case absolutize env docURL base of
             Inl e \<Rightarrow> Some (Inl (PlainRef e), r)
           | Inr absolute \<Rightarrow>
               (let key = cache_key role absolute fragment
                in case map_of (rs_resolved r) key of
                     Some name \<Rightarrow> Some (Inr name, r)
                   | None \<Rightarrow>
                       (case load_doc env absolute r of
                          (Inl e, r1) \<Rightarrow> Some (Inl e, r1)
                        | (Inr doc, r1) \<Rightarrow>
                            (case pointerLookup doc fragment of
                               Inl e \<Rightarrow> Some (Inl (PlainRef e), r1)
                             | Inr target \<Rightarrow>
                                 (case map_of (rs_resolving r1) key of
                                    Some name \<Rightarrow>
                                      Some (Inr name, warn (''cycle detected for '' @ rv_redactRef env (absolute @ ''#'' @ fragment) @
                                        '': a recursive $ref, rewritten to the name being inlined'') r1)
                                  | None \<Rightarrow>
                                      (let name = sanitizeRefName env absolute fragment
                                       in case (if role = exampleRole then freeExampleName name r1 else (name, r1)) of
                                            (name', r2) \<Rightarrow> resolve_target env (resolveExternal n env) absolute role key name' target r2)))))))"

section \<open>The whole document\<close>

definition on_component :: "string \<Rightarrow> (jmap \<Rightarrow> jmap) \<Rightarrow> jmap \<Rightarrow> jmap" where
  "on_component kind f root =
     (let components = (case get_obj root ''components'' of None \<Rightarrow> [] | Some c \<Rightarrow> c);
          m = (case get_obj components kind of None \<Rightarrow> [] | Some m \<Rightarrow> m)
      in mput ''components'' (JObj (mput kind (JObj (f m)) components)) root)"

definition existingExampleNames :: "jmap \<Rightarrow> (string, unit) gomap" where
  "existingExampleNames root =
     (case get_obj root ''components'' of
        None \<Rightarrow> []
      | Some components \<Rightarrow>
          (case get_obj components ''examples'' of None \<Rightarrow> [] | Some examples \<Rightarrow> map (\<lambda>p. (fst p, ())) examples))"

definition collision_warning :: "string \<Rightarrow> string" where
  "collision_warning name =
     ''external ref schema name collision: '' @ Quote name @ '' already exists in components/schemas; skipping''"

text \<open>The code ranges over the inlined schemas in no particular order; the model takes the order of names.\<close>

definition inline_schemas :: "jmap \<Rightarrow> jmap \<Rightarrow> jmap" where
  "inline_schemas inlined schemas =
     fold (\<lambda>p m. if map_of schemas (fst p) \<noteq> None then m else mput (fst p) (snd p) m) inlined schemas"

definition inline_warnings :: "jmap \<Rightarrow> jmap \<Rightarrow> string list" where
  "inline_warnings inlined root =
     (let components = (case get_obj root ''components'' of None \<Rightarrow> [] | Some c \<Rightarrow> c);
          schemas = (case get_obj components ''schemas'' of None \<Rightarrow> [] | Some m \<Rightarrow> m)
      in map (\<lambda>p. collision_warning (fst p)) (filter (\<lambda>p. map_of schemas (fst p) \<noteq> None) inlined))"

definition new_resolver :: "jmap \<Rightarrow> refResolver" where
  "new_resolver root =
     \<lparr>rs_docs = [], rs_inlined = [], rs_inlinedExamples = [], rs_takenExamples = existingExampleNames root, rs_resolving = [],
      rs_resolved = [], rs_warnings = [], rs_warned = [], rs_fatalErr = None\<rparr>"

definition inline_all :: "refResolver \<Rightarrow> jmap \<Rightarrow> jmap" where
  "inline_all r root =
     (let root1 = (if rs_inlined r = [] then root else on_component ''schemas'' (inline_schemas (rs_inlined r)) root)
      in if rs_inlinedExamples r = [] then root1
         else on_component ''examples'' (\<lambda>m. mmerge m (rs_inlinedExamples r)) root1)"

definition resolve_root :: "nat \<Rightarrow> ref_env \<Rightarrow> jmap \<Rightarrow> (string list \<times> (string + jmap)) option" where
  "resolve_root n env root =
     (case walk env (resolveExternal n env) (rv_baseURL env) (JObj root) (new_resolver root) of
        None \<Rightarrow> None
      | Some (root', r) \<Rightarrow>
          Some (case rs_fatalErr r of
                  Some e \<Rightarrow> (rs_warnings r, Inl (''resolving external $refs: '' @ e))
                | None \<Rightarrow>
                    (let m = (case root' of JObj m \<Rightarrow> m | _ \<Rightarrow> [])
                     in (rs_warnings r @ inline_warnings (rs_inlined r) m, Inr (inline_all r m)))))"

definition ResolveExternalRefs :: "nat \<Rightarrow> ref_env \<Rightarrow> string \<Rightarrow> (string list \<times> (string + string)) option" where
  "ResolveExternalRefs n env specData =
     (case rv_decode env specData of
        Inl e \<Rightarrow> Some ([], Inl (''decoding spec: '' @ e))
      | Inr None \<Rightarrow> Some ([], Inr ''null'')
      | Inr (Some root) \<Rightarrow>
          (case resolve_root n env root of
             None \<Rightarrow> None
           | Some (warnings, Inl e) \<Rightarrow> Some (warnings, Inl e)
           | Some (warnings, Inr out) \<Rightarrow> Some (warnings, Inr (marshal (JObj out)))))"

section \<open>References left in a document\<close>

definition isExternalRef :: "string \<Rightarrow> bool" where
  "isExternalRef ref \<longleftrightarrow> ref \<noteq> [] \<and> \<not> HasPrefix ref ''#''"

definition external_visit :: "string \<Rightarrow> json \<Rightarrow> string list \<times> bool" where
  "external_visit key value =
     (case examplePayload key value of
        Some own \<Rightarrow>
          (List.map_filter (\<lambda>entry. case get_str entry ''$ref'' of
             Some ref \<Rightarrow> (if isExternalRef ref then Some ref else None) | None \<Rightarrow> None) own, False)
      | None \<Rightarrow>
          (case value of JStr s \<Rightarrow> (if key = ''$ref'' \<and> isExternalRef s then [s] else []) | _ \<Rightarrow> [], True))"

definition ExternalRefs :: "decoder \<Rightarrow> string \<Rightarrow> string + string list" where
  "ExternalRefs decode specData =
     (case decode specData of
        Inl e \<Rightarrow> Inl (''decoding spec: '' @ e)
      | Inr root \<Rightarrow>
          Inr (sorted_list_of_set (set (walkJSON external_visit (JObj (case root of None \<Rightarrow> [] | Some m \<Rightarrow> m))))))"

end
