(* ===== verification/RefContract.thy ===== *)
theory RefContract
  imports RefResolve
begin

text \<open>
  What every walk of the reference resolver keeps (locale \<open>resolver_contract\<close>: an invariant of the
  resolver's state, which references may be found and which may be left), and the contract of
  the resolver itself about the names it gives out.
\<close>

section \<open>Walking with a resolver that keeps a contract\<close>

text \<open>All strings at a key \<^verbatim>\<open>$ref\<close>, example data included.\<close>

fun refs_in :: "json \<Rightarrow> string set" where
  "refs_in (JObj m) = {s. (''$ref'', JStr s) \<in> set m} \<union> (\<Union>p \<in> set m. refs_in (snd p))"
| "refs_in (JArr xs) = (\<Union>x \<in> set xs. refs_in x)"
| "refs_in _ = {}"

definition val_refs :: "string \<Rightarrow> json \<Rightarrow> string set" where
  "val_refs k v = (case v of JStr s \<Rightarrow> (if k = ''$ref'' then {s} else {}) | _ \<Rightarrow> refs_in v)"

definition refs_of_map :: "jmap \<Rightarrow> string set" where
  "refs_of_map m = (\<Union>p \<in> set m. val_refs (fst p) (snd p))"

lemma val_refs_alt: "val_refs k v = refs_in v \<union> (if k = ''$ref'' then {s. v = JStr s} else {})"
  by (cases v) (auto simp: val_refs_def)

lemma refs_in_JObj: "refs_in (JObj m) = refs_of_map m"
  unfolding refs_of_map_def val_refs_alt by (auto split: if_splits)

lemma refs_of_map_simps [simp]:
  "refs_of_map [] = {}" "refs_of_map (p # m) = val_refs (fst p) (snd p) \<union> refs_of_map m"
  by (simp_all add: refs_of_map_def)

lemma val_refs_simps [simp]:
  "val_refs k (JObj m) = refs_of_map m" "val_refs k (JArr xs) = refs_in (JArr xs)" "val_refs ''$ref'' (JStr s) = {s}"
  by (simp_all add: val_refs_def refs_in_JObj del: refs_in.simps(1))

declare refs_in.simps(1) [simp del]
declare refs_in_JObj [simp]

lemma refs_of_upd: "refs_of_map (upd ''$ref'' (\<lambda>_. JStr s) m) \<subseteq> insert s (refs_of_map m)"
  by (induction m) auto

lemma get_str_ref: "get_str m ''$ref'' = Some ref \<Longrightarrow> ref \<in> refs_of_map m"
  by (induction m) (auto simp: get_str_def val_refs_def split: if_splits json.splits option.splits)

text \<open>
  \<open>I\<close> is an invariant of the resolver's state, \<open>le\<close> how it may change, \<open>A\<close> which references may be
  found in which document, and \<open>Q\<close> which may be left; \<open>total\<close> says that the resolver returns.
\<close>

locale resolver_contract =
  fixes env :: ref_env and R :: resolve and I :: "refResolver \<Rightarrow> bool" and le :: "refResolver \<Rightarrow> refResolver \<Rightarrow> bool"
    and A :: "string \<Rightarrow> string \<Rightarrow> bool" and Q :: "refResolver \<Rightarrow> string \<Rightarrow> bool" and total :: bool
  assumes le_refl: "le r r" and le_trans: "le r r1 \<Longrightarrow> le r1 r2 \<Longrightarrow> le r r2"
    and Q_mono: "le r r1 \<Longrightarrow> Q r ref \<Longrightarrow> Q r1 ref" and A_Q: "A ref base \<Longrightarrow> I r \<Longrightarrow> Q r ref"
    and reports: "I r \<Longrightarrow> I (r\<lparr>rs_warnings := ws, rs_warned := wd, rs_fatalErr := fe\<rparr>) \<and>
      le r (r\<lparr>rs_warnings := ws, rs_warned := wd, rs_fatalErr := fe\<rparr>)"
    and returns_if_total: "total \<Longrightarrow> I r \<Longrightarrow> A ref base \<Longrightarrow> R ref base role r \<noteq> None"
    and resolves: "I r \<Longrightarrow> A ref base \<Longrightarrow> R ref base role r = Some (res, r1) \<Longrightarrow>
      I r1 \<and> le r r1 \<and> (\<forall>name. res = Inr name \<longrightarrow> Q r1 (componentsPath role @ name))"
begin

definition good :: "refResolver \<Rightarrow> ('a \<Rightarrow> string set) \<Rightarrow> ('a \<times> refResolver) option \<Rightarrow> bool" where
  "good r refs out \<longleftrightarrow> (total \<longrightarrow> out \<noteq> None) \<and>
     (\<forall>x r1. out = Some (x, r1) \<longrightarrow> I r1 \<and> le r r1 \<and> (\<forall>ref \<in> refs x. Q r1 ref))"

lemma goodD: "good r refs (Some (x, r1)) \<Longrightarrow> I r1 \<and> le r r1 \<and> (\<forall>ref \<in> refs x. Q r1 ref)"
  by (simp add: good_def)

lemma good_Some: "I r1 \<Longrightarrow> le r r1 \<Longrightarrow> (\<And>ref. ref \<in> refs x \<Longrightarrow> Q r1 ref) \<Longrightarrow> good r refs (Some (x, r1))"
  by (simp add: good_def)

lemma good_same: "I r \<Longrightarrow> (\<And>ref. ref \<in> refs x \<Longrightarrow> A ref base) \<Longrightarrow> good r refs (Some (x, r))"
  by (rule good_Some) (auto intro: le_refl A_Q)

lemma good_case:
  assumes "good r refs out" and "\<And>x r1. out = Some (x, r1) \<Longrightarrow> I r1 \<Longrightarrow> le r r1 \<Longrightarrow> (\<And>ref. ref \<in> refs x \<Longrightarrow> Q r1 ref) \<Longrightarrow>
    good r1 refs' (f x r1)"
  shows "good r refs' (case out of None \<Rightarrow> None | Some (x, r1) \<Rightarrow> f x r1)"
proof (cases out)
  case None
  with assms(1) show ?thesis unfolding good_def by simp
next
  case (Some p)
  obtain x r1 where p: "p = (x, r1)" by force
  with Some assms(1) have i: "I r1" and l: "le r r1" and q: "\<And>ref. ref \<in> refs x \<Longrightarrow> Q r1 ref" by (auto simp: good_def)
  from assms(2) [OF Some [unfolded p] i l q] l show ?thesis
    unfolding good_def by (auto simp: Some p intro: le_trans)
qed

lemma I_warn: "I r \<Longrightarrow> I (warn m r) \<and> le r (warn m r)"
  using reports [where ws = "rs_warnings r @ [m]" and wd = "rs_warned r" and fe = "rs_fatalErr r" and r = r] by (simp add: warn_def)

lemma I_warnOnce: "I r \<Longrightarrow> I (warnOnce m r) \<and> le r (warnOnce m r)"
  using reports [where ws = "rs_warnings r @ [m]" and wd = "mput m () (rs_warned r)" and fe = "rs_fatalErr r" and r = r] le_refl
  by (simp add: warnOnce_def warn_def)

lemma I_warnLocalRef: "I r \<Longrightarrow> I (warnLocalRef env ref base r) \<and> le r (warnLocalRef env ref base r)"
  using I_warnOnce le_refl by (simp add: warnLocalRef_def Let_def)

lemma I_record_error: "I r \<Longrightarrow> I (record_error env ref err r) \<and> le r (record_error env ref err r)"
  using reports [where ws = "rs_warnings r" and wd = "rs_warned r" and r = r] I_warn by (simp add: record_error_def split: ref_error.splits)

lemma I_keepsLocalRef: "I r \<Longrightarrow> keepsLocalRef env ref base err r = (k, r1) \<Longrightarrow> I r1 \<and> le r r1"
  using I_warnOnce le_refl by (auto simp: keepsLocalRef_def split: ref_error.splits if_splits)

lemma good_exampleRef:
  assumes i: "I r" and a: "\<And>ref. ref \<in> refs_of_map entry \<Longrightarrow> A ref base"
  shows "good r refs_of_map (resolveExampleRef env R base entry r)"
proof -
  let ?ref = "case get_str entry ''$ref'' of None \<Rightarrow> [] | Some s \<Rightarrow> s"
  let ?r = "warnLocalRef env ?ref base r"
  have r: "I ?r" "le r ?r" using I_warnLocalRef [OF i] by auto
  have same: "good r refs_of_map (Some (entry, r1))" if "I r1" "le r r1" for r1
    using that a by (intro good_Some) (auto intro: A_Q)
  show ?thesis
  proof (cases "rs_fatalErr r \<noteq> None \<or> ?ref = [] \<or> HasPrefix ?ref ''#''")
    case True
    then show ?thesis using same [OF i le_refl] same [OF r] by (auto simp: resolveExampleRef_def Let_def)
  next
    case False
    then have aref: "A ?ref base" using a [OF get_str_ref] by (auto split: option.splits)
    have eq: "resolveExampleRef env R base entry r = (case R ?ref base exampleRole ?r of
        None \<Rightarrow> None
      | Some (Inr localName, r2) \<Rightarrow> Some (upd ''$ref'' (\<lambda>_. JStr (componentsPath exampleRole @ localName)) entry, r2)
      | Some (Inl err, r2) \<Rightarrow> Some (entry, record_error env ?ref err r2))"
      using False by (simp add: resolveExampleRef_def Let_def)
    show ?thesis
    proof (cases "R ?ref base exampleRole ?r")
      case None
      with returns_if_total [OF _ r(1) aref] have "\<not> total" by metis
      with None eq show ?thesis unfolding good_def by simp
    next
      case (Some p)
      obtain res r2 where p: "p = (res, r2)" by force
      from resolves [OF r(1) aref Some [unfolded p]] have k: "I r2" "le ?r r2"
        "\<And>name. res = Inr name \<Longrightarrow> Q r2 (componentsPath exampleRole @ name)" by auto
      show ?thesis
      proof (cases res)
        case (Inl err)
        have "good r refs_of_map (Some (entry, record_error env ?ref err r2))"
          using I_record_error [OF k(1)] r(2) k(2) by (intro same) (auto intro: le_trans)
        then show ?thesis using eq Some p Inl by simp
      next
        case (Inr name)
        have "good r refs_of_map (Some (upd ''$ref'' (\<lambda>_. JStr (componentsPath exampleRole @ name)) entry, r2))"
          using k Inr r(2) a refs_of_upd by (intro good_Some) (blast intro: le_trans A_Q)+
        then show ?thesis using eq Some p Inr by simp
      qed
    qed
  qed
qed

lemma good_entry:
  assumes i: "I r" and a: "\<And>ref. ref \<in> val_refs k v \<Longrightarrow> A ref base"
  shows "good r (val_refs k) (case v of
      JObj entry \<Rightarrow>
        (if get_str entry ''$ref'' = None then Some (v, r)
         else (case resolveExampleRef env R base entry r of None \<Rightarrow> None | Some (e, r1) \<Rightarrow> Some (JObj e, r1)))
    | v \<Rightarrow> Some (v, r))"
proof (cases "\<exists>entry. v = JObj entry \<and> get_str entry ''$ref'' \<noteq> None")
  case True
  then obtain entry where v: "v = JObj entry" and e: "get_str entry ''$ref'' \<noteq> None" by blast
  show ?thesis
    unfolding v json.case if_not_P [OF e]
    by (rule good_case [OF good_exampleRef [OF i]]) (use a v in \<open>auto intro: good_Some le_refl\<close>)
next
  case False
  with good_same [OF i, of "val_refs k" v, OF a] show ?thesis by (auto split: json.splits)
qed

lemma good_Cons:
  assumes first: "good r (val_refs k) out"
    and rest: "\<And>r1. I r1 \<Longrightarrow> good r1 refs_of_map (f r1)"
  shows "good r refs_of_map (case out of None \<Rightarrow> None
    | Some (v, r1) \<Rightarrow> (case f r1 of None \<Rightarrow> None | Some (m, r2) \<Rightarrow> Some ((k, v) # m, r2)))"
proof (rule good_case [OF first])
  fix v r1 assume i: "I r1" and q: "\<And>ref. ref \<in> val_refs k v \<Longrightarrow> Q r1 ref"
  show "good r1 refs_of_map (case f r1 of None \<Rightarrow> None | Some (m, r2) \<Rightarrow> Some ((k, v) # m, r2))"
  proof (rule good_case [OF rest [OF i]])
    fix m r2 assume r2: "I r2" "le r1 r2" and m: "\<And>ref. ref \<in> refs_of_map m \<Longrightarrow> Q r2 ref"
    show "good r2 refs_of_map (Some ((k, v) # m, r2))"
      by (rule good_Some [OF r2(1) le_refl]) (use m q Q_mono [OF r2(2)] in auto)
  qed
qed

lemma good_entries:
  assumes "I r" and "\<And>ref. ref \<in> refs_of_map entries \<Longrightarrow> A ref base"
  shows "good r refs_of_map (example_entries env R base entries r)"
  using assms
proof (induction entries arbitrary: r)
  case (Cons p entries)
  show ?case
    unfolding example_entries.simps
    by (rule good_Cons [OF good_entry [OF Cons.prems(1)] Cons.IH]) (use Cons.prems(2) in auto)
qed (auto intro: good_Some le_refl)

lemma good_examples:
  assumes "I r" and "\<And>ref. ref \<in> val_refs k v \<Longrightarrow> A ref base"
  shows "good r (val_refs k) (walk_examples env R base k v r)"
proof (cases "\<exists>entries. v = JObj entries \<and> k = ''examples''")
  case True
  then obtain entries where v: "v = JObj entries" and k: "k = ''examples''" by blast
  have "good r (val_refs k) (case example_entries env R base entries r of None \<Rightarrow> None | Some (e, r1) \<Rightarrow> Some (JObj e, r1))"
    by (rule good_case [OF good_entries [OF assms(1)]]) (use assms(2) v in \<open>auto intro: good_Some le_refl\<close>)
  then show ?thesis by (simp add: walk_examples_def v k)
next
  case False
  with good_same [OF assms(1), of "val_refs k" v, OF assms(2)] show ?thesis by (auto simp: walk_examples_def split: json.splits)
qed

definition new_refs :: "string option \<times> bool \<Rightarrow> string set" where
  "new_refs x = set_option (fst x)"

lemma good_walk_ref:
  assumes i: "I r" and a: "\<And>ref. ref \<in> refs_of_map m \<Longrightarrow> A ref base"
  shows "good r new_refs (walk_ref env R base m r)"
proof (cases "get_str m ''$ref''")
  case None
  with i show ?thesis by (auto simp: walk_ref_def new_refs_def intro: good_Some le_refl)
next
  case (Some ref)
  then have aref: "A ref base" using a [OF get_str_ref] by blast
  show ?thesis
  proof (cases "resolvesExternally env ref base")
    case False
    with Some I_warnLocalRef [OF i] show ?thesis by (auto simp: walk_ref_def new_refs_def intro: good_Some)
  next
    case True
    have eq: "walk_ref env R base m r = (case R ref base schemaRole r of
        None \<Rightarrow> None
      | Some (Inr localName, r1) \<Rightarrow> Some ((Some (componentsPath schemaRole @ localName), \<not> HasPrefix ref ''#''), r1)
      | Some (Inl err, r1) \<Rightarrow>
          (case keepsLocalRef env ref base err r1 of
             (keeps, r2) \<Rightarrow> Some ((None, \<not> HasPrefix ref ''#''), if keeps then r2 else record_error env ref err r2)))"
      using Some True by (simp add: walk_ref_def Let_def)
    show ?thesis
    proof (cases "R ref base schemaRole r")
      case None
      with returns_if_total [OF _ i aref] have "\<not> total" by metis
      with None eq show ?thesis unfolding good_def by simp
    next
      case res: (Some p)
      obtain res r1 where p: "p = (res, r1)" by force
      from resolves [OF i aref res [unfolded p]] have k: "I r1" "le r r1"
        "\<And>name. res = Inr name \<Longrightarrow> Q r1 (componentsPath schemaRole @ name)" by auto
      show ?thesis
      proof (cases res)
        case (Inl err)
        obtain keeps r2 where kl: "keepsLocalRef env ref base err r1 = (keeps, r2)" by force
        from I_keepsLocalRef [OF k(1) kl] have k2: "I r2" "le r1 r2" by auto
        let ?r3 = "if keeps then r2 else record_error env ref err r2"
        have "I ?r3 \<and> le r ?r3" using k2 k(2) I_record_error [OF k2(1), of ref err] by (auto intro: le_trans)
        then show ?thesis using eq res p Inl kl by (auto simp: new_refs_def intro: good_Some)
      next
        case (Inr name)
        with eq res p k show ?thesis by (auto simp: new_refs_def intro: good_Some)
      qed
    qed
  qed
qed

lemma refs_set_ref: "refs_of_map (set_ref new m) \<subseteq> refs_of_map m \<union> set_option new"
  using refs_of_upd by (auto simp: set_ref_def split: option.splits)

lemma good_walk_obj:
  assumes i: "I r" and a: "\<And>ref. ref \<in> refs_of_map m \<Longrightarrow> A ref base"
    and fields: "\<And>r1. I r1 \<Longrightarrow> good r1 refs_of_map (walk_fields env R base m r1)"
  shows "good r (val_refs k) (walk env R base (JObj m) r)"
proof (cases "rs_fatalErr r \<noteq> None")
  case True
  then show ?thesis using good_same [OF i, of "val_refs k" "JObj m" base] a by simp
next
  case False
  show ?thesis
    unfolding walk.simps if_not_P [OF False]
  proof (rule good_case [OF good_walk_ref [OF i a]], assumption, goal_cases)
    case (1 x r1)
    obtain new whole where x: "x = (new, whole)" by force
    have n: "Q r1 s" if "s \<in> set_option new" for s using that 1(4) x by (simp add: new_refs_def)
    have w: "good r1 (val_refs k) (Some (JObj (set_ref new m), r1))"
    proof (rule good_Some [OF 1(2) le_refl])
      fix ref assume "ref \<in> val_refs k (JObj (set_ref new m))"
      then have "ref \<in> refs_of_map m \<or> ref \<in> set_option new" using refs_set_ref [of new m] by auto
      then show "Q r1 ref" using n a A_Q [OF _ 1(2)] by blast
    qed
    have f: "good r1 (val_refs k)
        (case walk_fields env R base m r1 of None \<Rightarrow> None | Some (m', r2) \<Rightarrow> Some (JObj (set_ref new m'), r2))"
    proof (rule good_case [OF fields [OF 1(2)]])
      fix m' r2 assume r2: "I r2" "le r1 r2" and m': "\<And>ref. ref \<in> refs_of_map m' \<Longrightarrow> Q r2 ref"
      show "good r2 (val_refs k) (Some (JObj (set_ref new m'), r2))"
        by (rule good_Some [OF r2(1) le_refl]) (use m' n Q_mono [OF r2(2)] refs_set_ref [of new m'] in auto)
    qed
    from w f show ?case by (simp add: x)
  qed
qed

text \<open>What is shown of a value by induction on its size.\<close>

definition walks :: "string \<Rightarrow> json \<Rightarrow> bool" where
  "walks base v \<longleftrightarrow>
     (\<forall>r k. I r \<longrightarrow> (\<forall>ref \<in> val_refs k v. A ref base) \<longrightarrow> good r (val_refs k) (walk env R base v r))"

lemma walksD: "walks base v \<Longrightarrow> I r \<Longrightarrow> (\<And>ref. ref \<in> val_refs k v \<Longrightarrow> A ref base) \<Longrightarrow> good r (val_refs k) (walk env R base v r)"
  by (simp add: walks_def)

lemma good_values:
  assumes "I r" and "\<And>ref. ref \<in> refs_of_map m \<Longrightarrow> A ref base" and "\<And>p. p \<in> set m \<Longrightarrow> walks base (snd p)"
  shows "good r refs_of_map (walk_values env R base m r)"
  using assms
proof (induction m arbitrary: r)
  case (Cons p m)
  obtain k v where p: "p = (k, v)" by force
  show ?case
    unfolding p walk_values.simps
  proof (rule good_Cons [OF walksD])
    show "walks base v" using Cons.prems(3) [of p] p by simp
    show "good r1 refs_of_map (walk_values env R base m r1)" if "I r1" for r1
      using that Cons.prems(2,3) by (intro Cons.IH) auto
  qed (use Cons.prems p in auto)
qed (auto intro: good_Some le_refl)

lemma good_elements:
  assumes "I r" and "\<And>ref. ref \<in> refs_in (JArr xs) \<Longrightarrow> A ref base" and "\<And>x. x \<in> set xs \<Longrightarrow> walks base x"
  shows "good r (\<lambda>xs. refs_in (JArr xs)) (walk_elements env R base xs r)"
  using assms
proof (induction xs arbitrary: r)
  case (Cons x xs)
  have v: "val_refs [] y = refs_in y" for y by (simp add: val_refs_alt)
  have "good r (val_refs []) (walk env R base x r)" using Cons.prems by (intro walksD) (auto simp: v)
  then show ?case
    unfolding walk_elements.simps
  proof (rule good_case)
    fix x' r1 assume i: "I r1" and q: "\<And>ref. ref \<in> val_refs [] x' \<Longrightarrow> Q r1 ref"
    have IH: "good r1 (\<lambda>xs. refs_in (JArr xs)) (walk_elements env R base xs r1)" using Cons i by simp
    show "good r1 (\<lambda>xs. refs_in (JArr xs))
        (case walk_elements env R base xs r1 of None \<Rightarrow> None | Some (xs', r2) \<Rightarrow> Some (x' # xs', r2))"
    proof (rule good_case [OF IH])
      fix xs' r2 assume r2: "I r2" "le r1 r2" and m: "\<And>ref. ref \<in> refs_in (JArr xs') \<Longrightarrow> Q r2 ref"
      show "good r2 (\<lambda>xs. refs_in (JArr xs)) (Some (x' # xs', r2))"
        by (rule good_Some [OF r2(1) le_refl]) (use m q Q_mono [OF r2(2)] in \<open>auto simp: v\<close>)
    qed
  qed
qed (auto intro: good_Some le_refl)

lemma good_field:
  assumes i: "I r" and a: "\<And>ref. ref \<in> val_refs k v \<Longrightarrow> A ref base" and w: "walks base v"
    and members: "\<And>byName p. v = JObj byName \<Longrightarrow> p \<in> set byName \<Longrightarrow> walks base (snd p)"
  shows "good r (val_refs k) (case (v, k \<in> set nameKeyedMaps) of
              (JObj byName, True) \<Rightarrow>
                (case walk_values env R base byName r of None \<Rightarrow> None | Some (ms, r1) \<Rightarrow> Some (JObj ms, r1))
            | _ \<Rightarrow>
                if examplePayload k v \<noteq> None then walk_examples env R base k v r else walk env R base v r)"
proof (cases "\<exists>byName. v = JObj byName \<and> k \<in> set nameKeyedMaps")
  case True
  then obtain byName where v: "v = JObj byName" and k: "k \<in> set nameKeyedMaps" by blast
  have "good r refs_of_map (walk_values env R base byName r)"
    by (rule good_values [OF i]) (use a v members in auto)
  then have "good r (val_refs k) (case walk_values env R base byName r of None \<Rightarrow> None | Some (ms, r1) \<Rightarrow> Some (JObj ms, r1))"
    by (rule good_case) (auto intro: good_Some le_refl)
  with v k show ?thesis by simp
next
  case False
  have "good r (val_refs k) (if examplePayload k v \<noteq> None then walk_examples env R base k v r else walk env R base v r)"
    using good_examples [OF i a] walksD [OF w i a] by simp
  with False show ?thesis by (cases v) auto
qed

lemma good_fields:
  assumes "I r" and "\<And>ref. ref \<in> refs_of_map m \<Longrightarrow> A ref base" and "\<And>p. p \<in> set m \<Longrightarrow> walks base (snd p)"
    and "\<And>p byName q. p \<in> set m \<Longrightarrow> snd p = JObj byName \<Longrightarrow> q \<in> set byName \<Longrightarrow> walks base (snd q)"
  shows "good r refs_of_map (walk_fields env R base m r)"
  using assms
proof (induction m arbitrary: r)
  case (Cons p m)
  obtain k v where p: "p = (k, v)" by force
  have first: "good r (val_refs k) (case (v, k \<in> set nameKeyedMaps) of
              (JObj byName, True) \<Rightarrow>
                (case walk_values env R base byName r of None \<Rightarrow> None | Some (ms, r1) \<Rightarrow> Some (JObj ms, r1))
            | _ \<Rightarrow>
                if examplePayload k v \<noteq> None then walk_examples env R base k v r else walk env R base v r)"
  proof (rule good_field [OF Cons.prems(1)])
    show "walks base v" using Cons.prems(3) [of p] p by simp
    show "walks base (snd q)" if "v = JObj byName" "q \<in> set byName" for byName q
      using Cons.prems(4) [of p byName q] that p by simp
  qed (use Cons.prems(2) p in auto)
  have rest: "good r1 refs_of_map (walk_fields env R base m r1)" if "I r1" for r1
  proof (rule Cons.IH [OF that])
    show "walks base (snd q)" if "p' \<in> set m" "snd p' = JObj byName" "q \<in> set byName" for p' byName q
      by (rule Cons.prems(4) [OF _ that(2,3)]) (use that(1) in simp)
  qed (use Cons.prems(2,3) in auto)
  show ?case unfolding p walk_fields.simps by (rule good_Cons [OF first rest])
qed (auto intro: good_Some le_refl)

lemma walk_walks: "walks base j"
proof (induction j rule: measure_induct_rule [of size])
  case (less j)
  show ?case
    unfolding walks_def
  proof (intro allI impI)
    fix r k assume i: "I r" and a: "\<forall>ref \<in> val_refs k j. A ref base"
    show "good r (val_refs k) (walk env R base j r)"
    proof (cases j)
      case (JObj m)
      have mem: "walks base (snd p)" if "p \<in> set m" for p using size_member [OF that] less JObj by simp
      have mem2: "walks base (snd q)" if "p \<in> set m" "snd p = JObj byName" "q \<in> set byName" for p byName q
        using size_member [OF that(1)] size_member [OF that(3)] that(2) less JObj by simp
      have fields: "good r1 refs_of_map (walk_fields env R base m r1)" if "I r1" for r1
        by (rule good_fields [OF that]) (use a JObj mem mem2 in auto)
      show ?thesis unfolding JObj by (rule good_walk_obj [OF i _ fields]) (use a JObj in auto)
    next
      case (JArr xs)
      have el: "walks base x" if "x \<in> set xs" for x using size_element [OF that] less JArr by simp
      have "good r (\<lambda>xs. refs_in (JArr xs)) (walk_elements env R base xs r)"
        by (rule good_elements [OF i]) (use a JArr el in auto)
      then have "good r (val_refs k) (case walk_elements env R base xs r of None \<Rightarrow> None | Some (xs', r1) \<Rightarrow> Some (JArr xs', r1))"
        by (rule good_case) (auto intro: good_Some le_refl)
      then show ?thesis unfolding JArr by simp
    qed (use i a in \<open>auto intro!: good_Some le_refl A_Q\<close>)
  qed
qed

lemma walk_contract:
  assumes "I r" and "\<And>ref. ref \<in> refs_in j \<Longrightarrow> A ref base"
  shows "total \<Longrightarrow> walk env R base j r \<noteq> None"
    and "walk env R base j r = Some (j', r1) \<Longrightarrow> I r1 \<and> le r r1 \<and> (\<forall>ref \<in> refs_in j'. Q r1 ref)"
proof -
  have v: "val_refs [] y = refs_in y" for y by (simp add: val_refs_alt)
  have "good r (val_refs []) (walk env R base j r)"
    by (rule walksD [OF walk_walks assms(1)]) (use assms(2) in \<open>simp add: v\<close>)
  then show "total \<Longrightarrow> walk env R base j r \<noteq> None"
    "walk env R base j r = Some (j', r1) \<Longrightarrow> I r1 \<and> le r r1 \<and> (\<forall>ref \<in> refs_in j'. Q r1 ref)"
    unfolding good_def v by blast+
qed

lemma exampleRef_contract:
  assumes "I r" and "\<And>ref. ref \<in> refs_of_map m \<Longrightarrow> A ref base"
  shows "total \<Longrightarrow> resolveExampleRef env R base m r \<noteq> None"
    and "resolveExampleRef env R base m r = Some (m', r1) \<Longrightarrow> I r1 \<and> le r r1 \<and> (\<forall>ref \<in> refs_of_map m'. Q r1 ref)"
  using good_exampleRef [OF assms] unfolding good_def by blast+

end

section \<open>No reference is left dangling\<close>

text \<open>The references of a main document and of every document the fetcher may serve.\<close>

definition input_refs :: "ref_env \<Rightarrow> jmap \<Rightarrow> string set" where
  "input_refs env root = refs_of_map root \<union> (\<Union>{refs_of_map doc | absolute doc. fetch_doc env absolute = Inr doc})"

definition inlined_of :: "refRole \<Rightarrow> refResolver \<Rightarrow> jmap" where
  "inlined_of role r = (case role of schemaRole \<Rightarrow> rs_inlined r | exampleRole \<Rightarrow> rs_inlinedExamples r)"

text \<open>The names given out: of inlined targets and of those under way.\<close>

definition names :: "refResolver \<Rightarrow> refRole \<Rightarrow> string set" where
  "names r role = fst ` set (inlined_of role r) \<union> {name. \<exists>a f. map_of (rs_resolving r) (cache_key role a f) = Some name}"

definition left_ok :: "string set \<Rightarrow> refResolver \<Rightarrow> string \<Rightarrow> bool" where
  "left_ok orig r ref \<longleftrightarrow> ref \<in> orig \<or> (\<exists>role name. name \<in> names r role \<and> ref = componentsPath role @ name)"

definition names_le :: "refResolver \<Rightarrow> refResolver \<Rightarrow> bool" where
  "names_le r r1 \<longleftrightarrow> rs_resolving r1 = rs_resolving r \<and> (\<forall>role. names r role \<subseteq> names r1 role)"

definition names_inv :: "string set \<Rightarrow> refResolver \<Rightarrow> bool" where
  "names_inv orig r \<longleftrightarrow> mwf (rs_docs r) \<and> mwf (rs_inlined r) \<and> mwf (rs_inlinedExamples r) \<and> mwf (rs_resolving r) \<and> mwf (rs_resolved r) \<and>
     (\<forall>a doc. map_of (rs_docs r) a = Some doc \<longrightarrow> refs_of_map doc \<subseteq> orig) \<and>
     (\<forall>role a f name. map_of (rs_resolved r) (cache_key role a f) = Some name \<longrightarrow> name \<in> fst ` set (inlined_of role r)) \<and>
     (\<forall>role. ''$ref'' \<notin> fst ` set (inlined_of role r)) \<and>
     (\<forall>role. \<forall>p \<in> set (inlined_of role r). \<forall>ref \<in> refs_in (snd p). left_ok orig r ref)"

lemma cache_key_role: "cache_key role a f = cache_key role' a' f' \<Longrightarrow> role = role'"
  by (cases role; cases role') (auto simp: cache_key_def role_number_def nat_str.simps digit_char_def)

lemma left_ok_mono: "names_le r r1 \<Longrightarrow> left_ok orig r ref \<Longrightarrow> left_ok orig r1 ref"
  by (auto simp: names_le_def left_ok_def)

lemma names_le_refl: "names_le r r"
  by (simp add: names_le_def)

lemma names_le_trans: "names_le r r1 \<Longrightarrow> names_le r1 r2 \<Longrightarrow> names_le r r2"
  by (auto simp: names_le_def)

lemma names_same:
  assumes "rs_inlined r1 = rs_inlined r" "rs_inlinedExamples r1 = rs_inlinedExamples r" "rs_resolving r1 = rs_resolving r"
  shows "names r1 = names r" "names_le r r1" "left_ok orig r1 = left_ok orig r" "inlined_of role r1 = inlined_of role r"
proof -
  have i: "inlined_of role r1 = inlined_of role r" for role using assms by (cases role) (simp_all add: inlined_of_def)
  then show n: "names r1 = names r" using assms by (simp add: names_def [abs_def])
  show "names_le r r1" "left_ok orig r1 = left_ok orig r" using n assms(3) by (simp_all add: names_le_def left_ok_def [abs_def])
  show "inlined_of role r1 = inlined_of role r" by (rule i)
qed

text \<open>Fields that do not matter here: warnings, errors and taken names.\<close>

lemma names_inv_cong:
  assumes "names_inv orig r" and "rs_docs r1 = rs_docs r" "rs_inlined r1 = rs_inlined r"
    "rs_inlinedExamples r1 = rs_inlinedExamples r" "rs_resolving r1 = rs_resolving r" "rs_resolved r1 = rs_resolved r"
  shows "names_inv orig r1 \<and> names_le r r1"
  using assms names_same [OF assms(3,4,5)] by (simp add: names_inv_def)

lemma pointer_walk_refs: "pointer_walk parts j = Inr target \<Longrightarrow> refs_in target \<subseteq> refs_in j"
proof (induction parts arbitrary: j)
  case (Cons part parts)
  then obtain v where s: "pointer_step (unescape part) j = Inr v" and w: "pointer_walk parts v = Inr target"
    by (auto split: sum.splits)
  have "refs_in v \<subseteq> refs_in j"
    using s by (auto simp: pointer_step_def refs_of_map_def val_refs_alt split: json.splits option.splits if_splits dest!: map_of_SomeD)
      (metis image_iff snd_conv fst_conv UnI1 nth_mem nat_less_iff not_le linorder_not_less)+
  with Cons.IH [OF w] show ?case by blast
qed simp

lemma pointerLookup_refs: "pointerLookup doc fragment = Inr target \<Longrightarrow> refs_in target \<subseteq> refs_of_map doc"
  using pointer_walk_refs [of _ "JObj doc" target] by (auto simp: pointerLookup_def split: if_splits)

lemma store_target_fields [simp]:
  "rs_resolved (store_target role name target r) = rs_resolved r" "rs_resolving (store_target role name target r) = rs_resolving r"
  "rs_docs (store_target role name target r) = rs_docs r"
  by (simp_all add: store_target_def warn_def)

lemma set_mput_sub: "set (mput k v m) \<subseteq> insert (k, v) (set m)"
  by (induction k v m rule: mput.induct) auto

lemma finish_inlined:
  shows "fst ` set (inlined_of role (finish_target role key name target r)) = insert name (fst ` set (inlined_of role r))"
    and "set (inlined_of role' (finish_target role key name target r)) \<subseteq> insert (name, target) (set (inlined_of role' r))"
    and "fst ` set (inlined_of role' r) \<subseteq> fst ` set (inlined_of role' (finish_target role key name target r))"
proof -
  have known: "map_of m name \<noteq> None \<Longrightarrow> insert name (fst ` set m) = fst ` set m" for m :: jmap
    by (auto simp: insert_absorb map_of_eq_None_iff)
  show "fst ` set (inlined_of role (finish_target role key name target r)) = insert name (fst ` set (inlined_of role r))"
    by (cases role) (auto simp: finish_target_def Let_def store_target_def inlined_of_def set_keys_mput warn_def known)
  show "set (inlined_of role' (finish_target role key name target r)) \<subseteq> insert (name, target) (set (inlined_of role' r))"
    using set_mput_sub [of name target "inlined_of role' r"]
    by (cases role; cases role') (auto simp: finish_target_def Let_def store_target_def inlined_of_def warn_def)
  show "fst ` set (inlined_of role' r) \<subseteq> fst ` set (inlined_of role' (finish_target role key name target r))"
    by (cases role; cases role') (auto simp: finish_target_def Let_def store_target_def inlined_of_def warn_def set_keys_mput)
qed

lemma finish_names:
  assumes "mwf (rs_resolving r)" and "key = cache_key role a f" and "map_of (rs_resolving r) key = Some name"
  shows "names r role' \<subseteq> names (finish_target role key name target r) role'"
proof
  fix x assume "x \<in> names r role'"
  then consider "x \<in> fst ` set (inlined_of role' r)" | a' f' where "map_of (rs_resolving r) (cache_key role' a' f') = Some x"
    by (auto simp: names_def)
  then show "x \<in> names (finish_target role key name target r) role'"
  proof cases
    case 1
    then show ?thesis using finish_inlined(3) [of role' r role key name target] by (auto simp: names_def)
  next
    case 2
    show ?thesis
    proof (cases "cache_key role' a' f' = key")
      case True
      with assms 2 have "role' = role" "x = name" using cache_key_role by auto
      then show ?thesis using finish_inlined(1) [of role key name target r] by (simp add: names_def)
    next
      case False
      with 2 have "map_of (rs_resolving (finish_target role key name target r)) (cache_key role' a' f') = Some x"
        by (simp add: finish_target_def Let_def map_of_mdel_raw)
      then show ?thesis by (auto simp: names_def)
    qed
  qed
qed

lemma finish_inv:
  assumes i: "names_inv orig r" and t: "\<And>ref. ref \<in> refs_in target \<Longrightarrow> left_ok orig r ref"
    and k: "key = cache_key role a f" "map_of (rs_resolving r) key = Some name" and n: "name \<noteq> ''$ref''"
  shows "names_inv orig (finish_target role key name target r)"
proof -
  let ?r = "finish_target role key name target r"
  have mono: "left_ok orig ?r ref" if "left_ok orig r ref" for ref
  proof -
    have "mwf (rs_resolving r)" using i by (simp add: names_inv_def)
    from finish_names [OF this k] that show ?thesis unfolding left_ok_def by blast
  qed
  have "mwf (inlined_of role' ?r)" for role'
    using i by (cases role; cases role') (auto simp: names_inv_def finish_target_def Let_def store_target_def inlined_of_def warn_def mwf_mput_raw)
  from this [of schemaRole] this [of exampleRole] have wf: "mwf (rs_inlined ?r)" "mwf (rs_inlinedExamples ?r)"
    by (simp_all add: inlined_of_def)
  have res: "x \<in> fst ` set (inlined_of role' ?r)" if m: "map_of (rs_resolved ?r) (cache_key role' a' f') = Some x" for role' a' f' x
  proof (cases "cache_key role' a' f' = key")
    case True
    then have "role' = role" "x = name" using m i k cache_key_role by (auto simp: finish_target_def Let_def names_inv_def map_of_mput_raw)
    then show ?thesis using finish_inlined(1) by simp
  next
    case False
    with m i have "x \<in> fst ` set (inlined_of role' r)" by (auto simp: finish_target_def Let_def names_inv_def map_of_mput_raw)
    then show ?thesis using finish_inlined(3) by blast
  qed
  have bodies: "left_ok orig ?r ref" if p: "p \<in> set (inlined_of role' ?r)" "ref \<in> refs_in (snd p)" for role' p ref
  proof -
    from p(1) finish_inlined(2) [of role' role key name target r] have "p = (name, target) \<or> p \<in> set (inlined_of role' r)" by blast
    with p(2) t i show ?thesis by (intro mono) (auto simp: names_inv_def)
  qed
  have dollar: "''$ref'' \<notin> fst ` set (inlined_of role' ?r)" for role'
  proof
    assume "''$ref'' \<in> fst ` set (inlined_of role' ?r)"
    then obtain v where "(''$ref'', v) \<in> set (inlined_of role' ?r)" by auto
    with finish_inlined(2) [of role' role key name target r] n have "(''$ref'', v) \<in> set (inlined_of role' r)" by blast
    then have "''$ref'' \<in> fst ` set (inlined_of role' r)" by (rule image_eqI [rotated]) simp
    with i show False by (simp add: names_inv_def)
  qed
  from wf res bodies i dollar show ?thesis
    unfolding names_inv_def by (simp add: mwf_mput_raw mwf_mdel_raw) (simp add: finish_target_def Let_def mwf_mput_raw mwf_mdel_raw)
qed

text \<open>The body of a target, by the contract of the resolver it is walked with.\<close>

lemma target_contract:
  assumes c: "resolver_contract R I le A Q T" and i: "I r" and a: "\<And>ref. ref \<in> refs_in target \<Longrightarrow> A ref absolute"
    and b: "body = (if role = schemaRole then walk env R absolute target r
            else (case target of
                    JObj m \<Rightarrow> (case resolveExampleRef env R absolute m r of None \<Rightarrow> None | Some (m', r2) \<Rightarrow> Some (JObj m', r2))
                  | _ \<Rightarrow> Some (target, r)))"
  shows "T \<Longrightarrow> body \<noteq> None"
    and "body = Some (target', r2) \<Longrightarrow> I r2 \<and> le r r2 \<and> (\<forall>ref \<in> refs_in target'. Q r2 ref)"
proof -
  note w = resolver_contract.walk_contract [OF c i, of target absolute env, OF a]
  have same: "I r \<and> le r r \<and> (\<forall>ref \<in> refs_in target. Q r ref)"
    using i a resolver_contract.le_refl [OF c] resolver_contract.A_Q [OF c] by blast
  have x: "(T \<longrightarrow> resolveExampleRef env R absolute m r \<noteq> None) \<and>
    (\<forall>m' r2. resolveExampleRef env R absolute m r = Some (m', r2) \<longrightarrow> I r2 \<and> le r r2 \<and> (\<forall>ref \<in> refs_of_map m'. Q r2 ref))"
    if "target = JObj m" for m
    using resolver_contract.exampleRef_contract [OF c i, of m absolute env] a that by simp
  show "T \<Longrightarrow> body \<noteq> None"
    using w(1) x unfolding b by (cases "role = schemaRole"; cases target) (auto split: option.splits)
  show "body = Some (target', r2) \<Longrightarrow> I r2 \<and> le r r2 \<and> (\<forall>ref \<in> refs_in target'. Q r2 ref)"
    using w(2) x same unfolding b by (cases "role = schemaRole"; cases target) (auto split: option.splits)
qed

definition serves :: "string set \<Rightarrow> ref_env \<Rightarrow> bool" where
  "serves orig env \<longleftrightarrow> (\<forall>a doc. fetch_doc env a = Inr doc \<longrightarrow> refs_of_map doc \<subseteq> orig)"

lemma load_doc_inv:
  assumes i: "names_inv orig r" and o: "serves orig env"
    and l: "load_doc env a r = (res, r1)"
  shows "names_inv orig r1 \<and> names_le r r1 \<and> rs_resolving r1 = rs_resolving r \<and> (\<forall>doc. res = Inr doc \<longrightarrow> refs_of_map doc \<subseteq> orig)"
proof (cases "r1 = r")
  case True
  have "refs_of_map doc \<subseteq> orig" if "res = Inr doc" for doc
  proof (cases "map_of (rs_docs r) a")
    case None
    with that l o show ?thesis by (auto simp: load_doc_def serves_def split: sum.splits)
  next
    case (Some d)
    with that l have "map_of (rs_docs r) a = Some doc" by (simp add: load_doc_def)
    with i show ?thesis unfolding names_inv_def by blast
  qed
  with True i show ?thesis by (simp add: names_le_refl)
next
  case False
  then obtain doc where d: "fetch_doc env a = Inr doc" "r1 = r\<lparr>rs_docs := mput a doc (rs_docs r)\<rparr>" "res = Inr doc"
    using l by (auto simp: load_doc_def split: option.splits sum.splits)
  have n: "names_le r r1" "left_ok orig r1 = left_ok orig r" "\<And>role. inlined_of role r1 = inlined_of role r"
    using names_same [of r1 r] d(2) by simp_all
  moreover have "refs_of_map doc \<subseteq> orig" using o d(1) by (simp add: serves_def)
  ultimately show ?thesis using i d
    by (auto simp: names_inv_def mwf_mput_raw map_of_mput_raw split: if_splits)
qed

text \<open>The resolver keeps the names contract at every fuel.\<close>

lemma resolve_target_names:
  assumes c: "resolver_contract R (names_inv orig) names_le (\<lambda>ref base. ref \<in> orig) (left_ok orig) False"
    and i: "names_inv orig r" and t: "refs_in target \<subseteq> orig" and k: "key = cache_key role a f" "map_of (rs_resolving r) key = None"
    and n: "name \<noteq> ''$ref''" and res: "resolve_target env R a role key name target r = Some (out, r')"
  shows "out = Inr name \<and> names_inv orig r' \<and> names_le r r' \<and> name \<in> names r' role"
proof -
  let ?r = "r\<lparr>rs_resolving := mput key name (rs_resolving r)\<rparr>"
  have wf: "mwf (rs_resolving r)" using i by (simp add: names_inv_def)
  have inl: "inlined_of role' ?r = inlined_of role' r" for role' by (cases role') (simp_all add: inlined_of_def)
  have sub: "names r role' \<subseteq> names ?r role'" for role'
  proof -
    have "map_of (rs_resolving ?r) x = Some y" if "map_of (rs_resolving r) x = Some y" for x y
      using that k(2) wf by (auto simp: map_of_mput_raw)
    then show ?thesis unfolding names_def inl by blast
  qed
  have "names_inv orig ?r"
  proof -
    have "left_ok orig ?r ref" if "left_ok orig r ref" for ref using that sub unfolding left_ok_def by blast
    with i show ?thesis unfolding names_inv_def inl by (simp add: mwf_mput_raw)
  qed
  obtain target' r2 where b: "(if role = schemaRole then walk env R a target ?r
            else (case target of
                    JObj m \<Rightarrow> (case resolveExampleRef env R a m ?r of None \<Rightarrow> None | Some (m', r2) \<Rightarrow> Some (JObj m', r2))
                  | _ \<Rightarrow> Some (target, ?r))) = Some (target', r2)" and r': "out = Inr name" "r' = finish_target role key name target' r2"
    using res unfolding resolve_target_def Let_def by (auto split: option.splits prod.splits)
  from target_contract(2) [OF c \<open>names_inv orig ?r\<close> _ b [symmetric], of target' r2] t b
  have k2: "names_inv orig r2" "names_le ?r r2" "\<And>ref. ref \<in> refs_in target' \<Longrightarrow> left_ok orig r2 ref" by auto
  then have rs: "rs_resolving r2 = mput key name (rs_resolving r)" and "map_of (rs_resolving r2) key = Some name"
    using wf by (simp_all add: names_le_def map_of_mput_raw)
  note fin = finish_inv [OF k2(1) k2(3) k(1) this(2) n] finish_names [OF _ k(1) this(2), of _ target']
  have restored: "rs_resolving r' = rs_resolving r"
  proof (rule mwf_ext [OF _ wf])
    show "mwf (rs_resolving r')" using fin(1) r' by (simp add: names_inv_def)
    show "map_of (rs_resolving r') = map_of (rs_resolving r)"
      using rs r' k(2) wf by (auto simp: finish_target_def Let_def map_of_mdel_raw map_of_mput_raw fun_eq_iff)
  qed
  have "names r role' \<subseteq> names r' role'" for role'
  proof -
    have "names ?r role' \<subseteq> names r2 role'" using k2(2) by (simp add: names_le_def)
    moreover have "names r2 role' \<subseteq> names r' role'" unfolding r'(2) by (rule fin(2)) (use k2(1) in \<open>simp add: names_inv_def\<close>)
    ultimately show ?thesis using sub [of role'] by blast
  qed
  moreover have "name \<in> names r' role" using finish_inlined(1) [of role key name target' r2] r' by (simp add: names_def)
  ultimately show ?thesis using fin(1) r' restored by (simp add: names_le_def)
qed

lemma sanitize_chars: "c \<in> set (sanitize b s) \<Longrightarrow> name_char c"
  by (induction b s rule: sanitize.induct) (auto simp: name_char_def split: if_splits)

lemma sanitizeRefName_chars: "c \<in> set (sanitizeRefName env a f) \<Longrightarrow> name_char c"
  by (auto simp: sanitizeRefName_def Let_def dest: sanitize_chars)

lemma free_example_shape: "free_example taken name free n = free \<or> (\<exists>k. free_example taken name free n = name @ ''_'' @ nat_str k)"
proof (induction taken name free n rule: free_example.induct)
  case (1 taken name free n)
  show ?case
  proof (cases "free \<in> fst ` set taken")
    case True
    then have "free_example taken name free n = free_example taken name (name @ ''_'' @ nat_str n) (Suc n)"
      by (simp add: free_example.simps [of _ _ free])
    with 1 [OF True] show ?thesis by metis
  next
    case False
    then show ?thesis by (simp add: free_example.simps [of _ _ free])
  qed
qed

lemma name_not_ref:
  assumes "(if role = exampleRole then freeExampleName (sanitizeRefName env a f) r else (sanitizeRefName env a f, r)) = (name, r1)"
  shows "name \<noteq> ''$ref''"
proof -
  have "name = sanitizeRefName env a f \<or> (\<exists>k. name = sanitizeRefName env a f @ ''_'' @ nat_str k)"
    using assms free_example_shape [of "rs_takenExamples r" "sanitizeRefName env a f" "sanitizeRefName env a f" 2]
    by (auto simp: freeExampleName_def Let_def split: if_splits)
  moreover have "\<not> name_char (CHR ''$'')" by code_simp
  moreover have "\<not> is_digit (CHR ''$'')" by code_simp
  ultimately have "CHR ''$'' \<notin> set name"
    using sanitizeRefName_chars [of "CHR ''$''" env a f] nat_str_digits by auto
  then show ?thesis by auto
qed

lemma freeExampleName_inv:
  assumes "names_inv orig r" and "freeExampleName n r = (n', r1)"
  shows "names_inv orig r1 \<and> names_le r r1 \<and> rs_resolving r1 = rs_resolving r"
  using names_inv_cong [OF assms(1), of r1] assms(2) by (auto simp: freeExampleName_def Let_def)

lemma left_ok_orig: "ref \<in> orig \<Longrightarrow> left_ok orig r ref"
  by (simp add: left_ok_def)

lemma left_okI: "name \<in> names r role \<Longrightarrow> left_ok orig r (componentsPath role @ name)"
  by (auto simp: left_ok_def)

lemma names_reports:
  "names_inv orig r \<Longrightarrow> names_inv orig (r\<lparr>rs_warnings := ws, rs_warned := wd, rs_fatalErr := fe\<rparr>)"
  "names_inv orig r \<Longrightarrow> names_le r (r\<lparr>rs_warnings := ws, rs_warned := wd, rs_fatalErr := fe\<rparr>)"
  using names_inv_cong [of orig r "r\<lparr>rs_warnings := ws, rs_warned := wd, rs_fatalErr := fe\<rparr>"] by simp_all

lemma names_contract:
  assumes o: "serves orig env"
  shows "resolver_contract (resolveExternal n env) (names_inv orig) names_le (\<lambda>ref base. ref \<in> orig) (left_ok orig) False"
proof (induction n)
  case 0
  show ?case
    by unfold_locales (simp_all add: names_le_refl left_ok_orig names_reports, (blast intro: names_le_trans left_ok_mono)+)
next
  case (Suc n)
  show ?case
  proof (unfold_locales, goal_cases)
    case (7 r ref base role res r')
    obtain docURL fragment where sr: "splitRef ref = (docURL, fragment)" by force
    show ?case
    proof (cases "absolutize env docURL base")
      case (Inl e)
      with 7 sr show ?thesis by (auto simp: names_le_refl)
    next
      case (Inr a)
      let ?key = "cache_key role a fragment"
      show ?thesis
      proof (cases "map_of (rs_resolved r) ?key")
        case (Some name)
        with 7 sr Inr have "res = Inr name" "r' = r" by (simp_all add: Let_def)
        moreover have "name \<in> names r role" using 7(1) Some unfolding names_inv_def names_def by blast
        ultimately show ?thesis using 7(1) by (simp add: names_le_refl left_okI)
      next
        case None
        obtain d r1 where ld: "load_doc env a r = (d, r1)" by force
        note l = load_doc_inv [OF 7(1) o ld]
        show ?thesis
        proof (cases "\<exists>doc target. d = Inr doc \<and> pointerLookup doc fragment = Inr target")
          case False
          with 7 sr Inr None ld l show ?thesis by (auto simp: Let_def split: sum.splits)
        next
          case True
          then obtain doc target where dt: "d = Inr doc" "pointerLookup doc fragment = Inr target" by blast
          with l pointerLookup_refs [OF dt(2)] have t: "refs_in target \<subseteq> orig" by auto
          show ?thesis
          proof (cases "map_of (rs_resolving r1) ?key")
            case (Some name)
            then have "res = Inr name" and w: "rs_docs r' = rs_docs r1 \<and> rs_inlined r' = rs_inlined r1 \<and>
                rs_inlinedExamples r' = rs_inlinedExamples r1 \<and> rs_resolving r' = rs_resolving r1 \<and> rs_resolved r' = rs_resolved r1"
              using 7 sr Inr None ld dt by (auto simp: Let_def warn_def)
            with names_inv_cong [of orig r1 r'] l have "names_inv orig r'" "names_le r r'" by (auto intro: names_le_trans)
            moreover have "name \<in> names r' role" using Some w by (auto simp: names_def)
            ultimately show ?thesis using \<open>res = Inr name\<close> by (simp add: left_okI)
          next
            case fresh: None
            obtain name r2 where n: "(if role = exampleRole then freeExampleName (sanitizeRefName env a fragment) r1
                else (sanitizeRefName env a fragment, r1)) = (name, r2)" by force
            then have k2: "names_inv orig r2" "names_le r1 r2" "rs_resolving r2 = rs_resolving r1"
              using freeExampleName_inv l by (auto simp: names_le_refl split: if_splits)
            have "resolve_target env (resolveExternal n env) a role ?key name target r2 = Some (res, r')"
              using 7 sr Inr None ld dt fresh n by (simp add: Let_def)
            from resolve_target_names [OF Suc.IH k2(1) t refl _ name_not_ref [OF n] this] fresh k2(3)
            have "res = Inr name" "names_inv orig r'" "names_le r2 r'" "name \<in> names r' role" by auto
            then show ?thesis using l k2(2) by (auto intro: names_le_trans left_okI)
          qed
        qed
      qed
    qed
  qed (simp_all add: names_le_refl left_ok_orig names_reports, (blast intro: names_le_trans left_ok_mono)+)
qed

interpretation nm: resolver_contract env "resolveExternal n env" "names_inv (input_refs env root)" names_le
  "\<lambda>ref base. ref \<in> input_refs env root" "left_ok (input_refs env root)" False for n env root
  by (rule names_contract) (auto simp: input_refs_def serves_def)

end
