(* ===== verification/RefSound.thy ===== *)
theory RefSound
  imports RefContract
begin

text \<open>
  The resolution of a whole document: no reference it writes is left dangling, and it ends when
  the documents reach finitely many places.
\<close>

section \<open>No reference is left dangling\<close>

lemma map_of_mput_any: "map_of (mput k v m) x = (if x = k then Some v else map_of m x)"
  by (induction k v m rule: mput.induct) auto

lemma refs_mput: "refs_of_map (mput k v m) \<subseteq> val_refs k v \<union> refs_of_map m"
  using set_mput_sub [of k v m] unfolding refs_of_map_def by fastforce

lemma get_obj_refs: "get_obj m k = Some c \<Longrightarrow> refs_of_map c \<subseteq> refs_of_map m"
  by (auto simp: get_obj_def refs_of_map_def [of m] split: option.splits json.splits dest!: map_of_SomeD)

definition component :: "jmap \<Rightarrow> string \<Rightarrow> jmap" where
  "component root kind =
     (case get_obj root ''components'' of
        None \<Rightarrow> []
      | Some c \<Rightarrow> (case get_obj c kind of None \<Rightarrow> [] | Some m \<Rightarrow> m))"

definition kind_of :: "refRole \<Rightarrow> string" where
  "kind_of role = (case role of schemaRole \<Rightarrow> ''schemas'' | exampleRole \<Rightarrow> ''examples'')"

definition has_component :: "jmap \<Rightarrow> refRole \<Rightarrow> string \<Rightarrow> bool" where
  "has_component root role name \<longleftrightarrow> map_of (component root (kind_of role)) name \<noteq> None"

lemma component_refs: "refs_of_map (component root kind) \<subseteq> refs_of_map root"
  by (auto simp: component_def split: option.splits dest!: get_obj_refs)

lemma component_on_component:
  "component (on_component kind f root) kind' = (if kind' = kind then f (component root kind) else component root kind')"
  by (auto simp: component_def on_component_def Let_def get_obj_def map_of_mput_any split: option.splits json.splits)

lemma refs_on_component: "refs_of_map (on_component kind f root) \<subseteq> refs_of_map root \<union> refs_of_map (f (component root kind))"
proof -
  let ?c = "case get_obj root ''components'' of None \<Rightarrow> [] | Some c \<Rightarrow> c"
  have c: "refs_of_map ?c \<subseteq> refs_of_map root" using get_obj_refs [of root "''components''"] by (auto split: option.splits)
  have eq: "on_component kind f root = mput ''components'' (JObj (mput kind (JObj (f (component root kind))) ?c)) root"
    by (simp add: on_component_def Let_def component_def get_obj_def split: option.splits)
  show ?thesis
    unfolding eq using refs_mput [of "''components''" _ root] refs_mput [of kind "JObj (f (component root kind))" ?c] c
    by (fastforce simp: val_refs_simps)
qed

lemma fold_set_sub: "(\<And>p m. set (g p m) \<subseteq> insert p (set m)) \<Longrightarrow> set (fold g xs m) \<subseteq> set xs \<union> set m"
  by (induction xs arbitrary: m) (auto, blast)

lemma set_inline_schemas: "set (inline_schemas inlined schemas) \<subseteq> set inlined \<union> set schemas"
  unfolding inline_schemas_def
proof (rule fold_set_sub)
  show "set (if map_of schemas (fst p) \<noteq> None then m else mput (fst p) (snd p) m) \<subseteq> insert p (set m)" for p m
    using set_mput_sub [of "fst p" "snd p" m] by auto
qed

lemma mmerge_fold: "mmerge m src = fold (\<lambda>p. mput (fst p) (snd p)) src m"
  unfolding mmerge_def case_prod_unfold ..

lemma set_mmerge_sub: "set (mmerge m src) \<subseteq> set src \<union> set m"
  unfolding mmerge_fold
proof (rule fold_set_sub)
  show "set (mput (fst p) (snd p) m) \<subseteq> insert p (set m)" for p and m :: "('a, 'b) gomap"
    using set_mput_sub [of "fst p" "snd p" m] by simp
qed

lemma fold_keeps_key:
  "(\<And>p m. map_of m x \<noteq> None \<Longrightarrow> map_of (g p m) x \<noteq> None) \<Longrightarrow> map_of m x \<noteq> None \<Longrightarrow> map_of (fold g xs m) x \<noteq> None"
  by (induction xs arbitrary: m) auto

lemma inline_schemas_has:
  assumes "map_of schemas x \<noteq> None \<or> x \<in> fst ` set inlined"
  shows "map_of (inline_schemas inlined schemas) x \<noteq> None"
proof -
  let ?g = "\<lambda>p m. if map_of schemas (fst p) \<noteq> None then m else mput (fst p) (snd p) m"
  have keep: "map_of (fold ?g xs m) x \<noteq> None" if "map_of m x \<noteq> None" for xs m
    by (rule fold_keeps_key [OF _ that]) (auto simp: map_of_mput_any)
  show ?thesis
  proof (cases "map_of schemas x \<noteq> None")
    case True
    then show ?thesis unfolding inline_schemas_def by (rule keep)
  next
    case False
    with assms obtain v where "(x, v) \<in> set inlined" by auto
    then obtain ys zs where i: "inlined = ys @ (x, v) # zs" by (auto dest: split_list)
    have "map_of (fold ?g zs (mput x v (fold ?g ys schemas))) x \<noteq> None" by (rule keep) (simp add: map_of_mput_any)
    then show ?thesis using False by (simp add: inline_schemas_def i)
  qed
qed

lemma mmerge_has:
  assumes "map_of m x \<noteq> None \<or> x \<in> fst ` set src"
  shows "map_of (mmerge m src) x \<noteq> None"
proof -
  let ?g = "\<lambda>p m. mput (fst p) (snd p) m"
  have keep: "map_of (fold ?g xs m) x \<noteq> None" if "map_of m x \<noteq> None" for xs m
    by (rule fold_keeps_key [OF _ that]) (auto simp: map_of_mput_any)
  show ?thesis
  proof (cases "map_of m x \<noteq> None")
    case True
    then show ?thesis unfolding mmerge_fold by (rule keep)
  next
    case False
    with assms obtain v where "(x, v) \<in> set src" by auto
    then obtain ys zs where i: "src = ys @ (x, v) # zs" by (auto dest: split_list)
    have "map_of (fold ?g zs (mput x v (fold ?g ys m))) x \<noteq> None" by (rule keep) (simp add: map_of_mput_any)
    then show ?thesis by (simp add: mmerge_fold i)
  qed
qed

lemma inline_all_has:
  assumes "name \<in> fst ` set (inlined_of role r)"
  shows "has_component (inline_all r root) role name"
proof (cases role)
  case schemaRole
  with assms have n: "rs_inlined r \<noteq> []" "name \<in> fst ` set (rs_inlined r)" by (auto simp: inlined_of_def)
  have "component (inline_all r root) ''schemas'' = inline_schemas (rs_inlined r) (component root ''schemas'')"
    using n(1) by (simp add: inline_all_def Let_def component_on_component)
  with inline_schemas_has n(2) schemaRole show ?thesis by (simp add: has_component_def kind_of_def)
next
  case exampleRole
  with assms have n: "rs_inlinedExamples r \<noteq> []" "name \<in> fst ` set (rs_inlinedExamples r)" by (auto simp: inlined_of_def)
  have "component (inline_all r root) ''examples'' = mmerge (component root ''examples'') (rs_inlinedExamples r)"
    using n(1) by (simp add: inline_all_def Let_def component_on_component)
  with mmerge_has [of "component root ''examples''" name "rs_inlinedExamples r"] n(2) exampleRole show ?thesis by (simp add: has_component_def kind_of_def)
qed

lemma inline_all_refs:
  "refs_of_map (inline_all r root) \<subseteq> refs_of_map root \<union> refs_of_map (rs_inlined r) \<union> refs_of_map (rs_inlinedExamples r)"
proof -
  have union: "refs_of_map m \<subseteq> refs_of_map a \<union> refs_of_map b" if "set m \<subseteq> set a \<union> set b" for m a b
    using that unfolding refs_of_map_def by blast
  have on: "refs_of_map (on_component kind f root) \<subseteq> refs_of_map root \<union> refs_of_map src"
    if "\<And>m. set (f m) \<subseteq> set src \<union> set m" for kind f root src
    using refs_on_component [of kind f root] union [OF that [of "component root kind"]] component_refs [of root kind] by blast
  have s: "refs_of_map (on_component ''schemas'' (inline_schemas (rs_inlined r)) root) \<subseteq> refs_of_map root \<union> refs_of_map (rs_inlined r)"
    by (rule on) (rule set_inline_schemas)
  have e: "refs_of_map (on_component ''examples'' (\<lambda>m. mmerge m (rs_inlinedExamples r)) root1) \<subseteq>
      refs_of_map root1 \<union> refs_of_map (rs_inlinedExamples r)" for root1
    by (rule on) (rule set_mmerge_sub)
  show ?thesis unfolding inline_all_def Let_def using s e by auto
qed

lemma new_resolver_inv: "names_inv orig (new_resolver root)"
  by (simp add: names_inv_def new_resolver_def inlined_of_def split: refRole.splits)

lemma inlined_left_ok:
  assumes "names_inv orig r" and "ref \<in> refs_of_map (inlined_of role r)"
  shows "left_ok orig r ref"
proof -
  from assms(2) obtain p where p: "p \<in> set (inlined_of role r)" "ref \<in> val_refs (fst p) (snd p)" by (auto simp: refs_of_map_def)
  moreover have "fst p \<noteq> ''$ref''" using imageI [OF p(1), of fst] assms(1) by (metis names_inv_def)
  ultimately have "ref \<in> refs_in (snd p)" by (simp add: val_refs_alt)
  with p(1) assms(1) show ?thesis unfolding names_inv_def by blast
qed

text \<open>
  C16: resolving references leaves none dangling. Every reference in a resolved document, its
  inlined schemas and examples included, was written in the document or in one the fetcher
  served, or points to a component that the resolved document has, also through cycles between
  documents and when names collide.
\<close>

theorem resolve_root_no_dangling:
  assumes "resolve_root n env root = Some (warnings, Inr out)" and "ref \<in> refs_in (JObj out)"
  shows "ref \<in> input_refs env root \<or> (\<exists>role name. ref = componentsPath role @ name \<and> has_component out role name)"
proof -
  let ?o = "input_refs env root"
  obtain root' r where w: "walk env (resolveExternal n env) (rv_baseURL env) (JObj root) (new_resolver root) = Some (root', r)"
    and out: "out = inline_all r (case root' of JObj m \<Rightarrow> m | _ \<Rightarrow> [])"
    using assms(1) by (auto simp: resolve_root_def Let_def split: option.splits prod.splits)
  have orig: "ref \<in> ?o" if "ref \<in> refs_in (JObj root)" for ref using that by (simp add: input_refs_def)
  from nm.walk_contract(2) [OF new_resolver_inv orig w]
  have k: "names_inv ?o r" "names_le (new_resolver root) r" "\<And>ref. ref \<in> refs_in root' \<Longrightarrow> left_ok ?o r ref" by auto
  have named: "name \<in> fst ` set (inlined_of role r)" if "name \<in> names r role" for name role
    using that k(2) by (simp add: names_def names_le_def new_resolver_def)
  have "refs_of_map (case root' of JObj m \<Rightarrow> m | _ \<Rightarrow> []) \<subseteq> refs_in root'" by (simp split: json.splits)
  moreover have "ref \<in> refs_of_map out" using assms(2) by simp
  ultimately have "ref \<in> refs_in root' \<or> ref \<in> refs_of_map (inlined_of schemaRole r) \<or> ref \<in> refs_of_map (inlined_of exampleRole r)"
    using inline_all_refs [of r "case root' of JObj m \<Rightarrow> m | _ \<Rightarrow> []"] unfolding out by (auto simp: inlined_of_def)
  then have "left_ok ?o r ref" using k(3) inlined_left_ok [OF k(1)] by blast
  then show ?thesis unfolding left_ok_def out using named inline_all_has by blast
qed

section \<open>Resolution ends\<close>

text \<open>
  The place a reference found in a document names, and a set of places that holds those of a
  main document and is closed under the references of the documents served.
\<close>

definition place :: "ref_env \<Rightarrow> string \<Rightarrow> string \<Rightarrow> (string \<times> string) option" where
  "place env ref base =
     (case absolutize env (fst (splitRef ref)) base of Inl e \<Rightarrow> None | Inr absolute \<Rightarrow> Some (absolute, snd (splitRef ref)))"

definition within :: "ref_env \<Rightarrow> (string \<times> string) set \<Rightarrow> string \<Rightarrow> string \<Rightarrow> bool" where
  "within env K ref base \<longleftrightarrow> (case place env ref base of None \<Rightarrow> True | Some p \<Rightarrow> p \<in> K)"

definition places_of :: "ref_env \<Rightarrow> jmap \<Rightarrow> (string \<times> string) set \<Rightarrow> bool" where
  "places_of env root K \<longleftrightarrow> (\<forall>ref \<in> refs_of_map root. within env K ref (rv_baseURL env)) \<and>
     (\<forall>(a, f) \<in> K. case fetch_doc env a of Inl e \<Rightarrow> True | Inr doc \<Rightarrow> \<forall>ref \<in> refs_of_map doc. within env K ref a)"

definition keys_of :: "(string \<times> string) set \<Rightarrow> string set" where
  "keys_of K = (\<lambda>(role, a, f). cache_key role a f) ` ({schemaRole, exampleRole} \<times> K)"

lemma keys_of_card: "finite K \<Longrightarrow> card (keys_of K) \<le> 2 * card K" and keys_of_finite: "finite K \<Longrightarrow> finite (keys_of K)"
proof -
  show "finite K \<Longrightarrow> finite (keys_of K)" by (simp add: keys_of_def)
  assume "finite K"
  then have "card (keys_of K) \<le> card ({schemaRole, exampleRole} \<times> K)" unfolding keys_of_def by (intro card_image_le) simp
  then show "card (keys_of K) \<le> 2 * card K" by (simp add: card_cartesian_product)
qed

lemma cache_key_in: "(a, f) \<in> K \<Longrightarrow> cache_key role a f \<in> keys_of K"
  by (cases role) (force simp: keys_of_def)+

definition ends_inv :: "ref_env \<Rightarrow> string set \<Rightarrow> refResolver \<Rightarrow> bool" where
  "ends_inv env D r \<longleftrightarrow> mwf (rs_resolving r) \<and> fst ` set (rs_resolving r) = D \<and>
     (\<forall>a doc. map_of (rs_docs r) a = Some doc \<longrightarrow> fetch_doc env a = Inr doc)"

lemma ends_inv_cong:
  "ends_inv env D r \<Longrightarrow> rs_resolving r1 = rs_resolving r \<Longrightarrow> rs_docs r1 = rs_docs r \<Longrightarrow> ends_inv env D r1"
  by (simp add: ends_inv_def)

lemma load_doc_ends:
  assumes "ends_inv env D r" and "load_doc env a r = (res, r1)"
  shows "ends_inv env D r1" and "res = Inr doc \<Longrightarrow> fetch_doc env a = Inr doc"
proof -
  show "ends_inv env D r1"
    using assms by (auto simp: load_doc_def ends_inv_def map_of_mput_any split: option.splits sum.splits if_splits)
  show "res = Inr doc \<Longrightarrow> fetch_doc env a = Inr doc"
    using assms by (auto simp: load_doc_def ends_inv_def split: option.splits sum.splits)
qed

lemma mdel_keys: "fst ` set (mdel k m) = fst ` set m - {k}"
  by (auto simp: mdel_def)

lemma resolve_target_ends:
  assumes c: "resolver_contract R (ends_inv env (insert key D)) (\<lambda>_ _. True) (within env K) (\<lambda>_ _. True) True"
    and i: "ends_inv env D r" and a: "\<And>ref. ref \<in> refs_in target \<Longrightarrow> within env K ref a" and k: "key \<notin> D"
  shows "\<exists>out r'. resolve_target env R a role key name target r = Some (out, r') \<and> ends_inv env D r'"
proof -
  let ?r = "r\<lparr>rs_resolving := mput key name (rs_resolving r)\<rparr>"
  define body where "body = (if role = schemaRole then walk env R a target ?r
            else (case target of
                    JObj m \<Rightarrow> (case resolveExampleRef env R a m ?r of None \<Rightarrow> None | Some (m', r2) \<Rightarrow> Some (JObj m', r2))
                  | _ \<Rightarrow> Some (target, ?r)))"
  have i': "ends_inv env (insert key D) ?r" using i by (auto simp: ends_inv_def set_keys_mput mwf_mput_raw)
  have "body \<noteq> None" using target_contract(1) [OF c i' a body_def] by simp
  then obtain target' r2 where b: "body = Some (target', r2)" by (cases body) auto
  from target_contract(2) [OF c i' a body_def b] have i2: "ends_inv env (insert key D) r2" by simp
  have "ends_inv env D (finish_target role key name target' r2)"
    using i2 k by (auto simp: ends_inv_def finish_target_def Let_def mdel_keys mwf_mdel_raw)
  moreover have "resolve_target env R a role key name target r = Some (Inr name, finish_target role key name target' r2)"
    unfolding resolve_target_def Let_def body_def [symmetric] b by simp
  ultimately show ?thesis by blast
qed

lemma ends_contract:
  assumes K: "finite K" "\<And>a f doc. (a, f) \<in> K \<Longrightarrow> fetch_doc env a = Inr doc \<Longrightarrow> (\<forall>ref \<in> refs_of_map doc. within env K ref a)"
  shows "D \<subseteq> keys_of K \<Longrightarrow> card (keys_of K - D) < n \<Longrightarrow>
    resolver_contract (resolveExternal n env) (ends_inv env D) (\<lambda>_ _. True) (within env K) (\<lambda>_ _. True) True"
proof (induction n arbitrary: D)
  case (Suc n)
  have step: "\<exists>out r'. resolveExternal (Suc n) env ref base role r = Some (out, r') \<and> ends_inv env D r'"
    if i: "ends_inv env D r" and w: "within env K ref base" for r ref base role
  proof -
    obtain docURL fragment where sr: "splitRef ref = (docURL, fragment)" by force
    show ?thesis
    proof (cases "absolutize env docURL base")
      case (Inl e)
      with i sr show ?thesis by simp
    next
      case (Inr a)
      let ?key = "cache_key role a fragment"
      have p: "(a, fragment) \<in> K" using w sr Inr by (simp add: within_def place_def)
      show ?thesis
      proof (cases "map_of (rs_resolved r) ?key")
        case (Some name)
        with i sr Inr show ?thesis by (simp add: Let_def)
      next
        case None
        obtain d r1 where ld: "load_doc env a r = (d, r1)" by force
        note l = load_doc_ends [OF i ld]
        show ?thesis
        proof (cases "\<exists>doc target. d = Inr doc \<and> pointerLookup doc fragment = Inr target")
          case False
          with sr Inr None ld l(1) show ?thesis by (auto simp: Let_def split: sum.splits)
        next
          case True
          then obtain doc target where dt: "d = Inr doc" "pointerLookup doc fragment = Inr target" by blast
          have t: "within env K ref a" if "ref \<in> refs_in target" for ref
            using that pointerLookup_refs [OF dt(2)] K(2) [OF p l(2) [OF dt(1)]] by blast
          show ?thesis
          proof (cases "map_of (rs_resolving r1) ?key")
            case (Some name)
            have "ends_inv env D (warn m r1)" for m using ends_inv_cong [OF l(1)] by (simp add: warn_def)
            with sr Inr None ld dt Some show ?thesis by (simp add: Let_def)
          next
            case fresh: None
            then have new: "?key \<notin> D" using l(1) by (auto simp: ends_inv_def map_of_eq_None_iff)
            have "card (keys_of K - insert ?key D) < card (keys_of K - D)"
              using new cache_key_in [OF p, of role] keys_of_finite [OF K(1)] by (intro psubset_card_mono) auto
            then have c: "resolver_contract (resolveExternal n env) (ends_inv env (insert ?key D)) (\<lambda>_ _. True) (within env K)
                (\<lambda>_ _. True) True"
              using Suc.prems cache_key_in [OF p, of role] by (intro Suc.IH) auto
            obtain name r2 where n: "(if role = exampleRole then freeExampleName (sanitizeRefName env a fragment) r1
                else (sanitizeRefName env a fragment, r1)) = (name, r2)" by force
            then have "ends_inv env D r2" using ends_inv_cong [OF l(1), of r2] by (auto simp: freeExampleName_def Let_def split: if_splits)
            from resolve_target_ends [OF c this t new, where role = role and name = name]
            obtain out r' where "resolve_target env (resolveExternal n env) a role ?key name target r2 = Some (out, r')" "ends_inv env D r'"
              by blast
            with sr Inr None ld dt fresh n show ?thesis by (simp add: Let_def)
          qed
        qed
      qed
    qed
  qed
  show ?case
  proof (unfold_locales, goal_cases)
    case (5 r fe wd ws)
    then show ?case using ends_inv_cong by simp
  next
    case (6 r ref base role)
    with step show ?case by fastforce
  next
    case (7 r ref base role res r1)
    with step [OF 7(1,2), of role] show ?case by auto
  qed simp_all
qed simp

text \<open>
  C35: resolving references ends. When the references of the document and of the documents that the
  fetcher serves for them reach finitely many places, however these refer to each other, nesting
  of twice the number of places suffices (each place once as a schema and once as an example):
  the resolution returns a document or an error.
\<close>

theorem ResolveExternalRefs_ends:
  assumes "rv_decode env specData = Inr (Some root)" and "finite K" and "places_of env root K" and "2 * card K < n"
  shows "\<exists>result. ResolveExternalRefs n env specData = Some result"
proof -
  have K: "\<forall>ref \<in> refs_of_map doc. within env K ref a" if "(a, f) \<in> K" "fetch_doc env a = Inr doc" for a f doc
    using assms(3) that by (force simp: places_of_def)
  have "card (keys_of K - {}) < n" using keys_of_card [OF assms(2)] assms(4) by simp
  from ends_contract [OF assms(2) K _ this]
  have c: "resolver_contract (resolveExternal n env) (ends_inv env {}) (\<lambda>_ _. True) (within env K) (\<lambda>_ _. True) True" by simp
  have "ends_inv env {} (new_resolver root)" by (simp add: ends_inv_def new_resolver_def)
  from resolver_contract.walk_contract(1) [OF c this, of "JObj root" "rv_baseURL env" env] assms(3)
  have "walk env (resolveExternal n env) (rv_baseURL env) (JObj root) (new_resolver root) \<noteq> None" by (simp add: places_of_def)
  then obtain root' r where "walk env (resolveExternal n env) (rv_baseURL env) (JObj root) (new_resolver root) = Some (root', r)"
    by auto
  then have "\<exists>x. resolve_root n env root = Some x" by (simp add: resolve_root_def del: walk.simps)
  with assms(1) show ?thesis by (auto simp: ResolveExternalRefs_def split: option.splits sum.splits)
qed

text \<open>A document that refers to a schema of another document, which refers to itself.\<close>

definition ex_main :: jmap where
  "ex_main = [(''paths'', JObj [(''/a'', JObj [(''$ref'', JStr ''b.json#/S'')])])]"

definition ex_other :: jmap where
  "ex_other = [(''S'', JObj [(''items'', JObj [(''$ref'', JStr ''#/S'')])])]"

definition ex_ref_env :: ref_env where
  "ex_ref_env = \<lparr>rv_baseURL = ''a.json'', rv_hasFetcher = True,
     rv_fetch = (\<lambda>url. if url = ''b.json'' then Inr ''other'' else Inl ''not found''),
     rv_decode = (\<lambda>text. if text = ''other'' then Inr (Some ex_other) else Inr (Some ex_main)),
     rv_resolve = (\<lambda>docURL base. Inr docURL), rv_urlPath = Some, rv_redact = (\<lambda>url. url), rv_redactRef = (\<lambda>ref. ref)\<rparr>"

definition ex_resolved :: jmap where
  "ex_resolved =
     [(''components'', JObj [(''schemas'', JObj [(''b_S'', JObj [(''items'', JObj [(''$ref'', JStr ''#/components/schemas/b_S'')])])])]),
      (''paths'', JObj [(''/a'', JObj [(''$ref'', JStr ''#/components/schemas/b_S'')])])]"

lemma ex_resolve:
  "resolve_root 3 ex_ref_env ex_main =
     Some ([''cycle detected for b.json#/S: a recursive $ref, rewritten to the name being inlined''], Inr ex_resolved)"
  by code_simp

theorem resolve_root_no_dangling_witness:
  "''#/components/schemas/b_S'' \<in> input_refs ex_ref_env ex_main \<or>
   (\<exists>role name. ''#/components/schemas/b_S'' = componentsPath role @ name \<and> has_component ex_resolved role name)"
proof (rule resolve_root_no_dangling [OF ex_resolve])
  show "''#/components/schemas/b_S'' \<in> refs_in (JObj ex_resolved)" by (simp add: ex_resolved_def)
qed

lemma ex_places: "places_of ex_ref_env ex_main {(''b.json'', ''/S'')}"
proof -
  have "place ex_ref_env ''b.json#/S'' ''a.json'' = Some (''b.json'', ''/S'')" by code_simp
  moreover have "place ex_ref_env ''#/S'' ''b.json'' = Some (''b.json'', ''/S'')" by code_simp
  moreover have "fetch_doc ex_ref_env ''b.json'' = Inr ex_other" by code_simp
  moreover have "rv_baseURL ex_ref_env = ''a.json''" by (simp add: ex_ref_env_def)
  moreover have "refs_of_map ex_main = {''b.json#/S''}" "refs_of_map ex_other = {''#/S''}"
    by (simp_all add: ex_main_def ex_other_def)
  ultimately show ?thesis by (simp add: places_of_def within_def)
qed

theorem ResolveExternalRefs_ends_witness: "\<exists>result. ResolveExternalRefs 3 ex_ref_env ''main'' = Some result"
proof (rule ResolveExternalRefs_ends [OF _ _ ex_places])
  show "rv_decode ex_ref_env ''main'' = Inr (Some ex_main)" by (simp add: ex_ref_env_def)
qed simp_all

end
