(* ===== verification/AutoApi.thy ===== *)
theory AutoApi
  imports SpecWalk
begin

text \<open>
  The KrakenDAutoConfig resource (\<^verbatim>\<open>api/v1alpha1/krakendautoconfig_types.go\<close>), the operations and
  issues of its pipeline (\<^verbatim>\<open>internal/autoconfig/operations.go\<close>), and the merge of extra configuration
  (\<^verbatim>\<open>mergeExtraConfig\<close> and \<^verbatim>\<open>deepMergeJSON\<close> of \<^verbatim>\<open>cue_evaluator.go\<close>), whose result is characterised
  member by member.
\<close>

section \<open>The resource\<close>

record HostMappingEntry =
  hm_From :: string
  hm_To :: string

record URLTransformSpec =
  ut_HostMapping :: "HostMappingEntry list"
  ut_StripPathPrefix :: string
  ut_AddPathPrefix :: string

record EndpointDefaults =
  ed_Timeout :: "int option"
  ed_CacheTTL :: "int option"
  ed_OutputEncoding :: string
  ed_ConcurrentCalls :: "int option"
  ed_InputHeaders :: "string list option"
  ed_InputQueryStrings :: "string list option"
  ed_ExtraConfig :: "RawExtension option"

record BackendDefaults =
  bd_Encoding :: string
  bd_SD :: string
  bd_SDScheme :: string
  bd_DisableHostSanitize :: "bool option"
  bd_InputHeaders :: "string list option"
  bd_InputQueryStrings :: "string list option"
  bd_ExtraConfig :: "RawExtension option"

record Defaults =
  df_Endpoint :: "EndpointDefaults option"
  df_Backend :: "BackendDefaults option"
  df_PolicyRef :: "PolicyRef option"

record BackendOverride =
  bo_Index :: int
  bo_ExtraConfig :: "RawExtension option"

record OperationOverride =
  ov_OperationID :: string
  ov_Endpoint :: string
  ov_Method :: string
  ov_Timeout :: "int option"
  ov_CacheTTL :: "int option"
  ov_OutputEncoding :: string
  ov_ConcurrentCalls :: "int option"
  ov_InputHeaders :: "string list option"
  ov_InputQueryStrings :: "string list option"
  ov_PolicyRef :: "PolicyRef option"
  ov_ExtraConfig :: "RawExtension option"
  ov_Backends :: "BackendOverride list"

record FilterSpec =
  fs_IncludePaths :: "string list"
  fs_ExcludePaths :: "string list"
  fs_IncludeMethods :: "string list"
  fs_ExcludeOperationIds :: "string list"
  fs_IncludeTags :: "string list"
  fs_ExcludeTags :: "string list"

record AdditionalEndpoint =
  ae_Endpoint :: string
  ae_Method :: string
  ae_Host :: string
  ae_BackendURLPattern :: string
  ae_Encoding :: string
  ae_Backends :: "BackendSpec list"
  ae_Timeout :: "int option"
  ae_CacheTTL :: "int option"
  ae_InputHeaders :: "string list option"
  ae_InputQueryStrings :: "string list option"
  ae_OutputEncoding :: string
  ae_ConcurrentCalls :: "int option"
  ae_ExtraConfig :: "RawExtension option"
  ae_InheritDefaults :: "bool option"

datatype SpecFormat = SpecFormatUnset | SpecFormatJSON | SpecFormatYAML

datatype TriggerType = TriggerOnChange | TriggerPeriodic

text \<open>Of the source of the document, the fields the controller reads; its credentials go to the fetcher.\<close>

record OpenAPISource =
  oas_URL :: string
  oas_ConfigMapRef :: "string option"
  oas_Format :: SpecFormat

record CUESpec =
  cs_DefinitionsConfigMapRef :: "string option"
  cs_Environment :: string

record KrakenDAutoConfigSpec =
  as_GatewayRef :: GatewayRef
  as_OpenAPI :: OpenAPISource
  as_CUE :: "CUESpec option"
  as_URLTransform :: "URLTransformSpec option"
  as_Defaults :: "Defaults option"
  as_Overrides :: "OperationOverride list"
  as_Filter :: "FilterSpec option"
  as_Trigger :: TriggerType
  as_Periodic :: "int option"
  as_AdditionalEndpoints :: "AdditionalEndpoint list"
  as_AdditionalEndpointsBasePath :: string

record OperationStatus =
  ops_Method :: string
  ops_Path :: string
  ops_OperationID :: string
  ops_Endpoint :: string
  ops_Reason :: string
  ops_Message :: string

datatype AutoConfigPhase =
    AutoConfigPhasePending | AutoConfigPhaseFetching | AutoConfigPhaseRendering | AutoConfigPhaseSynced | AutoConfigPhaseError

record KrakenDAutoConfigStatus =
  ast_Phase :: "AutoConfigPhase option"
  ast_ObservedGeneration :: int
  ast_LastSyncTime :: "int option"
  ast_SpecChecksum :: string
  ast_GeneratedEndpoints :: int
  ast_ReadyEndpoints :: int
  ast_SkippedOperations :: int
  ast_Skipped :: "OperationStatus list"
  ast_FailedOperations :: "OperationStatus list"
  ast_Warnings :: "string list"
  ast_Conditions :: "Condition list"

record KrakenDAutoConfig =
  au_Name :: string
  au_Namespace :: string
  au_UID :: string
  au_Generation :: int
  au_Deleting :: bool
  au_Spec :: KrakenDAutoConfigSpec
  au_Status :: KrakenDAutoConfigStatus

section \<open>Operations\<close>

record Operation =
  opn_Method :: string
  opn_Path :: string
  opn_OperationID :: string
  opn_Tags :: "string list"

record OperationIssue =
  oi_Operation :: Operation
  oi_Reason :: string
  oi_Message :: string
  oi_methodKnown :: bool

text \<open>The key \<^verbatim>\<open>entry.Endpoint + ":" + entry.Method\<close> of the maps of the pipeline.\<close>

definition entryKey :: "EndpointEntry \<Rightarrow> string" where
  "entryKey entry = en_Endpoint entry @ '':'' @ en_Method entry"

section \<open>Merging extra configuration\<close>

text \<open>
  The keys of a patch are distinct, so the unordered loop over them is the loop in key order. A
  value that is no object decodes to no map (or to a nil one, for \<^verbatim>\<open>null\<close>): the patch wins.
\<close>

function (sequential) deepMergeJSON :: "json \<Rightarrow> json \<Rightarrow> json" where
  "deepMergeJSON (JObj base) (JObj patch) =
     JObj (fold (\<lambda>p m. mput (fst p) (case map_of m (fst p) of Some orig \<Rightarrow> deepMergeJSON orig (snd p) | None \<Rightarrow> snd p) m)
             patch base)"
| "deepMergeJSON base patch = patch"
  by pat_completeness auto

termination
proof (relation "measure (\<lambda>(base, patch). size patch)", goal_cases)
  case (2 base patch p m orig)
  then show ?case using size_member [of p patch] by simp
qed simp

text \<open>
  \<^verbatim>\<open>mergeExtraConfig\<close>. The decoder of \<^verbatim>\<open>runtime.RawExtension\<close> keeps no bytes for \<^verbatim>\<open>null\<close>, so the
  base is never the nil map that an assignment would panic on.
\<close>

definition raw_empty :: "RawExtension option \<Rightarrow> bool" where
  "raw_empty r \<longleftrightarrow> r = None \<or> r = Some RawNil"

definition merge_step :: "string \<times> json \<Rightarrow> jmap \<Rightarrow> jmap" where
  "merge_step p m = mput (fst p) (case map_of m (fst p) of Some orig \<Rightarrow> deepMergeJSON orig (snd p) | None \<Rightarrow> snd p) m"

definition mergeExtraConfig :: "RawExtension option \<Rightarrow> RawExtension option \<Rightarrow> RawExtension option" where
  "mergeExtraConfig existing override =
     (if raw_empty existing then override
      else if raw_empty override then existing
      else (case raw_map (the existing) of
              None \<Rightarrow> override
            | Some base \<Rightarrow>
                (case raw_map (the override) of
                   None \<Rightarrow> override
                 | Some patch \<Rightarrow> Some (RawJSON (JObj (fold merge_step patch base))))))"

lemma deepMergeJSON_objects [simp]: "deepMergeJSON (JObj base) (JObj patch) = JObj (fold merge_step patch base)"
  by (simp add: merge_step_def [abs_def])

declare deepMergeJSON.simps(1) [simp del]

lemma mwf_merge: "mwf base \<Longrightarrow> mwf (fold merge_step patch base)"
  by (induction patch arbitrary: base) (auto simp: merge_step_def)

lemma map_of_merge:
  assumes "mwf base" and "distinct (map fst patch)"
  shows "map_of (fold merge_step patch base) k =
    (case map_of patch k of
       None \<Rightarrow> map_of base k
     | Some v \<Rightarrow> Some (case map_of base k of Some orig \<Rightarrow> deepMergeJSON orig v | None \<Rightarrow> v))"
  using assms
proof (induction patch arbitrary: base)
  case (Cons p patch)
  have "mwf (merge_step p base)" using Cons.prems by (simp add: merge_step_def)
  moreover have "map_of patch (fst p) = None" using Cons.prems by (auto simp: map_of_eq_None_iff)
  moreover have "map_of (merge_step p base) x =
      (if x = fst p then Some (case map_of base (fst p) of Some orig \<Rightarrow> deepMergeJSON orig (snd p) | None \<Rightarrow> snd p) else map_of base x)" for x
    using Cons.prems by (simp add: merge_step_def map_of_mput_raw)
  ultimately show ?case using Cons.IH [of "merge_step p base"] Cons.prems by (cases p) (auto split: option.splits)
qed simp

lemma jwf_member: "jwf (JObj m) \<Longrightarrow> map_of m k = Some v \<Longrightarrow> jwf v"
  using map_of_SomeD [of m k v] by auto

lemma jwf_deepMergeJSON: "jwf base \<Longrightarrow> jwf patch \<Longrightarrow> jwf (deepMergeJSON base patch)"
proof (induction base patch rule: deepMergeJSON.induct)
  case (1 base patch)
  have w: "mwf (fold merge_step patch base)" using 1(2) by (simp add: mwf_merge)
  have "jwf v" if "map_of (fold merge_step patch base) k = Some v" for k v
  proof -
    from 1(2,3) have d: "mwf base" "distinct (map fst patch)" by (auto dest: mwf_distinct)
    from 1(2,3) have b: "\<And>x. map_of base k = Some x \<Longrightarrow> jwf x" and p: "\<And>x. map_of patch k = Some x \<Longrightarrow> jwf x"
      by (blast intro: jwf_member)+
    have "jwf (deepMergeJSON x y)" if "map_of base k = Some x" "map_of patch k = Some y" for x y
      using 1(1) [of "(k, y)" "[(k, x)]" x] b p that by (auto dest: map_of_SomeD)
    then show ?thesis using that b p by (auto simp: map_of_merge [OF d] split: option.splits)
  qed
  with w show ?case by (auto simp: mwf_distinct)
qed simp_all

section \<open>What a merge holds\<close>

fun at_path :: "json \<Rightarrow> string list \<Rightarrow> json option" where
  "at_path j [] = Some j"
| "at_path (JObj m) (k # ks) = (case map_of m k of None \<Rightarrow> None | Some v \<Rightarrow> at_path v ks)"
| "at_path _ (k # ks) = None"

definition is_obj :: "json \<Rightarrow> bool" where
  "is_obj j = (case j of JObj _ \<Rightarrow> True | _ \<Rightarrow> False)"

text \<open>\<open>untouched patch ks\<close>: the patch sets neither the path nor a value above it that is no object.\<close>

fun untouched :: "json \<Rightarrow> string list \<Rightarrow> bool" where
  "untouched j [] = False"
| "untouched (JObj m) (k # ks) = (case map_of m k of None \<Rightarrow> True | Some v \<Rightarrow> untouched v ks)"
| "untouched _ (k # ks) = False"

lemma at_path_scalar: "\<not> is_obj j \<Longrightarrow> at_path j (k # ks) = None"
  by (cases j) (simp_all add: is_obj_def)

lemma deepMergeJSON_over_scalar: "\<not> is_obj base \<or> \<not> is_obj patch \<Longrightarrow> deepMergeJSON base patch = patch"
  by (cases base; cases patch) (simp_all add: is_obj_def)

lemma untouched_absent: "untouched patch ks \<Longrightarrow> at_path patch ks = None"
  by (induction patch ks rule: untouched.induct) (auto split: option.splits)

lemma at_path_merge:
  assumes "jwf (JObj b)" "jwf (JObj p)"
  shows "at_path (deepMergeJSON (JObj b) (JObj p)) (k # ks) =
    (case map_of p k of
       None \<Rightarrow> at_path (JObj b) (k # ks)
     | Some y \<Rightarrow> at_path (case map_of b k of Some x \<Rightarrow> deepMergeJSON x y | None \<Rightarrow> y) ks)"
  using assms map_of_merge [of b p k] by (simp add: mwf_distinct split: option.splits)

lemma merge_sets:
  assumes "jwf base" "jwf patch" "at_path patch ks = Some v" "\<not> is_obj v"
  shows "at_path (deepMergeJSON base patch) ks = Some v"
  using assms
proof (induction ks arbitrary: base patch)
  case (Cons k ks)
  show ?case
  proof (cases "\<exists>b p. base = JObj b \<and> patch = JObj p")
    case True
    then obtain b p where e: "base = JObj b" "patch = JObj p" by blast
    with Cons.prems obtain y where y: "map_of p k = Some y" "at_path y ks = Some v" by (auto split: option.splits)
    have "jwf y" "\<And>x. map_of b k = Some x \<Longrightarrow> jwf x" using Cons.prems e y by (blast intro: jwf_member)+
    with Cons y e show ?thesis by (auto simp: at_path_merge simp del: deepMergeJSON_objects split: option.splits)
  next
    case False
    then have "deepMergeJSON base patch = patch" by (cases base; cases patch) auto
    with Cons.prems show ?thesis by simp
  qed
qed (simp add: deepMergeJSON_over_scalar)

lemma merge_keeps:
  assumes "jwf base" "jwf patch" "is_obj base" "untouched patch ks"
  shows "at_path (deepMergeJSON base patch) ks = at_path base ks"
  using assms
proof (induction ks arbitrary: base patch)
  case (Cons k ks)
  then obtain b p where e: "base = JObj b" "patch = JObj p" by (cases base; cases patch) (auto simp: is_obj_def)
  show ?case
  proof (cases "map_of p k")
    case (Some y)
    with Cons.prems e have u: "untouched y ks" and "jwf y" "\<And>x. map_of b k = Some x \<Longrightarrow> jwf x"
      by (auto intro: jwf_member simp del: jwf.simps)
    moreover from u have "at_path y ks = None" "ks \<noteq> []" by (auto dest: untouched_absent)
    moreover from this(2) have "at_path x ks = None" if "\<not> is_obj x" for x using that by (cases ks) (auto intro: at_path_scalar)
    ultimately show ?thesis using Cons.IH Cons.prems e Some
      by (auto simp: at_path_merge deepMergeJSON_over_scalar simp del: deepMergeJSON_objects jwf.simps split: option.splits)
        (metis deepMergeJSON_over_scalar)
  qed (use Cons.prems e in \<open>simp add: at_path_merge del: deepMergeJSON_objects jwf.simps\<close>)
qed simp

lemma merge_only:
  assumes "jwf base" "jwf patch" "at_path (deepMergeJSON base patch) ks = Some v" "\<not> is_obj v"
  shows "at_path patch ks = Some v \<or> untouched patch ks \<and> at_path base ks = Some v"
  using assms
proof (induction ks arbitrary: base patch)
  case Nil
  then show ?case by (cases base; cases patch) (auto simp: is_obj_def)
next
  case (Cons k ks)
  show ?case
  proof (cases "\<exists>b p. base = JObj b \<and> patch = JObj p")
    case True
    then obtain b p where e: "base = JObj b" "patch = JObj p" by blast
    have "\<And>y. map_of p k = Some y \<Longrightarrow> jwf y" "\<And>x. map_of b k = Some x \<Longrightarrow> jwf x"
      using Cons.prems e by (blast intro: jwf_member)+
    with Cons e show ?thesis by (auto simp: at_path_merge simp del: deepMergeJSON_objects jwf.simps split: option.splits)
  next
    case False
    then have "deepMergeJSON base patch = patch" by (cases base; cases patch) auto
    with Cons.prems show ?thesis by simp
  qed
qed

text \<open>
  Merging extra configuration loses nothing and invents nothing: of two objects, the merge has at
  every path that ends in a value that is no object the patch's value where the patch has one, and
  the base's where the patch sets neither the path nor anything above it; and it has no other.
\<close>

lemma mergeExtraConfig_exact:
  assumes "jwf (JObj b)" and "jwf (JObj p)" and "\<not> is_obj v"
  shows "\<exists>j. mergeExtraConfig (Some (RawJSON (JObj b))) (Some (RawJSON (JObj p))) = Some (RawJSON j) \<and> jwf j \<and>
    (at_path j ks = Some v \<longleftrightarrow>
       at_path (JObj p) ks = Some v \<or> untouched (JObj p) ks \<and> at_path (JObj b) ks = Some v)"
proof -
  have "mergeExtraConfig (Some (RawJSON (JObj b))) (Some (RawJSON (JObj p))) = Some (RawJSON (deepMergeJSON (JObj b) (JObj p)))"
    by (simp add: mergeExtraConfig_def raw_empty_def)
  moreover have "jwf (deepMergeJSON (JObj b) (JObj p))" using assms by (intro jwf_deepMergeJSON)
  moreover have "at_path (JObj p) ks = Some v \<or> untouched (JObj p) ks \<and> at_path (JObj b) ks = Some v"
    if "at_path (deepMergeJSON (JObj b) (JObj p)) ks = Some v" using merge_only [OF assms(1,2) that assms(3)] .
  moreover have "at_path (deepMergeJSON (JObj b) (JObj p)) ks = Some v" if "at_path (JObj p) ks = Some v"
    using merge_sets [OF assms(1,2) that assms(3)] .
  moreover have "at_path (deepMergeJSON (JObj b) (JObj p)) ks = Some v"
    if "untouched (JObj p) ks" "at_path (JObj b) ks = Some v"
    using merge_keeps [OF assms(1,2) _ that(1)] that(2) by (simp add: is_obj_def)
  ultimately show ?thesis by blast
qed

definition ex_base :: jmap where
  "ex_base = [(''auth'', JObj [(''alg'', JStr ''RS256''), (''ttl'', JNum ''5'')]), (''cors'', JBool True)]"

definition ex_patch :: jmap where
  "ex_patch = [(''auth'', JObj [(''alg'', JStr ''ES256'')])]"

end
