(* ===== verification/AutoEval.thy ===== *)
theory AutoEval
  imports AutoApi
begin

text \<open>
  The evaluation of an OpenAPI document into endpoint entries (\<^verbatim>\<open>internal/autoconfig/cue_evaluator.go\<close>):
  the CUE definitions are unified with the document, every field of \<^verbatim>\<open>endpoint\<close> is decoded or
  recorded as failed, and the entries go through the defaults, the URL transform and the overrides
  of the resource, after which those of an unsupported method are set aside.

  CUE values and the YAML and JSON decoders are a library, the parameter \<open>cue_lib\<close>.
\<close>

section \<open>The library\<close>

text \<open>A field of the endpoint struct: its selector, what its lookups return, and how it validates and encodes.\<close>

record cueField =
  cfd_Selector :: string
  cfd_Unquoted :: string
  cfd_endpoint :: "string option"
  cfd_method :: "string option"
  cfd_operationId :: "string option"
  cfd_tags :: "string option list option"
  cfd_Validate :: "string option"
  cfd_MarshalJSON :: "string + string"

text \<open>
  \<open>cl_Errors\<close> are the errors of a concrete validation with their paths; \<open>cl_Fields\<close> the fields of
  \<^verbatim>\<open>endpoint\<close>; \<open>cl_decodeEntry\<close> is \<^verbatim>\<open>json.Unmarshal\<close> into an entry.
\<close>

record 'v cue_lib =
  cl_Compile :: "string \<Rightarrow> string \<Rightarrow> 'v"
  cl_Unify :: "'v \<Rightarrow> 'v \<Rightarrow> 'v"
  cl_Exists :: "'v \<Rightarrow> bool"
  cl_Errors :: "'v \<Rightarrow> (string list \<times> string) list"
  cl_Fields :: "'v \<Rightarrow> string + cueField list"
  cl_YAMLToJSON :: "string \<Rightarrow> string + string"
  cl_validJSON :: "string \<Rightarrow> bool"
  cl_decodeEntry :: "string \<Rightarrow> string + EndpointEntry"
  cl_raw :: "RawExtension \<Rightarrow> string"

section \<open>Input and outp\<close>

record CUEInput =
  ci_SpecData :: string
  ci_SpecFormat :: SpecFormat
  ci_DefaultDefs :: "(string, string) gomap"
  ci_CustomDefs :: "(string, string) gomap"
  ci_Defaults :: "Defaults option"
  ci_Overrides :: "OperationOverride list"
  ci_URLTransform :: "URLTransformSpec option"
  ci_Environment :: string
  ci_ServiceName :: string
  ci_DefaultHost :: string

record CUEOutput =
  cu_Entries :: "EndpointEntry list"
  cu_OperationIDs :: "(string, string) gomap"
  cu_Tags :: "(string, string list) gomap"
  cu_UnmatchedOverrides :: "string list"
  cu_AmbiguousOverrides :: "string list"
  cu_Skipped :: "OperationIssue list"
  cu_Failed :: "OperationIssue list"
  cu_entryOperationIDs :: "string list"
  cu_entryTags :: "string list list"

definition empty_output :: CUEOutput where
  "empty_output =
     \<lparr>cu_Entries = [], cu_OperationIDs = [], cu_Tags = [], cu_UnmatchedOverrides = [], cu_AmbiguousOverrides = [],
      cu_Skipped = [], cu_Failed = [], cu_entryOperationIDs = [], cu_entryTags = []\<rparr>"

definition supportedMethods :: "string list" where
  "supportedMethods = [''GET'', ''POST'', ''PUT'', ''PATCH'', ''DELETE'']"

definition skippedMethods :: "string list" where
  "skippedMethods = [''HEAD'', ''OPTIONS'', ''TRACE'', ''CONNECT'']"

section \<open>Names\<close>

definition name_char :: "char \<Rightarrow> bool" where
  "name_char c \<longleftrightarrow> CHR ''a'' \<le> c \<and> c \<le> CHR ''z'' \<or> is_digit c \<or> c = CHR ''-''"

definition SanitizeName :: "string \<Rightarrow> string" where
  "SanitizeName s = trim_both (\<lambda>c. c = CHR ''-'') (map (\<lambda>c. if name_char c then c else CHR ''-'') (ToLower s))"

section \<open>Loading\<close>

fun unify_defs :: "'v cue_lib \<Rightarrow> 'v option \<Rightarrow> (string \<times> string) list \<Rightarrow> 'v option" where
  "unify_defs cue unified [] = unified"
| "unify_defs cue unified ((filename, text) # defs) =
     (let val = cl_Compile cue text filename
      in unify_defs cue
           (case unified of
              None \<Rightarrow> Some val
            | Some u \<Rightarrow> if cl_Exists cue u then Some (cl_Unify cue u val) else Some val) defs)"

text \<open>The result is the zero value when there are no definitions.\<close>

definition loadDefinitions :: "'v cue_lib \<Rightarrow> (string, string) gomap \<Rightarrow> 'v option" where
  "loadDefinitions cue defs = unify_defs cue None defs"

definition normalizeToJSON :: "'v cue_lib \<Rightarrow> string \<Rightarrow> SpecFormat \<Rightarrow> string + string" where
  "normalizeToJSON cue data format =
     (case format of
        SpecFormatJSON \<Rightarrow> Inr data
      | SpecFormatYAML \<Rightarrow> cl_YAMLToJSON cue data
      | SpecFormatUnset \<Rightarrow> if cl_validJSON cue data then Inr data else cl_YAMLToJSON cue data)"

definition applyOverrides :: "'v cue_lib \<Rightarrow> 'v \<Rightarrow> OperationOverride list \<Rightarrow> 'v" where
  "applyOverrides cue unified overrides =
     fold (\<lambda>override u.
       (case ov_ExtraConfig override of
          None \<Rightarrow> u
        | Some raw \<Rightarrow>
            if raw = RawNil then u
            else (let key = SanitizeName (ov_OperationID override)
                  in cl_Unify cue u (cl_Compile cue
                       (''_overrides: '' @ Quote key @ '': _'' @ [CHR 0x0A] @ ''_overrides: '' @ Quote key @ '': '' @ cl_raw cue raw)
                       (''override-'' @ key @ ''.cue'')))))
       overrides unified"

section \<open>Exporting the entries\<close>

definition entryErrors :: "(string list \<times> string) list \<Rightarrow> (string, string list) gomap" where
  "entryErrors errs =
     fold (\<lambda>(path, text) byEntry. madd (case path of p0 # p1 # _ \<Rightarrow> (if p0 = ''endpoint'' then p1 else []) | _ \<Rightarrow> []) text byEntry)
       errs []"

definition sortedUnique :: "string list \<Rightarrow> string list" where
  "sortedUnique msgs = remdups_adj (sort msgs)"

definition sortedMessages :: "(string, string list) gomap \<Rightarrow> string list" where
  "sortedMessages byEntry = sortedUnique (concat (map snd byEntry))"

definition decodeEntry :: "'v cue_lib \<Rightarrow> cueField \<Rightarrow> string + EndpointEntry" where
  "decodeEntry cue val =
     (case cfd_Validate val of
        Some err \<Rightarrow> Inl err
      | None \<Rightarrow> (case cfd_MarshalJSON val of Inl err \<Rightarrow> Inl err | Inr bytes \<Rightarrow> cl_decodeEntry cue bytes))"

text \<open>The part of a string before and after its last colon.\<close>

definition cut_last :: "string \<Rightarrow> (string \<times> string) option" where
  "cut_last key =
     (if CHR '':'' \<in> set key
      then (let after = rev (takeWhile (\<lambda>c. c \<noteq> CHR '':'') (rev key))
            in Some (take (length key - length after - 1) key, after))
      else None)"

definition entryOperation :: "string \<Rightarrow> cueField \<Rightarrow> Operation \<times> bool" where
  "entryOperation key val =
     (let (path, verb) = (case cut_last key of None \<Rightarrow> (key, []) | Some (p, v) \<Rightarrow> (p, v))
      in (\<lparr>opn_Method = (case cfd_method val of None \<Rightarrow> verb | Some v \<Rightarrow> v),
           opn_Path = (case cfd_endpoint val of None \<Rightarrow> path | Some p \<Rightarrow> p),
           opn_OperationID = (case cfd_operationId val of None \<Rightarrow> [] | Some i \<Rightarrow> i),
           opn_Tags = (case cfd_tags val of None \<Rightarrow> [] | Some ts \<Rightarrow> List.map_filter (\<lambda>t. t) ts)\<rparr>,
          cfd_method val \<noteq> None))"

fun export_fields ::
  "'v cue_lib \<Rightarrow> cueField list \<Rightarrow> (string, string list) gomap \<Rightarrow> CUEOutput \<Rightarrow> CUEOutput \<times> (string, string list) gomap" where
  "export_fields cue [] rootErrors outp = (outp, rootErrors)"
| "export_fields cue (val # vals) rootErrors outp =
     (let key = cfd_Selector val; rootMsgs = mlist rootErrors key; rest = mdel key rootErrors;
          (op, methodKnown) = entryOperation (cfd_Unquoted val) val;
          decoded = (case decodeEntry cue val of
                       Inl err \<Rightarrow> Inl err
                     | Inr entry \<Rightarrow> if rootMsgs \<noteq> [] then Inl (Join (sortedUnique rootMsgs) ''; '') else Inr entry)
      in case decoded of
           Inl err \<Rightarrow>
             export_fields cue vals rest
               (outp\<lparr>cu_Failed := cu_Failed outp @
                  [\<lparr>oi_Operation = op, oi_Reason = ''CUEEvaluationFailed'', oi_Message = err, oi_methodKnown = methodKnown\<rparr>]\<rparr>)
         | Inr entry \<Rightarrow>
             export_fields cue vals rest
               (outp\<lparr>cu_Entries := cu_Entries outp @ [entry],
                  cu_entryOperationIDs := cu_entryOperationIDs outp @ [opn_OperationID op],
                  cu_entryTags := cu_entryTags outp @ [opn_Tags op],
                  cu_OperationIDs := put_if (opn_OperationID op \<noteq> []) (entryKey entry) (opn_OperationID op) (cu_OperationIDs outp),
                  cu_Tags := put_if (opn_Tags op \<noteq> []) (entryKey entry) (opn_Tags op) (cu_Tags outp)\<rparr>))"

definition exportEndpointEntries ::
  "'v cue_lib \<Rightarrow> string + cueField list \<Rightarrow> (string, string list) gomap \<Rightarrow> string + CUEOutput" where
  "exportEndpointEntries cue vals rootErrors =
     (case vals of
        Inl err \<Rightarrow> Inl (''iterating endpoint fields: '' @ err)
      | Inr flds \<Rightarrow>
          (case export_fields cue flds rootErrors empty_output of
             (outp, rest) \<Rightarrow>
               if rest \<noteq> [] then Inl (''CUE evaluation failed: '' @ Join (sortedMessages rest) ''; '') else Inr outp))"

section \<open>Defaults\<close>

definition applyDefaultsToEntry :: "EndpointDefaults \<Rightarrow> EndpointEntry \<Rightarrow> EndpointEntry" where
  "applyDefaultsToEntry d entry =
     entry\<lparr>en_Timeout := (if ed_Timeout d \<noteq> None then ed_Timeout d else en_Timeout entry),
       en_CacheTTL := (if ed_CacheTTL d \<noteq> None then ed_CacheTTL d else en_CacheTTL entry),
       en_OutputEncoding := (if ed_OutputEncoding d \<noteq> [] then ed_OutputEncoding d else en_OutputEncoding entry),
       en_ConcurrentCalls := (if ed_ConcurrentCalls d \<noteq> None then ed_ConcurrentCalls d else en_ConcurrentCalls entry),
       en_InputHeaders := (if ed_InputHeaders d \<noteq> None then ed_InputHeaders d else en_InputHeaders entry),
       en_InputQueryStrings := (if ed_InputQueryStrings d \<noteq> None then ed_InputQueryStrings d else en_InputQueryStrings entry),
       en_ExtraConfig := (if ed_ExtraConfig d \<noteq> None then mergeExtraConfig (en_ExtraConfig entry) (ed_ExtraConfig d)
                          else en_ExtraConfig entry)\<rparr>"

definition on_entries :: "(EndpointEntry \<Rightarrow> EndpointEntry) \<Rightarrow> CUEOutput \<Rightarrow> CUEOutput" where
  "on_entries f outp = outp\<lparr>cu_Entries := map f (cu_Entries outp)\<rparr>"

definition on_backends :: "(BackendSpec \<Rightarrow> BackendSpec) \<Rightarrow> EndpointEntry \<Rightarrow> EndpointEntry" where
  "on_backends f entry = entry\<lparr>en_Backends := map f (en_Backends entry)\<rparr>"

definition applyDefaults :: "EndpointDefaults option \<Rightarrow> CUEOutput \<Rightarrow> CUEOutput" where
  "applyDefaults defaults outp =
     (case defaults of None \<Rightarrow> outp | Some d \<Rightarrow> on_entries (applyDefaultsToEntry d) outp)"

definition applyBackendDefaultsToBackend :: "BackendDefaults \<Rightarrow> BackendSpec \<Rightarrow> BackendSpec" where
  "applyBackendDefaultsToBackend d b =
     b\<lparr>be_Encoding := (if bd_Encoding d \<noteq> [] \<and> be_Encoding b = [] then bd_Encoding d else be_Encoding b),
       be_SD := (if bd_SD d \<noteq> [] \<and> be_SD b = [] then bd_SD d else be_SD b),
       be_SDScheme := (if bd_SDScheme d \<noteq> [] \<and> be_SDScheme b = [] then bd_SDScheme d else be_SDScheme b),
       be_DisableHostSanitize :=
         (if bd_DisableHostSanitize d \<noteq> None \<and> be_DisableHostSanitize b = None then bd_DisableHostSanitize d
          else be_DisableHostSanitize b),
       be_InputHeaders := (case bd_InputHeaders d of Some hs \<Rightarrow> hs | None \<Rightarrow> be_InputHeaders b),
       be_InputQueryStrings := (case bd_InputQueryStrings d of Some qs \<Rightarrow> qs | None \<Rightarrow> be_InputQueryStrings b),
       be_ExtraConfig := (if bd_ExtraConfig d \<noteq> None then mergeExtraConfig (be_ExtraConfig b) (bd_ExtraConfig d)
                          else be_ExtraConfig b)\<rparr>"

definition applyBackendDefaults :: "BackendDefaults option \<Rightarrow> CUEOutput \<Rightarrow> CUEOutput" where
  "applyBackendDefaults defaults outp =
     (case defaults of None \<Rightarrow> outp | Some d \<Rightarrow> on_entries (on_backends (applyBackendDefaultsToBackend d)) outp)"

definition setPolicyRef :: "PolicyRef \<Rightarrow> BackendSpec \<Rightarrow> BackendSpec" where
  "setPolicyRef ref b = (if be_PolicyRef b = None then b\<lparr>be_PolicyRef := Some ref\<rparr> else b)"

definition applyDefaultPolicyRef :: "PolicyRef option \<Rightarrow> CUEOutput \<Rightarrow> CUEOutput" where
  "applyDefaultPolicyRef policyRef outp =
     (case policyRef of None \<Rightarrow> outp | Some ref \<Rightarrow> on_entries (on_backends (setPolicyRef ref)) outp)"

section \<open>URL transform\<close>

definition hostMap :: "URLTransformSpec \<Rightarrow> (string, string) gomap" where
  "hostMap transform = fold (\<lambda>m. mput (hm_From m) (hm_To m)) (ut_HostMapping transform) []"

definition transformPath :: "URLTransformSpec \<Rightarrow> string \<Rightarrow> string" where
  "transformPath transform path =
     (let stripped = TrimPrefix path (ut_StripPathPrefix transform);
          p = (if ut_StripPathPrefix transform \<noteq> [] then (if stripped = [] then ''/'' else stripped) else path)
      in if ut_AddPathPrefix transform \<noteq> [] then ut_AddPathPrefix transform @ p else p)"

definition applyURLTransformToEntry :: "URLTransformSpec \<Rightarrow> EndpointEntry \<Rightarrow> EndpointEntry" where
  "applyURLTransformToEntry transform entry =
     (on_backends (\<lambda>b. b\<lparr>be_Host := map (\<lambda>h. case map_of (hostMap transform) h of Some to \<Rightarrow> to | None \<Rightarrow> h) (be_Host b)\<rparr>) entry)
       \<lparr>en_Endpoint := transformPath transform (en_Endpoint entry)\<rparr>"

text \<open>The operationId and the tags recorded under a key move with the entry.\<close>

definition move_key :: "string \<Rightarrow> string \<Rightarrow> (string, 'v) gomap \<Rightarrow> (string, 'v) gomap" where
  "move_key old new m =
     (if new \<noteq> old then (case map_of m old of Some v \<Rightarrow> mput new v (mdel old m) | None \<Rightarrow> m) else m)"

definition rekey :: "string \<Rightarrow> string \<Rightarrow> CUEOutput \<Rightarrow> CUEOutput" where
  "rekey old new outp =
     outp\<lparr>cu_OperationIDs := move_key old new (cu_OperationIDs outp), cu_Tags := move_key old new (cu_Tags outp)\<rparr>"

definition applyURLTransform :: "URLTransformSpec \<Rightarrow> CUEOutput \<Rightarrow> CUEOutput" where
  "applyURLTransform transform outp =
     (fold (\<lambda>entry. rekey (entryKey entry) (entryKey (applyURLTransformToEntry transform entry))) (cu_Entries outp) outp)
       \<lparr>cu_Entries := map (applyURLTransformToEntry transform) (cu_Entries outp)\<rparr>"

definition transformIssuePath :: "URLTransformSpec \<Rightarrow> OperationIssue \<Rightarrow> OperationIssue" where
  "transformIssuePath transform i =
     i\<lparr>oi_Operation := (oi_Operation i)\<lparr>opn_Path := transformPath transform (opn_Path (oi_Operation i))\<rparr>\<rparr>"

definition transformIssuePaths :: "URLTransformSpec \<Rightarrow> OperationIssue list \<Rightarrow> OperationIssue list" where
  "transformIssuePaths transform issues = map (transformIssuePath transform) issues"

definition ApplyURLTransformToEntries :: "URLTransformSpec option \<Rightarrow> EndpointEntry list \<Rightarrow> EndpointEntry list" where
  "ApplyURLTransformToEntries transform entries =
     (case transform of None \<Rightarrow> entries | Some t \<Rightarrow> map (applyURLTransformToEntry t) entries)"

section \<open>Overrides\<close>

fun index_ids :: "nat \<Rightarrow> string list \<Rightarrow> (string, nat) gomap \<times> (string, nat) gomap \<Rightarrow> (string, nat) gomap \<times> (string, nat) gomap" where
  "index_ids i [] acc = acc"
| "index_ids i (opID # ids) (index, counts) =
     index_ids (Suc i) ids
       (if opID = [] then (index, counts)
        else (if map_of index opID = None then mput opID i index else index,
              mput opID (Suc (case map_of counts opID of None \<Rightarrow> 0 | Some n \<Rightarrow> n)) counts))"

definition count_of :: "(string, nat) gomap \<Rightarrow> string \<Rightarrow> nat" where
  "count_of counts opID = (case map_of counts opID of None \<Rightarrow> 0 | Some n \<Rightarrow> n)"

definition count_one :: "string \<Rightarrow> (string, nat) gomap \<Rightarrow> (string, nat) gomap" where
  "count_one opID counts = (if opID \<noteq> [] then mput opID (Suc (count_of counts opID)) counts else counts)"

definition indexOverrideTargets :: "CUEOutput \<Rightarrow> (string, nat) gomap \<times> (string, nat) gomap" where
  "indexOverrideTargets outp =
     (let (index, counts) = index_ids 0 (cu_entryOperationIDs outp) ([], [])
      in (index, fold (\<lambda>failed. count_one (opn_OperationID (oi_Operation failed))) (cu_Failed outp) counts))"

definition applyOverrideFields :: "OperationOverride \<Rightarrow> EndpointEntry \<Rightarrow> EndpointEntry" where
  "applyOverrideFields ov entry =
     entry\<lparr>en_Timeout := (if ov_Timeout ov \<noteq> None then ov_Timeout ov else en_Timeout entry),
       en_CacheTTL := (if ov_CacheTTL ov \<noteq> None then ov_CacheTTL ov else en_CacheTTL entry),
       en_OutputEncoding := (if ov_OutputEncoding ov \<noteq> [] then ov_OutputEncoding ov else en_OutputEncoding entry),
       en_ConcurrentCalls := (if ov_ConcurrentCalls ov \<noteq> None then ov_ConcurrentCalls ov else en_ConcurrentCalls entry),
       en_InputHeaders := (if ov_InputHeaders ov \<noteq> None then ov_InputHeaders ov else en_InputHeaders entry),
       en_InputQueryStrings := (if ov_InputQueryStrings ov \<noteq> None then ov_InputQueryStrings ov else en_InputQueryStrings entry),
       en_Endpoint := (if ov_Endpoint ov \<noteq> [] then ov_Endpoint ov else en_Endpoint entry),
       en_Method := (if ov_Method ov \<noteq> [] then ov_Method ov else en_Method entry),
       en_ExtraConfig := (if ov_ExtraConfig ov \<noteq> None then mergeExtraConfig (en_ExtraConfig entry) (ov_ExtraConfig ov)
                          else en_ExtraConfig entry)\<rparr>"

text \<open>The overrides of single backends, with the indexes that are out of range.\<close>

definition override_backend :: "string \<Rightarrow> BackendOverride \<Rightarrow> EndpointEntry \<times> string list \<Rightarrow> EndpointEntry \<times> string list" where
  "override_backend opID bo = (\<lambda>(entry, unmatched).
     if bo_Index bo < 0 \<or> bo_Index bo \<ge> int (length (en_Backends entry))
     then (entry, unmatched @ [opID @ '' backends['' @ itoa (bo_Index bo) @ '']''])
     else if bo_ExtraConfig bo \<noteq> None
     then (entry\<lparr>en_Backends := (en_Backends entry)[nat (bo_Index bo) :=
             (en_Backends entry ! nat (bo_Index bo))\<lparr>be_ExtraConfig := bo_ExtraConfig bo\<rparr>]\<rparr>, unmatched)
     else (entry, unmatched))"

definition overridden :: "OperationOverride \<Rightarrow> EndpointEntry \<Rightarrow> EndpointEntry \<times> string list" where
  "overridden ov entry =
     (let e1 = applyOverrideFields ov entry;
          e2 = (case ov_PolicyRef ov of None \<Rightarrow> e1 | Some ref \<Rightarrow> on_backends (be_PolicyRef_update (\<lambda>_. Some ref)) e1)
      in fold (override_backend (ov_OperationID ov)) (ov_Backends ov) (e2, []))"

definition applyOverrideToEntry :: "nat \<Rightarrow> OperationOverride \<Rightarrow> CUEOutput \<Rightarrow> CUEOutput" where
  "applyOverrideToEntry idx ov outp =
     (let entry = cu_Entries outp ! idx; (new, unmatched) = overridden ov entry
      in rekey (entryKey entry) (entryKey new)
           (outp\<lparr>cu_Entries := (cu_Entries outp)[idx := new],
                   cu_UnmatchedOverrides := cu_UnmatchedOverrides outp @ unmatched\<rparr>))"

definition remap_issue :: "OperationOverride \<Rightarrow> OperationIssue \<Rightarrow> OperationIssue" where
  "remap_issue ov failed =
     (let op = oi_Operation failed
      in if opn_OperationID op = [] \<or> opn_OperationID op \<noteq> ov_OperationID ov then failed
         else failed\<lparr>oi_Operation :=
                op\<lparr>opn_Path := (if ov_Endpoint ov \<noteq> [] then ov_Endpoint ov else opn_Path op),
                   opn_Method := (if ov_Method ov \<noteq> [] then ov_Method ov else opn_Method op)\<rparr>,
              oi_methodKnown := (ov_Method ov \<noteq> [] \<or> oi_methodKnown failed)\<rparr>)"

definition remapFailed :: "OperationOverride \<Rightarrow> OperationIssue list \<Rightarrow> OperationIssue list" where
  "remapFailed ov failed = map (remap_issue ov) failed"

definition apply_override :: "(string, nat) gomap \<Rightarrow> (string, nat) gomap \<Rightarrow> OperationOverride \<Rightarrow> CUEOutput \<Rightarrow> CUEOutput" where
  "apply_override index counts ov outp =
     (let opID = ov_OperationID ov
      in if count_of counts opID > 1
         then outp\<lparr>cu_AmbiguousOverrides := cu_AmbiguousOverrides outp @ [opID]\<rparr>
         else (case map_of index opID of
                 None \<Rightarrow>
                   (if count_of counts opID = 0
                    then outp\<lparr>cu_UnmatchedOverrides := cu_UnmatchedOverrides outp @ [opID]\<rparr> else outp)
                     \<lparr>cu_Failed := remapFailed ov (cu_Failed outp)\<rparr>
               | Some idx \<Rightarrow> applyOverrideToEntry idx ov outp))"

definition applyFieldOverrides :: "OperationOverride list \<Rightarrow> CUEOutput \<Rightarrow> CUEOutput" where
  "applyFieldOverrides overrides outp =
     (if overrides = [] then outp
      else (case indexOverrideTargets outp of (index, counts) \<Rightarrow> fold (apply_override index counts) overrides outp))"

section \<open>Unsupported methods\<close>

definition unsupportedMethodIssue :: "Operation \<Rightarrow> OperationIssue" where
  "unsupportedMethodIssue op =
     \<lparr>oi_Operation = op, oi_Reason = ''UnsupportedMethod'',
      oi_Message = ''KrakenDEndpoint supports only '' @ Join supportedMethods '', '', oi_methodKnown = False\<rparr>"

definition skip_entry :: "EndpointEntry \<times> string \<times> string list \<Rightarrow> CUEOutput \<Rightarrow> CUEOutput" where
  "skip_entry = (\<lambda>(entry, opID, tags) outp.
     if en_Method entry \<in> set supportedMethods
     then outp\<lparr>cu_Entries := cu_Entries outp @ [entry], cu_entryOperationIDs := cu_entryOperationIDs outp @ [opID],
            cu_entryTags := cu_entryTags outp @ [tags]\<rparr>
     else outp\<lparr>cu_Skipped := cu_Skipped outp @
              [unsupportedMethodIssue \<lparr>opn_Method = en_Method entry, opn_Path = en_Endpoint entry, opn_OperationID = opID, opn_Tags = tags\<rparr>],
            cu_OperationIDs := mdel (entryKey entry) (cu_OperationIDs outp),
            cu_Tags := mdel (entryKey entry) (cu_Tags outp)\<rparr>)"

definition still_failed :: "OperationIssue \<Rightarrow> bool" where
  "still_failed failed \<longleftrightarrow> \<not> oi_methodKnown failed \<or> opn_Method (oi_Operation failed) \<notin> set skippedMethods"

definition skipUnsupportedMethods :: "CUEOutput \<Rightarrow> CUEOutput" where
  "skipUnsupportedMethods outp =
     (let out = fold skip_entry (zip (cu_Entries outp) (zip (cu_entryOperationIDs outp) (cu_entryTags outp)))
                  (outp\<lparr>cu_Entries := [], cu_entryOperationIDs := [], cu_entryTags := []\<rparr>)
      in out\<lparr>cu_Failed := filter still_failed (cu_Failed outp),
             cu_Skipped := cu_Skipped out @
               map (\<lambda>f. unsupportedMethodIssue (oi_Operation f)) (filter (\<lambda>f. \<not> still_failed f) (cu_Failed outp))\<rparr>)"

section \<open>Evaluation\<close>

definition issue_less :: "OperationIssue \<Rightarrow> OperationIssue \<Rightarrow> bool" where
  "issue_less a b \<longleftrightarrow>
     (opn_Path (oi_Operation a), opn_Method (oi_Operation a)) < (opn_Path (oi_Operation b), opn_Method (oi_Operation b))"

definition sortIssues :: "OperationIssue list \<Rightarrow> OperationIssue list" where
  "sortIssues issues = sort_by issue_less issues"

text \<open>From the exported entries on, no library takes part.\<close>

definition post_process :: "CUEInput \<Rightarrow> CUEOutput \<Rightarrow> CUEOutput" where
  "post_process input outp =
     (let d = ci_Defaults input;
          o1 = applyDefaults (Option.bind d df_Endpoint) outp;
          o2 = applyBackendDefaults (Option.bind d df_Backend) o1;
          o3 = applyDefaultPolicyRef (Option.bind d df_PolicyRef) o2;
          o4 = (case ci_URLTransform input of
                  None \<Rightarrow> o3
                | Some t \<Rightarrow> (applyURLTransform t o3)\<lparr>cu_Failed := transformIssuePaths t (cu_Failed o3)\<rparr>);
          o5 = skipUnsupportedMethods (applyFieldOverrides (ci_Overrides input) o4)
      in o5\<lparr>cu_Failed := sortIssues (cu_Failed o5), cu_Skipped := sortIssues (cu_Skipped o5)\<rparr>)"

definition inject :: "'v cue_lib \<Rightarrow> bool \<Rightarrow> string \<Rightarrow> string \<Rightarrow> 'v \<Rightarrow> 'v" where
  "inject cue c text filename u = (if c then cl_Unify cue u (cl_Compile cue text filename) else u)"

text \<open>The value the entries are read from: the definitions, the document and what is injected, unified.\<close>

definition unifiedValue :: "'v cue_lib \<Rightarrow> CUEInput \<Rightarrow> string + 'v" where
  "unifiedValue cue input =
     (case normalizeToJSON cue (ci_SpecData input) (ci_SpecFormat input) of
        Inl err \<Rightarrow> Inl (''normalizing spec to JSON: '' @ err)
      | Inr specJSON \<Rightarrow>
          (case loadDefinitions cue (ci_DefaultDefs input) of
             None \<Rightarrow> Inl ''no CUE definitions loaded''
           | Some u0 \<Rightarrow>
               if \<not> cl_Exists cue u0 then Inl ''no CUE definitions loaded''
               else
                 (let name = ci_ServiceName input;
                      u1 = inject cue True (name @ '': _'' @ [CHR 0x0A] @ name @ '': '' @ specJSON) ''spec-inject.cue'' u0;
                      u2 = inject cue (ci_Environment input \<noteq> []) (''_env: '' @ Quote (ci_Environment input)) ''env-inject.cue'' u1;
                      u3 = inject cue (ci_DefaultHost input \<noteq> []) (''_defaultHost: '' @ Quote (ci_DefaultHost input)) ''host-inject.cue'' u2;
                      u4 = (case loadDefinitions cue (ci_CustomDefs input) of None \<Rightarrow> u3 | Some c \<Rightarrow> cl_Unify cue u3 c)
                  in Inr (applyOverrides cue u4 (ci_Overrides input)))))"

definition Evaluate :: "'v cue_lib \<Rightarrow> CUEInput \<Rightarrow> string + CUEOutput" where
  "Evaluate cue input =
     (case unifiedValue cue input of
        Inl err \<Rightarrow> Inl err
      | Inr unified \<Rightarrow>
          (case exportEndpointEntries cue (cl_Fields cue unified) (entryErrors (cl_Errors cue unified)) of
             Inl err \<Rightarrow> Inl err
           | Inr outp \<Rightarrow> Inr (post_process input outp)))"

section \<open>No operation is lost\<close>

definition aligned :: "CUEOutput \<Rightarrow> bool" where
  "aligned outp \<longleftrightarrow>
     length (cu_entryOperationIDs outp) = length (cu_Entries outp) \<and> length (cu_entryTags outp) = length (cu_Entries outp)"

definition issue_ids :: "OperationIssue list \<Rightarrow> string list" where
  "issue_ids = map (opn_OperationID \<circ> oi_Operation)"

text \<open>The operations an outp accounts for, by operationId.\<close>

definition accounted :: "CUEOutput \<Rightarrow> string multiset" where
  "accounted outp = mset (cu_entryOperationIDs outp) + mset (issue_ids (cu_Failed outp)) + mset (issue_ids (cu_Skipped outp))"

lemma issue_ids_simps [simp]:
  "issue_ids [] = []" "issue_ids (xs @ ys) = issue_ids xs @ issue_ids ys"
  "issue_ids (i # is) = opn_OperationID (oi_Operation i) # issue_ids is"
  by (simp_all add: issue_ids_def)

lemma mset_issue_ids: "mset is = mset js \<Longrightarrow> mset (issue_ids is) = mset (issue_ids js)"
  by (simp add: issue_ids_def)

lemma aligned_empty: "aligned empty_output" "accounted empty_output = {#}"
  by (simp_all add: aligned_def empty_output_def accounted_def)

lemma export_fields_accounts:
  assumes "export_fields cue vals rootErrors outp = (outp', rest)" and "aligned outp"
  shows "aligned outp' \<and>
    accounted outp' = accounted outp + mset (map (\<lambda>v. opn_OperationID (fst (entryOperation (cfd_Unquoted v) v))) vals)"
  using assms
proof (induction cue vals rootErrors outp rule: export_fields.induct)
  case (2 cue val vals rootErrors outp)
  obtain op known where op: "entryOperation (cfd_Unquoted val) val = (op, known)" by force
  define decoded where "decoded = (case decodeEntry cue val of
      Inl err \<Rightarrow> Inl err
    | Inr entry \<Rightarrow> if mlist rootErrors (cfd_Selector val) \<noteq> [] then Inl (Join (sortedUnique (mlist rootErrors (cfd_Selector val))) ''; '') else Inr entry)"
  show ?case
  proof (cases decoded)
    case (Inl err)
    note IH = "2.IH"(1) [OF refl refl refl op [symmetric] refl decoded_def Inl]
    from 2(3,4) Inl op IH show ?thesis by (auto simp: Let_def decoded_def [symmetric] aligned_def accounted_def)
  next
    case (Inr entry)
    note IH = "2.IH"(2) [OF refl refl refl op [symmetric] refl decoded_def Inr]
    from 2(3,4) Inr op IH show ?thesis by (auto simp: Let_def decoded_def [symmetric] aligned_def accounted_def)
  qed
qed (auto simp: aligned_def)

text \<open>Steps that keep what is accounted for.\<close>

definition keeps_accounts :: "(CUEOutput \<Rightarrow> CUEOutput) \<Rightarrow> bool" where
  "keeps_accounts f \<longleftrightarrow> (\<forall>outp. aligned outp \<longrightarrow> aligned (f outp) \<and> accounted (f outp) = accounted outp)"

lemma keeps_comp: "keeps_accounts f \<Longrightarrow> keeps_accounts g \<Longrightarrow> keeps_accounts (\<lambda>outp. f (g outp))"
  by (simp add: keeps_accounts_def)

lemma keeps_fold: "(\<And>x. keeps_accounts (f x)) \<Longrightarrow> keeps_accounts (fold f xs)"
  by (induction xs) (simp_all add: keeps_accounts_def)

lemma keeps_id: "keeps_accounts (\<lambda>outp. outp)"
  by (simp add: keeps_accounts_def)

lemma keeps_on_entries: "keeps_accounts (on_entries f)"
  by (simp add: keeps_accounts_def on_entries_def aligned_def accounted_def)

lemma keeps_defaults:
  "keeps_accounts (applyDefaults d)" "keeps_accounts (applyBackendDefaults b)" "keeps_accounts (applyDefaultPolicyRef p)"
  using keeps_on_entries keeps_id
  by (simp_all add: keeps_accounts_def applyDefaults_def applyBackendDefaults_def applyDefaultPolicyRef_def split: option.splits)

lemma rekey_simps [simp]:
  "cu_Entries (rekey k k' outp) = cu_Entries outp" "cu_entryOperationIDs (rekey k k' outp) = cu_entryOperationIDs outp"
  "cu_entryTags (rekey k k' outp) = cu_entryTags outp" "cu_Failed (rekey k k' outp) = cu_Failed outp"
  "cu_Skipped (rekey k k' outp) = cu_Skipped outp" "cu_UnmatchedOverrides (rekey k k' outp) = cu_UnmatchedOverrides outp"
  "cu_AmbiguousOverrides (rekey k k' outp) = cu_AmbiguousOverrides outp"
  by (simp_all add: rekey_def)

lemma fold_rekey_simps [simp]:
  "cu_entryOperationIDs (fold (\<lambda>e. rekey (f e) (g e)) es outp) = cu_entryOperationIDs outp"
  "cu_entryTags (fold (\<lambda>e. rekey (f e) (g e)) es outp) = cu_entryTags outp"
  "cu_Failed (fold (\<lambda>e. rekey (f e) (g e)) es outp) = cu_Failed outp"
  "cu_Skipped (fold (\<lambda>e. rekey (f e) (g e)) es outp) = cu_Skipped outp"
  by (induction es arbitrary: outp) simp_all

lemma issue_ids_transform [simp]: "issue_ids (transformIssuePaths t is) = issue_ids is"
  by (simp add: issue_ids_def transformIssuePaths_def transformIssuePath_def)

lemma issue_ids_remap [simp]: "issue_ids (remapFailed ov is) = issue_ids is"
  by (simp add: issue_ids_def remapFailed_def remap_issue_def Let_def)

lemma keeps_transform:
  "keeps_accounts (\<lambda>outp. (applyURLTransform t outp)\<lparr>cu_Failed := transformIssuePaths t (cu_Failed outp)\<rparr>)"
  by (simp add: keeps_accounts_def applyURLTransform_def aligned_def accounted_def)

lemma keeps_override: "keeps_accounts (apply_override index counts ov)"
  by (auto simp: keeps_accounts_def apply_override_def applyOverrideToEntry_def aligned_def accounted_def Let_def split: option.splits prod.splits)

lemma keeps_overrides: "keeps_accounts (applyFieldOverrides overrides)"
proof -
  have "keeps_accounts (fold (apply_override index counts) overrides)" for index counts
    by (rule keeps_fold) (rule keeps_override)
  then show ?thesis by (auto simp: keeps_accounts_def applyFieldOverrides_def split: prod.splits)
qed

lemma skip_entries_accounts:
  assumes "length ids = length entries" "length tags = length entries"
    and "out = fold skip_entry (zip entries (zip ids tags)) outp" and "aligned outp"
  shows "aligned out \<and> cu_Failed out = cu_Failed outp \<and>
    mset (cu_entryOperationIDs out) + mset (issue_ids (cu_Skipped out)) =
      mset (cu_entryOperationIDs outp) + mset (issue_ids (cu_Skipped outp)) + mset ids \<and>
    set (cu_Entries out) = set (cu_Entries outp) \<union> {e \<in> set entries. en_Method e \<in> set supportedMethods}"
  using assms
proof (induction entries arbitrary: ids tags outp)
  case (Cons e entries)
  then obtain i ids' t tags' where it: "ids = i # ids'" "tags = t # tags'" by (metis length_Suc_conv list.size(4) One_nat_def add.right_neutral add_Suc_right length_Cons)
  have al: "aligned (skip_entry (e, i, t) outp)" using Cons.prems(4) by (auto simp: skip_entry_def aligned_def)
  have "out = fold skip_entry (zip entries (zip ids' tags')) (skip_entry (e, i, t) outp)" using Cons.prems(3) it by simp
  from Cons.IH [OF _ _ this al] Cons.prems(1,2) it show ?case
    by (auto simp: skip_entry_def unsupportedMethodIssue_def split: if_splits)
qed simp

lemma issue_ids_skipped: "issue_ids (map (\<lambda>f. unsupportedMethodIssue (oi_Operation f)) is) = issue_ids is"
  by (simp add: issue_ids_def unsupportedMethodIssue_def)

lemma mset_issue_ids_split: "mset (issue_ids (filter P is)) + mset (issue_ids (filter (\<lambda>i. \<not> P i) is)) = mset (issue_ids is)"
  by (induction "is") (simp_all add: issue_ids_def)

lemma skipUnsupportedMethods_accounts:
  assumes "aligned outp"
  shows "aligned (skipUnsupportedMethods outp)"
    and "accounted (skipUnsupportedMethods outp) = accounted outp"
    and "set (cu_Entries (skipUnsupportedMethods outp)) = {e \<in> set (cu_Entries outp). en_Method e \<in> set supportedMethods}"
    and "set (cu_Failed (skipUnsupportedMethods outp)) = {f \<in> set (cu_Failed outp). still_failed f}"
proof -
  define out where "out = fold skip_entry (zip (cu_Entries outp) (zip (cu_entryOperationIDs outp) (cu_entryTags outp)))
    (outp\<lparr>cu_Entries := [], cu_entryOperationIDs := [], cu_entryTags := []\<rparr>)"
  have f: "aligned out \<and> cu_Failed out = cu_Failed outp \<and>
      mset (cu_entryOperationIDs out) + mset (issue_ids (cu_Skipped out)) =
        mset (issue_ids (cu_Skipped outp)) + mset (cu_entryOperationIDs outp) \<and>
      set (cu_Entries out) = {e \<in> set (cu_Entries outp). en_Method e \<in> set supportedMethods}"
    using skip_entries_accounts [OF _ _ out_def] assms by (simp add: aligned_def)
  have s: "skipUnsupportedMethods outp = out\<lparr>cu_Failed := filter still_failed (cu_Failed outp),
      cu_Skipped := cu_Skipped out @ map (\<lambda>f. unsupportedMethodIssue (oi_Operation f)) (filter (\<lambda>f. \<not> still_failed f) (cu_Failed outp))\<rparr>"
    by (simp add: skipUnsupportedMethods_def out_def Let_def)
  from f show "aligned (skipUnsupportedMethods outp)" by (simp add: s aligned_def)
  from f show "set (cu_Entries (skipUnsupportedMethods outp)) = {e \<in> set (cu_Entries outp). en_Method e \<in> set supportedMethods}"
    by (simp add: s)
  show "set (cu_Failed (skipUnsupportedMethods outp)) = {f \<in> set (cu_Failed outp). still_failed f}" by (auto simp: s)
  have "accounted (skipUnsupportedMethods outp) =
      (mset (cu_entryOperationIDs out) + mset (issue_ids (cu_Skipped out))) +
      (mset (issue_ids (filter still_failed (cu_Failed outp))) + mset (issue_ids (filter (\<lambda>f. \<not> still_failed f) (cu_Failed outp))))"
    by (simp add: s accounted_def issue_ids_skipped)
  then show "accounted (skipUnsupportedMethods outp) = accounted outp"
    unfolding mset_issue_ids_split using f by (simp add: accounted_def)
qed

lemma post_process_accounts:
  assumes "aligned outp"
  shows "aligned (post_process input outp) \<and> accounted (post_process input outp) = accounted outp"
    and "\<And>e. e \<in> set (cu_Entries (post_process input outp)) \<Longrightarrow> en_Method e \<in> set supportedMethods"
    and "\<And>f. f \<in> set (cu_Failed (post_process input outp)) \<Longrightarrow> still_failed f"
proof -
  define pre where "pre = (\<lambda>outp. applyFieldOverrides (ci_Overrides input)
    ((case ci_URLTransform input of None \<Rightarrow> (\<lambda>outp. outp)
      | Some t \<Rightarrow> (\<lambda>outp. (applyURLTransform t outp)\<lparr>cu_Failed := transformIssuePaths t (cu_Failed outp)\<rparr>))
      (applyDefaultPolicyRef (Option.bind (ci_Defaults input) df_PolicyRef)
        (applyBackendDefaults (Option.bind (ci_Defaults input) df_Backend)
          (applyDefaults (Option.bind (ci_Defaults input) df_Endpoint) outp)))))"
  have "keeps_accounts (case ci_URLTransform input of None \<Rightarrow> (\<lambda>outp. outp)
      | Some t \<Rightarrow> (\<lambda>outp. (applyURLTransform t outp)\<lparr>cu_Failed := transformIssuePaths t (cu_Failed outp)\<rparr>))"
    by (cases "ci_URLTransform input") (simp_all add: keeps_id keeps_transform)
  with keeps_defaults keeps_overrides have "keeps_accounts pre" unfolding pre_def keeps_accounts_def by simp
  with assms have p: "aligned (pre outp)" "accounted (pre outp) = accounted outp" by (auto simp: keeps_accounts_def)
  have e: "post_process input outp = (skipUnsupportedMethods (pre outp))
      \<lparr>cu_Failed := sortIssues (cu_Failed (skipUnsupportedMethods (pre outp))),
       cu_Skipped := sortIssues (cu_Skipped (skipUnsupportedMethods (pre outp)))\<rparr>"
    by (cases "ci_URLTransform input") (simp_all add: post_process_def pre_def Let_def)
  note s = skipUnsupportedMethods_accounts [OF p(1)]
  have "mset (issue_ids (sortIssues is)) = mset (issue_ids is)" for "is" by (rule mset_issue_ids) (simp add: sortIssues_def)
  with s(1,2) p show "aligned (post_process input outp) \<and> accounted (post_process input outp) = accounted outp"
    by (simp add: e aligned_def accounted_def)
  show "en_Method x \<in> set supportedMethods" if "x \<in> set (cu_Entries (post_process input outp))" for x
    using that s(3) by (simp add: e)
  show "still_failed f" if "f \<in> set (cu_Failed (post_process input outp))" for f
    using that s(4) by (simp add: e sortIssues_def)
qed

end
