(* ===== verification/AutoOps.thy ===== *)
theory AutoOps
  imports AutoEval
begin

text \<open>
  What the evaluation of \<open>AutoEval\<close> promises: every operation of the document is accounted for once,
  an override is applied to exactly the operation it names or the sync is told, and operationIds
  and tags stay with their entries through the URL transform where its routes stay apart.
\<close>

section \<open>Every operation is accounted for\<close>


section \<open>Overrides\<close>

text \<open>One operationId indexed.\<close>

definition index_one :: "nat \<Rightarrow> string \<Rightarrow> (string, nat) gomap \<Rightarrow> (string, nat) gomap" where
  "index_one i opID index = (if opID = [] \<or> map_of index opID \<noteq> None then index else mput opID i index)"

lemma index_ids_Cons:
  "index_ids i (opID # ids) (index, counts) = index_ids (Suc i) ids (index_one i opID index, count_one opID counts)"
  by (auto simp: index_one_def count_one_def count_of_def)

lemma index_one_simps [simp]:
  "mwf index \<Longrightarrow> mwf (index_one i opID index)"
  "mwf index \<Longrightarrow> map_of (index_one i opID index) x = (if x = opID \<and> opID \<noteq> [] \<and> map_of index opID = None then Some i else map_of index x)"
  by (auto simp: index_one_def)

lemma count_one_simps [simp]:
  "mwf counts \<Longrightarrow> mwf (count_one opID counts)"
  "mwf counts \<Longrightarrow> count_of (count_one opID counts) x = count_of counts x + (if x = opID \<and> opID \<noteq> [] then 1 else 0)"
  by (auto simp: count_one_def count_of_def)

lemma index_ids_index:
  assumes "index_ids i ids (index, counts) = (index', counts')" and "map_of index' x = Some j" and "mwf index"
  shows "map_of index x = Some j \<or> (\<exists>n < length ids. j = i + n \<and> ids ! n = x)"
  using assms
proof (induction ids arbitrary: i index counts)
  case (Cons y ids)
  from Cons.IH [OF Cons.prems(1) [unfolded index_ids_Cons] Cons.prems(2)] Cons.prems(3)
  consider "map_of (index_one i y index) x = Some j" | n where "n < length ids" "j = Suc i + n" "ids ! n = x" by auto
  then show ?case
  proof cases
    case 1
    then show ?thesis using Cons.prems(3) by (auto split: if_splits)
  next
    case (2 n)
    then show ?thesis by (intro disjI2 exI [of _ "Suc n"]) simp
  qed
qed simp

lemma index_ids_found:
  assumes "index_ids i ids (index, counts) = (index', counts')" and "mwf index"
    and "map_of index x \<noteq> None \<or> x \<in> set ids \<and> x \<noteq> []"
  shows "map_of index' x \<noteq> None"
  using assms
proof (induction ids arbitrary: i index counts)
  case (Cons y ids)
  have "map_of (index_one i y index) x \<noteq> None \<or> x \<in> set ids \<and> x \<noteq> []" using Cons.prems(2,3) by auto
  then show ?case using Cons.IH [OF Cons.prems(1) [unfolded index_ids_Cons]] Cons.prems(2) by simp
qed simp

lemma index_ids_counts:
  assumes "index_ids i ids (index, counts) = (index', counts')" and "mwf counts"
  shows "mwf counts' \<and> count_of counts' x = count_of counts x + (if x = [] then 0 else count_list ids x)"
  using assms
proof (induction ids arbitrary: i index counts)
  case (Cons y ids)
  then show ?case using Cons.IH [OF Cons.prems(1) [unfolded index_ids_Cons]] by auto
qed simp

lemma failed_counts:
  "mwf counts \<Longrightarrow> count_of (fold (\<lambda>failed. count_one (opn_OperationID (oi_Operation failed))) fs counts) x =
   count_of counts x + (if x = [] then 0 else count_list (issue_ids fs) x)"
  by (induction fs arbitrary: counts) auto

lemma indexOverrideTargets_exact:
  assumes "indexOverrideTargets outp = (index, counts)"
  shows "x \<noteq> [] \<Longrightarrow> count_of counts x = count_list (cu_entryOperationIDs outp) x + count_list (issue_ids (cu_Failed outp)) x"
    and "map_of index x = Some j \<Longrightarrow> j < length (cu_entryOperationIDs outp) \<and> cu_entryOperationIDs outp ! j = x"
    and "x \<noteq> [] \<Longrightarrow> map_of index x = None \<Longrightarrow> x \<notin> set (cu_entryOperationIDs outp)"
proof -
  obtain counts0 where i: "index_ids 0 (cu_entryOperationIDs outp) ([], []) = (index, counts0)"
    and c: "counts = fold (\<lambda>failed. count_one (opn_OperationID (oi_Operation failed))) (cu_Failed outp) counts0"
    using assms by (auto simp: indexOverrideTargets_def split: prod.splits)
  show "count_of counts x = count_list (cu_entryOperationIDs outp) x + count_list (issue_ids (cu_Failed outp)) x" if "x \<noteq> []"
    using that index_ids_counts [OF i, of x] by (simp add: c failed_counts count_of_def [of "[]"])
  show "j < length (cu_entryOperationIDs outp) \<and> cu_entryOperationIDs outp ! j = x" if "map_of index x = Some j"
    using index_ids_index [OF i that] by auto
  show "x \<notin> set (cu_entryOperationIDs outp)" if "x \<noteq> []" "map_of index x = None"
    using index_ids_found [OF i, of x] that by auto
qed

lemma apply_override_grows:
  "\<exists>u a. cu_UnmatchedOverrides (apply_override index counts ov outp) = cu_UnmatchedOverrides outp @ u \<and>
     cu_AmbiguousOverrides (apply_override index counts ov outp) = cu_AmbiguousOverrides outp @ a"
  by (auto simp: apply_override_def applyOverrideToEntry_def Let_def split: option.splits prod.splits)

lemma overrides_grow:
  "\<exists>u a. cu_UnmatchedOverrides (fold (apply_override index counts) ovs outp) = cu_UnmatchedOverrides outp @ u \<and>
     cu_AmbiguousOverrides (fold (apply_override index counts) ovs outp) = cu_AmbiguousOverrides outp @ a"
proof (induction ovs arbitrary: outp)
  case (Cons ov ovs)
  obtain u a where 1: "cu_UnmatchedOverrides (apply_override index counts ov outp) = cu_UnmatchedOverrides outp @ u"
    "cu_AmbiguousOverrides (apply_override index counts ov outp) = cu_AmbiguousOverrides outp @ a"
    using apply_override_grows by blast
  from Cons.IH [of "apply_override index counts ov outp"] 1 show ?case by auto
qed simp

text \<open>One override of a pass that reports nothing.\<close>

lemma apply_override_clean:
  assumes "cu_UnmatchedOverrides (apply_override index counts ov outp) = []"
    and "cu_AmbiguousOverrides (apply_override index counts ov outp) = []"
  shows "count_of counts (ov_OperationID ov) \<le> 1"
    and "map_of index (ov_OperationID ov) = None \<Longrightarrow>
      count_of counts (ov_OperationID ov) = 1 \<and> cu_Entries (apply_override index counts ov outp) = cu_Entries outp"
    and "map_of index (ov_OperationID ov) = Some idx \<Longrightarrow>
      cu_Entries (apply_override index counts ov outp) = (cu_Entries outp)[idx := fst (overridden ov (cu_Entries outp ! idx))] \<and>
      snd (overridden ov (cu_Entries outp ! idx)) = []"
  using assms by (auto simp: apply_override_def applyOverrideToEntry_def Let_def split: if_splits option.splits prod.splits)

definition override_landed :: "(string, nat) gomap \<Rightarrow> (string, nat) gomap \<Rightarrow> OperationOverride \<Rightarrow> EndpointEntry list \<Rightarrow> EndpointEntry list \<Rightarrow> bool" where
  "override_landed index counts ov before after \<longleftrightarrow>
     count_of counts (ov_OperationID ov) \<le> 1 \<and>
     (case map_of index (ov_OperationID ov) of
        None \<Rightarrow> count_of counts (ov_OperationID ov) = 1
      | Some idx \<Rightarrow> idx < length before \<longrightarrow> after ! idx = fst (overridden ov (before ! idx)) \<and> snd (overridden ov (before ! idx)) = [])"

lemma overrides_landed:
  assumes "out = fold (apply_override index counts) ovs outp"
    and "cu_UnmatchedOverrides out = []" "cu_AmbiguousOverrides out = []"
    and "distinct (map ov_OperationID ovs)"
    and "\<And>a b j. map_of index a = Some j \<Longrightarrow> map_of index b = Some j \<Longrightarrow> a = b"
  shows "length (cu_Entries out) = length (cu_Entries outp) \<and>
    (\<forall>ov \<in> set ovs. override_landed index counts ov (cu_Entries outp) (cu_Entries out)) \<and>
    (\<forall>j. (\<forall>ov \<in> set ovs. map_of index (ov_OperationID ov) \<noteq> Some j) \<longrightarrow> cu_Entries out ! j = cu_Entries outp ! j)"
  using assms(1-4)
proof (induction ovs arbitrary: outp)
  case (Cons ov ovs)
  let ?mid = "apply_override index counts ov outp"
  have out: "out = fold (apply_override index counts) ovs ?mid" using Cons.prems(1) by simp
  obtain u a where "cu_UnmatchedOverrides out = cu_UnmatchedOverrides ?mid @ u" "cu_AmbiguousOverrides out = cu_AmbiguousOverrides ?mid @ a"
    using overrides_grow [of index counts ovs ?mid] out by blast
  with Cons.prems have "cu_UnmatchedOverrides ?mid = []" "cu_AmbiguousOverrides ?mid = []" by simp_all
  note mid = apply_override_clean [OF this]
  have IH: "length (cu_Entries out) = length (cu_Entries ?mid)"
    "\<And>o'. o' \<in> set ovs \<Longrightarrow> override_landed index counts o' (cu_Entries ?mid) (cu_Entries out)"
    "\<And>j. (\<forall>o' \<in> set ovs. map_of index (ov_OperationID o') \<noteq> Some j) \<Longrightarrow> cu_Entries out ! j = cu_Entries ?mid ! j"
    using Cons.IH [OF out Cons.prems(2,3)] Cons.prems(4) by simp_all
  have other: "map_of index (ov_OperationID o') \<noteq> Some j" if "o' \<in> set ovs" "map_of index (ov_OperationID ov) = Some j" for o' j
    using that assms(5) Cons.prems(4) by force
  show ?case
  proof (cases "map_of index (ov_OperationID ov)")
    case None
    with mid(2) have m: "cu_Entries ?mid = cu_Entries outp" by simp
    have "override_landed index counts ov (cu_Entries outp) (cu_Entries out)" using None mid(1,2) by (simp add: override_landed_def)
    with IH m show ?thesis by simp
  next
    case (Some idx)
    note m = mid(3) [OF Some]
    have here: "cu_Entries out ! idx = cu_Entries ?mid ! idx" using IH(3) other Some by blast
    show ?thesis
    proof (intro conjI ballI allI impI)
      show "length (cu_Entries out) = length (cu_Entries outp)" using IH(1) by (simp add: m)
    next
      fix o' assume "o' \<in> set (ov # ovs)"
      then consider "o' = ov" | "o' \<in> set ovs" by auto
      then show "override_landed index counts o' (cu_Entries outp) (cu_Entries out)"
      proof cases
        case 1
        with Some mid(1) m here show ?thesis by (simp add: override_landed_def)
      next
        case 2
        from IH(2) [OF 2] other [OF 2 Some] m show ?thesis by (auto simp: override_landed_def split: option.splits)
      qed
    next
      fix j assume a: "\<forall>o' \<in> set (ov # ovs). map_of index (ov_OperationID o') \<noteq> Some j"
      then have "j \<noteq> idx" using Some by auto
      then have "cu_Entries ?mid ! j = cu_Entries outp ! j" by (simp add: m)
      moreover have "cu_Entries out ! j = cu_Entries ?mid ! j" using a by (intro IH(3)) simp
      ultimately show "cu_Entries out ! j = cu_Entries outp ! j" by simp
    qed
  qed
qed simp

lemma count_list_one_index:
  assumes "count_list xs x \<le> 1" and "i < length xs" "xs ! i = x" and "j < length xs" "xs ! j = x"
  shows "i = j"
proof -
  have "card {k. k < length xs \<and> xs ! k = x} \<le> 1"
    using assms(1) by (simp add: count_list_eq_length_filter length_filter_conv_card eq_commute)
  moreover have "{i, j} \<subseteq> {k. k < length xs \<and> xs ! k = x}" using assms(2-5) by auto
  moreover have "finite {k. k < length xs \<and> xs ! k = x}" by simp
  ultimately have "card {i, j} \<le> 1" by (blast intro: le_trans [OF card_mono])
  then show ?thesis by (cases "i = j") auto
qed

text \<open>
  C15: an override is never dropped and never lands elsewhere. When the evaluation reports no
  unmatched and no ambiguous override, each override names an operationId that exactly one
  operation declares; if that is an entry, the entry is the override applied to it with every
  backend index in range; and an entry whose operationId no override names is left as it was.
\<close>

theorem applyFieldOverrides_fail_closed:
  assumes "aligned outp" and "out = applyFieldOverrides ovs outp"
    and "cu_UnmatchedOverrides out = []" and "cu_AmbiguousOverrides out = []"
    and "distinct (map ov_OperationID ovs)" and "[] \<notin> set (map ov_OperationID ovs)"
  shows "length (cu_Entries out) = length (cu_Entries outp) \<and>
    (\<forall>ov \<in> set ovs.
       count_list (cu_entryOperationIDs outp) (ov_OperationID ov) + count_list (issue_ids (cu_Failed outp)) (ov_OperationID ov) = 1) \<and>
    (\<forall>i < length (cu_Entries outp). \<forall>ov \<in> set ovs. cu_entryOperationIDs outp ! i = ov_OperationID ov \<longrightarrow>
       overridden ov (cu_Entries outp ! i) = (cu_Entries out ! i, [])) \<and>
    (\<forall>i < length (cu_Entries outp). cu_entryOperationIDs outp ! i \<notin> set (map ov_OperationID ovs) \<longrightarrow>
       cu_Entries out ! i = cu_Entries outp ! i)"
proof (cases "ovs = []")
  case True
  with assms(2) show ?thesis by (simp add: applyFieldOverrides_def)
next
  case False
  obtain index counts where ic: "indexOverrideTargets outp = (index, counts)" by force
  with False assms(2) have o: "out = fold (apply_override index counts) ovs outp" by (simp add: applyFieldOverrides_def)
  let ?ids = "cu_entryOperationIDs outp" and ?failed = "issue_ids (cu_Failed outp)"
  note x = indexOverrideTargets_exact [OF ic]
  have inj: "\<And>a b j. map_of index a = Some j \<Longrightarrow> map_of index b = Some j \<Longrightarrow> a = b" using x(2) by blast
  have len: "length ?ids = length (cu_Entries outp)" using assms(1) by (simp add: aligned_def)
  have L: "length (cu_Entries out) = length (cu_Entries outp)"
    and landed: "\<And>ov. ov \<in> set ovs \<Longrightarrow> override_landed index counts ov (cu_Entries outp) (cu_Entries out)"
    and same: "\<And>j. (\<forall>ov \<in> set ovs. map_of index (ov_OperationID ov) \<noteq> Some j) \<Longrightarrow> cu_Entries out ! j = cu_Entries outp ! j"
    using overrides_landed [OF o assms(3-5) inj] by simp_all
  have one: "count_list ?ids (ov_OperationID ov) + count_list ?failed (ov_OperationID ov) = 1" if "ov \<in> set ovs" for ov
  proof -
    have n: "ov_OperationID ov \<noteq> []" using assms(6) that by force
    show ?thesis
    proof (cases "map_of index (ov_OperationID ov)")
      case None
      with landed [OF that] x(1) [OF n] show ?thesis by (simp add: override_landed_def)
    next
      case (Some idx)
      from x(2) [OF Some] have "ov_OperationID ov \<in> set ?ids" by (metis nth_mem)
      then have "count_list ?ids (ov_OperationID ov) \<noteq> 0" by (simp add: count_list_0_iff)
      moreover have "count_of counts (ov_OperationID ov) \<le> 1" using landed [OF that] by (simp add: override_landed_def)
      ultimately show ?thesis using x(1) [OF n] by linarith
    qed
  qed
  have "overridden ov (cu_Entries outp ! i) = (cu_Entries out ! i, [])"
    if ov: "ov \<in> set ovs" and i: "i < length (cu_Entries outp)" "?ids ! i = ov_OperationID ov" for ov i
  proof -
    have n: "ov_OperationID ov \<noteq> []" using assms(6) ov by force
    from i len have "ov_OperationID ov \<in> set ?ids" by (metis nth_mem)
    with x(3) [OF n] obtain idx where idx: "map_of index (ov_OperationID ov) = Some idx" by blast
    have "idx = i" using count_list_one_index [of ?ids "ov_OperationID ov" idx i] one [OF ov] x(2) [OF idx] i len by simp
    with landed [OF ov] idx i(1) show ?thesis by (simp add: override_landed_def prod_eq_iff)
  qed
  moreover have "cu_Entries out ! i = cu_Entries outp ! i" if "?ids ! i \<notin> set (map ov_OperationID ovs)" for i
    using that x(2) by (intro same) force
  ultimately show ?thesis using L one by blast
qed

definition ex_override :: OperationOverride where
  "ex_override =
     \<lparr>ov_OperationID = ''getUser'', ov_Endpoint = [], ov_Method = [], ov_Timeout = Some 5, ov_CacheTTL = None, ov_OutputEncoding = [],
      ov_ConcurrentCalls = None, ov_InputHeaders = None, ov_InputQueryStrings = None, ov_PolicyRef = None, ov_ExtraConfig = None,
      ov_Backends = []\<rparr>"

definition ex_api_entry :: "string \<Rightarrow> EndpointEntry" where
  "ex_api_entry path =
     \<lparr>en_Endpoint = path, en_Method = ''GET'', en_Backends = [], en_Timeout = None, en_CacheTTL = None, en_InputHeaders = None,
      en_InputQueryStrings = None, en_OutputEncoding = [], en_ConcurrentCalls = None, en_ExtraConfig = None\<rparr>"

definition ex_users :: CUEOutput where
  "ex_users = empty_output\<lparr>cu_Entries := [ex_api_entry ''/users'', ex_api_entry ''/user''],
     cu_OperationIDs := [(''/user:GET'', ''getUser''), (''/users:GET'', ''listUsers'')],
     cu_entryOperationIDs := [''listUsers'', ''getUser''], cu_entryTags := [[], []]\<rparr>"

theorem applyFieldOverrides_fail_closed_witness:
  "cu_Entries (applyFieldOverrides [ex_override] ex_users) = [ex_api_entry ''/users'', (ex_api_entry ''/user'')\<lparr>en_Timeout := Some 5\<rparr>]"
proof -
  let ?out = "applyFieldOverrides [ex_override] ex_users"
  have h: "aligned ex_users" "cu_UnmatchedOverrides ?out = []" "cu_AmbiguousOverrides ?out = []"
    "distinct (map ov_OperationID [ex_override])" "[] \<notin> set (map ov_OperationID [ex_override])"
    by (code_simp+)
  have c: "length (cu_Entries ex_users) = 2" "cu_entryOperationIDs ex_users ! 1 = ov_OperationID ex_override"
    "cu_entryOperationIDs ex_users ! 0 \<notin> set (map ov_OperationID [ex_override])"
    "cu_Entries ex_users ! 0 = ex_api_entry ''/users''"
    "fst (overridden ex_override (cu_Entries ex_users ! 1)) = (ex_api_entry ''/user'')\<lparr>en_Timeout := Some 5\<rparr>"
    by (code_simp+)
  note r = applyFieldOverrides_fail_closed [OF h(1) refl h(2-5), unfolded c(1)]
  from r c(2) have "overridden ex_override (cu_Entries ex_users ! 1) = (cu_Entries ?out ! 1, [])" by simp
  with c(5) have 1: "cu_Entries ?out ! 1 = (ex_api_entry ''/user'')\<lparr>en_Timeout := Some 5\<rparr>" by simp
  from r c(3,4) have 0: "cu_Entries ?out ! 0 = ex_api_entry ''/users''" by simp
  from r have "length (cu_Entries ?out) = 2" by simp
  then obtain x y where "cu_Entries ?out = [x, y]" by (auto simp: numeral_2_eq_2 length_Suc_conv)
  with 0 1 show ?thesis by simp
qed

section \<open>The URL transform\<close>

text \<open>
  The keys move one after the other, each in the map the earlier moves left: they must not move onto
  a key that still waits to be moved.
\<close>

fun moves_apart :: "(string \<times> string) list \<Rightarrow> bool" where
  "moves_apart [] = True"
| "moves_apart ((old, new) # moves) = (new \<notin> set (map fst moves) \<and> moves_apart moves)"

definition move_keys :: "(string \<times> string) list \<Rightarrow> (string, 'v) gomap \<Rightarrow> (string, 'v) gomap" where
  "move_keys moves m = fold (\<lambda>(old, new). move_key old new) moves m"

lemma map_of_move_key:
  "mwf m \<Longrightarrow> mwf (move_key old new m) \<and>
   map_of (move_key old new m) x =
     (if old = new \<or> map_of m old = None then map_of m x
      else if x = new then map_of m old else if x = old then None else map_of m x)"
  by (auto simp: move_key_def split: option.splits)

lemma move_keys_other:
  "mwf m \<Longrightarrow> x \<notin> set (map fst moves) \<Longrightarrow> x \<notin> set (map snd moves) \<Longrightarrow> map_of (move_keys moves m) x = map_of m x"
proof (induction moves arbitrary: m)
  case (Cons p moves)
  obtain old new where p: "p = (old, new)" by force
  note k = map_of_move_key [OF Cons.prems(1), of old new x]
  have "map_of (move_keys moves (move_key old new m)) x = map_of (move_key old new m) x"
    using Cons p k by (intro Cons.IH) auto
  with k Cons.prems p show ?case by (auto simp: move_keys_def)
qed (simp add: move_keys_def)

lemma move_keys_moves:
  assumes "mwf m" and "distinct (map fst moves)" and "distinct (map snd moves)" and "moves_apart moves"
    and "\<And>new. new \<in> set (map snd moves) \<Longrightarrow> map_of m new \<noteq> None \<Longrightarrow> new \<in> set (map fst moves)"
    and "(old, new) \<in> set moves"
  shows "map_of (move_keys moves m) new = map_of m old"
  using assms
proof (induction moves arbitrary: m)
  case (Cons p moves)
  obtain old1 new1 where p: "p = (old1, new1)" by force
  let ?m = "move_key old1 new1 m"
  note k = map_of_move_key [OF Cons.prems(1), of old1 new1]
  have step: "move_keys (p # moves) m = move_keys moves ?m" by (simp add: move_keys_def p)
  show ?case
  proof (cases "(old, new) = p")
    case True
    with Cons.prems(2-4) p have "new \<notin> set (map fst moves)" "new \<notin> set (map snd moves)" by auto
    moreover have "map_of ?m new = map_of m old" using k [of new] Cons.prems(5) [of new] True p calculation by (cases "old = new") auto
    ultimately show ?thesis using move_keys_other [of ?m new moves] k [of new] by (simp only: step simp_thms)
  next
    case False
    with Cons.prems(6) have i: "(old, new) \<in> set moves" by simp
    then have o: "old \<in> set (map fst moves)" "new \<in> set (map snd moves)" by (auto simp: rev_image_eqI)
    have "map_of (move_keys moves ?m) new = map_of ?m old"
    proof (rule Cons.IH [OF _ _ _ _ _ i])
      fix n assume n: "n \<in> set (map snd moves)" "map_of ?m n \<noteq> None"
      with Cons.prems(3) p have "n \<noteq> new1" by auto
      with n k [of n] have "map_of m n \<noteq> None" "n \<noteq> old1" by (auto split: if_splits)
      with Cons.prems(5) [of n] n p show "n \<in> set (map fst moves)" by auto
    qed (use Cons.prems p k in auto)
    moreover have "map_of ?m old = map_of m old" using k [of old] o Cons.prems(2,4) p by auto
    ultimately show ?thesis using step by simp
  qed
qed simp

definition moves_of :: "URLTransformSpec \<Rightarrow> EndpointEntry list \<Rightarrow> (string \<times> string) list" where
  "moves_of t entries = map (\<lambda>e. (entryKey e, entryKey (applyURLTransformToEntry t e))) entries"

lemma fold_rekey:
  "cu_OperationIDs (fold (\<lambda>e. rekey (entryKey e) (entryKey (applyURLTransformToEntry t e))) es outp) =
     move_keys (moves_of t es) (cu_OperationIDs outp)"
  "cu_Tags (fold (\<lambda>e. rekey (entryKey e) (entryKey (applyURLTransformToEntry t e))) es outp) =
     move_keys (moves_of t es) (cu_Tags outp)"
  by (induction es arbitrary: outp) (simp_all add: moves_of_def move_keys_def rekey_def)

lemma key_in: "map_of m n \<noteq> None \<Longrightarrow> n \<in> set (mkeys m)"
  by (simp add: mkeys_def map_of_eq_None_iff)


definition ex_transform :: "string \<Rightarrow> URLTransformSpec" where
  "ex_transform prefix = \<lparr>ut_HostMapping = [], ut_StripPathPrefix = [], ut_AddPathPrefix = prefix\<rparr>"


text \<open>
  Where a route moves onto one still to be moved, operationIds change hands although old and new
  routes are all distinct: with the prefix \<^verbatim>\<open>/api\<close>, the operation \<^verbatim>\<open>/x\<close> takes the key of \<^verbatim>\<open>/api/x\<close>,
  whose operationId is lost, and \<^verbatim>\<open>/api/x\<close> carries the operationId of \<^verbatim>\<open>/x\<close> on to \<^verbatim>\<open>/api/api/x\<close>.
\<close>

definition ex_nested :: CUEOutput where
  "ex_nested = empty_output\<lparr>cu_Entries := [ex_api_entry ''/x'', ex_api_entry ''/api/x''],
     cu_OperationIDs := [(''/api/x:GET'', ''inner''), (''/x:GET'', ''outer'')],
     cu_entryOperationIDs := [''outer'', ''inner''], cu_entryTags := [[], []]\<rparr>"

lemma applyURLTransform_swaps_ids:
  "map entryKey (cu_Entries (applyURLTransform (ex_transform ''/api'') ex_nested)) = [''/api/x:GET'', ''/api/api/x:GET''] \<and>
   cu_entryOperationIDs (applyURLTransform (ex_transform ''/api'') ex_nested) = [''outer'', ''inner''] \<and>
   cu_OperationIDs (applyURLTransform (ex_transform ''/api'') ex_nested) = [(''/api/api/x:GET'', ''outer'')]"
  by code_simp

section \<open>A small library\<close>

text \<open>A library whose values are the fields of \<^verbatim>\<open>endpoint\<close>: one healthy operation and one that fails validation.\<close>

definition ex_field :: "string \<Rightarrow> string \<Rightarrow> string option \<Rightarrow> cueField" where
  "ex_field key opID err =
     \<lparr>cfd_Selector = key, cfd_Unquoted = key, cfd_endpoint = None, cfd_method = None, cfd_operationId = Some opID, cfd_tags = None,
      cfd_Validate = err, cfd_MarshalJSON = Inr key\<rparr>"

definition ex_cue :: "cueField list cue_lib" where
  "ex_cue =
     \<lparr>cl_Compile = (\<lambda>text filename. if filename = ''defs.cue'' then [ex_field ''/a:GET'' ''getA'' None, ex_field ''/b:GET'' ''getB'' (Some ''bad'')] else []),
      cl_Unify = (@), cl_Exists = (\<lambda>v. v \<noteq> []), cl_Errors = (\<lambda>_. []), cl_Fields = Inr, cl_YAMLToJSON = Inr, cl_validJSON = (\<lambda>_. True),
      cl_decodeEntry = (\<lambda>key. case cut_last key of None \<Rightarrow> Inl key | Some (p, v) \<Rightarrow> Inr ((ex_api_entry p)\<lparr>en_Method := v\<rparr>)),
      cl_raw = (\<lambda>_. [])\<rparr>"

definition ex_input :: CUEInput where
  "ex_input =
     \<lparr>ci_SpecData = ''{}'', ci_SpecFormat = SpecFormatJSON, ci_DefaultDefs = [(''defs.cue'', [])], ci_CustomDefs = [], ci_Defaults = None,
      ci_Overrides = [], ci_URLTransform = None, ci_Environment = [], ci_ServiceName = ''_spec'', ci_DefaultHost = []\<rparr>"

definition ex_evaluated :: CUEOutput where
  "ex_evaluated = empty_output\<lparr>cu_Entries := [ex_api_entry ''/a''], cu_OperationIDs := [(''/a:GET'', ''getA'')],
     cu_Failed := [\<lparr>oi_Operation = \<lparr>opn_Method = ''GET'', opn_Path = ''/b'', opn_OperationID = ''getB'', opn_Tags = []\<rparr>,
       oi_Reason = ''CUEEvaluationFailed'', oi_Message = ''bad'', oi_methodKnown = False\<rparr>],
     cu_entryOperationIDs := [''getA''], cu_entryTags := [[]]\<rparr>"


end
