(* ===== verification/AutoGen.thy ===== *)
theory AutoGen
  imports AutoEval
begin

text \<open>
  From the evaluated entries to KrakenDEndpoint resources: the include and exclude rules
  (\<^verbatim>\<open>internal/autoconfig/filter.go\<close>), the endpoints a user adds by hand (\<^verbatim>\<open>additional.go\<close>) and the
  generator (\<^verbatim>\<open>generator.go\<close>).
\<close>

section \<open>Filter\<close>

definition matchGlob :: "string \<Rightarrow> string \<Rightarrow> bool" where
  "matchGlob path pattern =
     (if HasSuffix pattern ''/*''
      then (let prefix = TrimSuffix pattern ''/*'' in HasPrefix path (prefix @ ''/'') \<or> path = prefix)
      else path = pattern)"

definition matchesAnyPattern :: "string \<Rightarrow> string list \<Rightarrow> bool" where
  "matchesAnyPattern path patterns = list_ex (matchGlob path) patterns"

definition hasAnyTag :: "string list \<Rightarrow> string list \<Rightarrow> bool" where
  "hasAnyTag entryTags filterTags = list_ex (\<lambda>t. t \<in> set entryTags) filterTags"

definition containsString :: "string list \<Rightarrow> string \<Rightarrow> bool" where
  "containsString slice s = list_ex (\<lambda>v. EqualFold v s) slice"

definition containsExact :: "string list \<Rightarrow> string \<Rightarrow> bool" where
  "containsExact slice s = list_ex (\<lambda>v. v = s) slice"

definition matchesInclude :: "EndpointEntry \<Rightarrow> string list \<Rightarrow> FilterSpec \<Rightarrow> bool" where
  "matchesInclude entry entryTags spec \<longleftrightarrow>
     (fs_IncludePaths spec = [] \<or> matchesAnyPattern (en_Endpoint entry) (fs_IncludePaths spec)) \<and>
     (fs_IncludeTags spec = [] \<or> hasAnyTag entryTags (fs_IncludeTags spec)) \<and>
     (fs_IncludeMethods spec = [] \<or> containsString (fs_IncludeMethods spec) (en_Method entry))"

definition matchesExclude :: "EndpointEntry \<Rightarrow> string list \<Rightarrow> string \<Rightarrow> FilterSpec \<Rightarrow> bool" where
  "matchesExclude entry entryTags operationID spec \<longleftrightarrow>
     matchesAnyPattern (en_Endpoint entry) (fs_ExcludePaths spec) \<or> hasAnyTag entryTags (fs_ExcludeTags spec) \<or>
     operationID \<noteq> [] \<and> containsExact (fs_ExcludeOperationIds spec) operationID"

text \<open>A missing key of a map of strings reads as the empty string.\<close>

definition id_at :: "(string, string) gomap \<Rightarrow> string \<Rightarrow> string" where
  "id_at m k = (case map_of m k of None \<Rightarrow> [] | Some v \<Rightarrow> v)"

definition filter_keeps :: "(string, string list) gomap \<Rightarrow> (string, string) gomap \<Rightarrow> FilterSpec \<Rightarrow> EndpointEntry \<Rightarrow> bool" where
  "filter_keeps tags operationIDs spec entry \<longleftrightarrow>
     matchesInclude entry (mlist tags (entryKey entry)) spec \<and>
     \<not> matchesExclude entry (mlist tags (entryKey entry)) (id_at operationIDs (entryKey entry)) spec"

definition Filter_Apply ::
  "EndpointEntry list \<Rightarrow> (string, string list) gomap \<Rightarrow> (string, string) gomap \<Rightarrow> FilterSpec \<Rightarrow> EndpointEntry list" where
  "Filter_Apply entries tags operationIDs spec =
     (if fs_IncludePaths spec = [] \<and> fs_ExcludePaths spec = [] \<and> fs_IncludeTags spec = [] \<and> fs_ExcludeTags spec = [] \<and>
         fs_IncludeMethods spec = [] \<and> fs_ExcludeOperationIds spec = []
      then entries
      else filter (filter_keeps tags operationIDs spec) entries)"

text \<open>The shortcut for an empty specification agrees with the rules.\<close>

lemma Filter_Apply_filter: "Filter_Apply entries tags operationIDs spec = filter (filter_keeps tags operationIDs spec) entries"
proof -
  have "filter_keeps tags operationIDs spec e"
    if "fs_IncludePaths spec = []" "fs_ExcludePaths spec = []" "fs_IncludeTags spec = []" "fs_ExcludeTags spec = []"
      "fs_IncludeMethods spec = []" "fs_ExcludeOperationIds spec = []" for e
    using that by (simp add: filter_keeps_def matchesInclude_def matchesExclude_def matchesAnyPattern_def hasAnyTag_def containsExact_def)
  then show ?thesis by (auto simp: Filter_Apply_def filter_True [symmetric])
qed

section \<open>Additional endpoints\<close>

definition inheritBackend :: "Defaults \<Rightarrow> BackendSpec \<Rightarrow> BackendSpec" where
  "inheritBackend defaults b =
     (let b1 = (case df_Backend defaults of None \<Rightarrow> b | Some d \<Rightarrow> applyBackendDefaultsToBackend d b)
      in case df_PolicyRef defaults of None \<Rightarrow> b1 | Some ref \<Rightarrow> setPolicyRef ref b1)"

definition inheritFields :: "EndpointDefaults \<Rightarrow> EndpointEntry \<Rightarrow> EndpointEntry" where
  "inheritFields e entry =
     entry\<lparr>en_Timeout := (if en_Timeout entry = None then ed_Timeout e else en_Timeout entry),
       en_CacheTTL := (if en_CacheTTL entry = None then ed_CacheTTL e else en_CacheTTL entry),
       en_OutputEncoding := (if en_OutputEncoding entry = [] then ed_OutputEncoding e else en_OutputEncoding entry),
       en_ConcurrentCalls := (if en_ConcurrentCalls entry = None then ed_ConcurrentCalls e else en_ConcurrentCalls entry),
       en_InputHeaders := (if en_InputHeaders entry = None then ed_InputHeaders e else en_InputHeaders entry),
       en_InputQueryStrings := (if en_InputQueryStrings entry = None then ed_InputQueryStrings e else en_InputQueryStrings entry),
       en_ExtraConfig := (if ed_ExtraConfig e \<noteq> None then mergeExtraConfig (ed_ExtraConfig e) (en_ExtraConfig entry)
                          else en_ExtraConfig entry)\<rparr>"

definition inheritDefaults :: "Defaults \<Rightarrow> EndpointEntry \<Rightarrow> EndpointEntry" where
  "inheritDefaults defaults entry =
     on_backends (inheritBackend defaults) (case df_Endpoint defaults of None \<Rightarrow> entry | Some e \<Rightarrow> inheritFields e entry)"

definition simple_backend :: "string \<Rightarrow> string \<Rightarrow> string \<Rightarrow> string \<Rightarrow> BackendSpec" where
  "simple_backend host urlPattern verb encoding =
     \<lparr>be_Host = [host], be_URLPattern = urlPattern, be_Method = verb, be_Encoding = encoding, be_SD = [], be_SDScheme = [],
      be_DisableHostSanitize = None, be_InputHeaders = [], be_InputQueryStrings = [], be_Allow = [], be_Deny = [], be_Group = [],
      be_Target = [], be_IsCollection = None, be_Mapping = [], be_PolicyRef = None, be_ExtraConfig = None\<rparr>"

definition additional_entry :: "Defaults option \<Rightarrow> string \<Rightarrow> AdditionalEndpoint \<Rightarrow> EndpointEntry" where
  "additional_entry defaults defaultHost s =
     (let verb = (if ae_Method s = [] then ''GET'' else ae_Method s);
          entry =
            \<lparr>en_Endpoint = ae_Endpoint s, en_Method = verb,
             en_Backends =
               (if ae_Backends s \<noteq> [] then ae_Backends s
                else [simple_backend (if ae_Host s = [] then defaultHost else ae_Host s)
                        (if ae_BackendURLPattern s = [] then ae_Endpoint s else ae_BackendURLPattern s) verb (ae_Encoding s)]),
             en_Timeout = ae_Timeout s, en_CacheTTL = ae_CacheTTL s, en_InputHeaders = ae_InputHeaders s,
             en_InputQueryStrings = ae_InputQueryStrings s,
             en_OutputEncoding =
               (if ae_Backends s = [] \<and> ae_Encoding s = ''no-op'' \<and> ae_OutputEncoding s = [] then ''no-op'' else ae_OutputEncoding s),
             en_ConcurrentCalls = ae_ConcurrentCalls s, en_ExtraConfig = ae_ExtraConfig s\<rparr>
      in case defaults of
           Some d \<Rightarrow> if ae_InheritDefaults s = Some True then inheritDefaults d entry else entry
         | None \<Rightarrow> entry)"

definition BuildAdditionalEntries :: "AdditionalEndpoint list \<Rightarrow> Defaults option \<Rightarrow> string \<Rightarrow> EndpointEntry list" where
  "BuildAdditionalEntries specs defaults defaultHost = map (additional_entry defaults defaultHost) specs"

text \<open>The entries so far, the position of each key, and the keys replaced.\<close>

definition merge_additional ::
  "EndpointEntry \<Rightarrow> EndpointEntry list \<times> (string, nat) gomap \<times> string list \<Rightarrow> EndpointEntry list \<times> (string, nat) gomap \<times> string list" where
  "merge_additional a = (\<lambda>(combined, index, replaced).
     case map_of index (entryKey a) of
       Some i \<Rightarrow> (combined[i := a], index, replaced @ [entryKey a])
     | None \<Rightarrow> (combined @ [a], mput (entryKey a) (length combined) index, replaced))"

definition index_entries :: "EndpointEntry list \<Rightarrow> (string, nat) gomap" where
  "index_entries entries = fold (\<lambda>(i, e). mput (entryKey e) i) (enumerate 0 entries) []"

definition MergeAdditional :: "EndpointEntry list \<Rightarrow> EndpointEntry list \<Rightarrow> EndpointEntry list \<times> string list" where
  "MergeAdditional base additional =
     (if additional = [] then (base, [])
      else (case fold merge_additional additional (base, index_entries base, []) of (combined, _, replaced) \<Rightarrow> (combined, replaced)))"

definition parentSegments :: "string \<Rightarrow> string list" where
  "parentSegments path = butlast (filter (\<lambda>s. s \<noteq> []) (SplitChar (CHR ''/'') path))"

fun commonSegmentPrefix :: "string list \<Rightarrow> string list \<Rightarrow> string list" where
  "commonSegmentPrefix (x # xs) (y # ys) = (if x = y then x # commonSegmentPrefix xs ys else [])"
| "commonSegmentPrefix _ _ = []"

fun common_parent :: "string list \<Rightarrow> EndpointEntry list \<Rightarrow> string list" where
  "common_parent common [] = common"
| "common_parent common (e # es) =
     (let c = commonSegmentPrefix common (parentSegments (en_Endpoint e)) in if c = [] then [] else common_parent c es)"

definition DeriveBasePath :: "EndpointEntry list \<Rightarrow> string" where
  "DeriveBasePath entries =
     (case entries of
        [] \<Rightarrow> []
      | e # es \<Rightarrow>
          (let common = common_parent (parentSegments (en_Endpoint e)) es
           in if common = [] then [] else ''/'' @ Join common ''/''))"

definition scope_entry :: "string \<Rightarrow> EndpointEntry \<Rightarrow> EndpointEntry" where
  "scope_entry base e =
     (if en_Endpoint e = base \<or> HasPrefix (en_Endpoint e) (base @ ''/'') then e else e\<lparr>en_Endpoint := base @ en_Endpoint e\<rparr>)"

definition ScopeAdditionalEntries :: "EndpointEntry list \<Rightarrow> string \<Rightarrow> EndpointEntry list" where
  "ScopeAdditionalEntries additional base = (if base = [] then additional else map (scope_entry base) additional)"

section \<open>Generator\<close>

definition LabelAutoConfig :: string where
  "LabelAutoConfig = ''gateway.krakend.io/autoconfig''"

definition LabelAutoGenerated :: string where
  "LabelAutoGenerated = ''gateway.krakend.io/auto-generated''"

definition maxNameLength :: nat where
  "maxNameLength = 253"

definition limitName :: "string \<Rightarrow> string" where
  "limitName name = rev (dropWhile (\<lambda>c. c = CHR ''-'') (rev (if length name > maxNameLength then take maxNameLength name else name)))"

definition sanitizePath :: "string \<Rightarrow> string" where
  "sanitizePath path =
     trim_both (\<lambda>c. c = CHR ''-'') (filter name_char (ReplaceAll (ToLower (TrimPrefix path ''/'')) ''/'' ''-''))"

definition OperationEndpointName :: "string \<Rightarrow> string \<Rightarrow> string" where
  "OperationEndpointName autoconfigName operationID = limitName (autoconfigName @ ''-'' @ SanitizeName operationID)"

definition endpointName :: "string \<Rightarrow> string \<Rightarrow> string \<Rightarrow> string \<Rightarrow> string" where
  "endpointName autoconfigName operationID verb path =
     (if operationID \<noteq> [] then OperationEndpointName autoconfigName operationID
      else limitName (autoconfigName @ ''-'' @ ToLower verb @ ''-'' @ sanitizePath path))"

definition duplicateOf ::
  "string \<Rightarrow> string \<Rightarrow> string \<Rightarrow> (string, string) gomap \<Rightarrow> (string, string) gomap \<Rightarrow> (string, string) gomap \<Rightarrow> string" where
  "duplicateOf key opID name seenKeys seenOperationIDs seenNames =
     (case map_of seenKeys key of
        Some by_op \<Rightarrow> ''same path and method as '' @ by_op
      | None \<Rightarrow>
          (case (if opID \<noteq> [] then map_of seenOperationIDs opID else None) of
             Some by_op \<Rightarrow> ''operationId '' @ Quote opID @ '' is already used by '' @ by_op
           | None \<Rightarrow>
               (case map_of seenNames name of
                  Some by_op \<Rightarrow> ''endpoint name '' @ Quote name @ '' is already used by '' @ by_op
                | None \<Rightarrow> [])))"

record GenerateInput =
  gi_AutoConfig :: KrakenDAutoConfig
  gi_Entries :: "EndpointEntry list"
  gi_OperationIDs :: "(string, string) gomap"
  gi_GatewayRef :: GatewayRef
  gi_ComponentSchemas :: schemas

record GenerateOutput =
  go_Endpoints :: "KrakenDEndpoint list"
  go_Skipped :: "OperationIssue list"
  go_Warnings :: "string list"

record genState =
  gn_seenKeys :: "(string, string) gomap"
  gn_seenOperationIDs :: "(string, string) gomap"
  gn_seenNames :: "(string, string) gomap"
  gn_missingSchemas :: "(string, string) gomap"
  gn_Endpoints :: "KrakenDEndpoint list"
  gn_Skipped :: "OperationIssue list"

definition operationOf :: "EndpointEntry \<Rightarrow> string" where
  "operationOf entry = en_Method entry @ '' '' @ en_Endpoint entry"

definition generatedLabels :: "KrakenDAutoConfig \<Rightarrow> (string, string) gomap" where
  "generatedLabels ac = mput LabelAutoGenerated ''true'' (mput LabelAutoConfig (au_Name ac) [])"

definition generated :: "GenerateInput \<Rightarrow> string \<Rightarrow> EndpointEntry \<Rightarrow> schemas \<Rightarrow> KrakenDEndpoint" where
  "generated input name entry closure =
     \<lparr>ep_Name = name, ep_Namespace = au_Namespace (gi_AutoConfig input), ep_UID = [], ep_ResourceVersion = [],
      ep_Labels = generatedLabels (gi_AutoConfig input), ep_Controller = None, ep_Deleting = False,
      ep_Generation = 0, ep_CreationTimestamp = 0,
      ep_Spec = \<lparr>es_GatewayRef = gi_GatewayRef input, es_Endpoints = [entry], es_ComponentSchemas = closure\<rparr>,
      ep_Status = zero_endpoint_status\<rparr>"

text \<open>The first use of a reference is the one reported.\<close>

definition note_missing :: "string \<Rightarrow> string list \<Rightarrow> (string, string) gomap \<Rightarrow> (string, string) gomap" where
  "note_missing op missing m = fold (\<lambda>ref m. if map_of m ref = None then mput ref op m else m) missing m"

definition entry_id :: "GenerateInput \<Rightarrow> EndpointEntry \<Rightarrow> string" where
  "entry_id input entry = id_at (gi_OperationIDs input) (entryKey entry)"

definition entry_name :: "GenerateInput \<Rightarrow> EndpointEntry \<Rightarrow> string" where
  "entry_name input entry =
     endpointName (au_Name (gi_AutoConfig input)) (entry_id input entry) (en_Method entry) (en_Endpoint entry)"

definition generate_entry :: "(string \<Rightarrow> json option) \<Rightarrow> GenerateInput \<Rightarrow> EndpointEntry \<Rightarrow> genState \<Rightarrow> genState" where
  "generate_entry decode64 input entry st =
     (let key = entryKey entry; opID = entry_id input entry; name = entry_name input entry; op = operationOf entry;
          dup = duplicateOf key opID name (gn_seenKeys st) (gn_seenOperationIDs st) (gn_seenNames st)
      in if dup \<noteq> []
         then st\<lparr>gn_Skipped := gn_Skipped st @
                [\<lparr>oi_Operation = \<lparr>opn_Method = en_Method entry, opn_Path = en_Endpoint entry, opn_OperationID = opID, opn_Tags = []\<rparr>,
                  oi_Reason = ''DuplicateOperationId'', oi_Message = dup, oi_methodKnown = False\<rparr>]\<rparr>
         else (case SchemaClosure decode64 entry (gi_ComponentSchemas input) of
                 (closure, missing) \<Rightarrow>
                   st\<lparr>gn_seenKeys := mput key op (gn_seenKeys st),
                      gn_seenOperationIDs := put_if (opID \<noteq> []) opID op (gn_seenOperationIDs st),
                      gn_seenNames := mput name op (gn_seenNames st),
                      gn_missingSchemas := note_missing op missing (gn_missingSchemas st),
                      gn_Endpoints := gn_Endpoints st @ [generated input name entry closure]\<rparr>))"

definition Generate :: "(string \<Rightarrow> json option) \<Rightarrow> GenerateInput \<Rightarrow> GenerateOutput" where
  "Generate decode64 input =
     (let st = fold (generate_entry decode64 input) (gi_Entries input)
                 \<lparr>gn_seenKeys = [], gn_seenOperationIDs = [], gn_seenNames = [], gn_missingSchemas = [], gn_Endpoints = [], gn_Skipped = []\<rparr>
      in \<lparr>go_Endpoints = gn_Endpoints st, go_Skipped = gn_Skipped st,
          go_Warnings = map (\<lambda>(ref, op). ''schema reference '' @ Quote ref @ '' (first used by '' @ op @ '') is not defined in components/schemas'')
                          (gn_missingSchemas st)\<rparr>)"

section \<open>What is generated\<close>

text \<open>Two entries that cannot both have an endpoint: the same route, operationId or endpoint name.\<close>

definition clashes :: "GenerateInput \<Rightarrow> EndpointEntry \<Rightarrow> EndpointEntry \<Rightarrow> bool" where
  "clashes input e k \<longleftrightarrow>
     entryKey e = entryKey k \<or> entry_id input e \<noteq> [] \<and> entry_id input e = entry_id input k \<or> entry_name input e = entry_name input k"

definition claim :: "GenerateInput \<Rightarrow> EndpointEntry \<Rightarrow> EndpointEntry list \<times> EndpointEntry list \<Rightarrow> EndpointEntry list \<times> EndpointEntry list" where
  "claim input e = (\<lambda>(kept, dropped). if list_ex (clashes input e) kept then (kept, dropped @ [e]) else (kept @ [e], dropped))"

definition first_claims :: "GenerateInput \<Rightarrow> EndpointEntry list \<times> EndpointEntry list" where
  "first_claims input = fold (claim input) (gi_Entries input) ([], [])"

definition endpoint_for :: "(string \<Rightarrow> json option) \<Rightarrow> GenerateInput \<Rightarrow> EndpointEntry \<Rightarrow> KrakenDEndpoint" where
  "endpoint_for decode64 input e =
     generated input (entry_name input e) e (fst (SchemaClosure decode64 e (gi_ComponentSchemas input)))"

definition gen_inv :: "(string \<Rightarrow> json option) \<Rightarrow> GenerateInput \<Rightarrow> EndpointEntry list \<times> EndpointEntry list \<Rightarrow> genState \<Rightarrow> bool" where
  "gen_inv decode64 input kd st \<longleftrightarrow>
     mwf (gn_seenKeys st) \<and> mwf (gn_seenOperationIDs st) \<and> mwf (gn_seenNames st) \<and>
     dom (map_of (gn_seenKeys st)) = entryKey ` set (fst kd) \<and>
     dom (map_of (gn_seenOperationIDs st)) = entry_id input ` set (fst kd) - {[]} \<and>
     dom (map_of (gn_seenNames st)) = entry_name input ` set (fst kd) \<and>
     gn_Endpoints st = map (endpoint_for decode64 input) (fst kd) \<and>
     map (\<lambda>i. (opn_Method (oi_Operation i), opn_Path (oi_Operation i))) (gn_Skipped st) =
       map (\<lambda>e. (en_Method e, en_Endpoint e)) (snd kd)"

lemma duplicateOf_Nil_iff:
  "duplicateOf key opID name ks os ns = [] \<longleftrightarrow>
     key \<notin> dom (map_of ks) \<and> opID \<notin> dom (map_of os) - {[]} \<and> name \<notin> dom (map_of ns)"
  by (auto simp: duplicateOf_def dom_def split: option.splits)

lemma gen_inv_duplicate:
  assumes "gen_inv decode64 input kd st"
  shows "duplicateOf (entryKey e) (entry_id input e) (entry_name input e) (gn_seenKeys st) (gn_seenOperationIDs st) (gn_seenNames st) \<noteq> [] \<longleftrightarrow>
    list_ex (clashes input e) (fst kd)"
proof -
  have d: "dom (map_of (gn_seenKeys st)) = entryKey ` set (fst kd)"
    "dom (map_of (gn_seenOperationIDs st)) = entry_id input ` set (fst kd) - {[]}"
    "dom (map_of (gn_seenNames st)) = entry_name input ` set (fst kd)"
    using assms by (simp_all add: gen_inv_def)
  show ?thesis unfolding duplicateOf_Nil_iff d by (auto simp: list_ex_iff clashes_def)
qed

lemma generate_entry_inv:
  assumes "gen_inv decode64 input kd st"
  shows "gen_inv decode64 input (claim input e kd) (generate_entry decode64 input e st)"
proof (cases "list_ex (clashes input e) (fst kd)")
  case True
  with gen_inv_duplicate [OF assms] assms show ?thesis
    by (cases kd) (simp add: generate_entry_def claim_def gen_inv_def Let_def)
next
  case False
  obtain closure missing where c: "SchemaClosure decode64 e (gi_ComponentSchemas input) = (closure, missing)" by force
  from False gen_inv_duplicate [OF assms] assms c show ?thesis
    by (cases kd) (auto simp: generate_entry_def claim_def gen_inv_def Let_def endpoint_for_def put_if_def)
qed

lemma Generate_inv:
  "gen_inv decode64 input (first_claims input) (fold (generate_entry decode64 input) (gi_Entries input)
     \<lparr>gn_seenKeys = [], gn_seenOperationIDs = [], gn_seenNames = [], gn_missingSchemas = [], gn_Endpoints = [], gn_Skipped = []\<rparr>)"
proof -
  have "gen_inv decode64 input (fold (claim input) es kd) (fold (generate_entry decode64 input) es st)"
    if "gen_inv decode64 input kd st" for es kd st
    using that by (induction es arbitrary: kd st) (simp_all add: generate_entry_inv)
  moreover have "gen_inv decode64 input ([], [])
     \<lparr>gn_seenKeys = [], gn_seenOperationIDs = [], gn_seenNames = [], gn_missingSchemas = [], gn_Endpoints = [], gn_Skipped = []\<rparr>"
    by (simp add: gen_inv_def)
  ultimately show ?thesis unfolding first_claims_def by blast
qed

lemma claims_apart:
  assumes "distinct (map (entry_name input) kept)" and "(kept', dropped') = fold (claim input) es (kept, dropped)"
  shows "distinct (map (entry_name input) kept') \<and> set kept' \<subseteq> set kept \<union> set es \<and>
    mset kept' + mset dropped' = mset kept + mset dropped + mset es"
  using assms
proof (induction es arbitrary: kept dropped)
  case (Cons e es)
  obtain k d where c: "claim input e (kept, dropped) = (k, d)" by force
  then have "distinct (map (entry_name input) k)" using Cons.prems(1) by (auto simp: claim_def list_ex_iff clashes_def image_iff split: if_splits)
  from Cons.IH [OF this] Cons.prems(2) c have IH: "distinct (map (entry_name input) kept') \<and> set kept' \<subseteq> set k \<union> set es \<and>
      mset kept' + mset dropped' = mset k + mset d + mset es" by simp
  moreover have "set k \<subseteq> insert e (set kept)" "mset k + mset d = add_mset e (mset kept + mset dropped)"
    using c by (auto simp: claim_def split: if_splits)
  ultimately show ?case by auto
qed simp

text \<open>
  C39: the generator makes an endpoint of exactly the entries that clash with none generated before
  them (same route, same operationId or same endpoint name) and lists the others as skipped, in
  entry order; every entry is in one of the two once.
\<close>

theorem Generate_exact:
  "go_Endpoints (Generate decode64 input) = map (endpoint_for decode64 input) (fst (first_claims input)) \<and>
   map (\<lambda>i. (opn_Method (oi_Operation i), opn_Path (oi_Operation i))) (go_Skipped (Generate decode64 input)) =
     map (\<lambda>e. (en_Method e, en_Endpoint e)) (snd (first_claims input)) \<and>
   mset (fst (first_claims input)) + mset (snd (first_claims input)) = mset (gi_Entries input)"
  using Generate_inv [of decode64 input] claims_apart [of input "[]" "fst (first_claims input)" "snd (first_claims input)" "gi_Entries input" "[]"]
  by (simp add: gen_inv_def Generate_def Let_def first_claims_def)

section \<open>Names\<close>

lemma length_limitName: "length (limitName name) \<le> maxNameLength"
  using length_dropWhile_le [of "\<lambda>c. c = CHR ''-''" "rev (if length name > maxNameLength then take maxNameLength name else name)"]
  by (auto simp: limitName_def split: if_splits)

lemma limitName_chars: "list_all P name \<Longrightarrow> list_all P (limitName name)"
  by (auto simp: limitName_def list_all_iff dest!: set_dropWhileD in_set_takeD split: if_splits)

lemma limitName_last: "limitName name \<noteq> [] \<Longrightarrow> last (limitName name) \<noteq> CHR ''-''"
  using hd_dropWhile [of "\<lambda>c. c = CHR ''-''"] by (fastforce simp: limitName_def last_rev)

lemma trim_chars: "list_all P s \<Longrightarrow> list_all P (trim_both Q s)"
  by (auto simp: trim_both_def list_all_iff dest!: set_dropWhileD)

lemma SanitizeName_chars: "list_all name_char (SanitizeName s)"
  unfolding SanitizeName_def by (rule trim_chars) (auto simp: list_all_iff name_char_def)

lemma sanitizePath_chars: "list_all name_char (sanitizePath path)"
  unfolding sanitizePath_def by (rule trim_chars) (simp add: list_all_iff)

lemma supported_lower: "verb \<in> set supportedMethods \<Longrightarrow> list_all name_char (ToLower verb)"
proof -
  have "list_all (\<lambda>v. list_all name_char (ToLower v)) supportedMethods" by code_simp
  then show "verb \<in> set supportedMethods \<Longrightarrow> ?thesis" by (auto simp: list_all_iff)
qed

lemma endpointName_shape:
  "length (endpointName n opID verb path) \<le> maxNameLength"
  "endpointName n opID verb path \<noteq> [] \<Longrightarrow> last (endpointName n opID verb path) \<noteq> CHR ''-''"
  unfolding endpointName_def OperationEndpointName_def
  using length_limitName limitName_last by (simp_all split: if_splits)

lemma endpointName_chars:
  assumes "list_all name_char n" and "verb \<in> set supportedMethods"
  shows "list_all name_char (endpointName n opID verb path)"
proof -
  have "name_char (CHR ''-'')" by (simp add: name_char_def)
  then show ?thesis using assms SanitizeName_chars sanitizePath_chars supported_lower
    unfolding endpointName_def OperationEndpointName_def by (auto intro!: limitName_chars)
qed


definition ex_autoconfig :: KrakenDAutoConfig where
  "ex_autoconfig =
     \<lparr>au_Name = ''shop'', au_Namespace = ''ns'', au_UID = ''u1'', au_Generation = 1, au_Deleting = False,
      au_Spec = \<lparr>as_GatewayRef = \<lparr>gr_Name = ''gw'', gr_Namespace = []\<rparr>,
        as_OpenAPI = \<lparr>oas_URL = ''http://shop/openapi.json'', oas_ConfigMapRef = None, oas_Format = SpecFormatUnset\<rparr>,
        as_CUE = None, as_URLTransform = None, as_Defaults = None, as_Overrides = [], as_Filter = None, as_Trigger = TriggerOnChange,
        as_Periodic = None, as_AdditionalEndpoints = [], as_AdditionalEndpointsBasePath = []\<rparr>,
      au_Status = \<lparr>ast_Phase = None, ast_ObservedGeneration = 0, ast_LastSyncTime = None, ast_SpecChecksum = [],
        ast_GeneratedEndpoints = 0, ast_ReadyEndpoints = 0, ast_SkippedOperations = 0, ast_Skipped = [], ast_FailedOperations = [],
        ast_Warnings = [], ast_Conditions = []\<rparr>\<rparr>"

definition ex_route :: "string \<Rightarrow> EndpointEntry" where
  "ex_route path =
     \<lparr>en_Endpoint = path, en_Method = ''GET'', en_Backends = [], en_Timeout = None, en_CacheTTL = None, en_InputHeaders = None,
      en_InputQueryStrings = None, en_OutputEncoding = [], en_ConcurrentCalls = None, en_ExtraConfig = None\<rparr>"

definition ex_generate :: GenerateInput where
  "ex_generate =
     \<lparr>gi_AutoConfig = ex_autoconfig, gi_Entries = [ex_route ''/a'', ex_route ''/b'', ex_route ''/a''],
      gi_OperationIDs = [(''/a:GET'', ''getA'')], gi_GatewayRef = \<lparr>gr_Name = ''gw'', gr_Namespace = []\<rparr>, gi_ComponentSchemas = []\<rparr>"


section \<open>Additional endpoints take the place of generated ones\<close>

text \<open>The specification: an additional entry replaces the entry of its key, or comes last.\<close>

definition replace_by :: "EndpointEntry list \<Rightarrow> EndpointEntry \<Rightarrow> EndpointEntry" where
  "replace_by additional b = (case find (\<lambda>a. entryKey a = entryKey b) additional of Some a \<Rightarrow> a | None \<Rightarrow> b)"

definition index_ok :: "EndpointEntry list \<Rightarrow> (string, nat) gomap \<Rightarrow> bool" where
  "index_ok combined index \<longleftrightarrow>
     mwf index \<and> (\<forall>k i. map_of index k = Some i \<longleftrightarrow> i < length combined \<and> entryKey (combined ! i) = k)"

lemma index_entries_snoc: "index_entries (es @ [e]) = mput (entryKey e) (length es) (index_entries es)"
  by (simp add: index_entries_def enumerate_append_eq)

lemma index_ok_snoc:
  "index_ok combined index \<Longrightarrow> entryKey a \<notin> entryKey ` set combined \<Longrightarrow>
   index_ok (combined @ [a]) (mput (entryKey a) (length combined) index)"
  by (auto simp: index_ok_def nth_append less_Suc_eq split: if_splits) (metis image_eqI nth_mem)+

lemma index_ok_entries: "distinct (map entryKey es) \<Longrightarrow> index_ok es (index_entries es)"
  by (induction es rule: rev_induct) (simp_all add: index_entries_snoc index_ok_snoc, simp add: index_ok_def index_entries_def)

lemma index_ok_None: "index_ok combined index \<Longrightarrow> map_of index k = None \<longleftrightarrow> k \<notin> entryKey ` set combined"
proof -
  assume "index_ok combined index"
  then have "map_of index k = Some i \<longleftrightarrow> i < length combined \<and> entryKey (combined ! i) = k" for i by (simp add: index_ok_def)
  then have "map_of index k \<noteq> None \<longleftrightarrow> (\<exists>i. i < length combined \<and> entryKey (combined ! i) = k)" by auto
  then show ?thesis by (metis image_iff in_set_conv_nth)
qed

lemma replace_by_other: "entryKey b \<notin> entryKey ` set additional \<Longrightarrow> replace_by additional b = b"
  by (auto simp: replace_by_def find_Some_iff split: option.splits) (metis image_eqI nth_mem)

lemma entryKey_replace_by [simp]: "entryKey (replace_by additional b) = entryKey b"
  by (auto simp: replace_by_def find_Some_iff split: option.splits)

lemma merge_additional_step:
  assumes "distinct (map entryKey combined)" and "index_ok combined index"
  shows "\<exists>index'. merge_additional a (combined, index, replaced) =
      (map (replace_by [a]) combined @ (if entryKey a \<in> entryKey ` set combined then [] else [a]), index',
       replaced @ (if entryKey a \<in> entryKey ` set combined then [entryKey a] else [])) \<and>
    index_ok (map (replace_by [a]) combined @ (if entryKey a \<in> entryKey ` set combined then [] else [a])) index'"
proof (cases "map_of index (entryKey a)")
  case None
  then have n: "entryKey a \<notin> entryKey ` set combined" using index_ok_None [OF assms(2)] by blast
  then have "map (replace_by [a]) combined = combined" by (intro map_idI replace_by_other) (auto dest: sym)
  moreover have "index_ok (combined @ [a]) (mput (entryKey a) (length combined) index)"
    using assms(2) n by (rule index_ok_snoc)
  ultimately show ?thesis using None n by (simp add: merge_additional_def)
next
  case (Some i)
  then have i: "i < length combined" "entryKey (combined ! i) = entryKey a" using assms(2) by (auto simp: index_ok_def)
  then have n: "entryKey a \<in> entryKey ` set combined" by (metis image_eqI nth_mem)
  have u: "combined[i := a] = map (replace_by [a]) combined"
  proof (rule nth_equalityI)
    fix j assume "j < length (combined[i := a])"
    then have j: "j < length combined" by simp
    have "entryKey (combined ! j) \<noteq> entryKey a" if "j \<noteq> i"
      using that i j assms(1) by (metis distinct_conv_nth length_map nth_map)
    with i j show "combined[i := a] ! j = map (replace_by [a]) combined ! j" by (auto simp: replace_by_def nth_list_update)
  qed simp
  have "index_ok (map (replace_by [a]) combined) index"
    using assms(2) by (auto simp: index_ok_def replace_by_def split: option.splits if_splits)
  then show ?thesis using Some n u by (simp add: merge_additional_def)
qed

lemma replace_by_Cons: "entryKey a \<notin> entryKey ` set as \<Longrightarrow> replace_by as (replace_by [a] b) = replace_by (a # as) b"
proof (cases "entryKey a = entryKey b")
  case True
  moreover assume "entryKey a \<notin> entryKey ` set as"
  then have "replace_by as a = a" by (rule replace_by_other)
  ultimately show ?thesis by (simp add: replace_by_def)
qed (simp add: replace_by_def)

lemma merge_additional_fold:
  assumes "distinct (map entryKey combined)" and "index_ok combined index" and "distinct (map entryKey as)"
  shows "\<exists>index'. fold merge_additional as (combined, index, replaced) =
    (map (replace_by as) combined @ filter (\<lambda>a. entryKey a \<notin> entryKey ` set combined) as, index',
     replaced @ map entryKey (filter (\<lambda>a. entryKey a \<in> entryKey ` set combined) as))"
  using assms
proof (induction as arbitrary: combined index replaced)
  case Nil
  then show ?case by (simp add: map_idI replace_by_other)
next
  case (Cons a as)
  let ?new = "entryKey a \<notin> entryKey ` set combined"
  let ?c = "map (replace_by [a]) combined @ (if ?new then [a] else [])"
  obtain index1 where s: "merge_additional a (combined, index, replaced) = (?c, index1, replaced @ (if ?new then [] else [entryKey a]))"
    and i: "index_ok ?c index1"
    using merge_additional_step [OF Cons.prems(1,2), of a replaced] by (auto split: if_splits)
  have set_keys: "entryKey ` set (map (replace_by [a]) combined) = entryKey ` set combined"
    by (simp add: image_image)
  have keys: "entryKey ` set ?c = insert (entryKey a) (entryKey ` set combined)"
    using set_keys by (simp only: set_append image_Un split: if_split) auto
  have d: "distinct (map entryKey ?c)" using Cons.prems(1) set_keys by (auto simp: comp_def)
  have other: "entryKey x \<noteq> entryKey a" if "x \<in> set as" for x using that Cons.prems(3) by (metis distinct.simps(2) image_eqI list.simps(9) set_map)
  then have f: "filter (\<lambda>x. entryKey x \<in> entryKey ` set ?c) as = filter (\<lambda>x. entryKey x \<in> entryKey ` set combined) as"
    "filter (\<lambda>x. entryKey x \<notin> entryKey ` set ?c) as = filter (\<lambda>x. entryKey x \<notin> entryKey ` set combined) as"
    unfolding keys by (auto intro!: filter_cong)
  have "entryKey a \<notin> entryKey ` set as" using Cons.prems(3) by simp
  then have r: "map (replace_by as) ?c = map (replace_by (a # as)) combined @ (if ?new then [a] else [])"
    by (auto simp: replace_by_Cons replace_by_other)
  from Cons.IH [OF d i, of "replaced @ (if ?new then [] else [entryKey a])"] Cons.prems(3) obtain index'
    where "fold merge_additional as (?c, index1, replaced @ (if ?new then [] else [entryKey a])) =
      (map (replace_by as) ?c @ filter (\<lambda>x. entryKey x \<notin> entryKey ` set ?c) as, index',
       (replaced @ (if ?new then [] else [entryKey a])) @ map entryKey (filter (\<lambda>x. entryKey x \<in> entryKey ` set ?c) as))" by auto
  then show ?case using s unfolding f r by simp
qed

text \<open>
  The additional endpoints of distinct routes replace the spec-derived entries of their routes in
  place, the others follow in order, and exactly the replaced routes are reported.
\<close>

lemma MergeAdditional_exact:
  assumes "distinct (map entryKey base)" and "distinct (map entryKey additional)"
  shows "MergeAdditional base additional =
    (map (replace_by additional) base @ filter (\<lambda>a. entryKey a \<notin> entryKey ` set base) additional,
     map entryKey (filter (\<lambda>a. entryKey a \<in> entryKey ` set base) additional))"
proof (cases "additional = []")
  case False
  then show ?thesis
    using merge_additional_fold [OF assms(1) index_ok_entries [OF assms(1)] assms(2), of "[]"] by (auto simp: MergeAdditional_def)
qed (simp add: MergeAdditional_def map_idI replace_by_other)

section \<open>The base path\<close>

lemma common_prefix: "take (length (commonSegmentPrefix a b)) a = commonSegmentPrefix a b"
  "take (length (commonSegmentPrefix a b)) b = commonSegmentPrefix a b"
  by (induction a b rule: commonSegmentPrefix.induct) auto

lemma take_prefix_trans: "take (length a) b = a \<Longrightarrow> take (length b) c = b \<Longrightarrow> take (length a) c = a"
  by (metis take_take length_take min.absorb_iff1 min.cobounded2)

lemma common_parent_prefix:
  "take (length (common_parent c es)) c = common_parent c es \<and>
   (\<forall>e \<in> set es. take (length (common_parent c es)) (parentSegments (en_Endpoint e)) = common_parent c es)"
proof (induction es arbitrary: c)
  case (Cons e es)
  let ?d = "commonSegmentPrefix c (parentSegments (en_Endpoint e))"
  note IH = Cons.IH [of ?d] and p = common_prefix [of c "parentSegments (en_Endpoint e)"]
  from IH p(1) have "take (length (common_parent ?d es)) c = common_parent ?d es" by (blast intro: take_prefix_trans)
  moreover from IH p(2) have "take (length (common_parent ?d es)) (parentSegments (en_Endpoint e)) = common_parent ?d es"
    by (blast intro: take_prefix_trans)
  ultimately show ?case using IH by (auto simp: Let_def)
qed simp

text \<open>The base path is made of segments every path has as its parents' first ones.\<close>

lemma DeriveBasePath_prefix:
  assumes "DeriveBasePath entries \<noteq> []"
  shows "\<exists>segs. DeriveBasePath entries = ''/'' @ Join segs ''/'' \<and>
    (\<forall>e \<in> set entries. take (length segs) (parentSegments (en_Endpoint e)) = segs)"
proof -
  from assms obtain e es where e: "entries = e # es" by (cases entries) (simp_all add: DeriveBasePath_def)
  let ?segs = "common_parent (parentSegments (en_Endpoint e)) es"
  from assms e have "DeriveBasePath entries = ''/'' @ Join ?segs ''/''" by (auto simp: DeriveBasePath_def Let_def split: if_splits)
  with common_parent_prefix [of "parentSegments (en_Endpoint e)" es] e show ?thesis by auto
qed

text \<open>The backend defaults replace the headers a backend of an additional endpoint sets itself.\<close>

lemma inheritBackend_headers:
  "df_Backend defaults = Some d \<Longrightarrow> bd_InputHeaders d = Some hs \<Longrightarrow> be_InputHeaders (inheritBackend defaults b) = hs"
proof -
  assume d: "df_Backend defaults = Some d" "bd_InputHeaders d = Some hs"
  have "be_InputHeaders (applyBackendDefaultsToBackend d b) = hs" using d(2) by (simp add: applyBackendDefaultsToBackend_def)
  moreover have "be_InputHeaders (setPolicyRef ref b') = be_InputHeaders b'" for ref b' by (simp add: setPolicyRef_def)
  ultimately show ?thesis using d(1) by (simp add: inheritBackend_def Let_def split: option.splits)
qed

lemma inheritDefaults_overwrites_headers:
  assumes "df_Backend defaults = Some d" and "bd_InputHeaders d = Some hs" and "b \<in> set (en_Backends (inheritDefaults defaults entry))"
  shows "be_InputHeaders b = hs"
proof -
  from assms(3) obtain b0 where "b = inheritBackend defaults b0"
    by (cases "df_Endpoint defaults") (auto simp: inheritDefaults_def on_backends_def)
  with inheritBackend_headers [OF assms(1,2)] show ?thesis by simp
qed

end
