(* ===== verification/AutoPlan.thy ===== *)
theory AutoPlan
  imports AutoGen VerdictMemo
begin

text \<open>
  What an AutoConfig sync may write (\<^verbatim>\<open>controller/autoconfig_endpoints.go\<close>, the part without API
  writes): the plan, the creation order, routes that collide, the check that runs before the
  writes and the candidates it holds.

  A check runs on a checker (\<open>ConfigCheck\<close>), with the verdict memo of the AutoConfig
  (\<open>VerdictMemo\<close>); \<open>slots n\<close> says whether waiting for a check slot before run \<open>n\<close> ends with an error.
\<close>

section \<open>Equal specifications\<close>

text \<open>
  \<^verbatim>\<open>json.Marshal\<close> of a specification, with the \<^verbatim>\<open>omitempty\<close> tags of its types. A duration is encoded
  as a text that determines it; its nanoseconds stand for that text.
\<close>

definition raw_value :: "RawExtension \<Rightarrow> json" where
  "raw_value r = (case r of RawJSON j \<Rightarrow> j | _ \<Rightarrow> JNull)"

definition raw_field :: "RawExtension option \<Rightarrow> json" where
  "raw_field r = (case r of None \<Rightarrow> JNull | Some raw \<Rightarrow> raw_value raw)"

definition policy_ref_json :: "PolicyRef \<Rightarrow> json" where
  "policy_ref_json p = JObj (puts [(True, ''name'', JStr (pr_Name p)), (pr_Namespace p \<noteq> [], ''namespace'', JStr (pr_Namespace p))] [])"

definition backend_json :: "BackendSpec \<Rightarrow> json" where
  "backend_json b = JObj (puts
     [(True, ''host'', jstrs (be_Host b)), (True, ''urlPattern'', JStr (be_URLPattern b)),
      (be_Method b \<noteq> [], ''method'', JStr (be_Method b)), (be_Encoding b \<noteq> [], ''encoding'', JStr (be_Encoding b)),
      (be_SD b \<noteq> [], ''sd'', JStr (be_SD b)), (be_SDScheme b \<noteq> [], ''sdScheme'', JStr (be_SDScheme b)),
      (be_DisableHostSanitize b \<noteq> None, ''disableHostSanitize'', JBool (the (be_DisableHostSanitize b))),
      (be_InputHeaders b \<noteq> [], ''inputHeaders'', jstrs (be_InputHeaders b)),
      (be_InputQueryStrings b \<noteq> [], ''inputQueryStrings'', jstrs (be_InputQueryStrings b)),
      (be_Allow b \<noteq> [], ''allow'', jstrs (be_Allow b)), (be_Deny b \<noteq> [], ''deny'', jstrs (be_Deny b)),
      (be_Group b \<noteq> [], ''group'', JStr (be_Group b)), (be_Target b \<noteq> [], ''target'', JStr (be_Target b)),
      (be_IsCollection b \<noteq> None, ''isCollection'', JBool (the (be_IsCollection b))),
      (be_Mapping b \<noteq> [], ''mapping'', JObj (map (\<lambda>(k, v). (k, JStr v)) (be_Mapping b))),
      (be_PolicyRef b \<noteq> None, ''policyRef'', policy_ref_json (the (be_PolicyRef b))),
      (be_ExtraConfig b \<noteq> None, ''extraConfig'', raw_field (be_ExtraConfig b))] [])"

definition entry_json :: "EndpointEntry \<Rightarrow> json" where
  "entry_json e = JObj (puts
     [(True, ''endpoint'', JStr (en_Endpoint e)), (True, ''method'', JStr (en_Method e)),
      (True, ''backends'', JArr (map backend_json (en_Backends e))),
      (en_Timeout e \<noteq> None, ''timeout'', JStr (itoa (the (en_Timeout e)))),
      (en_CacheTTL e \<noteq> None, ''cacheTTL'', JStr (itoa (the (en_CacheTTL e)))),
      (els (en_InputHeaders e) \<noteq> [], ''inputHeaders'', jstrs (els (en_InputHeaders e))),
      (els (en_InputQueryStrings e) \<noteq> [], ''inputQueryStrings'', jstrs (els (en_InputQueryStrings e))),
      (en_OutputEncoding e \<noteq> [], ''outputEncoding'', JStr (en_OutputEncoding e)),
      (en_ConcurrentCalls e \<noteq> None, ''concurrentCalls'', jint (the (en_ConcurrentCalls e))),
      (en_ExtraConfig e \<noteq> None, ''extraConfig'', raw_field (en_ExtraConfig e))] [])"

definition spec_json :: "KrakenDEndpointSpec \<Rightarrow> json" where
  "spec_json s = JObj (puts
     [(True, ''gatewayRef'', JObj (puts [(True, ''name'', JStr (gr_Name (es_GatewayRef s))),
         (gr_Namespace (es_GatewayRef s) \<noteq> [], ''namespace'', JStr (gr_Namespace (es_GatewayRef s)))] [])),
      (True, ''endpoints'', JArr (map entry_json (es_Endpoints s))),
      (es_ComponentSchemas s \<noteq> [], ''componentSchemas'', JObj (map (\<lambda>(k, r). (k, raw_value r)) (es_ComponentSchemas s)))] [])"

text \<open>Raw bytes that do not decode make the encoding fail.\<close>

definition spec_encodes :: "KrakenDEndpointSpec \<Rightarrow> bool" where
  "spec_encodes s \<longleftrightarrow>
     list_all (\<lambda>e. en_ExtraConfig e \<noteq> Some RawBad \<and> list_all (\<lambda>b. be_ExtraConfig b \<noteq> Some RawBad) (en_Backends e)) (es_Endpoints s) \<and>
     list_all (\<lambda>(k, r). r \<noteq> RawBad) (es_ComponentSchemas s)"

text \<open>\<^verbatim>\<open>json.Unmarshal\<close> into \<^verbatim>\<open>any\<close> reads numbers as 64-bit floats: \<open>num\<close> gives the value a text reads as.\<close>

fun decoded :: "(string \<Rightarrow> string) \<Rightarrow> json \<Rightarrow> json" where
  "decoded num (JNum t) = JNum (num t)"
| "decoded num (JArr xs) = JArr (map (decoded num) xs)"
| "decoded num (JObj m) = JObj (map (\<lambda>p. (fst p, decoded num (snd p))) m)"
| "decoded num j = j"

definition endpointSpecEqual :: "(string \<Rightarrow> string) \<Rightarrow> KrakenDEndpointSpec \<Rightarrow> KrakenDEndpointSpec \<Rightarrow> bool" where
  "endpointSpecEqual num a b \<longleftrightarrow>
     spec_encodes a \<and> spec_encodes b \<and> decoded num (spec_json a) = decoded num (spec_json b)"

lemma endpointSpecEqual_refl: "spec_encodes s \<Longrightarrow> endpointSpecEqual num s s"
  by (simp add: endpointSpecEqual_def)

section \<open>The plan\<close>

definition labelsContain :: "(string, string) gomap \<Rightarrow> (string, string) gomap \<Rightarrow> bool" where
  "labelsContain have' want = list_all (\<lambda>(k, v). map_of have' k = Some v) want"

definition by_name :: "KrakenDEndpoint list \<Rightarrow> (string, KrakenDEndpoint) gomap" where
  "by_name eps = fold (\<lambda>ep. mput (ep_Name ep) ep) eps []"

definition in_sync :: "(string \<Rightarrow> string) \<Rightarrow> KrakenDEndpoint \<Rightarrow> KrakenDEndpoint \<Rightarrow> bool" where
  "in_sync num cur ep \<longleftrightarrow> labelsContain (ep_Labels cur) (ep_Labels ep) \<and> endpointSpecEqual num (ep_Spec cur) (ep_Spec ep)"

definition planEndpoints ::
  "(string \<Rightarrow> string) \<Rightarrow> KrakenDEndpoint list \<Rightarrow> KrakenDEndpoint list \<Rightarrow> KrakenDEndpoint list \<times> KrakenDEndpoint list" where
  "planEndpoints num controlled desired =
     (let byName = by_name controlled
      in (filter (\<lambda>ep. case map_of byName (ep_Name ep) of None \<Rightarrow> True | Some cur \<Rightarrow> \<not> in_sync num cur ep) desired,
          map snd (filter (\<lambda>(name, ep). name \<notin> set (map ep_Name desired)) byName)))"

section \<open>Held endpoints\<close>

record rejection =
  rj_endpoint :: KrakenDEndpoint
  rj_reason :: string
  rj_message :: string
  rj_cause :: string

type_synonym held_endpoints = "(string, rejection) gomap"

definition withoutHeld :: "KrakenDEndpoint list \<Rightarrow> held_endpoints \<Rightarrow> KrakenDEndpoint list" where
  "withoutHeld eps held = filter (\<lambda>ep. map_of held (ep_Name ep) = None) eps"

definition rejection_of :: "KrakenDEndpoint \<Rightarrow> string \<Rightarrow> string \<Rightarrow> string \<Rightarrow> rejection" where
  "rejection_of ep reason message cause = \<lparr>rj_endpoint = ep, rj_reason = reason, rj_message = message, rj_cause = cause\<rparr>"

definition hold :: "KrakenDEndpoint list \<Rightarrow> string \<Rightarrow> string \<Rightarrow> held_endpoints \<Rightarrow> held_endpoints" where
  "hold eps message cause rejected =
     fold (\<lambda>ep. mput (ep_Name ep) (rejection_of ep ''ConfigValidationFailed'' message cause)) eps rejected"

definition ceIgnoredNamespaces :: "KrakenDEndpoint \<Rightarrow> string list" where
  "ceIgnoredNamespaces ep =
     concat (map (\<lambda>(i, e).
       (let entry = ''spec.endpoints['' @ nat_str i @ '']''
        in map (\<lambda>d. entry @ ''.extraConfig '' @ CEDrop_String d) (EEOnlyNamespacesIn (en_ExtraConfig e) LevelEndpoint) @
           concat (map (\<lambda>(j, be).
             map (\<lambda>d. entry @ ''.backends['' @ nat_str j @ ''].extraConfig '' @ CEDrop_String d)
               (EEOnlyNamespacesIn (be_ExtraConfig be) LevelBackend))
             (enumerate 0 (en_Backends e)))))
       (enumerate 0 (es_Endpoints (ep_Spec ep))))"

section \<open>Creation order\<close>

type_synonym creationOrder = "(string, int) gomap"

definition NotYetCreated :: int where
  "NotYetCreated = 253402300799"

definition newCreationOrder :: "KrakenDEndpoint list \<Rightarrow> creationOrder" where
  "newCreationOrder existing = fold (\<lambda>ep. mput (ep_Name ep) (ep_CreationTimestamp ep)) existing []"

definition createdAt :: "creationOrder \<Rightarrow> string \<Rightarrow> int" where
  "createdAt ord name = (case map_of ord name of Some t \<Rightarrow> t | None \<Rightarrow> NotYetCreated)"

definition order_less :: "creationOrder \<Rightarrow> string \<Rightarrow> string \<Rightarrow> bool" where
  "order_less ord a b \<longleftrightarrow> cmp_Or [cmp_Compare (createdAt ord a) (createdAt ord b), cmp_Compare a b] < 0"

definition checkSet :: "KrakenDEndpoint list \<Rightarrow> KrakenDEndpoint list \<Rightarrow> creationOrder \<Rightarrow> bool \<Rightarrow> KrakenDEndpoint list" where
  "checkSet candidates stale ord withoutStale =
     map (\<lambda>ep. ep\<lparr>ep_CreationTimestamp := createdAt ord (ep_Name ep)\<rparr>) candidates @
     (if withoutStale
      then map (\<lambda>ep. ep\<lparr>ep_Spec := (ep_Spec ep)\<lparr>es_Endpoints := [], es_ComponentSchemas := []\<rparr>\<rparr>) stale else [])"

section \<open>Colliding routes\<close>

definition route_of :: "KrakenDEndpoint \<Rightarrow> (string \<times> EndpointEntry) option" where
  "route_of ep =
     (case es_Endpoints (ep_Spec ep) of [] \<Rightarrow> None | e # _ \<Rightarrow> Some (RouteKey (en_Method e) (en_Endpoint e), e))"

definition hold_losers :: "creationOrder \<Rightarrow> KrakenDEndpoint list \<Rightarrow> held_endpoints \<Rightarrow> held_endpoints" where
  "hold_losers ord members collisions =
     (case sort_by (\<lambda>a b. order_less ord (ep_Name a) (ep_Name b)) members of
        [] \<Rightarrow> collisions
      | survivor # losers \<Rightarrow>
          fold (\<lambda>ep. let e = hd (es_Endpoints (ep_Spec ep)); winner = hd (es_Endpoints (ep_Spec survivor));
                       message = RouteClashDetail (en_Method e) (en_Endpoint e) (en_Endpoint winner) (ep_Name survivor)
                   in hold [ep] message message) losers collisions)"

definition routeCollisions :: "KrakenDEndpoint list \<Rightarrow> KrakenDEndpoint list \<Rightarrow> held_endpoints" where
  "routeCollisions desired existing =
     (let groups = madds (List.map_filter (\<lambda>ep. map_option (\<lambda>(key, e). (key, ep)) (route_of ep)) desired) []
      in fold (\<lambda>(key, members). hold_losers (newCreationOrder existing) members) groups [])"

section \<open>Router clashes\<close>

definition ClashesCapped :: string where
  "ClashesCapped =
     ''the gateway has more router clashes than the operator resolves at once, '' @
     ''so a new one cannot be told apart from them; delete the clashing KrakenDEndpoints first '' @
     ''(a delete is always admitted)''"

definition routerClashesCappedMessage :: string where
  "routerClashesCappedMessage = ''not written: '' @ ClashesCapped"

definition candidate_map :: "KrakenDEndpoint list \<Rightarrow> (NamespacedName, KrakenDEndpoint) gomap" where
  "candidate_map writes = fold (\<lambda>ep. mput (ep_key ep) ep) writes []"

text \<open>One side of a new clash is a candidate: the loser if it is one, otherwise the winner.\<close>

definition hold_clash :: "(NamespacedName, KrakenDEndpoint) gomap \<Rightarrow> Clash \<Rightarrow> held_endpoints \<Rightarrow> held_endpoints" where
  "hold_clash candidates c held =
     (case map_of candidates (cl_Loser c) of
        Some ep \<Rightarrow> hold [ep] (Clash_String c) (Clash_String c) held
      | None \<Rightarrow>
          (case map_of candidates (cl_Winner c) of
             Some ep \<Rightarrow> hold [ep] (Clash_String c) (Clash_String c) held
           | None \<Rightarrow> held))"

definition routerClashes ::
  "Checker \<Rightarrow> KrakenDGateway \<Rightarrow> KrakenDEndpoint list \<Rightarrow> KrakenDEndpoint list \<Rightarrow> creationOrder \<Rightarrow> bool \<Rightarrow> string + held_endpoints" where
  "routerClashes ck gw writes stale ord withoutStale =
     (if writes = [] then Inr []
      else (case Conflicts ck gw [] of
              Inl e \<Rightarrow> Inl e
            | Inr before \<Rightarrow>
                (case Conflicts ck gw (checkSet writes stale ord withoutStale) of
                   Inl e \<Rightarrow> Inl e
                 | Inr after \<Rightarrow>
                     if rc_Capped after then Inr (hold writes routerClashesCappedMessage routerClashesCappedMessage [])
                     else Inr (fold (hold_clash (candidate_map writes))
                                 (NewClashes before after (Some (ep_key ` set writes))) []))))"

subsection \<open>The rounds end\<close>

lemma mwf_by_name [simp]: "mwf (by_name eps)"
proof -
  have "mwf m \<Longrightarrow> mwf (fold (\<lambda>ep. mput (ep_Name ep) ep) eps m)" for m :: "(string, KrakenDEndpoint) gomap"
    by (induction eps arbitrary: m) simp_all
  then show ?thesis by (simp add: by_name_def)
qed

lemma hold_keys: "fst ` set (hold eps message cause held) = ep_Name ` set eps \<union> fst ` set held"
  unfolding hold_def by (induction eps arbitrary: held) (auto simp: set_keys_mput)

lemma mwf_hold [simp]: "mwf held \<Longrightarrow> mwf (hold eps message cause held)"
  unfolding hold_def by (induction eps arbitrary: held) simp_all

lemma candidate_map_Some: "map_of (candidate_map writes) key = Some ep \<Longrightarrow> ep \<in> set writes"
proof -
  have "map_of (fold (\<lambda>ep. mput (ep_key ep) ep) ws m) key = Some ep \<Longrightarrow> mwf m \<Longrightarrow> ep \<in> set ws \<or> map_of m key = Some ep" for ws m
  proof (induction ws arbitrary: m)
    case (Cons w ws)
    from Cons.IH [of "mput (ep_key w) w m"] Cons.prems show ?case by (auto split: if_splits)
  qed simp
  then show "map_of (candidate_map writes) key = Some ep \<Longrightarrow> ep \<in> set writes" by (force simp: candidate_map_def)
qed

lemma hold_clash_keys: "fst ` set (hold_clash (candidate_map writes) c held) \<subseteq> ep_Name ` set writes \<union> fst ` set held"
  by (auto simp: hold_clash_def hold_keys dest: candidate_map_Some split: option.splits)

lemma hold_clashes_keys: "fst ` set (fold (hold_clash (candidate_map writes)) cs held) \<subseteq> ep_Name ` set writes \<union> fst ` set held"
proof (induction cs arbitrary: held)
  case (Cons c cs)
  from Cons.IH [of "hold_clash (candidate_map writes) c held"] hold_clash_keys [of writes c held] show ?case by (auto 0 3)
qed simp

lemma routerClashes_keys:
  assumes "routerClashes ck gw writes stale ord withoutStale = Inr held"
  shows "fst ` set held \<subseteq> ep_Name ` set writes"
proof -
  from assms consider "held = []" | "held = hold writes routerClashesCappedMessage routerClashesCappedMessage []"
    | lost where "held = fold (hold_clash (candidate_map writes)) lost []"
    by (auto simp: routerClashes_def split: if_splits sum.splits)
  then show ?thesis
  proof cases
    case 2
    then show ?thesis by (simp add: hold_keys)
  next
    case (3 lost)
    then show ?thesis using hold_clashes_keys [of writes lost "[]"] by simp
  qed simp
qed

lemma withoutHeld_shorter:
  assumes "fst ` set held \<subseteq> ep_Name ` set writes" and "held \<noteq> []"
  shows "length (withoutHeld writes held) < length writes"
proof -
  from assms(2) obtain name where "name \<in> fst ` set held" by (cases held) auto
  with assms(1) obtain ep where "ep \<in> set writes" "ep_Name ep \<in> fst ` set held" by force
  then have "ep \<in> set writes" "map_of held (ep_Name ep) \<noteq> None" by (auto simp: map_of_eq_None_iff)
  then show ?thesis unfolding withoutHeld_def by (intro length_filter_less) auto
qed

function clash_rounds ::
  "Checker \<Rightarrow> KrakenDGateway \<Rightarrow> KrakenDEndpoint list \<Rightarrow> creationOrder \<Rightarrow> KrakenDEndpoint list \<Rightarrow> held_endpoints \<Rightarrow> string + held_endpoints" where
  "clash_rounds ck gw stale ord writes rejected =
     (if writes = [] then Inr rejected
      else (case routerClashes ck gw writes stale ord False of
              Inl e \<Rightarrow> Inl e
            | Inr lost \<Rightarrow>
                if lost = [] then Inr rejected
                else clash_rounds ck gw stale ord (withoutHeld writes lost) (mmerge rejected lost)))"
  by pat_completeness auto

termination
  by (relation "measure (\<lambda>(ck, gw, stale, ord, writes, rejected). length writes)")
    (auto intro!: withoutHeld_shorter routerClashes_keys)

declare clash_rounds.simps [simp del]

section \<open>Judging the candidates\<close>

definition withCheckSlot :: "(nat \<Rightarrow> string option) \<Rightarrow> ('m check_state, 'a) action \<Rightarrow> ('m check_state, 'a) action" where
  "withCheckSlot slots act st =
     (case slots (cs_runs st) of
        Some e \<Rightarrow> (Inl (''waiting for a controller check slot: '' @ e), st)
      | None \<Rightarrow> act st)"

definition suspects :: "KrakenDEndpoint list \<Rightarrow> Verdict \<Rightarrow> KrakenDEndpoint list" where
  "suspects candidates verdict = filter (\<lambda>ep. Suspect verdict (ep_key ep)) candidates"

definition maxStatusMessageLen :: nat where
  "maxStatusMessageLen = 256"

definition holdMessageLimit :: nat where
  "holdMessageLimit = maxStatusMessageLen - length ''fails krakend check on its own: '' - length '' (+999 more)''"

definition maxInt :: nat where
  "maxInt = 2 ^ 63 - 1"

definition candidate_unit :: "KrakenDGateway \<Rightarrow> KrakenDEndpoint \<Rightarrow> EndpointUnit" where
  "candidate_unit gw ep =
     \<lparr>eu_Gateway = gw, eu_Endpoint = ep, eu_Policies = None, eu_Override = None, eu_CEFallback = CEFallback gw, eu_Dragonfly = None\<rparr>"

fun judge_each ::
  "Checker \<Rightarrow> (nat \<Rightarrow> string option) \<Rightarrow> KrakenDGateway \<Rightarrow> held_endpoints \<Rightarrow> KrakenDEndpoint list \<Rightarrow>
   (passMemo check_state, held_endpoints) action" where
  "judge_each ck slots gw held [] = returns held"
| "judge_each ck slots gw held (ep # eps) =
     andThen (withCheckSlot slots (CheckEndpoint ck (candidate_unit gw ep) (Some pass_memo))) (\<lambda>v.
       judge_each ck slots gw
         (if \<not> ev_OK v
          then mput (ep_Name ep)
                 (rejection_of ep ''ConfigValidationFailed'' (EndpointVerdict_Message v holdMessageLimit) (EndpointVerdict_Message v maxInt)) held
          else held) eps)"

definition judge_pass ::
  "Checker \<Rightarrow> (nat \<Rightarrow> string option) \<Rightarrow> KrakenDGateway \<Rightarrow> KrakenDEndpoint list \<Rightarrow> creationOrder \<Rightarrow>
   (passMemo check_state, held_endpoints) action" where
  "judge_pass ck slots gw candidates ord =
     andThen (withCheckSlot slots (CheckRoot ck \<lparr>rt_Gateway = gw, rt_CEFallback = CEFallback gw, rt_Dragonfly = None\<rparr> (Some pass_memo))) (\<lambda>root.
       if \<not> v_OK root then returns []
       else andThen (withCheckSlot slots (CheckGroup ck
              \<lparr>gp_Gateway = gw, gp_Endpoints = checkSet candidates [] ord False, gp_Override = None, gp_CEFallback = CEFallback gw\<rparr> (Some pass_memo))) (\<lambda>verdict.
              judge_each ck slots gw [] (suspects candidates verdict)))"

record judging =
  jd_verdicts :: verdictMemo
  jd_runs :: nat

definition au_key :: "KrakenDAutoConfig \<Rightarrow> NamespacedName" where
  "au_key ac = NamespacedName (au_Namespace ac) (au_Name ac)"

definition judgeCandidates ::
  "Checker \<Rightarrow> (nat \<Rightarrow> string option) \<Rightarrow> KrakenDAutoConfig \<Rightarrow> KrakenDGateway \<Rightarrow> KrakenDEndpoint list \<Rightarrow> creationOrder \<Rightarrow>
   (judging, held_endpoints) action" where
  "judgeCandidates ck slots ac gw candidates ord jd =
     (if candidates = [] then (Inr [], jd)
      else (case judge_pass ck slots gw candidates ord
                   \<lparr>cs_runs = jd_runs jd, cs_memo = verdictMemo_begin (jd_verdicts jd) (au_key ac)\<rparr> of
              (r, st) \<Rightarrow>
                (r, \<lparr>jd_verdicts = verdictMemo_end (jd_verdicts jd) (au_key ac) (cs_memo st) (case r of Inl _ \<Rightarrow> True | Inr _ \<Rightarrow> False),
                     jd_runs = cs_runs st\<rparr>)))"

section \<open>The check before the writes\<close>

datatype gateway_get = GatewayFound KrakenDGateway | GatewayMissing | GatewayError string

text \<open>\<open>Unavailable\<close> marks a check that could not run (\<^verbatim>\<open>validatorUnavailableError\<close>).\<close>

datatype sync_error = SyncError string | Unavailable string

definition gateway_key :: "KrakenDAutoConfig \<Rightarrow> NamespacedName" where
  "gateway_key ac =
     NamespacedName (GatewayRef_ResolvedNamespace (as_GatewayRef (au_Spec ac)) (au_Namespace ac)) (gr_Name (as_GatewayRef (au_Spec ac)))"

definition ce_rejected :: "KrakenDAutoConfig \<Rightarrow> KrakenDGateway \<Rightarrow> KrakenDEndpoint list \<Rightarrow> held_endpoints" where
  "ce_rejected ac gw writes =
     (if gs_Edition (gw_Spec gw) \<noteq> EditionCE then []
      else fold (\<lambda>ep held.
             (let uses = ceIgnoredNamespaces ep;
                  message = ''not written: gateway '' @ nn_String (gateway_key ac) @
                    '' runs CE, which ignores these Enterprise-only namespaces: '' @ Join uses '', ''
              in if uses \<noteq> [] then mput (ep_Name ep) (rejection_of ep ''EndpointRejected'' message message) held else held))
             writes [])"

definition checked_writes ::
  "Checker \<Rightarrow> (nat \<Rightarrow> string option) \<Rightarrow> KrakenDAutoConfig \<Rightarrow> KrakenDGateway \<Rightarrow> KrakenDEndpoint list \<Rightarrow> KrakenDEndpoint list \<Rightarrow>
   creationOrder \<Rightarrow> bool \<Rightarrow> (judging, held_endpoints) action" where
  "checked_writes ck slots ac gw writes stale ord held =
     (let rejected = ce_rejected ac gw writes; writes1 = withoutHeld writes rejected
      in andThen (lift_sum (routerClashes ck gw writes1 stale ord (\<not> held \<and> rejected = []))) (\<lambda>lost.
           (let writes2 = withoutHeld writes1 (mmerge rejected lost)
            in andThen (judgeCandidates ck slots ac gw writes2 ord) (\<lambda>judged'.
                 (let all = mmerge (mmerge rejected lost) judged'
                  in if lost = [] \<and> judged' = [] then returns all
                     else lift_sum (clash_rounds ck gw stale ord (withoutHeld writes2 judged') all))))))"

definition precheck ::
  "Checker \<Rightarrow> (nat \<Rightarrow> string option) \<Rightarrow> gateway_get \<Rightarrow> KrakenDAutoConfig \<Rightarrow> KrakenDEndpoint list \<Rightarrow> KrakenDEndpoint list \<Rightarrow>
   creationOrder \<Rightarrow> bool \<Rightarrow> judging \<Rightarrow> (sync_error + held_endpoints) \<times> judging" where
  "precheck ck slots gateway ac writes stale ord held jd =
     (if writes = [] then (Inr [], jd)
      else (case gateway of
              GatewayMissing \<Rightarrow> (Inr [], jd)
            | GatewayError e \<Rightarrow> (Inl (SyncError (''getting gateway '' @ nn_String (gateway_key ac) @ '': '' @ e)), jd)
            | GatewayFound gw \<Rightarrow>
                (case checked_writes ck slots ac gw writes stale ord held jd of
                   (Inl e, jd') \<Rightarrow> (Inl (Unavailable e), jd')
                 | (Inr rejected, jd') \<Rightarrow> (Inr rejected, jd'))))"

definition recursRejection :: "KrakenDAutoConfig \<Rightarrow> KrakenDEndpoint list \<Rightarrow> bool" where
  "recursRejection ac writes =
     list_ex (\<lambda>f. ops_Reason f = ''EndpointRejected'' \<and> list_ex (\<lambda>ep. ep_Name ep = ops_Endpoint f) writes)
       (ast_FailedOperations (au_Status ac))"

end
