(* ===== verification/AutoEndpoints.thy ===== *)
theory AutoEndpoints
  imports AutoPlan
begin

text \<open>
  The endpoint pass of an AutoConfig sync (\<^verbatim>\<open>reconcileEndpoints\<close> of
  \<^verbatim>\<open>controller/autoconfig_endpoints.go\<close>): adopting orphans, writing what is desired and, when nothing
  failed, deleting what is not, with the readiness summary of \<^verbatim>\<open>autoconfig_status.go\<close>.

  The API server is the state \<open>cluster\<close>: the KrakenDEndpoints of the AutoConfig's namespace by name.
  Its environment gives, per call, what others did before it, what the cache shows of the live
  objects, and whether the call fails. A write carries the resource version it read and a delete
  the UID it means; the server compares both with the live object. KrakenDEndpoints have no finalizer,
  so a delete takes effect at once.
\<close>

section \<open>The API server\<close>

type_synonym endpoints = "(string, KrakenDEndpoint) gomap"

datatype api_fault =
    FaultNotFound | FaultConflict string | FaultAlreadyExists string | FaultInvalid string | FaultOwned string | FaultOther string

fun fault_text :: "api_fault \<Rightarrow> string" where
  "fault_text FaultNotFound = ''not found''"
| "fault_text (FaultConflict e) = e"
| "fault_text (FaultAlreadyExists e) = e"
| "fault_text (FaultInvalid e) = e"
| "fault_text (FaultOwned e) = e"
| "fault_text (FaultOther e) = e"

text \<open>What the pass did: the objects as the server holds them after a write, or as they were found or deleted.\<close>

datatype trace_event =
    Adopted KrakenDEndpoint | CreatedEP KrakenDEndpoint | UpdatedEP KrakenDEndpoint | UnchangedEP KrakenDEndpoint | DeletedEP KrakenDEndpoint

record cluster =
  kc_endpoints :: endpoints
  kc_judging :: judging
  kc_calls :: nat
  kc_trace :: "trace_event list"

record cluster_env =
  ce_others :: "nat \<Rightarrow> endpoints \<Rightarrow> endpoints"
  ce_view :: "nat \<Rightarrow> endpoints \<Rightarrow> endpoints"
  ce_fault :: "nat \<Rightarrow> api_fault option"
  ce_uid :: "nat \<Rightarrow> string"
  ce_version :: "nat \<Rightarrow> string"
  ce_now :: "nat \<Rightarrow> int"
  ce_gateway :: gateway_get
  ce_slots :: "nat \<Rightarrow> string option"
  ce_num :: "string \<Rightarrow> string"

text \<open>The start of a call: others act, then the call may fail.\<close>

definition api_call :: "cluster_env \<Rightarrow> cluster \<Rightarrow> api_fault option \<times> cluster" where
  "api_call env st =
     (ce_fault env (kc_calls st),
      st\<lparr>kc_endpoints := ce_others env (kc_calls st) (kc_endpoints st), kc_calls := Suc (kc_calls st)\<rparr>)"

definition cached :: "cluster_env \<Rightarrow> cluster \<Rightarrow> endpoints" where
  "cached env st = ce_view env (kc_calls st) (kc_endpoints st)"

definition api_list :: "cluster_env \<Rightarrow> (KrakenDEndpoint \<Rightarrow> bool) \<Rightarrow> cluster \<Rightarrow> (api_fault + KrakenDEndpoint list) \<times> cluster" where
  "api_list env P st =
     (case api_call env st of
        (Some e, st') \<Rightarrow> (Inl e, st')
      | (None, st') \<Rightarrow> (Inr (filter P (map snd (cached env st'))), st'))"

definition api_get :: "cluster_env \<Rightarrow> string \<Rightarrow> cluster \<Rightarrow> (api_fault + KrakenDEndpoint) \<times> cluster" where
  "api_get env name st =
     (case api_call env st of
        (Some e, st') \<Rightarrow> (Inl e, st')
      | (None, st') \<Rightarrow> (case map_of (cached env st') name of None \<Rightarrow> (Inl FaultNotFound, st') | Some ep \<Rightarrow> (Inr ep, st')))"

definition put_endpoint :: "KrakenDEndpoint \<Rightarrow> cluster \<Rightarrow> cluster" where
  "put_endpoint ep st = st\<lparr>kc_endpoints := mput (ep_Name ep) ep (kc_endpoints st)\<rparr>"

definition note_event :: "trace_event \<Rightarrow> cluster \<Rightarrow> cluster" where
  "note_event ev st = st\<lparr>kc_trace := kc_trace st @ [ev]\<rparr>"

text \<open>The object an update stores: what the client sets, with the status and the identity of the live one.\<close>

definition stored_update :: "string \<Rightarrow> KrakenDEndpoint \<Rightarrow> KrakenDEndpoint \<Rightarrow> KrakenDEndpoint" where
  "stored_update version ep live =
     live\<lparr>ep_ResourceVersion := version, ep_Labels := ep_Labels ep, ep_Controller := ep_Controller ep,
       ep_Generation := (if ep_Spec ep = ep_Spec live then ep_Generation live else ep_Generation live + 1), ep_Spec := ep_Spec ep\<rparr>"

text \<open>The client encodes an object before it sends it: raw bytes that are not JSON make the call fail.\<close>

definition encode_fault :: api_fault where
  "encode_fault = FaultOther ''json: error calling MarshalJSON''"

definition api_update ::
  "cluster_env \<Rightarrow> (KrakenDEndpoint \<Rightarrow> trace_event) \<Rightarrow> KrakenDEndpoint \<Rightarrow> cluster \<Rightarrow> (api_fault + KrakenDEndpoint) \<times> cluster" where
  "api_update env ev ep st =
     (if \<not> spec_encodes (ep_Spec ep) then (Inl encode_fault, st)
      else case api_call env st of
        (Some e, st') \<Rightarrow> (Inl e, st')
      | (None, st') \<Rightarrow>
          (case map_of (kc_endpoints st') (ep_Name ep) of
             None \<Rightarrow> (Inl FaultNotFound, st')
           | Some live \<Rightarrow>
               if ep_ResourceVersion live \<noteq> ep_ResourceVersion ep then (Inl (FaultConflict ''the object has been modified''), st')
               else (let stored = stored_update (ce_version env (kc_calls st')) ep live
                     in (Inr stored, note_event (ev stored) (put_endpoint stored st')))))"

definition stored_create :: "cluster_env \<Rightarrow> nat \<Rightarrow> KrakenDEndpoint \<Rightarrow> KrakenDEndpoint" where
  "stored_create env n ep =
     ep\<lparr>ep_UID := ce_uid env n, ep_ResourceVersion := ce_version env n, ep_Deleting := False, ep_Generation := 1,
       ep_CreationTimestamp := ce_now env n, ep_Status := zero_endpoint_status\<rparr>"

definition api_create :: "cluster_env \<Rightarrow> KrakenDEndpoint \<Rightarrow> cluster \<Rightarrow> (api_fault + KrakenDEndpoint) \<times> cluster" where
  "api_create env ep st =
     (if \<not> spec_encodes (ep_Spec ep) then (Inl encode_fault, st)
      else case api_call env st of
        (Some e, st') \<Rightarrow> (Inl e, st')
      | (None, st') \<Rightarrow>
          if map_of (kc_endpoints st') (ep_Name ep) \<noteq> None then (Inl (FaultAlreadyExists ''already exists''), st')
          else (let stored = stored_create env (kc_calls st') ep
                in (Inr stored, note_event (CreatedEP stored) (put_endpoint stored st'))))"

definition api_delete :: "cluster_env \<Rightarrow> KrakenDEndpoint \<Rightarrow> cluster \<Rightarrow> api_fault option \<times> cluster" where
  "api_delete env ep st =
     (case api_call env st of
        (Some e, st') \<Rightarrow> (Some e, st')
      | (None, st') \<Rightarrow>
          (case map_of (kc_endpoints st') (ep_Name ep) of
             None \<Rightarrow> (Some FaultNotFound, st')
           | Some live \<Rightarrow>
               if ep_UID live \<noteq> ep_UID ep then (Some (FaultConflict ''the UID in the precondition does not match''), st')
               else (None, note_event (DeletedEP live) (st'\<lparr>kc_endpoints := mdel (ep_Name ep) (kc_endpoints st')\<rparr>))))"

section \<open>Owners\<close>

definition autoConfigKind :: string where
  "autoConfigKind = ''gateway.krakend.io/KrakenDAutoConfig''"

definition owner_of :: "KrakenDAutoConfig \<Rightarrow> OwnerRef" where
  "owner_of ac = \<lparr>or_Kind = autoConfigKind, or_Name = au_Name ac, or_UID = au_UID ac\<rparr>"

text \<open>
  \<^verbatim>\<open>controllerutil.SetControllerReference\<close>: an object controlled by another object is refused; the same
  object is one of the same kind and name.
\<close>

definition SetControllerReference :: "KrakenDAutoConfig \<Rightarrow> KrakenDEndpoint \<Rightarrow> api_fault + KrakenDEndpoint" where
  "SetControllerReference ac ep =
     (case ep_Controller ep of
        Some r \<Rightarrow>
          if or_Kind r = autoConfigKind \<and> or_Name r = au_Name ac then Inr (ep\<lparr>ep_Controller := Some (owner_of ac)\<rparr>)
          else Inl (FaultOwned (''Object '' @ ep_Namespace ep @ ''/'' @ ep_Name ep @ '' is already owned by another '' @ or_Kind r @ '' controller '' @ or_Name r))
      | None \<Rightarrow> Inr (ep\<lparr>ep_Controller := Some (owner_of ac)\<rparr>))"

text \<open>The index of the endpoints by the UID of their controller.\<close>

definition EndpointControllerKeys :: "KrakenDEndpoint \<Rightarrow> string list" where
  "EndpointControllerKeys ep = (case ep_Controller ep of None \<Rightarrow> [] | Some r \<Rightarrow> [or_UID r])"

definition controls :: "KrakenDAutoConfig \<Rightarrow> KrakenDEndpoint \<Rightarrow> bool" where
  "controls ac ep \<longleftrightarrow> au_UID ac \<in> set (EndpointControllerKeys ep)"

definition labelled_for :: "KrakenDAutoConfig \<Rightarrow> KrakenDEndpoint \<Rightarrow> bool" where
  "labelled_for ac ep \<longleftrightarrow>
     map_of (ep_Labels ep) LabelAutoConfig = Some (au_Name ac) \<and> map_of (ep_Labels ep) LabelAutoGenerated = Some ''true''"

section \<open>Readiness\<close>

record endpointReadiness =
  rd_total :: nat
  rd_ready :: nat
  rd_notReady :: "string list"

definition endpointNotReadyReason :: "KrakenDEndpoint \<Rightarrow> string" where
  "endpointNotReadyReason ep =
     (case FindStatusCondition (est_Conditions (ep_Status ep)) ''Ready'' of
        None \<Rightarrow> ''Pending''
      | Some cond \<Rightarrow>
          if est_ObservedGeneration (ep_Status ep) \<noteq> ep_Generation ep then ''Pending''
          else if cond_Status cond \<noteq> ConditionTrue then cond_Reason cond else [])"

definition summarizeReadiness :: "KrakenDEndpoint list \<Rightarrow> string list \<Rightarrow> endpointReadiness" where
  "summarizeReadiness controlled deleted =
     (let eps = filter (\<lambda>ep. ep_Name ep \<notin> set deleted) (sort_by (\<lambda>a b. cmp_Compare (ep_Name a) (ep_Name b) < 0) controlled);
          bad = filter (\<lambda>ep. endpointNotReadyReason ep \<noteq> []) eps
      in \<lparr>rd_total = length eps, rd_ready = length eps - length bad,
          rd_notReady = map (\<lambda>ep. ep_Name ep @ '': '' @ endpointNotReadyReason ep) bad\<rparr>)"

section \<open>The outcome\<close>

record endpointOutcome =
  oc_created :: nat
  oc_updated :: nat
  oc_deleted :: nat
  oc_transient :: "string list"
  oc_raced :: "string list"
  oc_rejected :: held_endpoints
  oc_readiness :: endpointReadiness

definition empty_outcome :: endpointOutcome where
  "empty_outcome =
     \<lparr>oc_created = 0, oc_updated = 0, oc_deleted = 0, oc_transient = [], oc_raced = [], oc_rejected = [],
      oc_readiness = \<lparr>rd_total = 0, rd_ready = 0, rd_notReady = []\<rparr>\<rparr>"

definition outcome_failed :: "endpointOutcome \<Rightarrow> bool" where
  "outcome_failed oc \<longleftrightarrow> oc_transient oc \<noteq> [] \<or> oc_raced oc \<noteq> [] \<or> oc_rejected oc \<noteq> []"

text \<open>\<open>what\<close> says which write failed; the rejection keeps the inner error only.\<close>

definition record_failure :: "KrakenDEndpoint \<Rightarrow> string \<Rightarrow> api_fault \<Rightarrow> endpointOutcome \<Rightarrow> endpointOutcome" where
  "record_failure ep what fault oc =
     (let err = what @ ep_Name ep @ '': '' @ fault_text fault
      in case fault of
           FaultConflict _ \<Rightarrow> oc\<lparr>oc_raced := oc_raced oc @ [err]\<rparr>
         | FaultAlreadyExists _ \<Rightarrow> oc\<lparr>oc_raced := oc_raced oc @ [err]\<rparr>
         | FaultInvalid _ \<Rightarrow>
             oc\<lparr>oc_rejected := mput (ep_Name ep) (rejection_of ep ''EndpointRejected'' (fault_text fault) err) (oc_rejected oc)\<rparr>
         | FaultOwned _ \<Rightarrow>
             oc\<lparr>oc_rejected := mput (ep_Name ep) (rejection_of ep ''EndpointRejected'' (fault_text fault) err) (oc_rejected oc)\<rparr>
         | _ \<Rightarrow> oc\<lparr>oc_transient := oc_transient oc @ [err]\<rparr>)"

section \<open>Claiming\<close>

definition adoptable :: "KrakenDEndpoint list \<Rightarrow> KrakenDEndpoint \<Rightarrow> bool" where
  "adoptable desired orphan \<longleftrightarrow>
     ep_Controller orphan = None \<and> \<not> ep_Deleting orphan \<and> ep_Name orphan \<notin> set (map ep_Name desired)"

fun adopt_all ::
  "cluster_env \<Rightarrow> KrakenDAutoConfig \<Rightarrow> KrakenDEndpoint list \<Rightarrow> KrakenDEndpoint list \<Rightarrow> endpointOutcome \<Rightarrow> cluster \<Rightarrow>
   (KrakenDEndpoint list \<times> endpointOutcome) \<times> cluster" where
  "adopt_all env ac [] controlled oc st = ((controlled, oc), st)"
| "adopt_all env ac (orphan # orphans) controlled oc st =
     (case SetControllerReference ac orphan of
        Inl e \<Rightarrow> adopt_all env ac orphans controlled (record_failure orphan ''adopting endpoint '' e oc) st
      | Inr owned \<Rightarrow>
          (case api_update env Adopted owned st of
             (Inl FaultNotFound, st') \<Rightarrow> adopt_all env ac orphans controlled oc st'
           | (Inl e, st') \<Rightarrow> adopt_all env ac orphans controlled (record_failure owned ''adopting endpoint '' e oc) st'
           | (Inr stored, st') \<Rightarrow> adopt_all env ac orphans (controlled @ [stored]) oc st'))"

definition claimEndpoints ::
  "cluster_env \<Rightarrow> KrakenDAutoConfig \<Rightarrow> KrakenDEndpoint list \<Rightarrow> endpointOutcome \<Rightarrow> cluster \<Rightarrow>
   (string + KrakenDEndpoint list \<times> endpointOutcome) \<times> cluster" where
  "claimEndpoints env ac desired oc st =
     (case api_list env (controls ac) st of
        (Inl e, st1) \<Rightarrow> (Inl (''listing controlled endpoints: '' @ fault_text e), st1)
      | (Inr owned, st1) \<Rightarrow>
          (case api_list env (labelled_for ac) st1 of
             (Inl e, st2) \<Rightarrow> (Inl (''listing labelled endpoints: '' @ fault_text e), st2)
           | (Inr labelled, st2) \<Rightarrow>
               (case adopt_all env ac
                       (filter (adoptable desired) (sort_by (\<lambda>a b. cmp_Compare (ep_Name a) (ep_Name b) < 0) labelled)) owned oc st2 of
                  (r, st3) \<Rightarrow> (Inr r, st3))))"

fun with_uncontrolled :: "cluster_env \<Rightarrow> KrakenDEndpoint list \<Rightarrow> string list \<Rightarrow> KrakenDEndpoint list \<Rightarrow> cluster \<Rightarrow> KrakenDEndpoint list \<times> cluster" where
  "with_uncontrolled env all known [] st = (all, st)"
| "with_uncontrolled env all known (ep # eps) st =
     (if ep_Name ep \<in> set known then with_uncontrolled env all known eps st
      else (case api_get env (ep_Name ep) st of
              (Inl e, st') \<Rightarrow> with_uncontrolled env all known eps st'
            | (Inr stored, st') \<Rightarrow>
                with_uncontrolled env (if ep_Controller stored = None then all @ [stored] else all) known eps st'))"

definition withUncontrolled ::
  "cluster_env \<Rightarrow> KrakenDEndpoint list \<Rightarrow> KrakenDEndpoint list \<Rightarrow> cluster \<Rightarrow> KrakenDEndpoint list \<times> cluster" where
  "withUncontrolled env controlled desired st = with_uncontrolled env controlled (map ep_Name controlled) desired st"

section \<open>Writing and deleting\<close>

definition mutate :: "(string \<Rightarrow> string) \<Rightarrow> KrakenDAutoConfig \<Rightarrow> KrakenDEndpoint \<Rightarrow> KrakenDEndpoint \<Rightarrow> api_fault + KrakenDEndpoint" where
  "mutate num ac ep live =
     SetControllerReference ac
       (live\<lparr>ep_Labels := mmerge (ep_Labels live) (ep_Labels ep),
             ep_Spec := (if endpointSpecEqual num (ep_Spec live) (ep_Spec ep) then ep_Spec live else ep_Spec ep)\<rparr>)"

definition blank_endpoint :: "KrakenDEndpoint \<Rightarrow> KrakenDEndpoint" where
  "blank_endpoint ep =
     \<lparr>ep_Name = ep_Name ep, ep_Namespace = ep_Namespace ep, ep_UID = [], ep_ResourceVersion = [], ep_Labels = [], ep_Controller = None,
      ep_Deleting = False, ep_Generation = 0, ep_CreationTimestamp = 0,
      ep_Spec = \<lparr>es_GatewayRef = \<lparr>gr_Name = [], gr_Namespace = []\<rparr>, es_Endpoints = [], es_ComponentSchemas = []\<rparr>,
      ep_Status = zero_endpoint_status\<rparr>"

datatype OperationResult = OperationResultNone | OperationResultCreated | OperationResultUpdated

text \<open>\<^verbatim>\<open>controllerutil.CreateOrUpdate\<close> with the mutation above.\<close>

definition writeEndpoint ::
  "cluster_env \<Rightarrow> KrakenDAutoConfig \<Rightarrow> KrakenDEndpoint \<Rightarrow> cluster \<Rightarrow> (api_fault + OperationResult \<times> KrakenDEndpoint) \<times> cluster" where
  "writeEndpoint env ac ep st =
     (case api_get env (ep_Name ep) st of
        (Inl FaultNotFound, st1) \<Rightarrow>
          (case mutate (ce_num env) ac ep (blank_endpoint ep) of
             Inl e \<Rightarrow> (Inl e, st1)
           | Inr new \<Rightarrow>
               (case api_create env new st1 of
                  (Inl e, st2) \<Rightarrow> (Inl e, st2)
                | (Inr stored, st2) \<Rightarrow> (Inr (OperationResultCreated, stored), st2)))
      | (Inl e, st1) \<Rightarrow> (Inl e, st1)
      | (Inr live, st1) \<Rightarrow>
          (case mutate (ce_num env) ac ep live of
             Inl e \<Rightarrow> (Inl e, st1)
           | Inr new \<Rightarrow>
               if new = live then (Inr (OperationResultNone, live), note_event (UnchangedEP live) st1)
               else (case api_update env UpdatedEP new st1 of
                       (Inl e, st2) \<Rightarrow> (Inl e, st2)
                     | (Inr stored, st2) \<Rightarrow> (Inr (OperationResultUpdated, stored), st2))))"

definition count_change :: "OperationResult \<Rightarrow> endpointOutcome \<Rightarrow> endpointOutcome" where
  "count_change op oc =
     (case op of
        OperationResultCreated \<Rightarrow> oc\<lparr>oc_created := Suc (oc_created oc)\<rparr>
      | OperationResultUpdated \<Rightarrow> oc\<lparr>oc_updated := Suc (oc_updated oc)\<rparr>
      | OperationResultNone \<Rightarrow> oc)"

fun write_all ::
  "cluster_env \<Rightarrow> KrakenDAutoConfig \<Rightarrow> KrakenDEndpoint list \<Rightarrow> endpoints \<Rightarrow> endpointOutcome \<Rightarrow> cluster \<Rightarrow> (endpoints \<times> endpointOutcome) \<times> cluster" where
  "write_all env ac [] after oc st = ((after, oc), st)"
| "write_all env ac (ep # eps) after oc st =
     (if map_of (oc_rejected oc) (ep_Name ep) \<noteq> None then write_all env ac eps after oc st
      else (case writeEndpoint env ac ep st of
              (Inl e, st') \<Rightarrow> write_all env ac eps after (record_failure ep ''upserting endpoint '' e oc) st'
            | (Inr (op, live), st') \<Rightarrow> write_all env ac eps (mput (ep_Name ep) live after) (count_change op oc) st'))"

definition deleteEndpoint :: "cluster_env \<Rightarrow> KrakenDEndpoint \<Rightarrow> cluster \<Rightarrow> (api_fault + bool) \<times> cluster" where
  "deleteEndpoint env ep st =
     (case api_delete env ep st of
        (None, st') \<Rightarrow> (Inr True, st')
      | (Some FaultNotFound, st') \<Rightarrow> (Inr False, st')
      | (Some e, st') \<Rightarrow> (Inl e, st'))"

fun delete_all ::
  "cluster_env \<Rightarrow> KrakenDEndpoint list \<Rightarrow> string list \<Rightarrow> endpointOutcome \<Rightarrow> cluster \<Rightarrow> (string list \<times> endpointOutcome) \<times> cluster" where
  "delete_all env [] absent oc st = ((absent, oc), st)"
| "delete_all env (ep # eps) absent oc st =
     (case deleteEndpoint env ep st of
        (Inl e, st') \<Rightarrow> delete_all env eps absent (record_failure ep ''deleting endpoint '' e oc) st'
      | (Inr deleted, st') \<Rightarrow>
          delete_all env eps (absent @ [ep_Name ep]) (if deleted then oc\<lparr>oc_deleted := Suc (oc_deleted oc)\<rparr> else oc) st')"

section \<open>The pass\<close>

definition run_precheck ::
  "cluster_env \<Rightarrow> Checker \<Rightarrow> KrakenDAutoConfig \<Rightarrow> KrakenDEndpoint list \<Rightarrow> KrakenDEndpoint list \<Rightarrow> creationOrder \<Rightarrow> bool \<Rightarrow> cluster \<Rightarrow>
   (sync_error + held_endpoints) \<times> cluster" where
  "run_precheck env ck ac writes stale ord held st =
     (case precheck ck (ce_slots env) (ce_gateway env) ac writes stale ord held (kc_judging st) of
        (r, jd) \<Rightarrow> (r, st\<lparr>kc_judging := jd\<rparr>))"

definition finish_pass ::
  "cluster_env \<Rightarrow> KrakenDAutoConfig \<Rightarrow> KrakenDEndpoint list \<Rightarrow> KrakenDEndpoint list \<Rightarrow> KrakenDEndpoint list \<Rightarrow> bool \<Rightarrow> endpointOutcome \<Rightarrow>
   cluster \<Rightarrow> endpointOutcome \<times> cluster" where
  "finish_pass env ac controlled writes stale held oc st =
     (case write_all env ac writes (by_name controlled) oc st of
        ((after, oc1), st1) \<Rightarrow>
          (case (if \<not> held \<and> \<not> outcome_failed oc1 then delete_all env stale [] oc1 st1 else (([], oc1), st1)) of
             ((absent, oc2), st2) \<Rightarrow> (oc2\<lparr>oc_readiness := summarizeReadiness (map snd after) absent\<rparr>, st2)))"

definition reconcileEndpoints ::
  "cluster_env \<Rightarrow> Checker \<Rightarrow> KrakenDAutoConfig \<Rightarrow> KrakenDEndpoint list \<Rightarrow> bool \<Rightarrow> cluster \<Rightarrow> (sync_error + endpointOutcome) \<times> cluster" where
  "reconcileEndpoints env ck ac desired held st =
     (case claimEndpoints env ac desired empty_outcome st of
        (Inl e, st1) \<Rightarrow> (Inl (SyncError e), st1)
      | (Inr (controlled, oc), st1) \<Rightarrow>
          (case planEndpoints (ce_num env) controlled desired of
             (planned, stale) \<Rightarrow>
               (case withUncontrolled env controlled desired st1 of
                  (existing, st2) \<Rightarrow>
                    (let oc1 = oc\<lparr>oc_rejected := mmerge (oc_rejected oc) (routeCollisions desired existing)\<rparr>;
                         writes = withoutHeld planned (oc_rejected oc1)
                     in case run_precheck env ck ac writes stale (newCreationOrder existing)
                               (held \<or> outcome_failed oc1 \<or> recursRejection ac writes) st2 of
                          (Inl e, st3) \<Rightarrow> (Inl e, st3)
                        | (Inr rejected, st3) \<Rightarrow>
                            (case finish_pass env ac controlled writes stale held
                                    (oc1\<lparr>oc_rejected := mmerge (oc_rejected oc1) rejected\<rparr>) st3 of
                               (oc2, st4) \<Rightarrow> (Inr oc2, st4))))))"

end
