(* ===== verification/AutoStatus.thy ===== *)
theory AutoStatus
  imports AutoEndpoints Acceptance
begin

text \<open>
  The status of an AutoConfig (\<^verbatim>\<open>controller/autoconfig_status.go\<close> and the derived conditions of
  \<^verbatim>\<open>controller/krakendautoconfig_controller.go\<close>): bounded lists, the Synced and EndpointsReady
  conditions, Ready and the phase derived from them, and when a status or a failure changed.
\<close>

section \<open>Texts and lists\<close>

definition maxStatusListLen :: nat where
  "maxStatusListLen = 20"

definition plural :: "nat \<Rightarrow> string \<Rightarrow> string \<Rightarrow> string" where
  "plural n one many = (if n = 1 then one else many)"

definition counted :: "nat \<Rightarrow> string \<Rightarrow> string" where
  "counted n noun = nat_str n @ '' '' @ plural n noun (noun @ ''s'')"

definition operationLabel :: "OperationStatus \<Rightarrow> string" where
  "operationLabel s =
     TruncateEllipsis
       ((if ops_Method s \<noteq> [] then ops_Method s @ '' '' else []) @ ops_Path s @
        (if ops_OperationID s \<noteq> [] then '' ('' @ ops_OperationID s @ '')'' else [])) maxStatusMessageLen @
     '': '' @ ops_Reason s"

definition status_less :: "OperationStatus \<Rightarrow> OperationStatus \<Rightarrow> bool" where
  "status_less a b \<longleftrightarrow>
     cmp_Or [cmp_Compare (ops_Path a) (ops_Path b), cmp_Compare (ops_Method a) (ops_Method b),
       cmp_Compare (ops_Endpoint a) (ops_Endpoint b), cmp_Compare (ops_OperationID a) (ops_OperationID b),
       cmp_Compare (ops_Reason a) (ops_Reason b), cmp_Compare (ops_Message a) (ops_Message b)] < 0"

definition sortOperationStatuses :: "OperationStatus list \<Rightarrow> OperationStatus list" where
  "sortOperationStatuses s = sort_by status_less s"

definition issue_status :: "OperationIssue \<Rightarrow> OperationStatus" where
  "issue_status i =
     \<lparr>ops_Method = opn_Method (oi_Operation i), ops_Path = opn_Path (oi_Operation i), ops_OperationID = opn_OperationID (oi_Operation i),
      ops_Endpoint = [], ops_Reason = oi_Reason i, ops_Message = TruncateEllipsis (oi_Message i) maxStatusMessageLen\<rparr>"

definition operationStatuses :: "OperationIssue list \<Rightarrow> OperationStatus list" where
  "operationStatuses issues = sortOperationStatuses (map issue_status issues)"

definition rejected_status :: "(string, string) gomap \<Rightarrow> string \<times> rejection \<Rightarrow> OperationStatus" where
  "rejected_status opIDs = (\<lambda>(name, rej).
     (let s = \<lparr>ops_Method = [], ops_Path = [], ops_OperationID = [], ops_Endpoint = name, ops_Reason = rj_reason rej,
               ops_Message = TruncateEllipsis (rj_message rej) maxStatusMessageLen\<rparr>
      in case es_Endpoints (ep_Spec (rj_endpoint rej)) of
           [] \<Rightarrow> s
         | e # _ \<Rightarrow> s\<lparr>ops_Method := en_Method e, ops_Path := en_Endpoint e, ops_OperationID := id_at opIDs (entryKey e)\<rparr>))"

definition rejectedStatuses :: "held_endpoints \<Rightarrow> (string, string) gomap \<Rightarrow> OperationStatus list" where
  "rejectedStatuses rejected opIDs = map (rejected_status opIDs) rejected"

definition capList :: "'a list \<Rightarrow> 'a list" where
  "capList s = (if length s > maxStatusListLen then take maxStatusListLen s else s)"

definition specWarnings :: "string list \<Rightarrow> string list" where
  "specWarnings warnings = map fst (fold (\<lambda>w. mput (TruncateEllipsis w maxStatusMessageLen) ()) warnings [])"

section \<open>Conditions\<close>

definition condition :: "string \<Rightarrow> ConditionStatus \<Rightarrow> int \<Rightarrow> string \<Rightarrow> string \<Rightarrow> Condition" where
  "condition typ status generation reason message =
     \<lparr>cond_Type = typ, cond_Status = status, cond_ObservedGeneration = generation, cond_Reason = reason, cond_Message = message\<rparr>"

definition endpointsReadyCondition :: "endpointReadiness \<Rightarrow> int \<Rightarrow> Condition" where
  "endpointsReadyCondition r generation =
     (if rd_notReady r = []
      then condition ''EndpointsReady'' ConditionTrue generation ''AllEndpointsReady''
             (nat_str (rd_ready r) @ '' of '' @ counted (rd_total r) ''endpoint'' @ '' ready'')
      else condition ''EndpointsReady'' ConditionFalse generation ''EndpointsNotReady''
             (nat_str (length (rd_notReady r)) @ '' of '' @ counted (rd_total r) ''endpoint'' @ '' not ready: '' @
              listed (rd_notReady r)))"

record endpointChanges =
  ch_created :: nat
  ch_updated :: nat
  ch_deleted :: nat

definition changes_total :: "endpointChanges \<Rightarrow> nat" where
  "changes_total c = ch_created c + ch_updated c + ch_deleted c"

record syncResult =
  sr_checksum :: string
  sr_generated :: nat
  sr_skipped :: "OperationStatus list"
  sr_failed :: "OperationStatus list"
  sr_warnings :: "string list"
  sr_changes :: endpointChanges
  sr_readiness :: endpointReadiness

definition syncedCondition :: "syncResult \<Rightarrow> int \<Rightarrow> Condition" where
  "syncedCondition res generation =
     (let n = length (sr_failed res)
      in if n > 0
         then condition ''Synced'' ConditionFalse generation ''OperationsFailed''
                (counted n ''operation'' @ '' failed; '' @
                 plural n ''it keeps its last-synced endpoint'' ''they keep their last-synced endpoints'' @
                 '' and no stale endpoint is deleted until '' @ plural n ''it recovers'' ''they recover'' @
                 '' (see status.failedOperations): '' @ listed (map operationLabel (sr_failed res)))
         else condition ''Synced'' ConditionTrue generation ''Synced''
                (''Generated '' @ counted (sr_generated res) ''endpoint'' @
                 (if sr_skipped res \<noteq> [] then ''; '' @ counted (length (sr_skipped res)) ''operation'' @ '' skipped (see status.skipped)'' else []) @
                 (if sr_warnings res \<noteq> [] then ''; '' @ counted (length (sr_warnings res)) ''spec warning'' @ '' (see status.warnings)'' else [])))"

definition autoConfigReady :: "Condition list \<Rightarrow> ConditionStatus \<times> string \<times> string" where
  "autoConfigReady conds =
     fold (\<lambda>typ rest.
       (case FindStatusCondition conds typ of
          None \<Rightarrow> (ConditionUnknown, ''Pending'', ''Waiting for the first sync'')
        | Some c \<Rightarrow> if cond_Status c \<noteq> ConditionTrue then (ConditionFalse, cond_Reason c, cond_Message c) else rest))
       [''EndpointsReady'', ''Synced'', ''SpecAvailable'']
       (ConditionTrue, ''Ready'', ''OpenAPI spec fetched, endpoints in sync and ready'')"

definition autoConfigPhase :: "Condition list \<Rightarrow> AutoConfigPhase" where
  "autoConfigPhase conds =
     (case FindStatusCondition conds ''Synced'' of
        None \<Rightarrow> AutoConfigPhasePending
      | Some synced \<Rightarrow> if cond_Status synced = ConditionTrue then AutoConfigPhaseSynced else AutoConfigPhaseError)"

section \<open>The status of an AutoConfig\<close>

definition auto_conditions :: "KrakenDAutoConfig \<Rightarrow> Condition list" where
  "auto_conditions ac = ast_Conditions (au_Status ac)"

definition set_auto_condition :: "Condition \<Rightarrow> KrakenDAutoConfig \<Rightarrow> KrakenDAutoConfig" where
  "set_auto_condition c ac = ac\<lparr>au_Status := (au_Status ac)\<lparr>ast_Conditions := SetStatusCondition c (auto_conditions ac)\<rparr>\<rparr>"

definition setAutoConfigReadiness :: "KrakenDAutoConfig \<Rightarrow> KrakenDAutoConfig" where
  "setAutoConfigReadiness ac =
     (case autoConfigReady (auto_conditions ac) of
        (status, reason, message) \<Rightarrow>
          (let conds = setReadyCondition (auto_conditions ac) (au_Generation ac) status reason message
           in ac\<lparr>au_Status := (au_Status ac)\<lparr>ast_Conditions := conds, ast_Phase := Some (autoConfigPhase conds),
                 ast_ObservedGeneration := au_Generation ac\<rparr>\<rparr>))"

definition failureChanged :: "KrakenDAutoConfigStatus \<Rightarrow> KrakenDAutoConfigStatus \<Rightarrow> bool" where
  "failureChanged orig cur \<longleftrightarrow>
     ast_FailedOperations orig \<noteq> ast_FailedOperations cur \<or>
     (case (FindStatusCondition (ast_Conditions orig) ''Synced'', FindStatusCondition (ast_Conditions cur) ''Synced'') of
        (Some was, Some now) \<Rightarrow>
          cond_Status was \<noteq> cond_Status now \<or> cond_Reason was \<noteq> cond_Reason now \<or> cond_Message was \<noteq> cond_Message now
      | (None, None) \<Rightarrow> False
      | _ \<Rightarrow> True)"

definition autoConfigStatusChanged :: "KrakenDAutoConfigStatus \<Rightarrow> KrakenDAutoConfigStatus \<Rightarrow> bool" where
  "autoConfigStatusChanged orig cur \<longleftrightarrow>
     ast_Phase orig \<noteq> ast_Phase cur \<or> ast_ObservedGeneration orig \<noteq> ast_ObservedGeneration cur \<or>
     ast_SpecChecksum orig \<noteq> ast_SpecChecksum cur \<or> ast_GeneratedEndpoints orig \<noteq> ast_GeneratedEndpoints cur \<or>
     ast_ReadyEndpoints orig \<noteq> ast_ReadyEndpoints cur \<or> ast_SkippedOperations orig \<noteq> ast_SkippedOperations cur \<or>
     ast_Skipped orig \<noteq> ast_Skipped cur \<or> ast_FailedOperations orig \<noteq> ast_FailedOperations cur \<or>
     ast_Warnings orig \<noteq> ast_Warnings cur \<or> ast_LastSyncTime orig \<noteq> ast_LastSyncTime cur \<or>
     \<not> conditionsEqual (ast_Conditions orig) (ast_Conditions cur)"

section \<open>Input warnings\<close>

record inputWarnings =
  iw_inputsChanged :: bool
  iw_pending :: "(string \<times> string) list"

definition add_warning :: "string \<Rightarrow> string \<Rightarrow> inputWarnings \<Rightarrow> inputWarnings" where
  "add_warning reason message w = (if iw_inputsChanged w then w\<lparr>iw_pending := iw_pending w @ [(reason, message)]\<rparr> else w)"

definition emit_warnings :: "inputWarnings \<Rightarrow> Event list" where
  "emit_warnings w = map (\<lambda>(reason, message). warning reason message) (capList (iw_pending w))"

section \<open>Facts\<close>

lemma length_capList: "length (capList s) \<le> 20"
  by (simp add: capList_def maxStatusListLen_def)

lemma capList_Nil [simp]: "capList s = [] \<longleftrightarrow> s = []"
  by (auto simp: capList_def maxStatusListLen_def)

lemma syncedCondition_type [simp]: "cond_Type (syncedCondition res generation) = ''Synced''"
  by (simp add: syncedCondition_def condition_def Let_def)

lemma syncedCondition_True: "cond_Status (syncedCondition res generation) = ConditionTrue \<longleftrightarrow> sr_failed res = []"
  by (simp add: syncedCondition_def condition_def Let_def)

lemma endpointsReady_type [simp]: "cond_Type (endpointsReadyCondition r generation) = ''EndpointsReady''"
  by (simp add: endpointsReadyCondition_def condition_def)

lemma setAutoConfigReadiness_find [simp]:
  "t \<noteq> ''Ready'' \<Longrightarrow> FindStatusCondition (auto_conditions (setAutoConfigReadiness ac)) t = FindStatusCondition (auto_conditions ac) t"
  by (simp add: setAutoConfigReadiness_def auto_conditions_def setReadyCondition_def Let_def split: prod.splits)

lemma autoConfigReady_True:
  "fst (autoConfigReady conds) = ConditionTrue \<longleftrightarrow>
     (\<forall>t \<in> {''SpecAvailable'', ''Synced'', ''EndpointsReady''}. IsStatusConditionTrue conds t)"
  by (auto simp: autoConfigReady_def IsStatusConditionTrue_def split: option.splits)

end
