(* ===== verification/AutoSafe.thy ===== *)
theory AutoSafe
  imports AutoEndpoints
begin

text \<open>
  The endpoint pass makes before it breaks: whatever others do, whatever the cache shows and
  whichever calls fail, nothing is deleted unless every desired endpoint is in place.
\<close>

section \<open>Well-formed clusters\<close>

definition eps_wf :: "endpoints \<Rightarrow> bool" where
  "eps_wf m \<longleftrightarrow> mwf m \<and> (\<forall>name ep. map_of m name = Some ep \<longrightarrow> ep_Name ep = name \<and> mwf (ep_Labels ep) \<and> spec_encodes (ep_Spec ep))"

text \<open>Others, and the cache, leave the names with their objects, label maps maps and specifications JSON.\<close>

definition env_wf :: "cluster_env \<Rightarrow> bool" where
  "env_wf env \<longleftrightarrow> (\<forall>n m. eps_wf m \<longrightarrow> eps_wf (ce_others env n m) \<and> eps_wf (ce_view env n m))"

definition cluster_wf :: "cluster \<Rightarrow> bool" where
  "cluster_wf st \<longleftrightarrow> eps_wf (kc_endpoints st)"

lemma eps_wf_put: "eps_wf m \<Longrightarrow> mwf (ep_Labels ep) \<Longrightarrow> spec_encodes (ep_Spec ep) \<Longrightarrow> eps_wf (mput (ep_Name ep) ep m)"
  by (auto simp: eps_wf_def split: if_splits)

lemma eps_wf_del: "eps_wf m \<Longrightarrow> eps_wf (mdel name m)"
  by (auto simp: eps_wf_def split: if_splits)

lemma note_event_simps [simp]:
  "kc_endpoints (note_event ev st) = kc_endpoints st" "kc_trace (note_event ev st) = kc_trace st @ [ev]"
  by (simp_all add: note_event_def)

lemma put_endpoint_simps [simp]:
  "kc_endpoints (put_endpoint ep st) = mput (ep_Name ep) ep (kc_endpoints st)" "kc_trace (put_endpoint ep st) = kc_trace st"
  by (simp_all add: put_endpoint_def)

section \<open>Calls\<close>

text \<open>\<open>follows env evs st st'\<close>: a well-formed cluster stays so, and the trace grows by \<open>evs\<close>.\<close>

definition follows :: "trace_event list \<Rightarrow> cluster \<Rightarrow> cluster \<Rightarrow> bool" where
  "follows evs st st' \<longleftrightarrow> cluster_wf st' \<and> kc_trace st' = kc_trace st @ evs"

lemma follows_trans: "follows evs st st' \<Longrightarrow> follows evs' st' st'' \<Longrightarrow> follows (evs @ evs') st st''"
  by (simp add: follows_def)

lemma api_call_follows:
  assumes "env_wf env" "cluster_wf st" "api_call env st = (r, st')"
  shows "follows [] st st'"
  using assms by (auto simp: api_call_def follows_def cluster_wf_def env_wf_def)

lemma cached_wf: "env_wf env \<Longrightarrow> cluster_wf st \<Longrightarrow> eps_wf (cached env st)"
  by (simp add: cached_def env_wf_def cluster_wf_def)

lemma api_list_follows:
  assumes "env_wf env" "cluster_wf st" "api_list env P st = (r, st')"
  shows "follows [] st st'" and "r = Inr eps \<Longrightarrow> ep \<in> set eps \<Longrightarrow> P ep \<and> mwf (ep_Labels ep)"
proof -
  obtain f st1 where c: "api_call env st = (f, st1)" by force
  then have st': "st' = st1" using assms(3) by (auto simp: api_list_def split: option.splits)
  show f: "follows [] st st'" using api_call_follows [OF assms(1,2) c] st' by simp
  show "P ep \<and> mwf (ep_Labels ep)" if "r = Inr eps" "ep \<in> set eps"
  proof -
    from that assms(3) c st' have e: "P ep" "ep \<in> snd ` set (cached env st')" by (auto simp: api_list_def split: option.splits)
    have "eps_wf (cached env st')" using cached_wf [OF assms(1)] f by (simp add: follows_def)
    with e show ?thesis by (auto simp: eps_wf_def mwf_distinct)
  qed
qed

lemma api_get_follows:
  assumes "env_wf env" "cluster_wf st" "api_get env name st = (r, st')"
  shows "follows [] st st'" and "r = Inr ep \<Longrightarrow> ep_Name ep = name \<and> mwf (ep_Labels ep) \<and> spec_encodes (ep_Spec ep)"
proof -
  obtain f st1 where c: "api_call env st = (f, st1)" by force
  then have st': "st' = st1" using assms(3) by (auto simp: api_get_def split: option.splits)
  show f: "follows [] st st'" using api_call_follows [OF assms(1,2) c] st' by simp
  have "eps_wf (cached env st')" using cached_wf [OF assms(1)] f by (simp add: follows_def)
  then show "ep_Name ep = name \<and> mwf (ep_Labels ep) \<and> spec_encodes (ep_Spec ep)" if "r = Inr ep"
    using that assms(3) c st' by (auto simp: api_get_def eps_wf_def split: option.splits)
qed

text \<open>What a stored object shares with the object written.\<close>

definition stored_as :: "KrakenDEndpoint \<Rightarrow> KrakenDEndpoint \<Rightarrow> bool" where
  "stored_as ep stored \<longleftrightarrow>
     ep_Name stored = ep_Name ep \<and> ep_Labels stored = ep_Labels ep \<and> ep_Controller stored = ep_Controller ep \<and> ep_Spec stored = ep_Spec ep"

lemma api_update_follows:
  assumes "env_wf env" "cluster_wf st" "mwf (ep_Labels ep)" "api_update env ev ep st = (r, st')"
  shows "case r of Inl e \<Rightarrow> follows [] st st' | Inr stored \<Rightarrow> follows [ev stored] st st' \<and> stored_as ep stored \<and> spec_encodes (ep_Spec ep)"
proof (cases "spec_encodes (ep_Spec ep)")
  case False
  then show ?thesis using assms(2,4) by (auto simp: api_update_def follows_def)
next
  case enc: True
  obtain f st1 where c: "api_call env st = (f, st1)" by force
  note f1 = api_call_follows [OF assms(1,2) c]
  then have w: "eps_wf (kc_endpoints st1)" by (simp add: follows_def cluster_wf_def)
  show ?thesis
  proof (cases r)
    case (Inl e)
    then have "st' = st1" using assms(4) c enc by (auto simp: api_update_def Let_def split: option.splits if_splits)
    with f1 Inl show ?thesis by simp
  next
    case (Inr stored)
    then obtain live where l: "map_of (kc_endpoints st1) (ep_Name ep) = Some live"
      and s: "stored = stored_update (ce_version env (kc_calls st1)) ep live" and st': "st' = note_event (ev stored) (put_endpoint stored st1)"
      using assms(4) c enc by (auto simp: api_update_def Let_def split: option.splits if_splits)
    from w l have "ep_Name live = ep_Name ep" by (simp add: eps_wf_def)
    then have a: "stored_as ep stored" by (simp add: s stored_update_def stored_as_def)
    then have "eps_wf (mput (ep_Name stored) stored (kc_endpoints st1))" using w assms(3) enc by (intro eps_wf_put) (simp_all add: stored_as_def)
    with a Inr f1 enc show ?thesis by (simp add: st' follows_def cluster_wf_def)
  qed
qed

lemma api_create_follows:
  assumes "env_wf env" "cluster_wf st" "mwf (ep_Labels ep)" "api_create env ep st = (r, st')"
  shows "case r of Inl e \<Rightarrow> follows [] st st' | Inr stored \<Rightarrow> follows [CreatedEP stored] st st' \<and> stored_as ep stored \<and> spec_encodes (ep_Spec ep)"
proof (cases "spec_encodes (ep_Spec ep)")
  case False
  then show ?thesis using assms(2,4) by (auto simp: api_create_def follows_def)
next
  case enc: True
  obtain f st1 where c: "api_call env st = (f, st1)" by force
  note f1 = api_call_follows [OF assms(1,2) c]
  then have w: "eps_wf (kc_endpoints st1)" by (simp add: follows_def cluster_wf_def)
  show ?thesis
  proof (cases r)
    case (Inl e)
    then have "st' = st1" using assms(4) c enc by (auto simp: api_create_def Let_def split: option.splits if_splits)
    with f1 Inl show ?thesis by simp
  next
    case (Inr stored)
    then have s: "stored = stored_create env (kc_calls st1) ep" and st': "st' = note_event (CreatedEP stored) (put_endpoint stored st1)"
      using assms(4) c enc by (auto simp: api_create_def Let_def split: option.splits if_splits)
    have a: "stored_as ep stored" by (simp add: s stored_create_def stored_as_def)
    then have "eps_wf (mput (ep_Name stored) stored (kc_endpoints st1))" using w assms(3) enc by (intro eps_wf_put) (simp_all add: stored_as_def)
    with a Inr f1 enc show ?thesis by (simp add: st' follows_def cluster_wf_def)
  qed
qed

lemma deleteEndpoint_follows:
  assumes "env_wf env" "cluster_wf st" "deleteEndpoint env ep st = (r, st')"
  shows "\<exists>evs. follows evs st st' \<and> (\<forall>ev \<in> set evs. \<exists>old. ev = DeletedEP old \<and> ep_Name old = ep_Name ep \<and> ep_UID old = ep_UID ep)"
proof -
  obtain f st1 where c: "api_call env st = (f, st1)" by force
  note f1 = api_call_follows [OF assms(1,2) c]
  then have w: "eps_wf (kc_endpoints st1)" by (simp add: follows_def cluster_wf_def)
  obtain d where d: "api_delete env ep st = (d, st')"
    using assms(3) by (auto simp: deleteEndpoint_def split: prod.splits option.splits api_fault.splits)
  show ?thesis
  proof (cases d)
    case None
    with d c obtain live where "map_of (kc_endpoints st1) (ep_Name ep) = Some live" "ep_UID live = ep_UID ep"
      and "st' = note_event (DeletedEP live) (st1\<lparr>kc_endpoints := mdel (ep_Name ep) (kc_endpoints st1)\<rparr>)"
      by (auto simp: api_delete_def split: option.splits if_splits)
    with f1 w eps_wf_del [OF w] show ?thesis by (intro exI [of _ "[DeletedEP live]"]) (auto simp: follows_def cluster_wf_def eps_wf_def)
  next
    case (Some e)
    with d c have "st' = st1" by (auto simp: api_delete_def split: option.splits if_splits)
    with f1 show ?thesis by (intro exI [of _ "[]"]) simp
  qed
qed

section \<open>Adopting\<close>

lemma SetControllerReference_owner:
  "SetControllerReference ac ep = Inr owned \<Longrightarrow> owned = ep\<lparr>ep_Controller := Some (owner_of ac)\<rparr>"
  by (auto simp: SetControllerReference_def split: option.splits if_splits)

lemma adopt_all_follows:
  assumes "env_wf env" "cluster_wf st" "\<forall>o' \<in> set orphans. mwf (ep_Labels o')"
    and "adopt_all env ac orphans controlled oc st = ((controlled', oc'), st')"
  shows "\<exists>evs. follows evs st st' \<and> (\<forall>ev \<in> set evs. \<exists>a. ev = Adopted a) \<and>
    (\<forall>ep \<in> set controlled'. ep \<in> set controlled \<or> Adopted ep \<in> set evs)"
  using assms(2-4)
proof (induction orphans arbitrary: controlled oc st)
  case Nil
  then show ?case by (intro exI [of _ "[]"]) (simp add: follows_def)
next
  case (Cons orphan orphans)
  show ?case
  proof (cases "SetControllerReference ac orphan")
    case (Inl e)
    then show ?thesis using Cons.IH [OF Cons.prems(1)] Cons.prems(2,3) by auto
  next
    case (Inr owned)
    have o: "mwf (ep_Labels owned)" using SetControllerReference_owner [OF Inr] Cons.prems(2) by simp
    obtain r st1 where u: "api_update env Adopted owned st = (r, st1)" by force
    note f = api_update_follows [OF assms(1) Cons.prems(1) o u]
    show ?thesis
    proof (cases r)
      case (Inl e)
      with f have f1: "follows [] st st1" by simp
      then have w: "cluster_wf st1" by (simp add: follows_def)
      obtain oc1 where "adopt_all env ac orphans controlled oc1 st1 = ((controlled', oc'), st')"
        using Cons.prems(3) Inr u Inl by (cases e) auto
      from Cons.IH [OF w _ this] Cons.prems(2) obtain evs where "follows evs st1 st'" "\<forall>ev \<in> set evs. \<exists>a. ev = Adopted a"
        "\<forall>ep \<in> set controlled'. ep \<in> set controlled \<or> Adopted ep \<in> set evs" by auto
      with follows_trans [OF f1 this(1)] show ?thesis by auto
    next
      case (Inr stored)
      with f have f1: "follows [Adopted stored] st st1" by simp
      then have w: "cluster_wf st1" by (simp add: follows_def)
      have "adopt_all env ac orphans (controlled @ [stored]) oc st1 = ((controlled', oc'), st')"
        using Cons.prems(3) \<open>SetControllerReference ac orphan = Inr owned\<close> u Inr by simp
      from Cons.IH [OF w _ this] Cons.prems(2) obtain evs where e: "follows evs st1 st'" "\<forall>ev \<in> set evs. \<exists>a. ev = Adopted a"
        "\<forall>ep \<in> set controlled'. ep \<in> set (controlled @ [stored]) \<or> Adopted ep \<in> set evs" by auto
      from follows_trans [OF f1 e(1)] e(2,3) show ?thesis by (intro exI [of _ "[Adopted stored] @ evs"]) auto
    qed
  qed
qed

text \<open>The endpoints a pass may count as its own: the ones the list showed under its UID, and the ones it adopted.\<close>

definition owned_view :: "cluster_env \<Rightarrow> KrakenDAutoConfig \<Rightarrow> cluster \<Rightarrow> KrakenDEndpoint list" where
  "owned_view env ac st = filter (controls ac) (map snd (cached env (snd (api_call env st))))"

lemma claimEndpoints_follows:
  assumes "env_wf env" "cluster_wf st" "claimEndpoints env ac desired oc st = (r, st')"
  shows "\<exists>evs. follows evs st st' \<and> (\<forall>ev \<in> set evs. \<exists>a. ev = Adopted a) \<and>
    (\<forall>controlled oc'. r = Inr (controlled, oc') \<longrightarrow> (\<forall>ep \<in> set controlled. ep \<in> set (owned_view env ac st) \<or> Adopted ep \<in> set evs))"
proof -
  obtain r1 st1 where l1: "api_list env (controls ac) st = (r1, st1)" by force
  note f1 = api_list_follows(1) [OF assms(1,2) l1]
  show ?thesis
  proof (cases r1)
    case (Inl e)
    then show ?thesis using assms(3) l1 f1 by (intro exI [of _ "[]"]) (auto simp: claimEndpoints_def)
  next
    case (Inr owned)
    have w1: "cluster_wf st1" using f1 by (simp add: follows_def)
    have own: "owned = owned_view env ac st"
      using l1 Inr by (auto simp: api_list_def owned_view_def split: prod.splits option.splits)
    obtain r2 st2 where l2: "api_list env (labelled_for ac) st1 = (r2, st2)" by force
    note f2 = api_list_follows [OF assms(1) w1 l2]
    show ?thesis
    proof (cases r2)
      case (Inl e)
      then show ?thesis using assms(3) l1 l2 \<open>r1 = Inr owned\<close> follows_trans [OF f1 f2(1)]
        by (intro exI [of _ "[]"]) (auto simp: claimEndpoints_def)
    next
      case (Inr labelled)
      let ?orphans = "filter (adoptable desired) (sort_by (\<lambda>a b. cmp_Compare (ep_Name a) (ep_Name b) < 0) labelled)"
      have w2: "cluster_wf st2" using f2 by (simp add: follows_def)
      have m: "\<forall>o' \<in> set ?orphans. mwf (ep_Labels o')" using f2(2) [OF Inr] by simp
      obtain controlled oc' st3 where a: "adopt_all env ac ?orphans owned oc st2 = ((controlled, oc'), st3)" by (metis prod.collapse)
      with assms(3) l1 l2 \<open>r1 = Inr owned\<close> Inr have r: "r = Inr (controlled, oc')" "st' = st3" by (auto simp: claimEndpoints_def)
      from adopt_all_follows [OF assms(1) w2 m a] obtain evs where "follows evs st2 st3" "\<forall>ev \<in> set evs. \<exists>a. ev = Adopted a"
        "\<forall>ep \<in> set controlled. ep \<in> set owned \<or> Adopted ep \<in> set evs" by blast
      with follows_trans [OF follows_trans [OF f1 f2(1)] this(1)] r own show ?thesis by (intro exI [of _ evs]) auto
    qed
  qed
qed

lemma with_uncontrolled_follows:
  assumes "env_wf env" "cluster_wf st" "with_uncontrolled env all known eps st = (existing, st')"
  shows "follows [] st st'"
  using assms(2,3)
proof (induction eps arbitrary: all st)
  case (Cons ep eps)
  obtain r st1 where g: "api_get env (ep_Name ep) st = (r, st1)" by force
  note f = api_get_follows(1) [OF assms(1) Cons.prems(1) g]
  then have w: "cluster_wf st1" by (simp add: follows_def)
  show ?case
  proof (cases "ep_Name ep \<in> set known")
    case True
    then show ?thesis using Cons by simp
  next
    case False
    then obtain all' where "with_uncontrolled env all' known eps st1 = (existing, st')"
      using Cons.prems(2) g by (cases r) auto
    from follows_trans [OF f Cons.IH [OF w this]] show ?thesis by simp
  qed
qed (simp add: follows_def)

section \<open>Writing\<close>

definition placed :: "cluster_env \<Rightarrow> KrakenDAutoConfig \<Rightarrow> trace_event list \<Rightarrow> KrakenDEndpoint \<Rightarrow> bool" where
  "placed env ac evs ep \<longleftrightarrow>
     (\<exists>w. (CreatedEP w \<in> set evs \<or> UpdatedEP w \<in> set evs \<or> UnchangedEP w \<in> set evs) \<and>
        ep_Name w = ep_Name ep \<and> in_sync (ce_num env) w ep \<and> ep_Controller w = Some (owner_of ac))"

definition writable :: "KrakenDEndpoint \<Rightarrow> bool" where
  "writable ep \<longleftrightarrow> mwf (ep_Labels ep)"

lemma labelsContain_mmerge: "mwf m \<Longrightarrow> mwf want \<Longrightarrow> labelsContain (mmerge m want) want"
  by (auto simp: labelsContain_def list_all_iff mwf_distinct map_add_Some_iff)

lemma mutate_in_sync:
  assumes "writable ep" "mwf (ep_Labels live)" "mutate num ac ep live = Inr new"
  shows "ep_Name new = ep_Name live \<and> mwf (ep_Labels new) \<and> (spec_encodes (ep_Spec new) \<longrightarrow> in_sync num new ep) \<and> ep_Controller new = Some (owner_of ac)"
proof -
  from SetControllerReference_owner [OF assms(3) [unfolded mutate_def]]
  have n: "new = live\<lparr>ep_Labels := mmerge (ep_Labels live) (ep_Labels ep),
      ep_Spec := (if endpointSpecEqual num (ep_Spec live) (ep_Spec ep) then ep_Spec live else ep_Spec ep), ep_Controller := Some (owner_of ac)\<rparr>"
    by simp
  have "labelsContain (ep_Labels new) (ep_Labels ep)" using assms labelsContain_mmerge by (simp add: n writable_def)
  moreover have "spec_encodes (ep_Spec new) \<Longrightarrow> endpointSpecEqual num (ep_Spec new) (ep_Spec ep)" by (auto simp: n endpointSpecEqual_refl split: if_splits)
  ultimately show ?thesis using assms(2) by (simp add: n in_sync_def)
qed

lemma in_sync_stored: "stored_as ep stored \<Longrightarrow> in_sync num ep x \<Longrightarrow> in_sync num stored x"
  by (simp add: in_sync_def stored_as_def)

lemma writeEndpoint_follows:
  assumes "env_wf env" "cluster_wf st" "writable ep" "writeEndpoint env ac ep st = (r, st')"
  shows "\<exists>evs. follows evs st st' \<and> (\<forall>ev \<in> set evs. \<forall>old. ev \<noteq> DeletedEP old) \<and> (\<forall>x. r = Inr x \<longrightarrow> placed env ac evs ep)"
proof -
  obtain g st1 where g: "api_get env (ep_Name ep) st = (g, st1)" by force
  note f = api_get_follows [OF assms(1,2) g]
  have w: "cluster_wf st1" using f(1) by (simp add: follows_def)
  have stop: ?thesis if "st' = st1" "\<And>x. r \<noteq> Inr x" using that f(1) by (intro exI [of _ "[]"]) auto
  show ?thesis
  proof (cases g)
    case (Inr live)
    from f(2) [OF this] have l: "ep_Name live = ep_Name ep" "mwf (ep_Labels live)" "spec_encodes (ep_Spec live)" by simp_all
    show ?thesis
    proof (cases "mutate (ce_num env) ac ep live")
      case (Inl e)
      with assms(4) g Inr show ?thesis by (intro stop) (auto simp: writeEndpoint_def)
    next
      case (Inr new)
      note n = mutate_in_sync [OF assms(3) l(2) Inr]
      show ?thesis
      proof (cases "new = live")
        case True
        then have "st' = note_event (UnchangedEP live) st1" using assms(4) g \<open>g = Inr live\<close> Inr by (simp add: writeEndpoint_def)
        then have "follows [UnchangedEP live] st st'" using f(1) w by (simp add: follows_def cluster_wf_def)
        moreover have "placed env ac [UnchangedEP live] ep" using n l True unfolding placed_def by auto
        ultimately show ?thesis by (intro exI [of _ "[UnchangedEP live]"]) simp
      next
        case False
        obtain u st2 where u: "api_update env UpdatedEP new st1 = (u, st2)" by force
        have st': "st' = st2" "\<And>x. r = Inr x \<Longrightarrow> \<exists>s. u = Inr s"
          using assms(4) g \<open>g = Inr live\<close> Inr u False by (auto simp: writeEndpoint_def split: sum.splits)
        from n have "mwf (ep_Labels new)" by simp
        note fu = api_update_follows [OF assms(1) w this u]
        show ?thesis
        proof (cases u)
          case (Inl e)
          with fu st' follows_trans [OF f(1)] show ?thesis by (intro exI [of _ "[]"]) auto
        next
          case (Inr s)
          with fu have s: "follows [UpdatedEP s] st1 st2" "stored_as new s" "spec_encodes (ep_Spec new)" by simp_all
          with n l have "placed env ac [UpdatedEP s] ep" unfolding placed_def by (auto simp: stored_as_def in_sync_def)
          with follows_trans [OF f(1) s(1)] st' show ?thesis by (intro exI [of _ "[UpdatedEP s]"]) simp
        qed
      qed
    qed
  next
    case (Inl e)
    show ?thesis
    proof (cases "e = FaultNotFound")
      case False
      with assms(4) g Inl show ?thesis by (intro stop) (cases e; auto simp: writeEndpoint_def)+
    next
      case True
      have b: "mwf (ep_Labels (blank_endpoint ep))" "ep_Name (blank_endpoint ep) = ep_Name ep" by (simp_all add: blank_endpoint_def)
      show ?thesis
      proof (cases "mutate (ce_num env) ac ep (blank_endpoint ep)")
        case (Inl e')
        with assms(4) g \<open>g = Inl e\<close> True show ?thesis by (intro stop) (auto simp: writeEndpoint_def)
      next
        case (Inr new)
        note n = mutate_in_sync [OF assms(3) b(1) Inr]
        obtain u st2 where u: "api_create env new st1 = (u, st2)" by force
        have st': "st' = st2" "\<And>x. r = Inr x \<Longrightarrow> \<exists>s. u = Inr s"
          using assms(4) g \<open>g = Inl e\<close> Inr u True by (auto simp: writeEndpoint_def split: sum.splits)
        from n have "mwf (ep_Labels new)" by simp
        note fu = api_create_follows [OF assms(1) w this u]
        show ?thesis
        proof (cases u)
          case (Inl e)
          with fu st' follows_trans [OF f(1)] show ?thesis by (intro exI [of _ "[]"]) auto
        next
          case (Inr s)
          with fu have s: "follows [CreatedEP s] st1 st2" "stored_as new s" "spec_encodes (ep_Spec new)" by simp_all
          with n b have "placed env ac [CreatedEP s] ep" unfolding placed_def by (auto simp: stored_as_def in_sync_def)
          with follows_trans [OF f(1) s(1)] st' show ?thesis by (intro exI [of _ "[CreatedEP s]"]) simp
        qed
      qed
    qed
  qed
qed

lemma mput_nonempty [simp]: "mput k v m \<noteq> []"
  by (cases m) (auto split: if_splits)

lemma mmerge_empty [simp]: "mmerge dst src = [] \<longleftrightarrow> dst = [] \<and> src = []"
proof -
  have "fst ` set (mmerge dst src) = fst ` set dst \<union> fst ` set src"
    unfolding mmerge_def by (induction src arbitrary: dst) (simp_all add: set_keys_mput split_beta)
  then show ?thesis by (metis Un_empty image_is_empty set_empty)
qed

lemma record_failure_failed [simp]: "outcome_failed (record_failure ep what e oc)"
  by (cases e) (simp_all add: record_failure_def outcome_failed_def Let_def)

lemma count_change_failed [simp]: "outcome_failed (count_change op oc) = outcome_failed oc"
  by (cases op) (simp_all add: count_change_def outcome_failed_def)

lemma outcome_failed_deleted [simp]: "outcome_failed (oc\<lparr>oc_deleted := n\<rparr>) = outcome_failed oc"
  by (simp add: outcome_failed_def)

lemma placed_mono: "placed env ac evs ep \<Longrightarrow> set evs \<subseteq> set evs' \<Longrightarrow> placed env ac evs' ep"
  unfolding placed_def by blast

definition no_delete :: "trace_event list \<Rightarrow> bool" where
  "no_delete evs \<longleftrightarrow> (\<forall>ev \<in> set evs. \<forall>old. ev \<noteq> DeletedEP old)"

lemma no_delete_append [simp]: "no_delete (evs @ evs') \<longleftrightarrow> no_delete evs \<and> no_delete evs'"
  by (auto simp: no_delete_def)

text \<open>A failure is never forgotten, and without one every endpoint was written.\<close>

lemma write_all_follows:
  assumes "env_wf env" "cluster_wf st" "\<forall>ep \<in> set eps. writable ep" "write_all env ac eps after oc st = ((after', oc'), st')"
  shows "\<exists>evs. follows evs st st' \<and> no_delete evs \<and> (outcome_failed oc \<longrightarrow> outcome_failed oc') \<and>
    (\<not> outcome_failed oc' \<longrightarrow> (\<forall>ep \<in> set eps. placed env ac evs ep))"
  using assms(2-4)
proof (induction eps arbitrary: after oc st)
  case Nil
  then show ?case by (intro exI [of _ "[]"]) (simp add: follows_def no_delete_def)
next
  case (Cons ep eps)
  have wr: "\<forall>e \<in> set eps. writable e" "writable ep" using Cons.prems(2) by simp_all
  show ?case
  proof (cases "map_of (oc_rejected oc) (ep_Name ep) = None")
    case False
    then have failed: "outcome_failed oc" and rest: "write_all env ac eps after oc st = ((after', oc'), st')"
      using Cons.prems(3) by (auto simp: outcome_failed_def)
    from Cons.IH [OF Cons.prems(1) wr(1) rest] failed show ?thesis by blast
  next
    case True
    obtain r st1 where w: "writeEndpoint env ac ep st = (r, st1)" by force
    from writeEndpoint_follows [OF assms(1) Cons.prems(1) wr(2) w] obtain evs where
      f: "follows evs st st1" "no_delete evs" "\<And>x. r = Inr x \<Longrightarrow> placed env ac evs ep" unfolding no_delete_def by blast
    from f(1) have w1: "cluster_wf st1" by (simp add: follows_def)
    obtain after1 oc1 where rest: "write_all env ac eps after1 oc1 st1 = ((after', oc'), st')"
      and keep: "outcome_failed oc \<Longrightarrow> outcome_failed oc1" and ok: "\<not> outcome_failed oc1 \<Longrightarrow> \<exists>x. r = Inr x"
      using Cons.prems(3) w True by (cases r) (fastforce split: prod.splits)+
    from Cons.IH [OF w1 wr(1) rest] obtain evs' where g: "follows evs' st1 st'" "no_delete evs'"
      "outcome_failed oc1 \<longrightarrow> outcome_failed oc'" "\<not> outcome_failed oc' \<longrightarrow> (\<forall>e \<in> set eps. placed env ac evs' e)" by blast
    have "\<forall>e \<in> set (ep # eps). placed env ac (evs @ evs') e" if "\<not> outcome_failed oc'"
    proof -
      from that g(3) ok obtain x where "r = Inr x" by blast
      then have "placed env ac (evs @ evs') ep" using placed_mono [OF f(3)] by simp
      moreover have "placed env ac (evs @ evs') e" if "e \<in> set eps" for e
        using g(4) \<open>\<not> outcome_failed oc'\<close> that by (simp add: placed_mono [of env ac evs' e])
      ultimately show ?thesis by simp
    qed
    with follows_trans [OF f(1) g(1)] f(2) g(2,3) keep show ?thesis by (intro exI [of _ "evs @ evs'"]) simp
  qed
qed

section \<open>Deleting\<close>

definition deletes_only :: "trace_event list \<Rightarrow> KrakenDEndpoint list \<Rightarrow> bool" where
  "deletes_only evs stale \<longleftrightarrow>
     (\<forall>ev \<in> set evs. \<exists>old. ev = DeletedEP old \<and> (\<exists>own \<in> set stale. ep_Name own = ep_Name old \<and> ep_UID own = ep_UID old))"

lemma delete_all_follows:
  assumes "env_wf env" "cluster_wf st" "delete_all env eps absent oc st = ((absent', oc'), st')"
  shows "\<exists>evs. follows evs st st' \<and> deletes_only evs eps \<and> (outcome_failed oc \<longrightarrow> outcome_failed oc')"
  using assms(2,3)
proof (induction eps arbitrary: absent oc st)
  case Nil
  then show ?case by (intro exI [of _ "[]"]) (simp add: follows_def deletes_only_def)
next
  case (Cons ep eps)
  obtain r st1 where d: "deleteEndpoint env ep st = (r, st1)" by force
  from deleteEndpoint_follows [OF assms(1) Cons.prems(1) d] obtain evs where f: "follows evs st st1"
    "\<forall>ev \<in> set evs. \<exists>old. ev = DeletedEP old \<and> ep_Name old = ep_Name ep \<and> ep_UID old = ep_UID ep" by blast
  from f(1) have w1: "cluster_wf st1" by (simp add: follows_def)
  obtain absent1 oc1 where rest: "delete_all env eps absent1 oc1 st1 = ((absent', oc'), st')"
    and keep: "outcome_failed oc \<Longrightarrow> outcome_failed oc1"
  proof (cases r)
    case (Inl e)
    with Cons.prems(2) d that show ?thesis by (simp add: record_failure_failed)
  next
    case (Inr deleted)
    with Cons.prems(2) d that show ?thesis by (cases deleted) simp_all
  qed
  from Cons.IH [OF w1 rest] obtain evs' where g: "follows evs' st1 st'" "deletes_only evs' eps" "outcome_failed oc1 \<longrightarrow> outcome_failed oc'" by blast
  from f(2) g(2) have "deletes_only (evs @ evs') (ep # eps)" unfolding deletes_only_def by fastforce
  with follows_trans [OF f(1) g(1)] g(3) keep show ?case by blast
qed

lemma finish_pass_follows:
  assumes "env_wf env" "cluster_wf st" "\<forall>ep \<in> set writes. writable ep"
    and "finish_pass env ac controlled writes stale held oc st = (oc', st')"
  shows "\<exists>made broken. follows (made @ broken) st st' \<and> no_delete made \<and> deletes_only broken stale \<and>
    (broken \<noteq> [] \<longrightarrow> \<not> held) \<and>
    (broken \<noteq> [] \<or> \<not> outcome_failed oc' \<longrightarrow> \<not> outcome_failed oc \<and> (\<forall>ep \<in> set writes. placed env ac made ep))"
proof -
  obtain after oc1 st1 where w: "write_all env ac writes (by_name controlled) oc st = ((after, oc1), st1)" by (metis prod.collapse)
  from write_all_follows [OF assms(1-3) w] obtain made where m: "follows made st st1" "no_delete made"
    "outcome_failed oc \<longrightarrow> outcome_failed oc1" "\<not> outcome_failed oc1 \<longrightarrow> (\<forall>ep \<in> set writes. placed env ac made ep)" by blast
  from m(1) have w1: "cluster_wf st1" by (simp add: follows_def)
  show ?thesis
  proof (cases "\<not> held \<and> \<not> outcome_failed oc1")
    case True
    obtain absent oc2 st2 where d: "delete_all env stale [] oc1 st1 = ((absent, oc2), st2)" by (metis prod.collapse)
    from delete_all_follows [OF assms(1) w1 d] obtain broken where b: "follows broken st1 st2" "deletes_only broken stale" by blast
    from assms(4) w d True have "st' = st2" by (simp add: finish_pass_def)
    with follows_trans [OF m(1) b(1)] b(2) m(2-4) True show ?thesis by blast
  next
    case False
    with assms(4) w have "st' = st1" "outcome_failed oc' = outcome_failed oc1" by (auto simp: finish_pass_def outcome_failed_def)
    with m show ?thesis by (intro exI [of _ made] exI [of _ "[]"]) (auto simp: deletes_only_def)
  qed
qed

section \<open>Make before break\<close>

lemma run_precheck_follows:
  "cluster_wf st \<Longrightarrow> run_precheck env ck ac writes stale ord held st = (r, st') \<Longrightarrow> follows [] st st'"
  by (auto simp: run_precheck_def follows_def cluster_wf_def split: prod.splits)

text \<open>An endpoint is in place when the pass wrote it, or when one of its own already was as desired.\<close>

definition own_endpoint :: "cluster_env \<Rightarrow> KrakenDAutoConfig \<Rightarrow> cluster \<Rightarrow> trace_event list \<Rightarrow> KrakenDEndpoint \<Rightarrow> bool" where
  "own_endpoint env ac st evs own \<longleftrightarrow> own \<in> set (owned_view env ac st) \<or> Adopted own \<in> set evs"

definition in_place :: "cluster_env \<Rightarrow> KrakenDAutoConfig \<Rightarrow> cluster \<Rightarrow> trace_event list \<Rightarrow> KrakenDEndpoint \<Rightarrow> bool" where
  "in_place env ac st evs ep \<longleftrightarrow>
     placed env ac evs ep \<or> (\<exists>own. own_endpoint env ac st evs own \<and> ep_Name own = ep_Name ep \<and> in_sync (ce_num env) own ep)"

lemma own_endpoint_mono: "own_endpoint env ac st evs own \<Longrightarrow> set evs \<subseteq> set evs' \<Longrightarrow> own_endpoint env ac st evs' own"
  unfolding own_endpoint_def by blast

lemma by_name_Some: "map_of (by_name eps) name = Some ep \<Longrightarrow> ep \<in> set eps \<and> ep_Name ep = name"
proof -
  have "map_of (fold (\<lambda>ep. mput (ep_Name ep) ep) es m) name = Some ep \<Longrightarrow> mwf m \<Longrightarrow>
    ep \<in> set es \<and> ep_Name ep = name \<or> map_of m name = Some ep" for es m
  proof (induction es arbitrary: m)
    case (Cons e es)
    from Cons.IH [of "mput (ep_Name e) e m"] Cons.prems show ?case by (auto split: if_splits)
  qed simp
  then show "map_of (by_name eps) name = Some ep \<Longrightarrow> ep \<in> set eps \<and> ep_Name ep = name" by (force simp: by_name_def)
qed

lemma planEndpoints_facts:
  assumes "planEndpoints num controlled desired = (planned, stale)"
  shows "set planned \<subseteq> set desired"
    and "ep \<in> set desired \<Longrightarrow> ep \<notin> set planned \<Longrightarrow> \<exists>own \<in> set controlled. ep_Name own = ep_Name ep \<and> in_sync num own ep"
    and "own \<in> set stale \<Longrightarrow> own \<in> set controlled \<and> ep_Name own \<notin> ep_Name ` set desired"
proof -
  show "set planned \<subseteq> set desired" using assms by (auto simp: planEndpoints_def Let_def)
  show "\<exists>own \<in> set controlled. ep_Name own = ep_Name ep \<and> in_sync num own ep" if "ep \<in> set desired" "ep \<notin> set planned"
  proof -
    from assms that obtain own where "map_of (by_name controlled) (ep_Name ep) = Some own" "in_sync num own ep"
      by (auto simp: planEndpoints_def Let_def split: option.splits)
    with by_name_Some show ?thesis by blast
  qed
  show "own \<in> set controlled \<and> ep_Name own \<notin> ep_Name ` set desired" if "own \<in> set stale"
  proof -
    from assms that obtain name where "(name, own) \<in> set (by_name controlled)" "name \<notin> ep_Name ` set desired"
      by (auto simp: planEndpoints_def Let_def)
    then show ?thesis using by_name_Some [of controlled name own] by (auto simp: mwf_distinct)
  qed
qed

lemma withoutHeld_none [simp]: "withoutHeld eps [] = eps" "mmerge [] [] = []"
  by (simp_all add: withoutHeld_def mmerge_def)

text \<open>How a pass that gets to its writes runs, when nothing failed before them.\<close>

lemma reconcileEndpoints_stages:
  assumes "env_wf env" "cluster_wf st" "reconcileEndpoints env ck ac desired held st = (r, st')"
  shows "(\<exists>evs e. follows evs st st' \<and> no_delete evs \<and> r = Inl e) \<or>
    (\<exists>evs controlled planned stale writes oc st1 oc'.
       follows evs st st1 \<and> no_delete evs \<and> (\<forall>ep \<in> set controlled. own_endpoint env ac st evs ep) \<and>
       planEndpoints (ce_num env) controlled desired = (planned, stale) \<and> set writes \<subseteq> set planned \<and>
       (\<not> outcome_failed oc \<longrightarrow> writes = planned) \<and> finish_pass env ac controlled writes stale held oc st1 = (oc', st') \<and> r = Inr oc')"
proof -
  obtain c st1 where c: "claimEndpoints env ac desired empty_outcome st = (c, st1)" by force
  from claimEndpoints_follows [OF assms(1,2) c] obtain evs where f1: "follows evs st st1" "no_delete evs"
    and own: "\<And>controlled oc. c = Inr (controlled, oc) \<Longrightarrow> \<forall>ep \<in> set controlled. own_endpoint env ac st evs ep"
    unfolding no_delete_def own_endpoint_def by (metis trace_event.distinct(7))
  from f1(1) have w1: "cluster_wf st1" by (simp add: follows_def)
  show ?thesis
  proof (cases c)
    case (Inl e)
    with assms(3) c have "st' = st1" "\<exists>e. r = Inl e" by (auto simp: reconcileEndpoints_def)
    with f1 show ?thesis by blast
  next
    case (Inr p)
    then obtain controlled oc where p: "c = Inr (controlled, oc)" by (cases p) auto
    obtain planned stale where pl: "planEndpoints (ce_num env) controlled desired = (planned, stale)" by force
    obtain existing st2 where u: "withUncontrolled env controlled desired st1 = (existing, st2)" by force
    note f2 = with_uncontrolled_follows [OF assms(1) w1 u [unfolded withUncontrolled_def]]
    then have w2: "cluster_wf st2" by (simp add: follows_def)
    let ?oc1 = "oc\<lparr>oc_rejected := mmerge (oc_rejected oc) (routeCollisions desired existing)\<rparr>"
    let ?writes = "withoutHeld planned (oc_rejected ?oc1)"
    obtain k st3 where k: "run_precheck env ck ac ?writes stale (newCreationOrder existing)
        (held \<or> outcome_failed ?oc1 \<or> recursRejection ac ?writes) st2 = (k, st3)" by force
    note f3 = run_precheck_follows [OF w2 k]
    have f: "follows evs st st3" using follows_trans [OF follows_trans [OF f1(1) f2] f3] by simp
    show ?thesis
    proof (cases k)
      case (Inl e)
      with assms(3) c p pl u k have "st' = st3" "\<exists>e. r = Inl e" by (auto simp: reconcileEndpoints_def)
      with f f1(2) show ?thesis by blast
    next
      case (Inr rejected)
      let ?oc2 = "?oc1\<lparr>oc_rejected := mmerge (oc_rejected ?oc1) rejected\<rparr>"
      obtain oc' st4 where fp: "finish_pass env ac controlled ?writes stale held ?oc2 st3 = (oc', st4)" by force
      with assms(3) c p pl u k Inr have "st' = st4 \<and> r = Inr oc'" by (simp add: reconcileEndpoints_def)
      moreover have "set ?writes \<subseteq> set planned" by (auto simp: withoutHeld_def)
      moreover have "\<not> outcome_failed ?oc2 \<longrightarrow> ?writes = planned" by (simp add: outcome_failed_def)
      ultimately show ?thesis using f f1(2) own [OF p] pl fp by blast
    qed
  qed
qed

lemma reconcileEndpoints_follows:
  assumes "env_wf env" "cluster_wf st" "\<forall>ep \<in> set desired. writable ep"
    and "reconcileEndpoints env ck ac desired held st = (r, st')"
  shows "\<exists>made broken. follows (made @ broken) st st' \<and> no_delete made \<and> (broken \<noteq> [] \<longrightarrow> \<not> held) \<and>
    (broken \<noteq> [] \<or> (\<exists>oc. r = Inr oc \<and> \<not> outcome_failed oc) \<longrightarrow> (\<forall>ep \<in> set desired. in_place env ac st made ep)) \<and>
    (\<forall>ev \<in> set broken. \<exists>old. ev = DeletedEP old \<and> ep_Name old \<notin> ep_Name ` set desired \<and>
       (\<exists>own. own_endpoint env ac st made own \<and> ep_Name own = ep_Name old \<and> ep_UID own = ep_UID old))"
  using reconcileEndpoints_stages [OF assms(1,2,4)]
proof (elim disjE exE conjE)
  fix evs e assume "follows evs st st'" "no_delete evs" "r = Inl e"
  then show ?thesis by (intro exI [of _ evs] exI [of _ "[]"]) simp
next
  fix evs controlled planned stale writes oc st1 oc'
  assume f: "follows evs st st1" "no_delete evs" and own: "\<forall>ep \<in> set controlled. own_endpoint env ac st evs ep"
    and pl: "planEndpoints (ce_num env) controlled desired = (planned, stale)" and w: "set writes \<subseteq> set planned"
    and all: "\<not> outcome_failed oc \<longrightarrow> writes = planned" and fp: "finish_pass env ac controlled writes stale held oc st1 = (oc', st')"
    and r: "r = Inr oc'"
  note plan = planEndpoints_facts [OF pl]
  have w1: "cluster_wf st1" using f(1) by (simp add: follows_def)
  have wr: "\<forall>ep \<in> set writes. writable ep" using w plan(1) assms(3) by blast
  from finish_pass_follows [OF assms(1) w1 wr fp] obtain made broken where
    m: "follows (made @ broken) st1 st'" "no_delete made" "deletes_only broken stale" "broken \<noteq> [] \<longrightarrow> \<not> held"
    "broken \<noteq> [] \<or> \<not> outcome_failed oc' \<longrightarrow> \<not> outcome_failed oc \<and> (\<forall>ep \<in> set writes. placed env ac made ep)" by blast
  have own': "own_endpoint env ac st (evs @ made) ep" if "ep \<in> set controlled" for ep
    using own that own_endpoint_mono [of env ac st evs ep "evs @ made"] by simp
  have "follows ((evs @ made) @ broken) st st'" using follows_trans [OF f(1) m(1)] by simp
  moreover have "no_delete (evs @ made)" using f(2) m(2) by simp
  moreover have "in_place env ac st (evs @ made) ep"
    if "broken \<noteq> [] \<or> (\<exists>oc. r = Inr oc \<and> \<not> outcome_failed oc)" "ep \<in> set desired" for ep
  proof (cases "ep \<in> set planned")
    case True
    with m(5) all that(1) r placed_mono [of env ac made ep "evs @ made"] show ?thesis by (auto simp: in_place_def)
  next
    case False
    with plan(2) that(2) own' show ?thesis unfolding in_place_def by blast
  qed
  moreover have "\<exists>old. ev = DeletedEP old \<and> ep_Name old \<notin> ep_Name ` set desired \<and>
      (\<exists>own. own_endpoint env ac st (evs @ made) own \<and> ep_Name own = ep_Name old \<and> ep_UID own = ep_UID old)" if "ev \<in> set broken" for ev
  proof -
    from that m(3) obtain old o' where o': "ev = DeletedEP old" "o' \<in> set stale" "ep_Name o' = ep_Name old" "ep_UID o' = ep_UID old"
      unfolding deletes_only_def by blast
    from plan(3) [OF o'(2)] own' have "ep_Name o' \<notin> ep_Name ` set desired" "own_endpoint env ac st (evs @ made) o'" by simp_all
    with o' show ?thesis by auto
  qed
  ultimately show ?thesis using m(4) by blast
qed

text \<open>
  C11: an endpoint pass of an AutoConfig makes before it breaks, whatever others do to the cluster
  between its calls, however stale its cache is and whichever of its calls fail: the deletes come after
  every other write, and there are none unless no operation was held before generation and every
  desired endpoint is in place, as its own endpoint with the desired labels and an equal specification.
  Each deleted object has the name and the UID of one of the AutoConfig's own endpoints, and no
  desired name: a same-named replacement or an object of another controller is never deleted.
\<close>
theorem reconcileEndpoints_make_before_break:
  assumes "env_wf env" "cluster_wf st" "kc_trace st = []" "\<forall>ep \<in> set desired. writable ep"
    and "reconcileEndpoints env ck ac desired held st = (r, st')"
  shows "\<exists>made broken. kc_trace st' = made @ broken \<and> no_delete made \<and>
    (broken \<noteq> [] \<longrightarrow> \<not> held \<and> (\<forall>ep \<in> set desired. in_place env ac st made ep)) \<and>
    (\<forall>ev \<in> set broken. \<exists>old. ev = DeletedEP old \<and> ep_Name old \<notin> ep_Name ` set desired \<and>
       (\<exists>own. own_endpoint env ac st made own \<and> ep_Name own = ep_Name old \<and> ep_UID own = ep_UID old))"
proof -
  from reconcileEndpoints_follows [OF assms(1,2,4,5)] obtain made broken where
    m: "follows (made @ broken) st st'" "no_delete made" "broken \<noteq> [] \<longrightarrow> \<not> held"
    "broken \<noteq> [] \<longrightarrow> (\<forall>ep \<in> set desired. in_place env ac st made ep)"
    "\<forall>ev \<in> set broken. \<exists>old. ev = DeletedEP old \<and> ep_Name old \<notin> ep_Name ` set desired \<and>
       (\<exists>own. own_endpoint env ac st made own \<and> ep_Name own = ep_Name old \<and> ep_UID own = ep_UID old)" by blast
  from m(1) assms(3) have "kc_trace st' = made @ broken" by (simp add: follows_def)
  with m(2-5) show ?thesis by (intro exI [of _ made] exI [of _ broken]) simp
qed

section \<open>An example\<close>

text \<open>A quiet server, whose cluster holds one endpoint of the AutoConfig that is no longer desired.\<close>

definition ex_quiet :: cluster_env where
  "ex_quiet =
     \<lparr>ce_others = (\<lambda>_ m. m), ce_view = (\<lambda>_ m. m), ce_fault = (\<lambda>_. None), ce_uid = (\<lambda>n. ''uid'' @ nat_str n),
      ce_version = (\<lambda>n. ''v'' @ nat_str n), ce_now = (\<lambda>n. int n), ce_gateway = GatewayMissing, ce_slots = (\<lambda>_. None), ce_num = (\<lambda>t. t)\<rparr>"

definition ex_endpoint :: "string \<Rightarrow> string \<Rightarrow> string \<Rightarrow> OwnerRef option \<Rightarrow> KrakenDEndpoint" where
  "ex_endpoint name path uid ctl =
     \<lparr>ep_Name = name, ep_Namespace = ''ns'', ep_UID = uid, ep_ResourceVersion = uid, ep_Labels = [(LabelAutoConfig, ''shop'')],
      ep_Controller = ctl, ep_Deleting = False, ep_Generation = 1, ep_CreationTimestamp = 0,
      ep_Spec = \<lparr>es_GatewayRef = \<lparr>gr_Name = ''gw'', gr_Namespace = []\<rparr>, es_Endpoints = [ex_route path], es_ComponentSchemas = []\<rparr>,
      ep_Status = zero_endpoint_status\<rparr>"

definition ex_cluster :: cluster where
  "ex_cluster =
     \<lparr>kc_endpoints = [(''shop-old'', ex_endpoint ''shop-old'' ''/old'' ''u0'' (Some (owner_of ex_autoconfig)))],
      kc_judging = \<lparr>jd_verdicts = [], jd_runs = 0\<rparr>, kc_calls = 0, kc_trace = []\<rparr>"

definition ex_desired :: "KrakenDEndpoint list" where
  "ex_desired = [ex_endpoint ''shop-new'' ''/new'' [] None]"

definition ex_pass :: "(sync_error + endpointOutcome) \<times> cluster" where
  "ex_pass = reconcileEndpoints ex_quiet ex_ck ex_autoconfig ex_desired False ex_cluster"

lemma ex_pass_trace: "map (\<lambda>ev. case ev of CreatedEP e \<Rightarrow> (True, ep_Name e) | DeletedEP e \<Rightarrow> (False, ep_Name e) | _ \<Rightarrow> (True, [])) (kc_trace (snd ex_pass)) =
    [(True, ''shop-new''), (False, ''shop-old'')]"
  by code_simp

lemma ex_setting:
  "env_wf ex_quiet" "cluster_wf ex_cluster" "kc_trace ex_cluster = []" "\<forall>ep \<in> set ex_desired. writable ep"
  by (auto simp: env_wf_def ex_quiet_def cluster_wf_def ex_cluster_def eps_wf_def mwf_def ex_endpoint_def ex_desired_def writable_def
      spec_encodes_def ex_route_def split: if_splits)

lemma ex_pass_deletes: "\<not> no_delete (kc_trace (snd ex_pass))"
proof -
  obtain a b where "kc_trace (snd ex_pass) = [a, b]" using ex_pass_trace by (auto simp: map_eq_Cons_conv)
  moreover from this ex_pass_trace have "\<exists>old. b = DeletedEP old" by (cases b) auto
  ultimately show ?thesis by (auto simp: no_delete_def)
qed

theorem reconcileEndpoints_make_before_break_witness:
  "\<exists>made broken. kc_trace (snd ex_pass) = made @ broken \<and> broken \<noteq> [] \<and> no_delete made \<and>
     in_place ex_quiet ex_autoconfig ex_cluster made (hd ex_desired)"
proof -
  obtain r st' where p: "reconcileEndpoints ex_quiet ex_ck ex_autoconfig ex_desired False ex_cluster = (r, st')" by force
  then have st': "snd ex_pass = st'" by (simp add: ex_pass_def)
  from reconcileEndpoints_make_before_break [OF ex_setting p] obtain made broken where
    m: "kc_trace st' = made @ broken" "no_delete made"
    "broken \<noteq> [] \<longrightarrow> \<not> False \<and> (\<forall>ep \<in> set ex_desired. in_place ex_quiet ex_autoconfig ex_cluster made ep)" by blast
  have "broken \<noteq> []" using m(1,2) ex_pass_deletes st' by (metis append_Nil2)
  moreover have "hd ex_desired \<in> set ex_desired" by (simp add: ex_desired_def)
  ultimately show ?thesis using m st' by blast
qed

end
