(* ===== verification/AutoSync.thy ===== *)
theory AutoSync
  imports AutoStatus AutoSafe RefResolve
begin

text \<open>
  One reconcile of an AutoConfig (\<^verbatim>\<open>controller/krakendautoconfig_controller.go\<close> and
  \<^verbatim>\<open>recordSync\<close> of \<^verbatim>\<open>autoconfig_status.go\<close>): fetch, prepare and evaluate the document, filter, add, generate,
  converge the endpoints and record the outcome.

  The environment gives what the reconcile calls: the fetcher, the resolver's environment, CUE, the
  ConfigMaps of the namespace, \<^verbatim>\<open>net/url\<close>, JSON decoding, the text of an aggregate error and the
  result of the status write. The state holds the cluster, the statuses written, the events
  recorded, the synced gauge and the digests of the causes logged.
\<close>

section \<open>Environment and state\<close>

type_synonym cue_defs = "(string, string) gomap"

record 'v sync_env =
  se_cluster :: cluster_env
  se_fetch :: "string + string"
  se_refs :: ref_env
  se_cue :: "'v cue_lib"
  se_configMap :: "string \<Rightarrow> api_fault + cue_defs \<times> string"
  se_embedded :: "string + cue_defs"
  se_url :: "string \<Rightarrow> (string \<times> string) option"
  se_json :: "string \<Rightarrow> json option"
  se_decode64 :: "string \<Rightarrow> json option"
  se_aggregate :: "string list \<Rightarrow> string"
  se_statusWrite :: "api_fault option"
  se_now :: int

record sync_state =
  ss_cluster :: cluster
  ss_writes :: "KrakenDAutoConfigStatus list"
  ss_events :: "Event list"
  ss_gauge :: "(NamespacedName, bool) gomap"
  ss_heldLogged :: "(NamespacedName, string) gomap"

datatype auto_get = AutoFound KrakenDAutoConfig | AutoMissing | AutoError string

text \<open>The delay of the requeue in nanoseconds (0 for none), and the error.\<close>

type_synonym reconcile_result = "int \<times> string option"

definition defaultResyncInterval :: int where
  "defaultResyncInterval = 5 * 60 * 1000000000"

definition conflictRequeueDelay :: int where
  "conflictRequeueDelay = 1000000000"

definition requeueResult :: "KrakenDAutoConfig \<Rightarrow> reconcile_result" where
  "requeueResult ac =
     (case as_Periodic (au_Spec ac) of
        Some interval \<Rightarrow> (if as_Trigger (au_Spec ac) = TriggerPeriodic then interval else defaultResyncInterval, None)
      | None \<Rightarrow> (defaultResyncInterval, None))"

section \<open>Fetching\<close>

definition extractHost :: "'v sync_env \<Rightarrow> string \<Rightarrow> string" where
  "extractHost env rawURL =
     (case se_url env rawURL of
        None \<Rightarrow> []
      | Some (scheme, host) \<Rightarrow> if scheme = [] \<or> host = [] then [] else scheme @ ''://'' @ host)"

definition refs_env :: "'v sync_env \<Rightarrow> KrakenDAutoConfig \<Rightarrow> ref_env" where
  "refs_env env ac = (se_refs env)\<lparr>rv_baseURL := oas_URL (as_OpenAPI (au_Spec ac)), rv_hasFetcher := True\<rparr>"

definition external_note :: "'v sync_env \<Rightarrow> string \<Rightarrow> string" where
  "external_note env ref =
     ''external $ref '' @ Quote (rv_redactRef (se_refs env) ref) @
     '' is not resolved: a ConfigMap-sourced spec cannot fetch other documents''"

text \<open>The document with its references resolved, and the notes about them.\<close>

definition resolved_spec :: "nat \<Rightarrow> 'v sync_env \<Rightarrow> KrakenDAutoConfig \<Rightarrow> string \<Rightarrow> (string + string \<times> string list) option" where
  "resolved_spec n env ac data =
     (if oas_URL (as_OpenAPI (au_Spec ac)) \<noteq> []
      then (case ResolveExternalRefs n (refs_env env ac) data of
              None \<Rightarrow> None
            | Some (notes, Inl e) \<Rightarrow> Some (Inl e)
            | Some (notes, Inr out) \<Rightarrow> Some (Inr (out, notes)))
      else Some (Inr (data, case ExternalRefs (rv_decode (se_refs env)) data of
                              Inl e \<Rightarrow> []
                            | Inr external \<Rightarrow> map (external_note env) external)))"

definition prepared_spec :: "decoder \<Rightarrow> string \<Rightarrow> string list \<Rightarrow> string + string \<times> string list" where
  "prepared_spec decode data notes =
     (case StripServers decode data of
        (_, Some e) \<Rightarrow> Inr (data, notes)
      | (stripped, None) \<Rightarrow>
          (case DereferenceParameters decode stripped of
             (out, paramNotes, None) \<Rightarrow> Inr (out, notes @ paramNotes)
           | (out, paramNotes, Some e) \<Rightarrow>
               if e = ErrParameterRefsTooLarge then Inl e else Inr (stripped, notes @ paramNotes)))"

definition fetchSpec :: "nat \<Rightarrow> 'v sync_env \<Rightarrow> KrakenDAutoConfig \<Rightarrow> (string + string \<times> string list) option" where
  "fetchSpec n env ac =
     (case se_fetch env of
        Inl e \<Rightarrow> Some (Inl e)
      | Inr data \<Rightarrow>
          (case resolved_spec n env ac data of
             None \<Rightarrow> None
           | Some (Inl e) \<Rightarrow> Some (Inl e)
           | Some (Inr (out, notes)) \<Rightarrow> Some (prepared_spec (rv_decode (se_refs env)) out notes)))"

definition autoConfigSpecChecksum :: "string \<Rightarrow> string \<Rightarrow> int \<Rightarrow> string" where
  "autoConfigSpecChecksum fetchChecksum cueDefsRV generation = fetchChecksum @ '':'' @ cueDefsRV @ '':'' @ itoa generation"

section \<open>Definitions\<close>

definition defaultCUEDefinitionsConfigMap :: string where
  "defaultCUEDefinitionsConfigMap = ''krakend-cue-definitions''"

definition loadCUEDefinitions :: "'v sync_env \<Rightarrow> string \<Rightarrow> api_fault + cue_defs \<times> string" where
  "loadCUEDefinitions env name = se_configMap env name"

definition load_text :: "string \<Rightarrow> api_fault \<Rightarrow> string" where
  "load_text name e = ''getting CUE definitions ConfigMap '' @ name @ '': '' @ fault_text e"

definition default_defs :: "'v sync_env \<Rightarrow> string + cue_defs \<times> string" where
  "default_defs env =
     (case loadCUEDefinitions env defaultCUEDefinitionsConfigMap of
        Inr (defs, rv) \<Rightarrow> Inr (defs, rv)
      | Inl FaultNotFound \<Rightarrow>
          (case se_embedded env of
             Inl e \<Rightarrow> Inl (''loading embedded CUE definitions: '' @ e)
           | Inr defs \<Rightarrow> Inr (defs, []))
      | Inl e \<Rightarrow> Inl (''loading default CUE definitions: '' @ load_text defaultCUEDefinitionsConfigMap e))"

text \<open>The definitions or the error, and the resource versions read.\<close>

definition loadAllCUEDefinitions :: "'v sync_env \<Rightarrow> KrakenDAutoConfig \<Rightarrow> (string + cue_defs \<times> cue_defs) \<times> string" where
  "loadAllCUEDefinitions env ac =
     (case default_defs env of
        Inl e \<Rightarrow> (Inl e, [])
      | Inr (defs, rv) \<Rightarrow>
          (case Option.bind (as_CUE (au_Spec ac)) cs_DefinitionsConfigMapRef of
             Some name \<Rightarrow>
               (case loadCUEDefinitions env name of
                  Inl e \<Rightarrow> (Inl (''loading custom CUE definitions: '' @ load_text name e), rv)
                | Inr (custom, customRV) \<Rightarrow> (Inr (defs, custom), rv @ '':'' @ customRV))
           | None \<Rightarrow> (Inr (defs, []), rv)))"

definition cueEnvironment :: "KrakenDAutoConfig \<Rightarrow> string" where
  "cueEnvironment ac = (case as_CUE (au_Spec ac) of None \<Rightarrow> [] | Some c \<Rightarrow> cs_Environment c)"

definition autoConfigReferencesConfigMap :: "KrakenDAutoConfig \<Rightarrow> string \<Rightarrow> bool" where
  "autoConfigReferencesConfigMap ac cmName \<longleftrightarrow>
     cmName = defaultCUEDefinitionsConfigMap \<or>
     (case as_CUE (au_Spec ac) of None \<Rightarrow> False | Some c \<Rightarrow> cs_DefinitionsConfigMapRef c = Some cmName) \<or>
     oas_ConfigMapRef (as_OpenAPI (au_Spec ac)) = Some cmName"

definition configMapToAutoConfigs :: "(string + KrakenDAutoConfig list) \<Rightarrow> string \<Rightarrow> NamespacedName list" where
  "configMapToAutoConfigs acs cmName =
     (case acs of Inl e \<Rightarrow> [] | Inr items \<Rightarrow> map au_key (filter (\<lambda>ac. autoConfigReferencesConfigMap ac cmName) items))"

section \<open>Evaluation\<close>

definition cue_input :: "'v sync_env \<Rightarrow> KrakenDAutoConfig \<Rightarrow> string \<Rightarrow> cue_defs \<times> cue_defs \<Rightarrow> CUEInput" where
  "cue_input env ac data defs =
     \<lparr>ci_SpecData = data, ci_SpecFormat = oas_Format (as_OpenAPI (au_Spec ac)), ci_DefaultDefs = fst defs, ci_CustomDefs = snd defs,
      ci_Defaults = as_Defaults (au_Spec ac), ci_Overrides = as_Overrides (au_Spec ac), ci_URLTransform = as_URLTransform (au_Spec ac),
      ci_Environment = cueEnvironment ac, ci_ServiceName = ''_spec'', ci_DefaultHost = extractHost env (oas_URL (as_OpenAPI (au_Spec ac)))\<rparr>"

definition overrideFailure :: "CUEOutput \<Rightarrow> (string \<times> string) option" where
  "overrideFailure out =
     (if cu_UnmatchedOverrides out \<noteq> []
      then Some (''UnmatchedOverride'', ''spec.overrides reference operationIds or backend indexes not present in the OpenAPI spec: '' @
             listed (cu_UnmatchedOverrides out))
      else if cu_AmbiguousOverrides out \<noteq> []
      then Some (''AmbiguousOverride'', ''spec.overrides reference operationIds that more than one operation declares: '' @
             listed (cu_AmbiguousOverrides out))
      else None)"

definition no_operations :: "CUEOutput \<Rightarrow> bool" where
  "no_operations out \<longleftrightarrow> cu_Entries out = [] \<and> cu_Failed out = [] \<and> cu_Skipped out = []"

definition noOperationsMessage :: string where
  "noOperationsMessage =
     ''evaluating the OpenAPI spec produced no operations (the spec has none, or the CUE definitions '' @
     ''emit no endpoint entry for them); the endpoints this AutoConfig generated are kept '' @
     ''(delete the AutoConfig to remove them)''"

text \<open>A failure is the reason and the message of the Synced condition.\<close>

definition evaluated :: "'v sync_env \<Rightarrow> KrakenDAutoConfig \<Rightarrow> string \<Rightarrow> (string + cue_defs \<times> cue_defs) \<Rightarrow> (string \<times> string) + CUEOutput" where
  "evaluated env ac data defs =
     (case defs of
        Inl e \<Rightarrow> Inl (''CUEEvaluationFailed'', e)
      | Inr ds \<Rightarrow>
          (case Evaluate (se_cue env) (cue_input env ac data ds) of
             Inl e \<Rightarrow> Inl (''CUEEvaluationFailed'', e)
           | Inr out \<Rightarrow>
               if no_operations out then Inl (''NoOperations'', noOperationsMessage)
               else (case overrideFailure out of Some f \<Rightarrow> Inl f | None \<Rightarrow> Inr out)))"

section \<open>Generation\<close>

definition filtered_entries :: "KrakenDAutoConfig \<Rightarrow> CUEOutput \<Rightarrow> EndpointEntry list" where
  "filtered_entries ac out =
     (case as_Filter (au_Spec ac) of
        None \<Rightarrow> cu_Entries out
      | Some spec \<Rightarrow> Filter_Apply (cu_Entries out) (cu_Tags out) (cu_OperationIDs out) spec)"

definition blank_entry :: "string \<Rightarrow> string \<Rightarrow> EndpointEntry" where
  "blank_entry path verb =
     \<lparr>en_Endpoint = path, en_Method = verb, en_Backends = [], en_Timeout = None, en_CacheTTL = None, en_InputHeaders = None,
      en_InputQueryStrings = None, en_OutputEncoding = [], en_ConcurrentCalls = None, en_ExtraConfig = None\<rparr>"

definition issue_kept :: "FilterSpec \<Rightarrow> OperationIssue \<Rightarrow> bool" where
  "issue_kept spec i =
     (let op = oi_Operation i; e = blank_entry (opn_Path op) (opn_Method op)
      in Filter_Apply [e] [(entryKey e, opn_Tags op)] [(entryKey e, opn_OperationID op)] spec \<noteq> [])"

definition inScope :: "KrakenDAutoConfig \<Rightarrow> OperationIssue list \<Rightarrow> OperationIssue list" where
  "inScope ac issues = (case as_Filter (au_Spec ac) of None \<Rightarrow> issues | Some spec \<Rightarrow> filter (issue_kept spec) issues)"

definition scopeNoneMessage :: string where
  "scopeNoneMessage =
     ''cannot derive a base path for additionalEndpoints (no generated endpoint or held operation is left to derive a base path from); '' @
     ''set spec.additionalEndpointsBasePath or spec.urlTransform.addPathPrefix''"

definition scopeDivergedMessage :: string where
  "scopeDivergedMessage =
     ''cannot derive a base path for additionalEndpoints (the generated endpoints and the held operations share no common parent); '' @
     ''set spec.additionalEndpointsBasePath or spec.urlTransform.addPathPrefix''"

definition additional_base :: "KrakenDAutoConfig \<Rightarrow> EndpointEntry list \<Rightarrow> OperationIssue list \<Rightarrow> string + string" where
  "additional_base ac filtered failed =
     (let base = as_AdditionalEndpointsBasePath (au_Spec ac);
          hasAddPrefix = (case as_URLTransform (au_Spec ac) of None \<Rightarrow> False | Some t \<Rightarrow> ut_AddPathPrefix t \<noteq> [])
      in if base \<noteq> [] \<or> hasAddPrefix then Inr base
         else (let scope = filtered @ map (\<lambda>op. blank_entry (opn_Path (oi_Operation op)) []) failed; derived = DeriveBasePath scope
               in if derived = [] then Inl (if scope = [] then scopeNoneMessage else scopeDivergedMessage) else Inr derived))"

definition replaced_note :: "string \<Rightarrow> string" where
  "replaced_note key = ''Additional endpoint '' @ Quote key @ '' overrides a spec-derived endpoint''"

definition applyAdditionalEndpoints ::
  "'v sync_env \<Rightarrow> KrakenDAutoConfig \<Rightarrow> EndpointEntry list \<Rightarrow> OperationIssue list \<Rightarrow> inputWarnings \<Rightarrow>
   (string + EndpointEntry list \<times> string list) \<times> inputWarnings" where
  "applyAdditionalEndpoints env ac filtered failed warnings =
     (if as_AdditionalEndpoints (au_Spec ac) = [] then (Inr (filtered, []), warnings)
      else (let additional = ApplyURLTransformToEntries (as_URLTransform (au_Spec ac))
                  (BuildAdditionalEntries (as_AdditionalEndpoints (au_Spec ac)) (as_Defaults (au_Spec ac))
                     (extractHost env (oas_URL (as_OpenAPI (au_Spec ac)))))
            in case additional_base ac filtered failed of
                 Inl e \<Rightarrow> (Inl e, warnings)
               | Inr base \<Rightarrow>
                   (case MergeAdditional filtered (ScopeAdditionalEntries additional base) of
                      (combined, replaced) \<Rightarrow>
                        (Inr (combined, map replaced_note replaced),
                         fold (\<lambda>note'. add_warning ''AdditionalEndpointOverride'' note') (map replaced_note replaced) warnings))))"

text \<open>
  Decoding into the struct of \<^verbatim>\<open>ExtractComponentSchemas\<close>: keys match a field without regard to case, null
  leaves a struct as it is and empties a map, a second object is merged into the first, and a
  value of another type is an error.
\<close>

definition decode_schemas :: "string \<times> json \<Rightarrow> schemas option \<Rightarrow> schemas option" where
  "decode_schemas = (\<lambda>(k, v) acc.
     if \<not> EqualFold k ''schemas'' then acc
     else (case (v, acc) of
             (JNull, Some m) \<Rightarrow> Some []
           | (JObj fields', Some m) \<Rightarrow> Some (fold (\<lambda>(name, raw). mput name (RawJSON raw)) fields' m)
           | _ \<Rightarrow> None))"

definition decode_components :: "string \<times> json \<Rightarrow> schemas option \<Rightarrow> schemas option" where
  "decode_components = (\<lambda>(k, v) acc.
     if \<not> EqualFold k ''components'' then acc
     else (case v of JNull \<Rightarrow> acc | JObj fields' \<Rightarrow> fold decode_schemas fields' acc | _ \<Rightarrow> None))"

definition ExtractComponentSchemas :: "(string \<Rightarrow> json option) \<Rightarrow> string \<Rightarrow> schemas" where
  "ExtractComponentSchemas parse specData =
     (case parse specData of
        Some (JObj root) \<Rightarrow> (case fold decode_components root (Some []) of None \<Rightarrow> [] | Some m \<Rightarrow> m)
      | _ \<Rightarrow> [])"

record sync_plan =
  pl_output :: GenerateOutput
  pl_skipped :: "OperationIssue list"
  pl_failed :: "OperationIssue list"
  pl_notes :: "string list"

definition generate_input :: "'v sync_env \<Rightarrow> KrakenDAutoConfig \<Rightarrow> string \<Rightarrow> CUEOutput \<Rightarrow> EndpointEntry list \<Rightarrow> GenerateInput" where
  "generate_input env ac data out entries =
     \<lparr>gi_AutoConfig = ac, gi_Entries = entries, gi_OperationIDs = cu_OperationIDs out, gi_GatewayRef = as_GatewayRef (au_Spec ac),
      gi_ComponentSchemas = ExtractComponentSchemas (se_json env) data\<rparr>"

definition duplicate_warning :: "OperationIssue \<Rightarrow> string" where
  "duplicate_warning dup =
     ''Duplicate operation '' @ opn_Method (oi_Operation dup) @ '' '' @ opn_Path (oi_Operation dup) @ '' skipped: '' @ oi_Message dup"

definition generation_warnings :: "string list \<Rightarrow> GenerateOutput \<Rightarrow> inputWarnings \<Rightarrow> inputWarnings" where
  "generation_warnings notes gen w =
     fold (\<lambda>dup. add_warning ''DuplicateOperationId'' (duplicate_warning dup)) (go_Skipped gen)
       (fold (add_warning ''SpecWarning'')
          (capList (filter (\<lambda>n. n \<notin> set (specWarnings notes)) (specWarnings (go_Warnings gen)))) w)"

definition plan_sync ::
  "'v sync_env \<Rightarrow> KrakenDAutoConfig \<Rightarrow> string \<Rightarrow> string list \<Rightarrow> CUEOutput \<Rightarrow> inputWarnings \<Rightarrow> ((string \<times> string) + sync_plan) \<times> inputWarnings" where
  "plan_sync env ac data notes out warnings =
     (let failed = inScope ac (cu_Failed out)
      in case applyAdditionalEndpoints env ac (filtered_entries ac out) failed warnings of
           (Inl e, w) \<Rightarrow> (Inl (''AdditionalEndpointScopeFailed'', e), w)
         | (Inr (entries, replaced), w) \<Rightarrow>
             (let gen = Generate (se_decode64 env) (generate_input env ac data out entries)
              in (Inr \<lparr>pl_output = gen, pl_skipped = inScope ac (cu_Skipped out) @ go_Skipped gen, pl_failed = failed,
                       pl_notes = notes @ replaced @ go_Warnings gen\<rparr>,
                  generation_warnings (notes @ replaced) gen w)))"

section \<open>Recording a failure\<close>

definition write_status :: "'v sync_env \<Rightarrow> KrakenDAutoConfig \<Rightarrow> sync_state \<Rightarrow> api_fault option \<times> sync_state" where
  "write_status env ac st =
     (case se_statusWrite env of
        Some e \<Rightarrow> (Some e, st)
      | None \<Rightarrow> (None, st\<lparr>ss_writes := ss_writes st @ [au_Status ac]\<rparr>))"

definition is_conflict :: "api_fault \<Rightarrow> bool" where
  "is_conflict e = (case e of FaultConflict _ \<Rightarrow> True | _ \<Rightarrow> False)"

definition with_events :: "Event list \<Rightarrow> sync_state \<Rightarrow> sync_state" where
  "with_events evs st = st\<lparr>ss_events := ss_events st @ evs\<rparr>"

definition set_gauge :: "KrakenDAutoConfig \<Rightarrow> bool \<Rightarrow> sync_state \<Rightarrow> sync_state" where
  "set_gauge ac synced st = st\<lparr>ss_gauge := mput (au_key ac) synced (ss_gauge st)\<rparr>"

definition refreshReadiness :: "'v sync_env \<Rightarrow> KrakenDAutoConfig \<Rightarrow> sync_state \<Rightarrow> KrakenDAutoConfig \<times> sync_state" where
  "refreshReadiness env ac st =
     (case api_list (se_cluster env) (controls ac) (ss_cluster st) of
        (Inl e, c) \<Rightarrow> (ac, st\<lparr>ss_cluster := c\<rparr>)
      | (Inr owned, c) \<Rightarrow>
          (let readiness = summarizeReadiness owned []
           in (set_auto_condition (endpointsReadyCondition readiness (au_Generation ac))
                 (ac\<lparr>au_Status := (au_Status ac)\<lparr>ast_ReadyEndpoints := int (rd_ready readiness)\<rparr>\<rparr>),
               st\<lparr>ss_cluster := c\<rparr>)))"

definition recordSyncedFailure ::
  "'v sync_env \<Rightarrow> KrakenDAutoConfig \<Rightarrow> string \<Rightarrow> string \<Rightarrow> inputWarnings \<Rightarrow> sync_state \<Rightarrow> string option \<times> sync_state" where
  "recordSyncedFailure env ac reason syncMessage warnings st =
     (let message = truncateMessage syncMessage;
          ac1 = set_auto_condition (condition ''Synced'' ConditionFalse (au_Generation ac) reason message) ac
      in case refreshReadiness env ac1 st of
           (ac2, st1) \<Rightarrow>
             (let ac3 = setAutoConfigReadiness ac2
              in case write_status env ac3 (set_gauge ac3 False st1) of
                   (Some e, st2) \<Rightarrow> (if is_conflict e then None else Some (''updating '' @ reason @ '' status: '' @ fault_text e), st2)
                 | (None, st2) \<Rightarrow>
                     (None, if failureChanged (au_Status ac) (au_Status ac3)
                            then with_events (warning reason message # emit_warnings warnings) st2 else st2)))"

definition handleSyncedFailure ::
  "'v sync_env \<Rightarrow> KrakenDAutoConfig \<Rightarrow> string \<Rightarrow> string \<Rightarrow> inputWarnings \<Rightarrow> sync_state \<Rightarrow> reconcile_result \<times> sync_state" where
  "handleSyncedFailure env ac reason syncErr warnings st =
     (case recordSyncedFailure env ac reason syncErr warnings st of
        (Some e, st1) \<Rightarrow> ((0, Some e), st1)
      | (None, st1) \<Rightarrow> (if as_Trigger (au_Spec ac) = TriggerPeriodic then requeueResult ac else (0, Some syncErr), st1))"

definition handleFetchError :: "'v sync_env \<Rightarrow> KrakenDAutoConfig \<Rightarrow> string \<Rightarrow> sync_state \<Rightarrow> reconcile_result \<times> sync_state" where
  "handleFetchError env ac fetchErr st =
     handleSyncedFailure env
       (set_auto_condition (condition ''SpecAvailable'' ConditionFalse (au_Generation ac) ''SpecFetchFailed'' fetchErr) ac)
       ''SpecFetchFailed'' fetchErr \<lparr>iw_inputsChanged = False, iw_pending = []\<rparr> st"

datatype endpoint_error = PassError sync_error | EndpointFailures "string list"

definition endpointFailureReason :: "endpoint_error \<Rightarrow> string" where
  "endpointFailureReason err = (case err of PassError (Unavailable _) \<Rightarrow> ''ValidatorUnavailable'' | _ \<Rightarrow> ''EndpointReconcileFailed'')"

definition endpoint_error_text :: "'v sync_env \<Rightarrow> endpoint_error \<Rightarrow> string" where
  "endpoint_error_text env err =
     (case err of
        PassError (SyncError e) \<Rightarrow> e
      | PassError (Unavailable e) \<Rightarrow> ''gateway config check: '' @ e
      | EndpointFailures errs \<Rightarrow> se_aggregate env errs)"

definition endpoint_error_summary :: "'v sync_env \<Rightarrow> endpoint_error \<Rightarrow> string" where
  "endpoint_error_summary env err = (case err of EndpointFailures errs \<Rightarrow> listed errs | _ \<Rightarrow> endpoint_error_text env err)"

definition handleEndpointError ::
  "'v sync_env \<Rightarrow> KrakenDAutoConfig \<Rightarrow> endpoint_error \<Rightarrow> inputWarnings \<Rightarrow> sync_state \<Rightarrow> reconcile_result \<times> sync_state" where
  "handleEndpointError env ac err warnings st =
     (case recordSyncedFailure env ac (endpointFailureReason err) (''reconciling endpoints: '' @ endpoint_error_summary env err) warnings st of
        (Some e, st1) \<Rightarrow> ((0, Some e), st1)
      | (None, st1) \<Rightarrow> ((0, Some (''reconciling endpoints: '' @ endpoint_error_text env err)), st1))"

section \<open>Recording a sync\<close>

definition sync_status :: "int \<Rightarrow> KrakenDAutoConfigStatus \<Rightarrow> syncResult \<Rightarrow> KrakenDAutoConfig \<Rightarrow> KrakenDAutoConfig" where
  "sync_status now orig res ac =
     (let changed = sr_checksum res \<noteq> ast_SpecChecksum orig \<or> changes_total (sr_changes res) > 0;
          ac1 = ac\<lparr>au_Status := (au_Status ac)\<lparr>ast_SpecChecksum := sr_checksum res,
                  ast_LastSyncTime := (if changed then Some now else ast_LastSyncTime (au_Status ac)),
                  ast_GeneratedEndpoints := int (sr_generated res), ast_ReadyEndpoints := int (rd_ready (sr_readiness res)),
                  ast_SkippedOperations := int (length (sr_skipped res)), ast_Skipped := capList (sr_skipped res),
                  ast_FailedOperations := capList (sr_failed res), ast_Warnings := capList (sr_warnings res)\<rparr>\<rparr>
      in setAutoConfigReadiness
           (set_auto_condition (endpointsReadyCondition (sr_readiness res) (au_Generation ac))
              (set_auto_condition (syncedCondition res (au_Generation ac)) ac1)))"

definition generated_event :: "syncResult \<Rightarrow> Event" where
  "generated_event res =
     normal ''EndpointsGenerated''
       (''Generated '' @ counted (sr_generated res) ''endpoint'' @ '' ('' @ nat_str (ch_created (sr_changes res)) @ '' created, '' @
        nat_str (ch_updated (sr_changes res)) @ '' updated, '' @ nat_str (ch_deleted (sr_changes res)) @ '' deleted, '' @
        nat_str (length (sr_skipped res)) @ '' skipped)'')"

definition sync_events :: "KrakenDAutoConfigStatus \<Rightarrow> syncResult \<Rightarrow> KrakenDAutoConfig \<Rightarrow> inputWarnings \<Rightarrow> Event list" where
  "sync_events orig res ac warnings =
     (let synced = syncedCondition res (au_Generation ac)
      in emit_warnings warnings @
         (if cond_Status synced \<noteq> ConditionTrue \<and> failureChanged orig (au_Status ac)
          then [warning ''OperationsFailed'' (cond_Message synced)] else []) @
         (if sr_checksum res \<noteq> ast_SpecChecksum orig \<or> changes_total (sr_changes res) > 0 then [generated_event res] else []))"

definition recordSync ::
  "'v sync_env \<Rightarrow> KrakenDAutoConfig \<Rightarrow> KrakenDAutoConfigStatus \<Rightarrow> syncResult \<Rightarrow> inputWarnings \<Rightarrow> sync_state \<Rightarrow> api_fault option \<times> sync_state" where
  "recordSync env ac orig res warnings st =
     (let ac1 = sync_status (se_now env) orig res ac
      in case (if autoConfigStatusChanged orig (au_Status ac1) then write_status env ac1 st else (None, st)) of
           (Some e, st1) \<Rightarrow> (Some e, st1)
         | (None, st1) \<Rightarrow>
             (None, with_events (sync_events orig res ac1 warnings)
                (set_gauge ac1 (cond_Status (syncedCondition res (au_Generation ac)) = ConditionTrue) st1)))"

text \<open>\<open>statusWriteFailure\<close> and \<open>lostWriteRace\<close>: a conflict requeues quietly.\<close>

definition lostWriteRace :: reconcile_result where
  "lostWriteRace = (conflictRequeueDelay, None)"

definition statusWriteFailure :: "api_fault \<Rightarrow> reconcile_result" where
  "statusWriteFailure e = (if is_conflict e then lostWriteRace else (0, Some (''updating final status: '' @ fault_text e)))"

section \<open>Held causes\<close>

definition held_less :: "string \<times> string \<Rightarrow> string \<times> string \<Rightarrow> bool" where
  "held_less a b \<longleftrightarrow> cmp_Or [cmp_Compare (fst a) (fst b), cmp_Compare (snd a) (snd b)] < 0"

definition issue_cause :: "OperationIssue \<Rightarrow> string \<times> string" where
  "issue_cause i =
     (opn_Method (oi_Operation i) @ '' '' @ opn_Path (oi_Operation i) @
        (if opn_OperationID (oi_Operation i) \<noteq> [] then '' ('' @ opn_OperationID (oi_Operation i) @ '')'' else []), oi_Message i)"

definition heldCauses :: "OperationIssue list \<Rightarrow> held_endpoints \<Rightarrow> (string \<times> string) list" where
  "heldCauses failedOps rejected =
     sort_by held_less (map issue_cause failedOps @ map (\<lambda>(name, rej). (name, rj_cause rej)) rejected)"

definition logHeldCauses :: "KrakenDAutoConfig \<Rightarrow> OperationIssue list \<Rightarrow> held_endpoints \<Rightarrow> sync_state \<Rightarrow> sync_state" where
  "logHeldCauses ac failedOps rejected st =
     (let held = heldCauses failedOps rejected;
          digest = SHA256Hex (concat (map (\<lambda>(operation, cause). operation @ [CHR 0x00] @ cause @ [CHR 0x00]) held))
      in if held = [] then st\<lparr>ss_heldLogged := mdel (au_key ac) (ss_heldLogged st)\<rparr>
         else if map_of (ss_heldLogged st) (au_key ac) = Some digest then st
         else st\<lparr>ss_heldLogged := mput (au_key ac) digest (ss_heldLogged st)\<rparr>)"

section \<open>The reconcile\<close>

definition forget_auto :: "NamespacedName \<Rightarrow> sync_state \<Rightarrow> sync_state" where
  "forget_auto key st =
     (let c = ss_cluster st; jd = kc_judging c
      in st\<lparr>ss_gauge := mdel key (ss_gauge st), ss_heldLogged := mdel key (ss_heldLogged st),
            ss_cluster := c\<lparr>kc_judging := jd\<lparr>jd_verdicts := verdictMemo_forget (jd_verdicts jd) key\<rparr>\<rparr>\<rparr>)"

definition sync_result :: "string \<Rightarrow> CUEOutput \<Rightarrow> sync_plan \<Rightarrow> endpointOutcome \<Rightarrow> syncResult" where
  "sync_result checksum out pl oc =
     \<lparr>sr_checksum = checksum, sr_generated = length (go_Endpoints (pl_output pl)), sr_skipped = operationStatuses (pl_skipped pl),
      sr_failed = sortOperationStatuses (operationStatuses (pl_failed pl) @ rejectedStatuses (oc_rejected oc) (cu_OperationIDs out)),
      sr_warnings = specWarnings (pl_notes pl),
      sr_changes = \<lparr>ch_created = oc_created oc, ch_updated = oc_updated oc, ch_deleted = oc_deleted oc\<rparr>, sr_readiness = oc_readiness oc\<rparr>"

definition finish_sync ::
  "'v sync_env \<Rightarrow> KrakenDAutoConfig \<Rightarrow> KrakenDAutoConfigStatus \<Rightarrow> string \<Rightarrow> CUEOutput \<Rightarrow> sync_plan \<Rightarrow> endpointOutcome \<Rightarrow> inputWarnings \<Rightarrow>
   sync_state \<Rightarrow> reconcile_result \<times> sync_state" where
  "finish_sync env ac orig checksum out pl oc warnings st =
     (if oc_transient oc \<noteq> [] then handleEndpointError env ac (EndpointFailures (oc_transient oc @ oc_raced oc)) warnings st
      else if oc_raced oc \<noteq> [] then (lostWriteRace, st)
      else (case recordSync env ac orig (sync_result checksum out pl oc) warnings st of
              (Some e, st1) \<Rightarrow> (statusWriteFailure e, st1)
            | (None, st1) \<Rightarrow> (requeueResult ac, logHeldCauses ac (pl_failed pl) (oc_rejected oc) st1)))"

definition endpoint_pass ::
  "'v sync_env \<Rightarrow> Checker \<Rightarrow> KrakenDAutoConfig \<Rightarrow> KrakenDAutoConfigStatus \<Rightarrow> string \<Rightarrow> CUEOutput \<Rightarrow> sync_plan \<Rightarrow> inputWarnings \<Rightarrow>
   sync_state \<Rightarrow> reconcile_result \<times> sync_state" where
  "endpoint_pass env ck ac orig checksum out pl warnings st =
     (case reconcileEndpoints (se_cluster env) ck ac (go_Endpoints (pl_output pl)) (pl_failed pl \<noteq> []) (ss_cluster st) of
        (Inl e, c) \<Rightarrow> handleEndpointError env ac (PassError e) warnings (st\<lparr>ss_cluster := c\<rparr>)
      | (Inr oc, c) \<Rightarrow> finish_sync env ac orig checksum out pl oc warnings (st\<lparr>ss_cluster := c\<rparr>))"

definition sync_spec ::
  "'v sync_env \<Rightarrow> Checker \<Rightarrow> KrakenDAutoConfig \<Rightarrow> KrakenDAutoConfigStatus \<Rightarrow> string \<Rightarrow> string list \<Rightarrow> sync_state \<Rightarrow> reconcile_result \<times> sync_state" where
  "sync_spec env ck ac orig data notes st =
     (case loadAllCUEDefinitions env ac of
        (defs, rv) \<Rightarrow>
          (let checksum = autoConfigSpecChecksum (SHA256Hex data) rv (au_Generation ac);
               warnings = fold (add_warning ''SpecWarning'') (capList (specWarnings notes))
                            \<lparr>iw_inputsChanged = (checksum \<noteq> ast_SpecChecksum orig), iw_pending = []\<rparr>
           in case evaluated env ac data defs of
                Inl (reason, e) \<Rightarrow> handleSyncedFailure env ac reason e warnings st
              | Inr out \<Rightarrow>
                  (case plan_sync env ac data notes out warnings of
                     (Inl (reason, e), w) \<Rightarrow> handleSyncedFailure env ac reason e w st
                   | (Inr pl, w) \<Rightarrow> endpoint_pass env ck ac orig checksum out pl w st)))"

definition spec_available :: "KrakenDAutoConfig \<Rightarrow> KrakenDAutoConfig" where
  "spec_available ac =
     set_auto_condition (condition ''SpecAvailable'' ConditionTrue (au_Generation ac) ''SpecFetched'' ''OpenAPI spec fetched successfully'') ac"

definition Reconcile ::
  "nat \<Rightarrow> 'v sync_env \<Rightarrow> Checker \<Rightarrow> NamespacedName \<Rightarrow> auto_get \<Rightarrow> sync_state \<Rightarrow> (reconcile_result \<times> sync_state) option" where
  "Reconcile n env ck req get st =
     (case get of
        AutoMissing \<Rightarrow> Some ((0, None), forget_auto req st)
      | AutoError e \<Rightarrow> Some ((0, Some (''getting autoconfig '' @ nn_String req @ '': '' @ e)), st)
      | AutoFound ac \<Rightarrow>
          if au_Deleting ac then Some ((0, None), forget_auto req st)
          else (case fetchSpec n env ac of
                  None \<Rightarrow> None
                | Some (Inl e) \<Rightarrow> Some (handleFetchError env ac e st)
                | Some (Inr (data, notes)) \<Rightarrow>
                    Some (sync_spec env ck (spec_available ac) (au_Status ac) data notes st)))"

end
