(* ===== verification/AutoSyncSafe.thy ===== *)
theory AutoSyncSafe
  imports AutoSync
begin

text \<open>
  What a reconcile of an AutoConfig promises: it deletes nothing, and does not report Synced,
  unless its document was fetched and evaluated and every generated endpoint is in place.
\<close>

section \<open>Conditions leave the AutoConfig's identity alone\<close>

lemma set_auto_condition_simps [simp]:
  "au_Spec (set_auto_condition c ac) = au_Spec ac" "au_Name (set_auto_condition c ac) = au_Name ac"
  "au_Namespace (set_auto_condition c ac) = au_Namespace ac" "au_UID (set_auto_condition c ac) = au_UID ac"
  "au_Generation (set_auto_condition c ac) = au_Generation ac"
  "auto_conditions (set_auto_condition c ac) = SetStatusCondition c (auto_conditions ac)"
  by (simp_all add: set_auto_condition_def auto_conditions_def)

lemma spec_available_simps [simp]:
  "au_Spec (spec_available ac) = au_Spec ac" "au_Name (spec_available ac) = au_Name ac"
  "au_Namespace (spec_available ac) = au_Namespace ac" "au_UID (spec_available ac) = au_UID ac"
  "au_Generation (spec_available ac) = au_Generation ac"
  by (simp_all add: spec_available_def)

lemma controls_available [simp]: "controls (spec_available ac) = controls ac"
  by (rule ext) (simp add: controls_def)

lemma owner_available [simp]: "owner_of (spec_available ac) = owner_of ac"
  by (simp add: owner_of_def)

lemma own_endpoint_available [simp]: "own_endpoint env (spec_available ac) st evs = own_endpoint env ac st evs"
  by (rule ext) (simp add: own_endpoint_def owned_view_def)

lemma in_place_available [simp]: "in_place env (spec_available ac) st evs ep = in_place env ac st evs ep"
  by (simp add: in_place_def placed_def)

section \<open>What only records\<close>

text \<open>A step that only records leaves the endpoints' trace, and the statuses it writes are not Synced.\<close>

definition synced_in :: "KrakenDAutoConfigStatus \<Rightarrow> bool" where
  "synced_in s \<longleftrightarrow> IsStatusConditionTrue (ast_Conditions s) ''Synced''"

definition only_records :: "sync_state \<Rightarrow> sync_state \<Rightarrow> bool" where
  "only_records st st' \<longleftrightarrow>
     kc_trace (ss_cluster st') = kc_trace (ss_cluster st) \<and> (\<forall>s \<in> set (ss_writes st'). s \<in> set (ss_writes st) \<or> \<not> synced_in s)"

lemma api_list_trace: "api_list env P c = (r, c') \<Longrightarrow> kc_trace c' = kc_trace c"
  by (auto simp: api_list_def api_call_def split: prod.splits option.splits)

lemma recordSyncedFailure_records:
  assumes "recordSyncedFailure env ac reason message warnings st = (e, st')"
  shows "only_records st st'"
proof -
  let ?ac1 = "set_auto_condition (condition ''Synced'' ConditionFalse (au_Generation ac) reason (truncateMessage message)) ac"
  obtain ac2 st1 where f: "refreshReadiness env ?ac1 st = (ac2, st1)" by force
  have t: "kc_trace (ss_cluster st1) = kc_trace (ss_cluster st)" "ss_writes st1 = ss_writes st"
    using f api_list_trace by (fastforce simp: refreshReadiness_def Let_def split: prod.splits sum.splits)+
  have "FindStatusCondition (auto_conditions ac2) ''Synced'' = FindStatusCondition (auto_conditions ?ac1) ''Synced''"
    using f by (auto simp: refreshReadiness_def Let_def auto_conditions_def set_auto_condition_def split: prod.splits sum.splits)
  then have "FindStatusCondition (ast_Conditions (au_Status (setAutoConfigReadiness ac2))) ''Synced'' =
      Some (condition ''Synced'' ConditionFalse (au_Generation ac) reason (truncateMessage message))"
    using setAutoConfigReadiness_find [of "''Synced''" ac2] by (simp add: auto_conditions_def condition_def set_auto_condition_def)
  then have "\<not> synced_in (au_Status (setAutoConfigReadiness ac2))" by (simp add: synced_in_def IsStatusConditionTrue_def condition_def)
  with assms f t show ?thesis
    by (auto simp: recordSyncedFailure_def only_records_def write_status_def set_gauge_def with_events_def Let_def
        split: option.splits if_splits)
qed

lemma handleSyncedFailure_records: "handleSyncedFailure env ac reason e warnings st = (r, st') \<Longrightarrow> only_records st st'"
  by (auto simp: handleSyncedFailure_def dest: recordSyncedFailure_records split: prod.splits option.splits)

lemma handleEndpointError_records: "handleEndpointError env ac e warnings st = (r, st') \<Longrightarrow> only_records st st'"
  by (auto simp: handleEndpointError_def dest: recordSyncedFailure_records split: prod.splits option.splits)

section \<open>What a pass records\<close>

lemma sync_status_synced:
  assumes "synced_in (au_Status (sync_status now orig res ac))"
  shows "sr_failed res = []"
proof -
  have "FindStatusCondition (auto_conditions (sync_status now orig res ac)) ''Synced'' = Some (syncedCondition res (au_Generation ac))"
    by (simp add: sync_status_def Let_def)
  then show ?thesis using assms by (simp add: synced_in_def IsStatusConditionTrue_def auto_conditions_def syncedCondition_True)
qed

lemma recordSync_records:
  assumes "recordSync env ac orig res warnings st = (e, st')"
  shows "kc_trace (ss_cluster st') = kc_trace (ss_cluster st)"
    and "s \<in> set (ss_writes st') \<Longrightarrow> s \<notin> set (ss_writes st) \<Longrightarrow> synced_in s \<Longrightarrow> sr_failed res = []"
proof -
  show "kc_trace (ss_cluster st') = kc_trace (ss_cluster st)"
    using assms by (auto simp: recordSync_def write_status_def with_events_def set_gauge_def Let_def split: option.splits if_splits)
  assume "s \<in> set (ss_writes st')" "s \<notin> set (ss_writes st)" "synced_in s"
  then have "s = au_Status (sync_status (se_now env) orig res ac)"
    using assms by (auto simp: recordSync_def write_status_def with_events_def set_gauge_def Let_def split: option.splits if_splits)
  with \<open>synced_in s\<close> show "sr_failed res = []" by (simp add: sync_status_synced)
qed

lemma sync_result_failed: "sr_failed (sync_result checksum out pl oc) = [] \<Longrightarrow> pl_failed pl = [] \<and> oc_rejected oc = []"
  by (simp add: sync_result_def sortOperationStatuses_def operationStatuses_def rejectedStatuses_def)

lemma logHeldCauses_simps [simp]:
  "ss_cluster (logHeldCauses ac failed rejected st) = ss_cluster st" "ss_writes (logHeldCauses ac failed rejected st) = ss_writes st"
  by (simp_all add: logHeldCauses_def Let_def)

lemma finish_sync_records:
  assumes "finish_sync env ac orig checksum out pl oc warnings st = (r, st')"
  shows "kc_trace (ss_cluster st') = kc_trace (ss_cluster st)"
    and "s \<in> set (ss_writes st') \<Longrightarrow> s \<notin> set (ss_writes st) \<Longrightarrow> synced_in s \<Longrightarrow> pl_failed pl = [] \<and> \<not> outcome_failed oc"
proof -
  consider "only_records st st'"
    | e st1 where "oc_transient oc = []" "oc_raced oc = []" "recordSync env ac orig (sync_result checksum out pl oc) warnings st = (e, st1)"
        "ss_cluster st' = ss_cluster st1" "ss_writes st' = ss_writes st1"
  proof (cases "oc_transient oc = [] \<and> oc_raced oc = []")
    case True
    obtain e st1 where rs: "recordSync env ac orig (sync_result checksum out pl oc) warnings st = (e, st1)" by force
    with True assms have "ss_cluster st' = ss_cluster st1" "ss_writes st' = ss_writes st1"
      by (auto simp: finish_sync_def split: option.splits)
    with rs True show ?thesis by (intro that(2)) simp_all
  next
    case False
    then have "handleEndpointError env ac (EndpointFailures (oc_transient oc @ oc_raced oc)) warnings st = (r, st') \<or> st' = st"
      using assms by (auto simp: finish_sync_def split: if_splits)
    then have "only_records st st'"
    proof
      assume "st' = st"
      then show ?thesis by (simp add: only_records_def)
    qed (rule handleEndpointError_records)
    then show ?thesis by (rule that(1))
  qed
  then have "kc_trace (ss_cluster st') = kc_trace (ss_cluster st) \<and>
    (s \<in> set (ss_writes st') \<longrightarrow> s \<notin> set (ss_writes st) \<longrightarrow> synced_in s \<longrightarrow> pl_failed pl = [] \<and> \<not> outcome_failed oc)"
  proof cases
    case 1
    then show ?thesis by (auto simp: only_records_def)
  next
    case 2
    with recordSync_records [OF 2(3)] show ?thesis by (auto simp: outcome_failed_def dest: sync_result_failed)
  qed
  then show "kc_trace (ss_cluster st') = kc_trace (ss_cluster st)"
    and "s \<in> set (ss_writes st') \<Longrightarrow> s \<notin> set (ss_writes st) \<Longrightarrow> synced_in s \<Longrightarrow> pl_failed pl = [] \<and> \<not> outcome_failed oc" by simp_all
qed

section \<open>The reconcile\<close>

text \<open>What a reconcile did before it touched an endpoint: it got through to a plan, from the document fetched.\<close>

definition planned_by ::
  "nat \<Rightarrow> 'v sync_env \<Rightarrow> KrakenDAutoConfig \<Rightarrow> CUEOutput \<Rightarrow> sync_plan \<Rightarrow> bool" where
  "planned_by n env ac out pl \<longleftrightarrow>
     (\<exists>data notes warnings w. fetchSpec n env ac = Some (Inr (data, notes)) \<and>
        evaluated env (spec_available ac) data (fst (loadAllCUEDefinitions env (spec_available ac))) = Inr out \<and>
        plan_sync env (spec_available ac) data notes out warnings = (Inr pl, w))"

lemma generated_writable: "ep \<in> set (go_Endpoints (Generate decode64 input)) \<Longrightarrow> writable ep"
proof -
  assume "ep \<in> set (go_Endpoints (Generate decode64 input))"
  then have "ep \<in> endpoint_for decode64 input ` set (fst (first_claims input))"
    using Generate_inv [of decode64 input] by (simp add: gen_inv_def Generate_def Let_def)
  moreover have "mwf (generatedLabels ac)" for ac by (simp add: generatedLabels_def mwf_mput_raw del: mput.simps)
  ultimately show "writable ep" by (auto simp: writable_def endpoint_for_def generated_def)
qed

lemma plan_sync_writable:
  "plan_sync env ac data notes out warnings = (Inr pl, w) \<Longrightarrow> ep \<in> set (go_Endpoints (pl_output pl)) \<Longrightarrow> writable ep"
  by (auto simp: plan_sync_def Let_def generated_writable split: prod.splits sum.splits)

lemma Reconcile_stages:
  assumes "Reconcile n env ck req (AutoFound ac) st = Some (r, st')"
  shows "only_records st st' \<or>
    (\<exists>out pl checksum w. planned_by n env ac out pl \<and> (\<forall>ep \<in> set (go_Endpoints (pl_output pl)). writable ep) \<and>
       endpoint_pass env ck (spec_available ac) (au_Status ac) checksum out pl w st = (r, st'))"
proof (cases "au_Deleting ac")
  case True
  then show ?thesis using assms by (auto simp: Reconcile_def only_records_def forget_auto_def Let_def)
next
  case False
  show ?thesis
  proof (cases "fetchSpec n env ac")
    case None
    then show ?thesis using assms False by (simp add: Reconcile_def)
  next
    case (Some f)
    show ?thesis
    proof (cases f)
      case (Inl e)
      then show ?thesis using assms False Some by (intro disjI1 handleSyncedFailure_records) (simp add: Reconcile_def handleFetchError_def)
    next
      case (Inr p)
      obtain data nts where p: "p = (data, nts)" by force
      obtain defs rv where d: "loadAllCUEDefinitions env (spec_available ac) = (defs, rv)" by force
      let ?c = "autoConfigSpecChecksum (SHA256Hex data) rv (au_Generation (spec_available ac))"
      let ?w = "fold (add_warning ''SpecWarning'') (capList (specWarnings nts))
          \<lparr>iw_inputsChanged = (?c \<noteq> ast_SpecChecksum (au_Status ac)), iw_pending = []\<rparr>"
      have s: "sync_spec env ck (spec_available ac) (au_Status ac) data nts st = (r, st')"
        using assms False Some Inr p by (simp add: Reconcile_def)
      show ?thesis
      proof (cases "evaluated env (spec_available ac) data defs")
        case (Inl x)
        then show ?thesis using s d by (cases x) (rule disjI1, rule handleSyncedFailure_records, simp add: sync_spec_def Let_def)
      next
        case (Inr out)
        obtain q w where q: "plan_sync env (spec_available ac) data nts out ?w = (q, w)" by force
        show ?thesis
        proof (cases q)
          case (Inl x)
          then show ?thesis using s d \<open>evaluated _ _ _ _ = Inr out\<close> q
            by (cases x) (rule disjI1, rule handleSyncedFailure_records, simp add: sync_spec_def Let_def)
        next
          case (Inr pl)
          have "endpoint_pass env ck (spec_available ac) (au_Status ac) ?c out pl w st = (r, st')"
            using s d \<open>evaluated _ _ _ _ = Inr out\<close> q Inr by (simp add: sync_spec_def Let_def)
          moreover have "planned_by n env ac out pl"
            using Some \<open>f = Inr p\<close> p d \<open>evaluated _ _ _ _ = Inr out\<close> q Inr unfolding planned_by_def by auto
          ultimately show ?thesis using plan_sync_writable [of env _ data nts out ?w pl w] q Inr by blast
        qed
      qed
    qed
  qed
qed

lemma in_place_mono: "in_place env ac st evs ep \<Longrightarrow> set evs \<subseteq> set evs' \<Longrightarrow> in_place env ac st evs' ep"
  unfolding in_place_def using placed_mono own_endpoint_mono by blast

text \<open>The facts both properties of a reconcile rest on.\<close>

lemma endpoint_pass_follows:
  assumes "env_wf (se_cluster env)" "cluster_wf (ss_cluster st)" "\<forall>ep \<in> set (go_Endpoints (pl_output pl)). writable ep"
    and "endpoint_pass env ck ac orig checksum out pl w st = (r, st')"
  shows "\<exists>made broken. kc_trace (ss_cluster st') = kc_trace (ss_cluster st) @ made @ broken \<and> no_delete made \<and>
    (broken \<noteq> [] \<longrightarrow> pl_failed pl = [] \<and> (\<forall>ep \<in> set (go_Endpoints (pl_output pl)). in_place (se_cluster env) ac (ss_cluster st) made ep)) \<and>
    (\<forall>ev \<in> set broken. \<exists>old. ev = DeletedEP old \<and> ep_Name old \<notin> ep_Name ` set (go_Endpoints (pl_output pl)) \<and>
       (\<exists>own. own_endpoint (se_cluster env) ac (ss_cluster st) made own \<and> ep_Name own = ep_Name old \<and> ep_UID own = ep_UID old)) \<and>
    (\<forall>s \<in> set (ss_writes st') - set (ss_writes st). synced_in s \<longrightarrow> pl_failed pl = [] \<and>
       (\<forall>ep \<in> set (go_Endpoints (pl_output pl)). in_place (se_cluster env) ac (ss_cluster st) made ep))"
proof -
  obtain q c where q: "reconcileEndpoints (se_cluster env) ck ac (go_Endpoints (pl_output pl)) (pl_failed pl \<noteq> []) (ss_cluster st) = (q, c)" by force
  from reconcileEndpoints_follows [OF assms(1-3) q] obtain made broken where
    m: "follows (made @ broken) (ss_cluster st) c" "no_delete made" "broken \<noteq> [] \<longrightarrow> pl_failed pl = []"
    "broken \<noteq> [] \<or> (\<exists>oc. q = Inr oc \<and> \<not> outcome_failed oc) \<longrightarrow>
       (\<forall>ep \<in> set (go_Endpoints (pl_output pl)). in_place (se_cluster env) ac (ss_cluster st) made ep)"
    "\<forall>ev \<in> set broken. \<exists>old. ev = DeletedEP old \<and> ep_Name old \<notin> ep_Name ` set (go_Endpoints (pl_output pl)) \<and>
       (\<exists>own. own_endpoint (se_cluster env) ac (ss_cluster st) made own \<and> ep_Name own = ep_Name old \<and> ep_UID own = ep_UID old)" by blast
  let ?st = "st\<lparr>ss_cluster := c\<rparr>"
  have t: "kc_trace c = kc_trace (ss_cluster st) @ made @ broken" using m(1) by (simp add: follows_def)
  have "kc_trace (ss_cluster st') = kc_trace c \<and>
    (\<forall>s \<in> set (ss_writes st') - set (ss_writes st). synced_in s \<longrightarrow> pl_failed pl = [] \<and> (\<exists>oc. q = Inr oc \<and> \<not> outcome_failed oc))"
  proof (cases q)
    case (Inl e)
    then have "handleEndpointError env ac (PassError e) w ?st = (r, st')" using assms(4) q by (simp add: endpoint_pass_def)
    from handleEndpointError_records [OF this] show ?thesis by (auto simp: only_records_def)
  next
    case (Inr oc)
    then have "finish_sync env ac orig checksum out pl oc w ?st = (r, st')" using assms(4) q by (simp add: endpoint_pass_def)
    from finish_sync_records [OF this] Inr show ?thesis by auto
  qed
  with t m(2-5) show ?thesis by (intro exI [of _ made] exI [of _ broken]) simp
qed

text \<open>
  C9: a reconcile of an AutoConfig fails closed. An endpoint is deleted only in a reconcile that fetched
  the document, evaluated it to at least one operation with every override resolved, in which no
  operation in scope failed, after every generated endpoint was put in place; and the deleted object is
  one of the AutoConfig's own endpoints and not a generated one.
\<close>
theorem Reconcile_fail_closed:
  assumes "env_wf (se_cluster env)" "cluster_wf (ss_cluster st)" "kc_trace (ss_cluster st) = []"
    and "Reconcile n env ck req (AutoFound ac) st = Some (r, st')" "DeletedEP old \<in> set (kc_trace (ss_cluster st'))"
  shows "\<exists>out pl made broken. planned_by n env ac out pl \<and> pl_failed pl = [] \<and>
    kc_trace (ss_cluster st') = made @ broken \<and> DeletedEP old \<in> set broken \<and> no_delete made \<and>
    (\<forall>ep \<in> set (go_Endpoints (pl_output pl)). in_place (se_cluster env) ac (ss_cluster st) made ep) \<and>
    ep_Name old \<notin> ep_Name ` set (go_Endpoints (pl_output pl)) \<and>
    (\<exists>own. own_endpoint (se_cluster env) ac (ss_cluster st) made own \<and> ep_Name own = ep_Name old \<and> ep_UID own = ep_UID old)"
  using Reconcile_stages [OF assms(4)]
proof
  assume "only_records st st'"
  with assms(3,5) show ?thesis by (simp add: only_records_def)
next
  assume "\<exists>out pl checksum w. planned_by n env ac out pl \<and> (\<forall>ep \<in> set (go_Endpoints (pl_output pl)). writable ep) \<and>
       endpoint_pass env ck (spec_available ac) (au_Status ac) checksum out pl w st = (r, st')"
  then obtain out pl checksum w where p: "planned_by n env ac out pl" "\<forall>ep \<in> set (go_Endpoints (pl_output pl)). writable ep"
    "endpoint_pass env ck (spec_available ac) (au_Status ac) checksum out pl w st = (r, st')" by blast
  from endpoint_pass_follows [OF assms(1,2) p(2,3)] assms(3) obtain made broken where m: "kc_trace (ss_cluster st') = made @ broken" "no_delete made"
    "broken \<noteq> [] \<longrightarrow> pl_failed pl = [] \<and> (\<forall>ep \<in> set (go_Endpoints (pl_output pl)). in_place (se_cluster env) ac (ss_cluster st) made ep)"
    "\<forall>ev \<in> set broken. \<exists>old. ev = DeletedEP old \<and> ep_Name old \<notin> ep_Name ` set (go_Endpoints (pl_output pl)) \<and>
       (\<exists>own. own_endpoint (se_cluster env) ac (ss_cluster st) made own \<and> ep_Name own = ep_Name old \<and> ep_UID own = ep_UID old)" by auto
  have d: "DeletedEP old \<in> set broken" using assms(5) m(1,2) by (auto simp: no_delete_def)
  with m(4) have "ep_Name old \<notin> ep_Name ` set (go_Endpoints (pl_output pl)) \<and>
       (\<exists>own. own_endpoint (se_cluster env) ac (ss_cluster st) made own \<and> ep_Name own = ep_Name old \<and> ep_UID own = ep_UID old)" by fastforce
  with d p(1) m(1-3) show ?thesis by (intro exI [of _ out] exI [of _ pl] exI [of _ made] exI [of _ broken]) auto
qed

text \<open>
  C10: an AutoConfig's status tells the truth. A status with Synced True is
  written only by a reconcile that fetched and evaluated the document, in which no operation in scope
  failed or was held, and which found or put every generated endpoint in place.
\<close>
theorem Reconcile_synced_true:
  assumes "env_wf (se_cluster env)" "cluster_wf (ss_cluster st)" "kc_trace (ss_cluster st) = []" "ss_writes st = []"
    and "Reconcile n env ck req (AutoFound ac) st = Some (r, st')" "s \<in> set (ss_writes st')"
    and "IsStatusConditionTrue (ast_Conditions s) ''Synced''"
  shows "\<exists>out pl. planned_by n env ac out pl \<and> pl_failed pl = [] \<and>
    (\<forall>ep \<in> set (go_Endpoints (pl_output pl)). in_place (se_cluster env) ac (ss_cluster st) (kc_trace (ss_cluster st')) ep)"
  using Reconcile_stages [OF assms(5)]
proof
  assume "only_records st st'"
  with assms(4,6,7) show ?thesis by (auto simp: only_records_def synced_in_def)
next
  assume "\<exists>out pl checksum w. planned_by n env ac out pl \<and> (\<forall>ep \<in> set (go_Endpoints (pl_output pl)). writable ep) \<and>
       endpoint_pass env ck (spec_available ac) (au_Status ac) checksum out pl w st = (r, st')"
  then obtain out pl checksum w where p: "planned_by n env ac out pl" "\<forall>ep \<in> set (go_Endpoints (pl_output pl)). writable ep"
    "endpoint_pass env ck (spec_available ac) (au_Status ac) checksum out pl w st = (r, st')" by blast
  from endpoint_pass_follows [OF assms(1,2) p(2,3)] assms(3) obtain made broken where m: "kc_trace (ss_cluster st') = made @ broken"
    "\<forall>s \<in> set (ss_writes st') - set (ss_writes st). synced_in s \<longrightarrow> pl_failed pl = [] \<and>
       (\<forall>ep \<in> set (go_Endpoints (pl_output pl)). in_place (se_cluster env) ac (ss_cluster st) made ep)" by auto
  with assms(4,6,7) have "pl_failed pl = [] \<and> (\<forall>ep \<in> set (go_Endpoints (pl_output pl)). in_place (se_cluster env) ac (ss_cluster st) made ep)"
    unfolding synced_in_def by auto
  with p(1) m(1) in_place_mono show ?thesis by (intro exI [of _ out] exI [of _ pl]) auto
qed

section \<open>An example\<close>

text \<open>A document with one operation, whose endpoint takes the place of one that is no longer generated.\<close>

definition ex_operation :: cueField where
  "ex_operation =
     \<lparr>cfd_Selector = ''/new:GET'', cfd_Unquoted = ''/new:GET'', cfd_endpoint = None, cfd_method = None, cfd_operationId = Some ''getNew'',
      cfd_tags = None, cfd_Validate = None, cfd_MarshalJSON = Inr []\<rparr>"

definition ex_lib :: "cueField list cue_lib" where
  "ex_lib =
     \<lparr>cl_Compile = (\<lambda>text filename. if filename = ''defs.cue'' then [ex_operation] else []), cl_Unify = (@), cl_Exists = (\<lambda>v. v \<noteq> []),
      cl_Errors = (\<lambda>_. []), cl_Fields = Inr, cl_YAMLToJSON = Inr, cl_validJSON = (\<lambda>_. True), cl_decodeEntry = (\<lambda>_. Inr (ex_route ''/new'')),
      cl_raw = (\<lambda>_. [])\<rparr>"

definition ex_sync_env :: "cueField list sync_env" where
  "ex_sync_env =
     \<lparr>se_cluster = ex_quiet, se_fetch = Inr ''null'',
      se_refs = \<lparr>rv_baseURL = [], rv_hasFetcher = True, rv_fetch = (\<lambda>_. Inl []), rv_decode = (\<lambda>_. Inr None), rv_resolve = (\<lambda>_ _. Inl []),
        rv_urlPath = (\<lambda>_. None), rv_redact = id, rv_redactRef = id\<rparr>,
      se_cue = ex_lib, se_configMap = (\<lambda>_. Inr ([(''defs.cue'', [])], ''7'')), se_embedded = Inl [], se_url = (\<lambda>_. None), se_json = (\<lambda>_. None),
      se_decode64 = (\<lambda>_. None), se_aggregate = concat, se_statusWrite = None, se_now = 9\<rparr>"

definition ex_sync_out :: CUEOutput where
  "ex_sync_out = empty_output\<lparr>cu_Entries := [ex_route ''/new''], cu_OperationIDs := [(''/new:GET'', ''getNew'')],
     cu_entryOperationIDs := [''getNew''], cu_entryTags := [[]]\<rparr>"

definition ex_gen :: GenerateOutput where
  "ex_gen = Generate (\<lambda>_. None) (generate_input ex_sync_env (spec_available ex_autoconfig) ''null'' ex_sync_out [ex_route ''/new''])"

definition ex_sync_plan :: sync_plan where
  "ex_sync_plan = \<lparr>pl_output = ex_gen, pl_skipped = [], pl_failed = [], pl_notes = []\<rparr>"

definition ex_sync_pass :: "(sync_error + endpointOutcome) \<times> cluster" where
  "ex_sync_pass = reconcileEndpoints ex_quiet ex_ck (spec_available ex_autoconfig) (go_Endpoints ex_gen) False ex_cluster"

definition ex_sync_state :: sync_state where
  "ex_sync_state = \<lparr>ss_cluster = ex_cluster, ss_writes = [], ss_events = [], ss_gauge = [], ss_heldLogged = []\<rparr>"

lemma ex_sync_fetch: "fetchSpec 2 ex_sync_env ex_autoconfig = Some (Inr (''null'', []))"
  by code_simp

lemma ex_sync_defs: "loadAllCUEDefinitions ex_sync_env (spec_available ex_autoconfig) = (Inr ([(''defs.cue'', [])], []), ''7'')"
  by code_simp

lemma ex_sync_eval: "evaluated ex_sync_env (spec_available ex_autoconfig) ''null'' (Inr ([(''defs.cue'', [])], [])) = Inr ex_sync_out"
  by code_simp

lemma ex_gen_quiet: "go_Skipped ex_gen = [] \<and> go_Warnings ex_gen = []"
  by code_simp

lemma ex_sync_pass_result:
  "(case fst ex_sync_pass of Inl _ \<Rightarrow> False | Inr oc \<Rightarrow> \<not> outcome_failed oc) \<and>
   list_ex (\<lambda>ev. case ev of DeletedEP e \<Rightarrow> ep_Name e = ''shop-old'' | _ \<Rightarrow> False) (kc_trace (snd ex_sync_pass))"
  by code_simp

lemma ex_sync_plan: "plan_sync ex_sync_env (spec_available ex_autoconfig) ''null'' [] ex_sync_out w = (Inr ex_sync_plan, w)"
proof -
  have "filtered_entries (spec_available ex_autoconfig) ex_sync_out = [ex_route ''/new'']"
    "inScope (spec_available ex_autoconfig) (cu_Failed ex_sync_out) = []" "inScope (spec_available ex_autoconfig) (cu_Skipped ex_sync_out) = []"
    by (simp_all add: filtered_entries_def inScope_def ex_autoconfig_def ex_sync_out_def empty_output_def)
  moreover have "as_AdditionalEndpoints (au_Spec ex_autoconfig) = []" by (simp add: ex_autoconfig_def)
  moreover have "se_decode64 ex_sync_env = (\<lambda>_. None)" by (simp add: ex_sync_env_def)
  ultimately show ?thesis using ex_gen_quiet
    by (simp add: plan_sync_def applyAdditionalEndpoints_def ex_sync_plan_def ex_gen_def [symmetric] generation_warnings_def specWarnings_def capList_def)
qed

lemma ex_reconcile:
  "\<exists>r st' s. Reconcile 2 ex_sync_env ex_ck (au_key ex_autoconfig) (AutoFound ex_autoconfig) ex_sync_state = Some (r, st') \<and>
     kc_trace (ss_cluster st') = kc_trace (snd ex_sync_pass) \<and> ss_writes st' = [s] \<and> IsStatusConditionTrue (ast_Conditions s) ''Synced''"
proof -
  obtain oc c where pass: "ex_sync_pass = (Inr oc, c)" and ok: "\<not> outcome_failed oc"
    using ex_sync_pass_result by (cases "fst ex_sync_pass") (auto simp: prod_eq_iff)
  let ?c = "autoConfigSpecChecksum (SHA256Hex ''null'') ''7'' (au_Generation ex_autoconfig)"
  let ?w = "\<lparr>iw_inputsChanged = (?c \<noteq> ast_SpecChecksum (au_Status ex_autoconfig)), iw_pending = []\<rparr>"
  let ?st = "ex_sync_state\<lparr>ss_cluster := c\<rparr>"
  let ?res = "sync_result ?c ex_sync_out ex_sync_plan oc"
  obtain e st1 where rs: "recordSync ex_sync_env (spec_available ex_autoconfig) (au_Status ex_autoconfig) ?res ?w ?st = (e, st1)" by force
  have res: "sr_failed ?res = []" using ok
    by (simp add: sync_result_def ex_sync_plan_def outcome_failed_def sortOperationStatuses_def operationStatuses_def rejectedStatuses_def)
  let ?ac = "sync_status (se_now ex_sync_env) (au_Status ex_autoconfig) ?res (spec_available ex_autoconfig)"
  have "ast_Phase (au_Status ?ac) \<noteq> None" by (simp add: sync_status_def setAutoConfigReadiness_def Let_def split: prod.splits)
  then have "autoConfigStatusChanged (au_Status ex_autoconfig) (au_Status ?ac)"
    by (auto simp: autoConfigStatusChanged_def ex_autoconfig_def)
  then have w: "e = None" "ss_writes st1 = [au_Status ?ac]"
    using rs by (auto simp: recordSync_def write_status_def ex_sync_env_def with_events_def set_gauge_def ex_sync_state_def Let_def)
  have "FindStatusCondition (auto_conditions ?ac) ''Synced'' = Some (syncedCondition ?res (au_Generation (spec_available ex_autoconfig)))"
    by (simp add: sync_status_def Let_def)
  then have t: "IsStatusConditionTrue (ast_Conditions (au_Status ?ac)) ''Synced''"
    using res by (simp add: IsStatusConditionTrue_def auto_conditions_def syncedCondition_True)
  have "reconcileEndpoints (se_cluster ex_sync_env) ex_ck (spec_available ex_autoconfig) (go_Endpoints (pl_output ex_sync_plan))
      (pl_failed ex_sync_plan \<noteq> []) (ss_cluster ex_sync_state) = (Inr oc, c)"
    using pass by (simp add: ex_sync_pass_def ex_sync_env_def ex_sync_plan_def ex_sync_state_def)
  then have "endpoint_pass ex_sync_env ex_ck (spec_available ex_autoconfig) (au_Status ex_autoconfig) ?c ex_sync_out ex_sync_plan ?w ex_sync_state =
      (requeueResult (spec_available ex_autoconfig), logHeldCauses (spec_available ex_autoconfig) (pl_failed ex_sync_plan) (oc_rejected oc) st1)"
    using ok rs w(1) by (simp add: endpoint_pass_def finish_sync_def outcome_failed_def)
  moreover have "\<not> au_Deleting ex_autoconfig" by (simp add: ex_autoconfig_def)
  ultimately have "Reconcile 2 ex_sync_env ex_ck (au_key ex_autoconfig) (AutoFound ex_autoconfig) ex_sync_state =
      Some (requeueResult (spec_available ex_autoconfig), logHeldCauses (spec_available ex_autoconfig) (pl_failed ex_sync_plan) (oc_rejected oc) st1)"
    by (simp add: Reconcile_def ex_sync_fetch sync_spec_def ex_sync_defs ex_sync_eval ex_sync_plan specWarnings_def capList_def)
  moreover have "kc_trace (ss_cluster st1) = kc_trace (snd ex_sync_pass)" using recordSync_records(1) [OF rs] by (simp add: pass)
  ultimately show ?thesis using w(2) t by auto
qed

lemma ex_sync_setting:
  "env_wf (se_cluster ex_sync_env)" "cluster_wf (ss_cluster ex_sync_state)" "kc_trace (ss_cluster ex_sync_state) = []" "ss_writes ex_sync_state = []"
  using ex_setting by (simp_all add: ex_sync_env_def ex_sync_state_def)

theorem Reconcile_fail_closed_witness:
  "\<exists>old out pl made broken. ep_Name old = ''shop-old'' \<and> planned_by 2 ex_sync_env ex_autoconfig out pl \<and> pl_failed pl = [] \<and>
     DeletedEP old \<in> set broken \<and> no_delete made \<and> ep_Name old \<notin> ep_Name ` set (go_Endpoints (pl_output pl))"
proof -
  from ex_reconcile obtain r st' where p: "Reconcile 2 ex_sync_env ex_ck (au_key ex_autoconfig) (AutoFound ex_autoconfig) ex_sync_state = Some (r, st')"
    and t: "kc_trace (ss_cluster st') = kc_trace (snd ex_sync_pass)" by blast
  from ex_sync_pass_result obtain ev where ev: "ev \<in> set (kc_trace (ss_cluster st'))"
    "case ev of DeletedEP e \<Rightarrow> ep_Name e = ''shop-old'' | _ \<Rightarrow> False" unfolding t list_ex_iff by blast
  from ev(2) obtain old where "ev = DeletedEP old" "ep_Name old = ''shop-old''" by (simp split: trace_event.splits)
  with ev(1) have "DeletedEP old \<in> set (kc_trace (ss_cluster st'))" "ep_Name old = ''shop-old''" by simp_all
  with Reconcile_fail_closed [OF ex_sync_setting(1-3) p this(1)] show ?thesis by blast
qed

theorem Reconcile_synced_true_witness:
  "\<exists>out pl evs. planned_by 2 ex_sync_env ex_autoconfig out pl \<and> pl_failed pl = [] \<and> kc_trace (snd ex_sync_pass) = evs \<and>
     list_all (in_place ex_quiet ex_autoconfig ex_cluster evs) (go_Endpoints (pl_output pl))"
proof -
  from ex_reconcile obtain r st' s where p: "Reconcile 2 ex_sync_env ex_ck (au_key ex_autoconfig) (AutoFound ex_autoconfig) ex_sync_state = Some (r, st')"
    and t: "kc_trace (ss_cluster st') = kc_trace (snd ex_sync_pass)" and s: "s \<in> set (ss_writes st')" "IsStatusConditionTrue (ast_Conditions s) ''Synced''" by force
  from Reconcile_synced_true [OF ex_sync_setting p s] show ?thesis
    by (auto simp: t list_all_iff ex_sync_env_def ex_sync_state_def)
qed

end
