(* ===== verification/AutoConverge.thy ===== *)
theory AutoConverge
  imports AutoSafe
begin

text \<open>
  The endpoint pass converges: against a server nobody else changes, with a fresh cache and no failing
  call, and when nothing holds a desired endpoint, one pass leaves exactly the desired endpoints
  under the AutoConfig's control.
\<close>

section \<open>A quiet server\<close>

definition quiet :: "cluster_env \<Rightarrow> bool" where
  "quiet env \<longleftrightarrow> (\<forall>n m. ce_others env n m = m \<and> ce_view env n m = m \<and> ce_fault env n = None)"

abbreviation live_of :: "cluster \<Rightarrow> string \<Rightarrow> KrakenDEndpoint option" where
  "live_of st \<equiv> map_of (kc_endpoints st)"

lemma quiet_wf: "quiet env \<Longrightarrow> env_wf env"
  by (simp add: quiet_def env_wf_def)

lemma api_call_quiet: "quiet env \<Longrightarrow> api_call env st = (None, st\<lparr>kc_calls := Suc (kc_calls st)\<rparr>)"
  by (simp add: quiet_def api_call_def)

lemma api_list_quiet:
  "quiet env \<Longrightarrow> api_list env P st = (Inr (filter P (map snd (kc_endpoints st))), st\<lparr>kc_calls := Suc (kc_calls st)\<rparr>)"
  by (simp add: api_list_def api_call_quiet cached_def) (simp add: quiet_def)

lemma api_get_quiet:
  "quiet env \<Longrightarrow> api_get env name st =
     (case live_of st name of None \<Rightarrow> Inl FaultNotFound | Some ep \<Rightarrow> Inr ep, st\<lparr>kc_calls := Suc (kc_calls st)\<rparr>)"
  by (simp add: api_get_def api_call_quiet cached_def split: option.splits) (simp add: quiet_def)

lemma live_wf: "cluster_wf st \<Longrightarrow> live_of st name = Some ep \<Longrightarrow> ep_Name ep = name \<and> mwf (ep_Labels ep) \<and> spec_encodes (ep_Spec ep)"
  by (simp add: cluster_wf_def eps_wf_def)

lemma cluster_mwf: "cluster_wf st \<Longrightarrow> mwf (kc_endpoints st)"
  by (simp add: cluster_wf_def eps_wf_def)

lemma api_update_quiet:
  assumes "quiet env" "cluster_wf st" "live_of st (ep_Name ep) = Some old" "ep_ResourceVersion ep = ep_ResourceVersion old"
    and "spec_encodes (ep_Spec ep)" "mwf (ep_Labels ep)"
  shows "\<exists>stored st'. api_update env ev ep st = (Inr stored, st') \<and> live_of st' = (live_of st)(ep_Name ep \<mapsto> stored) \<and>
    cluster_wf st' \<and> stored_as ep stored \<and> ep_UID stored = ep_UID old"
proof -
  let ?st = "st\<lparr>kc_calls := Suc (kc_calls st)\<rparr>"
  let ?s = "stored_update (ce_version env (kc_calls ?st)) ep old"
  have u: "api_update env ev ep st = (Inr ?s, note_event (ev ?s) (put_endpoint ?s ?st))"
    using assms by (simp add: api_update_def api_call_quiet Let_def)
  have n: "ep_Name ?s = ep_Name ep" using live_wf [OF assms(2,3)] by (simp add: stored_update_def)
  from api_update_follows [OF quiet_wf [OF assms(1)] assms(2,6) u]
  have "cluster_wf (note_event (ev ?s) (put_endpoint ?s ?st))" "stored_as ep ?s" by (simp_all add: follows_def)
  moreover have "live_of (note_event (ev ?s) (put_endpoint ?s ?st)) = (live_of st)(ep_Name ep \<mapsto> ?s)"
    using cluster_mwf [OF assms(2)] n by simp
  moreover have "ep_UID ?s = ep_UID old" by (simp add: stored_update_def)
  ultimately show ?thesis using u by blast
qed

lemma api_create_quiet:
  assumes "quiet env" "cluster_wf st" "live_of st (ep_Name ep) = None" "spec_encodes (ep_Spec ep)" "mwf (ep_Labels ep)"
  shows "\<exists>stored st'. api_create env ep st = (Inr stored, st') \<and> live_of st' = (live_of st)(ep_Name ep \<mapsto> stored) \<and>
    cluster_wf st' \<and> stored_as ep stored"
proof -
  let ?st = "st\<lparr>kc_calls := Suc (kc_calls st)\<rparr>"
  let ?s = "stored_create env (kc_calls ?st) ep"
  have u: "api_create env ep st = (Inr ?s, note_event (CreatedEP ?s) (put_endpoint ?s ?st))"
    using assms by (simp add: api_create_def api_call_quiet Let_def)
  have n: "ep_Name ?s = ep_Name ep" by (simp add: stored_create_def)
  from api_create_follows [OF quiet_wf [OF assms(1)] assms(2,5) u]
  have "cluster_wf (note_event (CreatedEP ?s) (put_endpoint ?s ?st))" "stored_as ep ?s" by (simp_all add: follows_def)
  moreover have "live_of (note_event (CreatedEP ?s) (put_endpoint ?s ?st)) = (live_of st)(ep_Name ep \<mapsto> ?s)"
    using cluster_mwf [OF assms(2)] n by simp
  ultimately show ?thesis using u by blast
qed

section \<open>Claiming\<close>

lemma controls_owner: "ep_Controller ep = Some (owner_of ac) \<Longrightarrow> controls ac ep"
  by (simp add: controls_def EndpointControllerKeys_def owner_of_def)

lemma controls_None: "ep_Controller ep = None \<Longrightarrow> \<not> controls ac ep"
  by (simp add: controls_def EndpointControllerKeys_def)

text \<open>The list of the AutoConfig's endpoints is exactly what it controls on the server.\<close>

definition owns_exactly :: "KrakenDAutoConfig \<Rightarrow> KrakenDEndpoint list \<Rightarrow> cluster \<Rightarrow> bool" where
  "owns_exactly ac controlled st \<longleftrightarrow> (\<forall>ep. ep \<in> set controlled \<longleftrightarrow> live_of st (ep_Name ep) = Some ep \<and> controls ac ep)"

lemma adopt_all_quiet:
  assumes "quiet env" "cluster_wf st" "owns_exactly ac controlled st" "distinct (map ep_Name orphans)"
    and "\<forall>o' \<in> set orphans. live_of st (ep_Name o') = Some o' \<and> ep_Controller o' = None"
  shows "\<exists>controlled' st'. adopt_all env ac orphans controlled oc st = ((controlled', oc), st') \<and> cluster_wf st' \<and>
    owns_exactly ac controlled' st' \<and> (\<forall>name. name \<notin> ep_Name ` set orphans \<longrightarrow> live_of st' name = live_of st name)"
  using assms(2-5)
proof (induction orphans arbitrary: controlled st)
  case (Cons o' orphans)
  let ?owned = "o'\<lparr>ep_Controller := Some (owner_of ac)\<rparr>"
  from Cons.prems(4) have live: "live_of st (ep_Name o') = Some o'" "ep_Controller o' = None" by simp_all
  note w = live_wf [OF Cons.prems(1) live(1)]
  have s: "SetControllerReference ac o' = Inr ?owned" using live(2) by (simp add: SetControllerReference_def)
  obtain stored st1 where u: "api_update env Adopted ?owned st = (Inr stored, st1)" "live_of st1 = (live_of st)(ep_Name o' \<mapsto> stored)"
    "cluster_wf st1" "stored_as ?owned stored"
    using api_update_quiet [OF assms(1) Cons.prems(1), of ?owned o' Adopted] live(1) w by auto
  have c: "controls ac stored" "ep_Name stored = ep_Name o'" using u(4) by (simp_all add: stored_as_def controls_owner)
  have "owns_exactly ac (controlled @ [stored]) st1"
    using Cons.prems(2) u(2) c live controls_None [OF live(2), of ac] by (auto simp: owns_exactly_def split: if_splits)
  moreover have "\<forall>x \<in> set orphans. live_of st1 (ep_Name x) = Some x \<and> ep_Controller x = None"
  proof
    fix x assume x: "x \<in> set orphans"
    then have "ep_Name x \<noteq> ep_Name o'" using Cons.prems(3) by (metis distinct.simps(2) image_eqI list.simps(9) list.set_map)
    with x Cons.prems(4) show "live_of st1 (ep_Name x) = Some x \<and> ep_Controller x = None" by (simp add: u(2))
  qed
  ultimately obtain controlled' st' where r: "adopt_all env ac orphans (controlled @ [stored]) oc st1 = ((controlled', oc), st')"
    "cluster_wf st'" "owns_exactly ac controlled' st'" "\<forall>name. name \<notin> ep_Name ` set orphans \<longrightarrow> live_of st' name = live_of st1 name"
    using Cons.IH [OF u(3), of "controlled @ [stored]"] Cons.prems(3) by auto
  with s u(1,2) show ?case by (intro exI [of _ controlled'] exI [of _ st']) simp
qed (auto)

lemma live_names:
  assumes "cluster_wf st"
  shows "map ep_Name (map snd (kc_endpoints st)) = map fst (kc_endpoints st)"
    and "ep \<in> set (map snd (kc_endpoints st)) \<longleftrightarrow> live_of st (ep_Name ep) = Some ep"
proof -
  have d: "distinct (map fst (kc_endpoints st))" using cluster_mwf [OF assms] by (rule mwf_distinct)
  have n: "ep_Name e = name" if "(name, e) \<in> set (kc_endpoints st)" for name e
    using that d assms live_wf by (metis map_of_is_SomeI)
  have "(ep_Name \<circ> snd) p = fst p" if "p \<in> set (kc_endpoints st)" for p using n [of "fst p" "snd p"] that by simp
  then show "map ep_Name (map snd (kc_endpoints st)) = map fst (kc_endpoints st)" by simp
  show "ep \<in> set (map snd (kc_endpoints st)) \<longleftrightarrow> live_of st (ep_Name ep) = Some ep"
  proof
    assume "ep \<in> set (map snd (kc_endpoints st))"
    then obtain name where p: "(name, ep) \<in> set (kc_endpoints st)" by auto
    with n [OF p] d show "live_of st (ep_Name ep) = Some ep" by simp
  next
    assume "live_of st (ep_Name ep) = Some ep"
    from map_of_SomeD [OF this] show "ep \<in> set (map snd (kc_endpoints st))" by force
  qed
qed

lemma claimEndpoints_quiet:
  assumes "quiet env" "cluster_wf st"
  shows "\<exists>controlled st'. claimEndpoints env ac desired oc st = (Inr (controlled, oc), st') \<and> cluster_wf st' \<and> owns_exactly ac controlled st' \<and>
    (\<forall>name ep. live_of st name = Some ep \<longrightarrow> \<not> (adoptable desired ep \<and> labelled_for ac ep) \<longrightarrow> live_of st' name = Some ep) \<and>
    (\<forall>name. live_of st name = None \<longrightarrow> live_of st' name = None)"
proof -
  let ?st1 = "st\<lparr>kc_calls := Suc (kc_calls st)\<rparr>" and ?st2 = "st\<lparr>kc_calls := Suc (Suc (kc_calls st))\<rparr>"
  let ?owned = "filter (controls ac) (map snd (kc_endpoints st))" and ?labelled = "filter (labelled_for ac) (map snd (kc_endpoints st))"
  let ?orphans = "filter (adoptable desired) (sort_by (\<lambda>a b. cmp_Compare (ep_Name a) (ep_Name b) < 0) ?labelled)"
  have w: "cluster_wf ?st2" using assms(2) by (simp add: cluster_wf_def)
  have o1: "o' \<in> set ?orphans \<longleftrightarrow> live_of st (ep_Name o') = Some o' \<and> labelled_for ac o' \<and> adoptable desired o'" for o'
    using live_names(2) [OF assms(2), of o'] by auto
  have "distinct (map ep_Name (map snd (kc_endpoints st)))"
    using live_names(1) [OF assms(2)] cluster_mwf [OF assms(2)] mwf_distinct by metis
  then have "distinct (map ep_Name ?labelled)" by (rule distinct_map_filter)
  then have "distinct (map ep_Name (sort_by (\<lambda>a b. cmp_Compare (ep_Name a) (ep_Name b) < 0) ?labelled))"
    by (simp add: distinct_map)
  then have d: "distinct (map ep_Name ?orphans)" by (rule distinct_map_filter)
  have own: "owns_exactly ac ?owned ?st2" using live_names(2) [OF assms(2)] by (auto simp: owns_exactly_def)
  have live: "\<forall>o' \<in> set ?orphans. live_of ?st2 (ep_Name o') = Some o' \<and> ep_Controller o' = None"
    using o1 by (auto simp: adoptable_def)
  from adopt_all_quiet [OF assms(1) w own d live, of oc] obtain controlled st' where
    a: "adopt_all env ac ?orphans ?owned oc ?st2 = ((controlled, oc), st')" "cluster_wf st'" "owns_exactly ac controlled st'"
    "\<forall>name. name \<notin> ep_Name ` set ?orphans \<longrightarrow> live_of st' name = live_of ?st2 name" by blast
  have c: "claimEndpoints env ac desired oc st = (Inr (controlled, oc), st')"
    using a(1) by (simp add: claimEndpoints_def api_list_quiet [OF assms(1)])
  have "live_of st' name = live_of st name" if "\<And>ep. live_of st name = Some ep \<Longrightarrow> \<not> (adoptable desired ep \<and> labelled_for ac ep)" for name
  proof -
    have "name \<notin> ep_Name ` set ?orphans" using o1 that by blast
    with a(4) show ?thesis by simp
  qed
  note frame = this
  have "\<forall>name ep. live_of st name = Some ep \<longrightarrow> \<not> (adoptable desired ep \<and> labelled_for ac ep) \<longrightarrow> live_of st' name = Some ep"
  proof (intro allI impI)
    fix name ep assume "live_of st name = Some ep" "\<not> (adoptable desired ep \<and> labelled_for ac ep)"
    then show "live_of st' name = Some ep" using frame [of name] by simp
  qed
  moreover have "\<forall>name. live_of st name = None \<longrightarrow> live_of st' name = None"
  proof (intro allI impI)
    fix name assume "live_of st name = None"
    then show "live_of st' name = None" using frame [of name] by simp
  qed
  ultimately show ?thesis using a(2,3) c by blast
qed

section \<open>Writing\<close>

text \<open>A name the AutoConfig may write: free, without a controller, or its own.\<close>

definition available_name :: "KrakenDAutoConfig \<Rightarrow> cluster \<Rightarrow> string \<Rightarrow> bool" where
  "available_name ac st name \<longleftrightarrow>
     (\<forall>live. live_of st name = Some live \<longrightarrow> ep_Controller live = None \<or> ep_Controller live = Some (owner_of ac))"

definition converged :: "cluster_env \<Rightarrow> KrakenDAutoConfig \<Rightarrow> cluster \<Rightarrow> KrakenDEndpoint \<Rightarrow> bool" where
  "converged env ac st ep \<longleftrightarrow> (\<exists>w. live_of st (ep_Name ep) = Some w \<and> in_sync (ce_num env) w ep \<and> controls ac w)"

lemma mutate_available:
  assumes "ep_Controller live = None \<or> ep_Controller live = Some (owner_of ac)"
  shows "\<exists>new. mutate num ac ep live = Inr new \<and> ep_ResourceVersion new = ep_ResourceVersion live \<and>
    (spec_encodes (ep_Spec live) \<longrightarrow> spec_encodes (ep_Spec ep) \<longrightarrow> spec_encodes (ep_Spec new)) \<and>
    (\<not> endpointSpecEqual num (ep_Spec live) (ep_Spec ep) \<longrightarrow> ep_Spec new = ep_Spec ep)"
  using assms by (auto simp: mutate_def SetControllerReference_def owner_of_def)

lemma writeEndpoint_quiet:
  assumes "quiet env" "cluster_wf st" "writable ep" "spec_encodes (ep_Spec ep)" "available_name ac st (ep_Name ep)"
  shows "\<exists>op w st'. writeEndpoint env ac ep st = (Inr (op, w), st') \<and> cluster_wf st' \<and>
    live_of st' = (live_of st)(ep_Name ep \<mapsto> w) \<and> in_sync (ce_num env) w ep \<and> controls ac w"
proof -
  let ?st = "st\<lparr>kc_calls := Suc (kc_calls st)\<rparr>"
  have w: "cluster_wf ?st" using assms(2) by (simp add: cluster_wf_def)
  show ?thesis
  proof (cases "live_of st (ep_Name ep)")
    case None
    let ?b = "blank_endpoint ep"
    have b: "ep_Name ?b = ep_Name ep" "mwf (ep_Labels ?b)" "ep_Controller ?b = None" by (simp_all add: blank_endpoint_def)
    from mutate_available [of ?b ac "ce_num env" ep] b(3) obtain new where n: "mutate (ce_num env) ac ep ?b = Inr new"
      "\<not> endpointSpecEqual (ce_num env) (ep_Spec ?b) (ep_Spec ep) \<longrightarrow> ep_Spec new = ep_Spec ep" "spec_encodes (ep_Spec ?b) \<longrightarrow> spec_encodes (ep_Spec new)"
      using assms(4) by auto
    have e: "spec_encodes (ep_Spec new)" using n(2,3) assms(4) by (simp add: spec_encodes_def blank_endpoint_def)
    note m = mutate_in_sync [OF assms(3) b(2) n(1)]
    from m b have f: "live_of ?st (ep_Name new) = None" "mwf (ep_Labels new)" using None by simp_all
    from api_create_quiet [OF assms(1) w f(1) e f(2)] obtain s st' where c: "api_create env new ?st = (Inr s, st')"
      "live_of st' = (live_of ?st)(ep_Name new \<mapsto> s)" "cluster_wf st'" "stored_as new s" by blast
    have "writeEndpoint env ac ep st = (Inr (OperationResultCreated, s), st')"
      using None n(1) c(1) by (simp add: writeEndpoint_def api_get_quiet [OF assms(1)])
    moreover have "in_sync (ce_num env) s ep" "controls ac s" using m e c(4) by (simp_all add: in_sync_def stored_as_def controls_owner)
    ultimately show ?thesis using c(2,3) m b by auto
  next
    case (Some live)
    note l = live_wf [OF assms(2) Some]
    from assms(5) Some have "ep_Controller live = None \<or> ep_Controller live = Some (owner_of ac)" by (simp add: available_name_def)
    from mutate_available [OF this, of "ce_num env" ep] l assms(4) obtain new where n: "mutate (ce_num env) ac ep live = Inr new"
      "ep_ResourceVersion new = ep_ResourceVersion live" "spec_encodes (ep_Spec new)" by auto
    from l have "mwf (ep_Labels live)" by simp
    note m = mutate_in_sync [OF assms(3) this n(1)]
    show ?thesis
    proof (cases "new = live")
      case True
      then have "writeEndpoint env ac ep st = (Inr (OperationResultNone, live), note_event (UnchangedEP live) ?st)"
        using Some n(1) by (simp add: writeEndpoint_def api_get_quiet [OF assms(1)])
      moreover have "cluster_wf (note_event (UnchangedEP live) ?st)" using w by (simp add: cluster_wf_def)
      moreover have "live_of (note_event (UnchangedEP live) ?st) = (live_of st)(ep_Name ep \<mapsto> live)" using Some by auto
      moreover have "in_sync (ce_num env) live ep" "controls ac live" using m n(3) True by (simp_all add: controls_owner)
      ultimately show ?thesis by blast
    next
      case False
      from m l have f: "live_of ?st (ep_Name new) = Some live" "mwf (ep_Labels new)" using Some by simp_all
      from api_update_quiet [OF assms(1) w f(1) n(2,3) f(2), of UpdatedEP] obtain s st' where c: "api_update env UpdatedEP new ?st = (Inr s, st')"
        "live_of st' = (live_of ?st)(ep_Name new \<mapsto> s)" "cluster_wf st'" "stored_as new s" by blast
      have "writeEndpoint env ac ep st = (Inr (OperationResultUpdated, s), st')"
        using Some n(1) c(1) False by (simp add: writeEndpoint_def api_get_quiet [OF assms(1)])
      moreover have "in_sync (ce_num env) s ep" "controls ac s" using m n(3) c(4) by (simp_all add: in_sync_def stored_as_def controls_owner)
      ultimately show ?thesis using c(2,3) m l by auto
    qed
  qed
qed

lemma write_all_quiet:
  assumes "quiet env" "cluster_wf st" "distinct (map ep_Name eps)" "\<not> outcome_failed oc"
    and "\<forall>ep \<in> set eps. writable ep \<and> spec_encodes (ep_Spec ep) \<and> available_name ac st (ep_Name ep)"
  shows "\<exists>after' oc' st'. write_all env ac eps after oc st = ((after', oc'), st') \<and> \<not> outcome_failed oc' \<and> cluster_wf st' \<and>
    (\<forall>ep \<in> set eps. converged env ac st' ep) \<and> (\<forall>name. name \<notin> ep_Name ` set eps \<longrightarrow> live_of st' name = live_of st name)"
  using assms(2-5)
proof (induction eps arbitrary: after oc st)
  case (Cons ep eps)
  from Cons.prems(4) have e: "writable ep" "spec_encodes (ep_Spec ep)" "available_name ac st (ep_Name ep)" by simp_all
  from writeEndpoint_quiet [OF assms(1) Cons.prems(1) e] obtain op w st1 where w: "writeEndpoint env ac ep st = (Inr (op, w), st1)" "cluster_wf st1"
    "live_of st1 = (live_of st)(ep_Name ep \<mapsto> w)" "in_sync (ce_num env) w ep" "controls ac w" by blast
  have "writable x \<and> spec_encodes (ep_Spec x) \<and> available_name ac st1 (ep_Name x)" if x: "x \<in> set eps" for x
  proof -
    have "ep_Name x \<noteq> ep_Name ep" using Cons.prems(2) x by (metis distinct.simps(2) image_eqI list.simps(9) list.set_map)
    with x Cons.prems(4) show ?thesis by (simp add: available_name_def w(3))
  qed
  moreover have "\<not> outcome_failed (count_change op oc)" "distinct (map ep_Name eps)" using Cons.prems(2,3) by simp_all
  ultimately obtain after' oc' st' where r: "write_all env ac eps (mput (ep_Name ep) w after) (count_change op oc) st1 = ((after', oc'), st')"
    "\<not> outcome_failed oc'" "cluster_wf st'" "\<forall>x \<in> set eps. converged env ac st' x"
    "\<forall>name. name \<notin> ep_Name ` set eps \<longrightarrow> live_of st' name = live_of st1 name" using Cons.IH [OF w(2)] by blast
  have "map_of (oc_rejected oc) (ep_Name ep) = None" using Cons.prems(3) by (simp add: outcome_failed_def)
  with r(1) w(1) have run: "write_all env ac (ep # eps) after oc st = ((after', oc'), st')" by simp
  have "ep_Name ep \<notin> ep_Name ` set eps" using Cons.prems(2) by simp
  with r(5) w(3-5) have "converged env ac st' ep" by (simp add: converged_def)
  with r(2-5) w(3) show ?case by (intro exI [of _ after'] exI [of _ oc'] exI [of _ st'] conjI run) simp_all
qed simp

section \<open>Deleting\<close>

lemma delete_all_quiet:
  assumes "quiet env" "cluster_wf st" "distinct (map ep_Name eps)" "\<forall>ep \<in> set eps. live_of st (ep_Name ep) = Some ep"
  shows "\<exists>absent' oc' st'. delete_all env eps absent oc st = ((absent', oc'), st') \<and> outcome_failed oc' = outcome_failed oc \<and> cluster_wf st' \<and>
    (\<forall>name. live_of st' name = (if name \<in> ep_Name ` set eps then None else live_of st name))"
  using assms(2-4)
proof (induction eps arbitrary: absent oc st)
  case (Cons ep eps)
  let ?st = "note_event (DeletedEP ep) (st\<lparr>kc_calls := Suc (kc_calls st), kc_endpoints := mdel (ep_Name ep) (kc_endpoints st)\<rparr>)"
  from Cons.prems(3) have l: "live_of st (ep_Name ep) = Some ep" by simp
  have d: "deleteEndpoint env ep st = (Inr True, ?st)"
    using l by (simp add: deleteEndpoint_def api_delete_def api_call_quiet [OF assms(1)])
  have w: "cluster_wf ?st" using eps_wf_del Cons.prems(1) by (simp add: cluster_wf_def)
  have m: "live_of ?st = (live_of st)(ep_Name ep := None)" by (simp add: map_of_mdel_raw)
  have "live_of ?st (ep_Name x) = Some x" if x: "x \<in> set eps" for x
  proof -
    have "ep_Name x \<noteq> ep_Name ep" using Cons.prems(2) x by (metis distinct.simps(2) image_eqI list.simps(9) list.set_map)
    with x Cons.prems(3) show ?thesis unfolding m by simp
  qed
  moreover have "distinct (map ep_Name eps)" using Cons.prems(2) by simp
  ultimately obtain absent' oc' st' where r: "delete_all env eps (absent @ [ep_Name ep]) (oc\<lparr>oc_deleted := Suc (oc_deleted oc)\<rparr>) ?st = ((absent', oc'), st')"
    "outcome_failed oc' = outcome_failed oc" "cluster_wf st'"
    "\<forall>name. live_of st' name = (if name \<in> ep_Name ` set eps then None else live_of ?st name)" using Cons.IH [OF w] by fastforce
  from r(1) d have run: "delete_all env (ep # eps) absent oc st = ((absent', oc'), st')" by simp
  have "\<forall>name. live_of st' name = (if name \<in> ep_Name ` set (ep # eps) then None else live_of st name)"
    using r(4) unfolding m by simp
  with r(2,3) run show ?case by blast
qed simp

section \<open>The pass\<close>

lemma length_keyed: "distinct (map fst ps) \<Longrightarrow> length (filter (\<lambda>p. fst p = key) ps) \<le> 1"
  by (induction ps) (auto simp: filter_empty_conv intro: rev_image_eqI)

lemma routeCollisions_none:
  assumes "distinct (map fst (List.map_filter route_of desired))"
  shows "routeCollisions desired existing = []"
proof -
  let ?ps = "List.map_filter (\<lambda>ep. map_option (\<lambda>(key, e). (key, ep)) (route_of ep)) desired"
  let ?f = "\<lambda>(key, members). hold_losers (newCreationOrder existing) members"
  have "map fst ?ps = map fst (List.map_filter route_of desired)"
    by (induction desired) (auto simp: List.map_filter_simps split: option.splits)
  with assms have d: "distinct (map fst ?ps)" by simp
  have short: "length members \<le> 1" if "(key, members) \<in> set (madds ?ps [])" for key members
  proof -
    have "map_of (madds ?ps []) key = Some members" using that mwf_distinct [OF mwf_madds, of "[]" ?ps] by simp
    then have m: "members = map snd (filter (\<lambda>p. fst p = key) ?ps)" by (simp add: madds_Some_iff)
    have "length (filter (\<lambda>p. fst p = key) ?ps) \<le> 1" by (rule length_keyed [OF d])
    then show ?thesis by (simp add: m)
  qed
  have one: "hold_losers ord members held = held" if "length members \<le> 1" for ord members held
  proof -
    let ?l = "sort_by (\<lambda>a b. order_less ord (ep_Name a) (ep_Name b)) members"
    have "length ?l \<le> 1" using that by simp
    then have "tl ?l = []" by (cases ?l) simp_all
    then show ?thesis by (cases ?l) (simp_all add: hold_losers_def)
  qed
  have "fold ?f gs held = held" if "\<forall>(key, members) \<in> set gs. length members \<le> 1" for gs held
    using that by (induction gs arbitrary: held) (auto simp: one)
  then show ?thesis using short by (simp add: routeCollisions_def) blast
qed

lemma withUncontrolled_quiet:
  "quiet env \<Longrightarrow> \<exists>existing n. with_uncontrolled env all known eps st = (existing, st\<lparr>kc_calls := n\<rparr>)"
proof (induction eps arbitrary: all st)
  case Nil
  then show ?case by (intro exI [of _ all] exI [of _ "kc_calls st"]) simp
next
  case (Cons ep eps)
  show ?case
  proof (cases "ep_Name ep \<in> set known")
    case True
    then show ?thesis using Cons by simp
  next
    case False
    obtain all' where "with_uncontrolled env all known (ep # eps) st = with_uncontrolled env all' known eps (st\<lparr>kc_calls := Suc (kc_calls st)\<rparr>)"
      using False by (cases "live_of st (ep_Name ep)") (simp_all add: api_get_quiet [OF Cons.prems] split: option.splits)
    with Cons.IH [OF Cons.prems, of all' "st\<lparr>kc_calls := Suc (kc_calls st)\<rparr>"] show ?thesis by auto
  qed
qed

text \<open>The stale endpoints are the ones the AutoConfig controls under a name that is not desired.\<close>

lemma stale_exact:
  assumes "owns_exactly ac controlled st" "planEndpoints num controlled desired = (planned, stale)"
  shows "distinct (map ep_Name stale)"
    and "ep \<in> set stale \<longleftrightarrow> live_of st (ep_Name ep) = Some ep \<and> controls ac ep \<and> ep_Name ep \<notin> ep_Name ` set desired"
proof -
  let ?b = "by_name controlled"
  have k: "map_of ?b name = Some e \<longleftrightarrow> (name, e) \<in> set ?b" for name e using mwf_distinct [OF mwf_by_name, of controlled] by simp
  have st: "stale = map snd (filter (\<lambda>(name, ep). name \<notin> ep_Name ` set desired) ?b)" using assms(2) by (simp add: planEndpoints_def Let_def)
  have names: "ep_Name (snd p) = fst p" if "p \<in> set ?b" for p using by_name_Some [of controlled "fst p" "snd p"] k that by simp
  have "map ep_Name stale = map fst (filter (\<lambda>(name, ep). name \<notin> ep_Name ` set desired) ?b)" using names by (auto simp: st)
  then show "distinct (map ep_Name stale)" using mwf_distinct [OF mwf_by_name, of controlled] by (simp add: distinct_map_filter)
  have dom: "e \<in> set controlled \<Longrightarrow> map_of ?b (ep_Name e) = Some e" for e
  proof -
    have u: "\<forall>x \<in> set es. \<forall>y \<in> set es. ep_Name x = ep_Name y \<longrightarrow> x = y \<Longrightarrow> mwf m \<Longrightarrow> e \<in> set es \<Longrightarrow>
        map_of (fold (\<lambda>ep. mput (ep_Name ep) ep) es m) (ep_Name e) = Some e" for es m
    proof (induction es arbitrary: m rule: rev_induct)
      case (snoc x es)
      have "mwf m' \<Longrightarrow> mwf (fold (\<lambda>ep. mput (ep_Name ep) ep) es' m')" for es' and m' :: "(string, KrakenDEndpoint) gomap"
        by (induction es' arbitrary: m') simp_all
      from this [OF snoc.prems(2)] have w: "mwf (fold (\<lambda>ep. mput (ep_Name ep) ep) es m)" .
      show ?case
      proof (cases "ep_Name e = ep_Name x")
        case True
        with snoc.prems(1,3) have "e = x" by (metis in_set_conv_decomp)
        with w show ?thesis by simp
      next
        case False
        then have "e \<in> set es" using snoc.prems(3) by auto
        moreover have "\<forall>x \<in> set es. \<forall>y \<in> set es. ep_Name x = ep_Name y \<longrightarrow> x = y" using snoc.prems(1) by simp
        ultimately have "map_of (fold (\<lambda>ep. mput (ep_Name ep) ep) es m) (ep_Name e) = Some e" using snoc.IH snoc.prems(2) by blast
        with False w show ?thesis by simp
      qed
    qed simp
    assume "e \<in> set controlled"
    moreover have "\<forall>x \<in> set controlled. \<forall>y \<in> set controlled. ep_Name x = ep_Name y \<longrightarrow> x = y"
      using assms(1) unfolding owns_exactly_def by (metis option.inject)
    ultimately show ?thesis using u [of controlled "[]"] by (simp add: by_name_def)
  qed
  have "ep \<in> set stale \<longleftrightarrow> ep \<in> set controlled \<and> ep_Name ep \<notin> ep_Name ` set desired"
  proof
    assume "ep \<in> set stale"
    with planEndpoints_facts(3) [OF assms(2)] show "ep \<in> set controlled \<and> ep_Name ep \<notin> ep_Name ` set desired" by blast
  next
    assume c: "ep \<in> set controlled \<and> ep_Name ep \<notin> ep_Name ` set desired"
    with dom have "(ep_Name ep, ep) \<in> set ?b" using k by blast
    with c show "ep \<in> set stale" unfolding st by force
  qed
  with assms(1) show "ep \<in> set stale \<longleftrightarrow> live_of st (ep_Name ep) = Some ep \<and> controls ac ep \<and> ep_Name ep \<notin> ep_Name ` set desired"
    unfolding owns_exactly_def by blast
qed

text \<open>The pass, once its claim, its reads and its check held nothing.\<close>

lemma finish_pass_quiet:
  assumes "quiet env" "cluster_wf st" "owns_exactly ac controlled st" "distinct (map ep_Name desired)" "\<not> outcome_failed oc"
    and "\<forall>ep \<in> set desired. writable ep \<and> spec_encodes (ep_Spec ep) \<and> available_name ac st (ep_Name ep)"
    and "planEndpoints (ce_num env) controlled desired = (planned, stale)"
  shows "\<exists>oc' st'. finish_pass env ac controlled planned stale False oc st = (oc', st') \<and> \<not> outcome_failed oc' \<and>
    (\<forall>ep \<in> set desired. converged env ac st' ep) \<and>
    (\<forall>name w. live_of st' name = Some w \<longrightarrow> controls ac w \<longrightarrow> name \<in> ep_Name ` set desired) \<and>
    (\<forall>name w. live_of st name = Some w \<longrightarrow> \<not> controls ac w \<longrightarrow> name \<notin> ep_Name ` set desired \<longrightarrow> live_of st' name = Some w)"
proof -
  note plan = planEndpoints_facts [OF assms(7)] and stale = stale_exact [OF assms(3,7)]
  have "planned = filter (\<lambda>ep. case map_of (by_name controlled) (ep_Name ep) of None \<Rightarrow> True | Some cur \<Rightarrow> \<not> in_sync (ce_num env) cur ep) desired"
    using assms(7) by (simp add: planEndpoints_def Let_def)
  then have d: "distinct (map ep_Name planned)" using assms(4) by (simp add: distinct_map_filter)
  have ok: "\<forall>ep \<in> set planned. writable ep \<and> spec_encodes (ep_Spec ep) \<and> available_name ac st (ep_Name ep)" using plan(1) assms(6) by blast
  from write_all_quiet [OF assms(1,2) d assms(5) ok, of "by_name controlled"] obtain after oc1 st1 where
    w: "write_all env ac planned (by_name controlled) oc st = ((after, oc1), st1)" "\<not> outcome_failed oc1" "cluster_wf st1"
    "\<forall>ep \<in> set planned. converged env ac st1 ep" "\<forall>name. name \<notin> ep_Name ` set planned \<longrightarrow> live_of st1 name = live_of st name" by blast
  have out: "live_of st1 name = live_of st name" if "name \<notin> ep_Name ` set desired" for name using w(5) plan(1) that by blast
  have "\<forall>ep \<in> set stale. live_of st1 (ep_Name ep) = Some ep" using stale(2) out by simp
  from delete_all_quiet [OF assms(1) w(3) stale(1) this, of "[]" oc1] obtain absent oc2 st2 where
    x: "delete_all env stale [] oc1 st1 = ((absent, oc2), st2)" "outcome_failed oc2 = outcome_failed oc1"
    "\<forall>name. live_of st2 name = (if name \<in> ep_Name ` set stale then None else live_of st1 name)" by blast
  have keep: "live_of st2 name = live_of st1 name" if "name \<in> ep_Name ` set desired" for name
  proof -
    have "name \<notin> ep_Name ` set stale" using stale(2) that by blast
    with x(3) show ?thesis by simp
  qed
  have "converged env ac st2 ep" if e: "ep \<in> set desired" for ep
  proof (cases "ep \<in> set planned")
    case True
    then show ?thesis using w(4) keep e by (simp add: converged_def)
  next
    case False
    from plan(2) [OF e False] obtain own where o': "own \<in> set controlled" "ep_Name own = ep_Name ep" "in_sync (ce_num env) own ep" by blast
    have "ep_Name ep \<notin> ep_Name ` set planned"
      using False plan(1) e assms(4) by (metis (no_types, lifting) distinct_map imageE inj_on_def subsetD)
    with w(5) keep e have "live_of st2 (ep_Name ep) = live_of st (ep_Name ep)" by simp
    moreover from assms(3) o'(1,2) have "live_of st (ep_Name ep) = Some own" "controls ac own" by (auto simp: owns_exactly_def)
    ultimately show ?thesis using o'(3) by (simp add: converged_def)
  qed
  moreover have "name \<in> ep_Name ` set desired" if l: "live_of st2 name = Some v" "controls ac v" for name v
  proof (rule ccontr)
    assume n: "name \<notin> ep_Name ` set desired"
    from x(3) l(1) have s: "name \<notin> ep_Name ` set stale" "live_of st1 name = Some v" by (auto split: if_splits)
    with out [OF n] have "live_of st name = Some v" by simp
    moreover from this live_wf [OF assms(2)] have "ep_Name v = name" by blast
    ultimately have "v \<in> set stale" using stale(2) l(2) n by simp
    with s(1) \<open>ep_Name v = name\<close> show False by blast
  qed
  moreover have "live_of st2 name = Some v" if l: "live_of st name = Some v" "\<not> controls ac v" "name \<notin> ep_Name ` set desired" for name v
  proof -
    have "name \<notin> ep_Name ` set stale" using stale(2) l(1,2) by auto
    with x(3) out [OF l(3)] l(1) show ?thesis by simp
  qed
  moreover have "finish_pass env ac controlled planned stale False oc st = (oc2\<lparr>oc_readiness := summarizeReadiness (map snd after) absent\<rparr>, st2)"
    using w(1,2) x(1) by (simp add: finish_pass_def)
  moreover have "\<not> outcome_failed (oc2\<lparr>oc_readiness := summarizeReadiness (map snd after) absent\<rparr>)"
    using x(2) w(2) by (simp add: outcome_failed_def)
  ultimately show ?thesis by blast
qed


lemma ex_quiet_quiet: "quiet ex_quiet"
  by (simp add: quiet_def ex_quiet_def)

lemma ex_desired_ok:
  "distinct (map ep_Name ex_desired)" "distinct (map fst (List.map_filter route_of ex_desired))"
  "\<forall>ep \<in> set ex_desired. writable ep \<and> spec_encodes (ep_Spec ep) \<and> available_name ex_autoconfig ex_cluster (ep_Name ep)"
  "\<forall>writes stale ord h jd. fst (precheck ex_ck (ce_slots ex_quiet) (ce_gateway ex_quiet) ex_autoconfig writes stale ord h jd) = Inr []"
proof -
  show "distinct (map ep_Name ex_desired)" by (simp add: ex_desired_def)
  show "distinct (map fst (List.map_filter route_of ex_desired))" by (simp add: ex_desired_def List.map_filter_def)
  show "\<forall>ep \<in> set ex_desired. writable ep \<and> spec_encodes (ep_Spec ep) \<and> available_name ex_autoconfig ex_cluster (ep_Name ep)"
    using ex_setting(4) by (simp add: ex_desired_def available_name_def ex_cluster_def ex_endpoint_def spec_encodes_def ex_route_def)
  show "\<forall>writes stale ord h jd. fst (precheck ex_ck (ce_slots ex_quiet) (ce_gateway ex_quiet) ex_autoconfig writes stale ord h jd) = Inr []"
    by (simp add: precheck_def ex_quiet_def)
qed


end
