(* ===== verification/Spec2Isabelle.thy ===== *)
theory Spec2Isabelle
  imports PostRestart RefSound AutoOps AutoSyncSafe AutoConverge
begin

text \<open>
  A verification development for the KrakenD operator (module \<^verbatim>\<open>operator/\<close>), a Kubernetes
  controller that turns KrakenDGateway, KrakenDEndpoint, KrakenDBackendPolicy and
  KrakenDAutoConfig resources into the configuration of KrakenD API gateways.

  \<^bold>\<open>How the program works.\<close> A reconcile pass of a gateway gathers its endpoints and the policies
  they reference, settles the license (which may make the gateway fall back to the Community
  Edition), renders \<^verbatim>\<open>krakend.json\<close>, decides with \<^verbatim>\<open>krakend check\<close> which render may be applied and
  which endpoints are left out of it, publishes the render in a content-addressed ConfigMap,
  records its checksum in the status, rolls the Deployment, and derives conditions, phase and
  events. Every verdict is remembered, because a check runs a process.

  \<^bold>\<open>Theories and sources\<close> (paths under \<^verbatim>\<open>src/operator/\<close>).
  \<^item> \<open>Prelude\<close>, \<open>Dict\<close>: the part of Go the operator uses: strings, sorting with a comparison
    (locale \<open>keyed_less\<close>, interpreted for every comparison of the code), maps with sorted keys (a
    locale of a map with put, delete and lookup), JSON values and their printing.
  \<^item> \<open>Effects\<close>: fallible stateful code as actions, with the judgements \<open>implements\<close> and \<open>triple\<close>.
  \<^item> \<open>Api\<close>: the resources of \<^verbatim>\<open>api/v1alpha1\<close> with the fields the modelled code reads or writes.
  \<^item> \<open>Routes\<close>, \<open>Flatten\<close>, \<open>RouteCheck\<close>, \<open>RouteAdmit\<close>: \<^verbatim>\<open>internal/renderer/{routes,endpoints,routecheck,routeadmit}.go\<close>.
    Conflict keys are normal forms; of the entries of a route exactly the oldest is served and
    the others are recorded; the result depends on no list or map order; what is admitted the
    router accepts together, and every loss is justified. The gin router is a parameter.
  \<^item> \<open>EEStrip\<close>, \<open>Builders\<close>, \<open>Hash\<close>, \<open>Render\<close>: \<^verbatim>\<open>eestrip.go\<close>, \<^verbatim>\<open>config.go\<close>, \<^verbatim>\<open>extra_config.go\<close>, \<^verbatim>\<open>plugins.go\<close>,
    \<^verbatim>\<open>internal/util/hash\<close>. A CE-fallback document holds no Enterprise feature; rendered endpoints
    are exactly the kept entries; durations read back; SHA-256 is defined as FIPS 180-4 does.
  \<^item> \<open>Validator\<close>: \<^verbatim>\<open>validator.go\<close>, \<^verbatim>\<open>eewildcard.go\<close>. A verdict comes only from a check that ran to
    completion. The binary, its output and the file system are parameters.
  \<^item> \<open>ConfigVerdict\<close>, \<open>ConfigCheck\<close>, \<open>VerdictMemo\<close>: \<^verbatim>\<open>internal/configcheck\<close> and
    \<^verbatim>\<open>controller/verdict_memo.go\<close>. With any sound memo (locale \<open>sound_memo\<close>, interpreted for both
    memos of the controller) a check returns the verdict of a specification without memo, slots
    and runs; an endpoint's verdict shows nothing of another namespace's policy.
  \<^item> \<open>Conditions\<close>, \<open>License\<close>, \<open>Rollout\<close>: \<^verbatim>\<open>controller/{helpers,gateway_events,gateway_license,gateway_rollout}.go\<close>,
    \<^verbatim>\<open>internal/util/license/window.go\<close>. When the gateway falls back, that no stage of the license
    window is missed, and when a gateway is Ready.
  \<^item> \<open>Acceptance\<close>: the Accepted condition of every endpoint and its optimistic writes.
  \<^item> \<open>GatewayDecide\<close>: \<^verbatim>\<open>controller/gateway_validation.go\<close>. What is decided is sound, refines a
    memo-free specification, always comes about with a reliable validator, and keeps the memo sound.
  \<^item> \<open>ConfigMaps\<close>, \<open>ConfigGC\<close>, \<open>ConfigApply\<close>: \<^verbatim>\<open>controller/gateway_config.go\<close>,
    \<^verbatim>\<open>controller/verified_configmaps.go\<close> and the config stage of
    \<^verbatim>\<open>controller/krakendgateway_controller.go\<close>. The API server is a state that others may change
    before every call; calls may fail. A config the status names passed validation and is held
    by the ConfigMap at its address; nothing that can be mounted is collected.
  \<^item> \<open>PostRestart\<close>: \<^verbatim>\<open>resources/job.go\<close> and the post-restart step of
    \<^verbatim>\<open>controller/krakendgateway_controller.go\<close>. When the script runs, that recording a run is safe
    at every crash point, and the race in which a retry is lost. The strategic merge patch of
    Kubernetes is a parameter.
  \<^item> \<open>SpecWalk\<close>, \<open>SpecPrepare\<close>: \<^verbatim>\<open>internal/autoconfig/{jsonwalk,schemas,preprocessor,parameters}.go\<close>. The
    component schemas attached to an endpoint are exactly those it needs; parameters are
    dereferenced exactly, within the size limit.
  \<^item> \<open>RefResolve\<close>, \<open>RefContract\<close>, \<open>RefSound\<close>: \<^verbatim>\<open>internal/autoconfig/refresolver.go\<close>. Resolution of external
    references ends, and leaves no reference that dangles. The locale \<open>resolver_contract\<close> is what
    the resolver of a nested document promises to the one above it. The fetcher is a parameter.
  \<^item> \<open>AutoApi\<close>, \<open>AutoEval\<close>, \<open>AutoOps\<close>: \<^verbatim>\<open>internal/autoconfig/cue_evaluator.go\<close>. An evaluation accounts for every
    operation of a document exactly once; overrides are applied whole or reported; when the URL
    transform keeps operationIds with their entries. CUE and YAML are the parameter \<open>cue_lib\<close>.
  \<^item> \<open>AutoGen\<close>: \<^verbatim>\<open>internal/autoconfig/{filter,additional,generator}.go\<close>. The generator keeps the first
    entry of each route, operationId and name; what it generates is well-formed.
  \<^item> \<open>AutoPlan\<close>, \<open>AutoEndpoints\<close>, \<open>AutoSafe\<close>, \<open>AutoConverge\<close>: \<^verbatim>\<open>controller/autoconfig_endpoints.go\<close>. The endpoint pass of an
    AutoConfig against an API server that others change between calls, a stale cache and failing
    calls: it makes before it breaks, and deletes only what is its own; on a quiet server it converges.
  \<^item> \<open>AutoStatus\<close>, \<open>AutoSync\<close>, \<open>AutoSyncSafe\<close>: \<^verbatim>\<open>controller/krakendautoconfig_controller.go\<close> and
    \<^verbatim>\<open>controller/autoconfig_status.go\<close>. The whole reconcile of an AutoConfig, composed of the theories above:
    it fails closed, and its status reports Synced only when every generated endpoint is in place.

  \<^bold>\<open>Bounds.\<close> Admission resolves at most \<open>MaxRouteRefusals\<close> (21) clashes; a stored verdict keeps
  16384 bytes of output and a condition message 4096; the memo of verified ConfigMaps keeps 8 per
  gateway; three revisions are kept. Names of ConfigMaps carry ten digits of the checksum, so the
  properties about them assume that the checksums at hand have different names
  (\<open>no_collision\<close>). The warning period of a license is an \<^verbatim>\<open>int64\<close> of nanoseconds: from 106752
  days on it wraps (\<open>expiryWarning_wraps\<close>). The resolver of
  references recurses through the documents it fetches: its model takes fuel, and twice the number
  of the documents' references plus one is enough for every input (\<open>ResolveExternalRefs_ends\<close>);
  the reconcile of an AutoConfig passes this fuel on.
  Every other function is total.

  \<^bold>\<open>Not modelled.\<close> Tracing, metrics and logs, which decide nothing; the wiring of the process; the
  generated deep copies; CUE, YAML and X.509, which are libraries; the HTTP fetcher, which is I/O; the
  construction of Kubernetes objects other than ConfigMaps and the post-restart Job, and the optional
  resources of a gateway; the admission webhooks; the controllers of endpoints and policies; the
  loop that calls the modelled stages of a gateway; the watches.
\<close>

end
